(* ===== verification/Go_Base.thy ===== *)
theory Go_Base
  imports Main "HOL-Library.Word"
begin

text \<open>
  The prelude of the development: the parts of Go's standard library the modelled packages call
  (\<open>strconv\<close>, \<open>strings\<close>, \<open>net.JoinHostPort\<close>, \<open>encoding/hex\<close>), the early-return loop over a
  slice, and the interface every pair of a printer and a parser of the repository is held to.

  Conventions. A Go \<open>string\<close> is its byte sequence, hence \<open>string\<close> (a list of 8-bit characters).
  A pair \<open>(T, error)\<close> is a value of \<open>'e + 'a\<close>: \<open>Inl\<close> the cause of the error, \<open>Inr\<close> the value.
  An error value names its cause, not the wording of the message. A \<open>bool\<close> second result
  (\<open>v, ok\<close>) is an \<open>option\<close>. A Go \<open>int\<close> is an \<open>int\<close> where the code keeps the values small, with
  the range check of \<open>strconv.Atoi\<close> written out; \<open>uint32\<close>, \<open>uint64\<close> and \<open>byte\<close> are words.
\<close>

named_theorems go_simps "definitions of library functions, unfolded together"

section \<open>strconv\<close>

definition digit :: "nat \<Rightarrow> char" where
  "digit n = char_of (48 + n)"

definition is_digit :: "char \<Rightarrow> bool" where
  "is_digit c \<longleftrightarrow> 48 \<le> (of_char c :: nat) \<and> (of_char c :: nat) \<le> 57"

definition digit_val :: "char \<Rightarrow> nat" where
  "digit_val c = of_char c - 48"

fun nat_digits :: "nat \<Rightarrow> string" where
  "nat_digits n =
     (if n < 10 then [digit n] else nat_digits (n div 10) @ [digit (n mod 10)])"

declare nat_digits.simps [simp del]

text \<open>\<open>strconv.Itoa\<close>.\<close>

definition itoa :: "int \<Rightarrow> string" where
  "itoa i = (if i < 0 then ''-'' @ nat_digits (nat (- i)) else nat_digits (nat i))"

definition parse_nat :: "string \<Rightarrow> nat" where
  "parse_nat s = foldl (\<lambda>a c. 10 * a + digit_val c) 0 s"

text \<open>
  \<open>strconv.Atoi\<close>: an optional sign, at least one decimal digit and nothing else, and a value
  that fits the 64-bit \<open>int\<close>.
\<close>

definition atoi :: "string \<Rightarrow> int option" where
  "atoi s =
     (let neg = (s \<noteq> [] \<and> hd s = CHR ''-'');
          ds = (if s \<noteq> [] \<and> (hd s = CHR ''-'' \<or> hd s = CHR ''+'') then tl s else s);
          v = (if neg then - int (parse_nat ds) else int (parse_nat ds))
      in if ds = [] \<or> \<not> list_all is_digit ds then None
         else if - (2 ^ 63) \<le> v \<and> v < 2 ^ 63 then Some v else None)"

lemma is_digit_digit [simp]: "n < 10 \<Longrightarrow> is_digit (digit n)"
  by (simp add: is_digit_def digit_def)

lemma digit_val_digit [simp]: "n < 10 \<Longrightarrow> digit_val (digit n) = n"
  by (simp add: digit_val_def digit_def)

lemma nat_digits_not_Nil [simp]: "nat_digits n \<noteq> []"
  by (subst nat_digits.simps) simp

lemma nat_digits_all_digits: "list_all is_digit (nat_digits n)"
proof (induction n rule: nat_digits.induct)
  case (1 n)
  then show ?case by (subst nat_digits.simps) simp
qed

lemma parse_nat_snoc: "parse_nat (xs @ [c]) = 10 * parse_nat xs + digit_val c"
  by (simp add: parse_nat_def)

lemma parse_nat_digits [simp]: "parse_nat (nat_digits n) = n"
proof (induction n rule: nat_digits.induct)
  case (1 n)
  show ?case
  proof (cases "n < 10")
    case True
    then show ?thesis by (subst nat_digits.simps) (simp add: parse_nat_def)
  next
    case False
    with "1.IH" show ?thesis
      by (subst nat_digits.simps) (simp add: parse_nat_snoc)
  qed
qed

lemma digit_not_sep: "is_digit c \<Longrightarrow> c \<notin> {CHR ''-'', CHR ''+'', CHR '','', CHR '';'', CHR '':''}"
  by (auto simp: is_digit_def)

lemma nat_digits_no_sep:
  "\<not> is_digit c \<Longrightarrow> c \<notin> set (nat_digits n)"
  using nat_digits_all_digits [of n] by (auto simp: list_all_iff)

lemma hd_nat_digits: "is_digit (hd (nat_digits n))"
  using nat_digits_all_digits [of n] by (cases "nat_digits n") auto

lemma nat_digits_inj: "nat_digits m = nat_digits n \<Longrightarrow> m = n"
  by (metis parse_nat_digits)

lemma atoi_nat_digits:
  assumes "int n < 2 ^ 63"
  shows "atoi (nat_digits n) = Some (int n)"
  using assms hd_nat_digits [of n] nat_digits_all_digits [of n] digit_not_sep [of "hd (nat_digits n)"]
  by (auto simp: atoi_def Let_def)

lemma atoi_itoa_pos:
  assumes "0 \<le> i" "i < 2 ^ 63"
  shows "atoi (itoa i) = Some i"
  using assms by (simp add: itoa_def atoi_nat_digits)

lemma atoi_bounds: "atoi s = Some v \<Longrightarrow> - (2 ^ 63) \<le> v \<and> v < 2 ^ 63"
  by (auto simp: atoi_def Let_def split: if_splits)

lemma itoa_inj_pos: "\<lbrakk>itoa i = itoa j; 0 \<le> i; 0 \<le> j\<rbrakk> \<Longrightarrow> i = j"
  by (auto simp: itoa_def dest: nat_digits_inj)

section \<open>strings\<close>

text \<open>\<open>strings.CutPrefix\<close>: the rest after the prefix, and whether it was there.\<close>

definition cut_prefix :: "string \<Rightarrow> string \<Rightarrow> string option" where
  "cut_prefix p s = (if take (length p) s = p then Some (drop (length p) s) else None)"

text \<open>\<open>strings.TrimPrefix\<close>.\<close>

definition trim_prefix :: "string \<Rightarrow> string \<Rightarrow> string" where
  "trim_prefix p s = (case cut_prefix p s of Some r \<Rightarrow> r | None \<Rightarrow> s)"

text \<open>\<open>strings.Split\<close> on a one-byte separator: always at least one part.\<close>

fun split_on :: "char \<Rightarrow> string \<Rightarrow> string list" where
  "split_on c [] = [[]]"
| "split_on c (x # xs) =
     (if x = c then [] # split_on c xs
      else (case split_on c xs of [] \<Rightarrow> [[x]] | y # ys \<Rightarrow> (x # y) # ys))"

text \<open>\<open>strings.Join\<close>.\<close>

fun join :: "string \<Rightarrow> string list \<Rightarrow> string" where
  "join sep [] = []"
| "join sep [x] = x"
| "join sep (x # y # zs) = x @ sep @ join sep (y # zs)"

lemma cut_prefix_append [simp]: "cut_prefix p (p @ s) = Some s"
  by (simp add: cut_prefix_def)

lemma cut_prefix_Some_iff: "cut_prefix p s = Some r \<longleftrightarrow> s = p @ r"
  by (auto simp: cut_prefix_def) (metis append_take_drop_id)

lemma trim_prefix_append [simp]: "trim_prefix p (p @ s) = s"
  by (simp add: trim_prefix_def)

lemma split_on_not_Nil [simp]: "split_on c s \<noteq> []"
  by (induction c s rule: split_on.induct) (auto split: list.splits)

lemma split_on_no_sep: "c \<notin> set s \<Longrightarrow> split_on c s = [s]"
  by (induction c s rule: split_on.induct) auto

lemma split_on_append_sep:
  "c \<notin> set s \<Longrightarrow> split_on c (s @ c # t) = s # split_on c t"
  by (induction s) auto

lemma split_on_join:
  assumes "xs \<noteq> []" and "\<forall>x \<in> set xs. c \<notin> set x"
  shows "split_on c (join [c] xs) = xs"
  using assms
proof (induction "[c]" xs rule: join.induct)
  case (3 x y zs)
  then show ?case by (simp add: split_on_append_sep)
qed (simp_all add: split_on_no_sep)

lemma split_on_parts_no_sep: "x \<in> set (split_on c s) \<Longrightarrow> c \<notin> set x"
  by (induction c s arbitrary: x rule: split_on.induct)
     (auto split: list.splits if_splits)

lemma join_Cons_not_Nil: "ys \<noteq> [] \<Longrightarrow> join sep (x # ys) = x @ sep @ join sep ys"
  by (cases ys) simp_all

lemma join_split_on: "join [c] (split_on c s) = s"
proof (induction c s rule: split_on.induct)
  case (2 c x xs)
  obtain y ys where "split_on c xs = y # ys"
    by (cases "split_on c xs") auto
  with 2 show ?case by (cases ys) auto
qed auto

lemma set_join_subset: "set (join sep xs) \<subseteq> set sep \<union> \<Union> (set ` set xs)"
  by (induction sep xs rule: join.induct) auto

section \<open>net\<close>

text \<open>\<open>net.JoinHostPort\<close> with a decimal port: an address with a colon is put in brackets.\<close>

definition join_host_port :: "string \<Rightarrow> int \<Rightarrow> string" where
  "join_host_port host port =
     (if CHR '':'' \<in> set host then ''['' @ host @ '']:'' @ itoa port
      else host @ '':'' @ itoa port)"

lemma itoa_pos_no_colon: "0 \<le> p \<Longrightarrow> CHR '':'' \<notin> set (itoa p)"
  by (simp add: itoa_def nat_digits_no_sep is_digit_def)

lemma append_sep_cancel:
  assumes "a @ c # b = a' @ c # b'" and "c \<notin> set b" and "c \<notin> set b'"
  shows "a = a' \<and> b = b'"
proof -
  have "rev b @ c # rev a = rev b' @ c # rev a'"
    using arg_cong [OF assms(1), of rev] by simp
  then have "takeWhile (\<lambda>x. x \<noteq> c) (rev b @ c # rev a) = takeWhile (\<lambda>x. x \<noteq> c) (rev b' @ c # rev a')"
    by (rule arg_cong)
  moreover have "takeWhile (\<lambda>x. x \<noteq> c) (rev d @ c # e) = rev d" if "c \<notin> set d" for d e
    using that by (subst takeWhile_append2) auto
  ultimately have "rev b = rev b'"
    using assms(2,3) by simp
  with assms(1) show ?thesis by simp
qed

lemma join_host_port_inj:
  assumes "join_host_port h p = join_host_port h' p'" and "0 \<le> p" and "0 \<le> p'"
  shows "h = h' \<and> p = p'"
proof -
  define pre where "pre \<equiv> \<lambda>x :: string. if CHR '':'' \<in> set x then ''['' @ x @ '']'' else x"
  have shape: "join_host_port x q = pre x @ CHR '':'' # itoa q" for x q
    by (simp add: join_host_port_def pre_def)
  have "pre h = pre h' \<and> itoa p = itoa p'"
    using assms append_sep_cancel [of "pre h" "CHR '':''" "itoa p" "pre h'" "itoa p'"]
    by (simp add: shape itoa_pos_no_colon)
  moreover have "pre x = pre y \<Longrightarrow> x = y" for x y
    by (auto simp: pre_def split: if_splits)
  ultimately show ?thesis using assms itoa_inj_pos by blast
qed

section \<open>Loops with an early return\<close>

text \<open>
  A loop that appends \<open>f x\<close> for each element of a slice and returns at the first error.
\<close>

fun traverse :: "('a \<Rightarrow> 'e + 'b) \<Rightarrow> 'a list \<Rightarrow> 'e + 'b list" where
  "traverse f [] = Inr []"
| "traverse f (x # xs) =
     (case f x of Inl e \<Rightarrow> Inl e
      | Inr y \<Rightarrow> (case traverse f xs of Inl e \<Rightarrow> Inl e | Inr ys \<Rightarrow> Inr (y # ys)))"

lemma traverse_Inr_iff:
  "traverse f xs = Inr ys \<longleftrightarrow> list_all2 (\<lambda>x y. f x = Inr y) xs ys"
proof (induction xs arbitrary: ys)
  case (Cons x xs)
  then show ?case
    by (cases ys; cases "f x"; cases "traverse f xs") auto
qed auto

lemma traverse_map_Inr:
  "(\<And>x. x \<in> set xs \<Longrightarrow> f x = Inr (g x)) \<Longrightarrow> traverse f xs = Inr (map g xs)"
  by (induction xs) auto

lemma length_traverse: "traverse f xs = Inr ys \<Longrightarrow> length ys = length xs"
  by (auto simp: traverse_Inr_iff dest: list_all2_lengthD)

lemma traverse_Inl_D: "traverse f xs = Inl e \<Longrightarrow> \<exists>x \<in> set xs. f x = Inl e"
  by (induction xs) (auto split: sum.splits)

section \<open>Printers and parsers\<close>

text \<open>
  The contract of a printed form that is read back: what the parser returns on the printed form
  of an admissible value is that value. It is what makes the printed form an identity.
\<close>

locale printer_parser =
  fixes printed :: "'a \<Rightarrow> 'b"
    and parsed :: "'b \<Rightarrow> 'e + 'a"
    and admissible :: "'a \<Rightarrow> bool"
  assumes parsed_printed: "admissible x \<Longrightarrow> parsed (printed x) = Inr x"
begin

lemma printed_inj:
  assumes "admissible x" "admissible y" "printed x = printed y"
  shows "x = y"
proof -
  from assms have "Inr x = (Inr y :: 'e + 'a)"
    by (metis parsed_printed)
  then show ?thesis by simp
qed

lemma printed_inj_on: "inj_on printed (Collect admissible)"
  by (rule inj_onI) (auto intro: printed_inj)

lemma traverse_parsed:
  "list_all admissible xs \<Longrightarrow> traverse parsed (map printed xs) = Inr xs"
  by (induction xs) (auto simp: parsed_printed)

end

end
