(* ===== verification/Wbft_Rlp.thy ===== *)
theory Wbft_Rlp
  imports Go_Base
begin

unbundle bit_operations_syntax

text \<open>
  The RLP codec of the wbft family: the encoder of \<open>consensus/wbft/extradata.go\<close>, the decoder of
  \<open>consensus/wbft/extradata_decode.go\<close> and the canonical re-encoder \<open>encodeSealNode\<close> of
  \<open>consensus/wbft/committed_seal.go\<close>. The lemmas show that the decoder inverts both encoders and
  stops exactly where the encoded item ends, and that the decoder always consumes input.
\<close>

type_synonym u8 = "8 word"
type_synonym u64 = "64 word"

section \<open>Data\<close>

text \<open>What \<open>rlpEncode\<close> takes as \<open>any\<close>: the three dynamic types its type switch has a case for.\<close>

datatype rlpValue = RBytes "u8 list" | RUint u64 | RList "rlpValue list"

datatype rlpNode = RlpNode (isList: bool) (node_bytes: "u8 list") (node_list: "rlpNode list")

abbreviation strNode :: "u8 list \<Rightarrow> rlpNode" where
  "strNode bs \<equiv> RlpNode False bs []"

abbreviation listNode :: "rlpNode list \<Rightarrow> rlpNode" where
  "listNode ns \<equiv> RlpNode True [] ns"

datatype rlpError =
    UnexpectedEnd
  | ShortStringOverrun
  | LengthHeaderOverrun
  | PayloadOverrun
  | ListPayloadOverrun

section \<open>The encoder\<close>

text \<open>
  The loop of \<open>rlpUint\<close>: the first argument counts the array positions still free (\<open>i + 1\<close>), the
  last one is the part of the array written so far.
\<close>

fun rlpUintLoop :: "nat \<Rightarrow> u64 \<Rightarrow> u8 list \<Rightarrow> u8 list" where
  "rlpUintLoop 0 u acc = acc"
| "rlpUintLoop (Suc i) u acc =
     (let acc' = ucast u # acc; u' = drop_bit 8 u
      in if u' = 0 then acc' else rlpUintLoop i u' acc')"

definition rlpUint :: "u64 \<Rightarrow> u8 list" where
  "rlpUint u = (if u = 0 then [] else rlpUintLoop 8 u [])"

definition rlpLen :: "nat \<Rightarrow> u8 \<Rightarrow> u8 list" where
  "rlpLen n base =
     (if n < 56 then [base + of_nat n]
      else (let size = rlpUint (of_nat n) in (base + 55 + of_nat (length size)) # size))"

definition rlpString :: "u8 list \<Rightarrow> u8 list" where
  "rlpString b = (if length b = 1 \<and> hd b < 0x80 then b else rlpLen (length b) 0x80 @ b)"

fun rlpEncode :: "rlpValue \<Rightarrow> u8 list" where
  "rlpEncode (RBytes x) = rlpString x"
| "rlpEncode (RUint x) = rlpString (rlpUint x)"
| "rlpEncode (RList xs) =
     (let payload = concat (map rlpEncode xs) in rlpLen (length payload) 0xc0 @ payload)"

fun encodeSealNode :: "rlpNode \<Rightarrow> u8 list" where
  "encodeSealNode (RlpNode il bs ns) =
     (if \<not> il then rlpString bs
      else (let payload = concat (map encodeSealNode ns)
            in rlpLen (length payload) 0xc0 @ payload))"

section \<open>The decoder\<close>

text \<open>
  \<open>rlpDecode\<close>, \<open>rlpDecodeLong\<close> and \<open>rlpDecodeList\<close> call each other through the item loop of
  \<open>rlpDecodeList\<close>. The three bodies are written over that loop, \<open>items\<close>, and the loop is then
  tied back: \<open>rlpItems\<close> is the loop, and \<open>rlpDecode_eq\<close> and \<open>rlpItems_eq\<close> below are the source's
  own recursive equations.
\<close>

definition rlpDecodeList ::
  "(u8 list \<Rightarrow> rlpError + rlpNode list) \<Rightarrow> u8 list \<Rightarrow> int \<Rightarrow> int \<Rightarrow> rlpError + rlpNode \<times> u8 list"
where
  "rlpDecodeList items b off n =
     (if off < 0 \<or> n < 0 \<or> off > int (length b) \<or> n > int (length b) - off
      then Inl ListPayloadOverrun
      else (case items (take (nat n) (drop (nat off) b)) of
              Inl e \<Rightarrow> Inl e
            | Inr its \<Rightarrow> Inr (RlpNode True [] its, drop (nat (off + n)) b)))"

definition be_accum :: "u8 list \<Rightarrow> u64" where
  "be_accum bs = foldl (\<lambda>n c. (push_bit 8 n) OR (ucast c)) 0 bs"

definition rlpDecodeLong ::
  "(u8 list \<Rightarrow> rlpError + rlpNode list) \<Rightarrow> u8 list \<Rightarrow> u8 \<Rightarrow> u8 \<Rightarrow> bool \<Rightarrow> rlpError + rlpNode \<times> u8 list"
where
  "rlpDecodeLong items b p base list =
     (let ll = unat (p - base) in
      if length b < 1 + ll then Inl LengthHeaderOverrun
      else (let n = be_accum (take ll (drop 1 b)); start = 1 + ll in
            if n > of_nat (length b - start) then Inl PayloadOverrun
            else (let size = unat n in
                  if list then rlpDecodeList items b (int start) (int size)
                  else Inr (RlpNode False (take size (drop start b)) [], drop (start + size) b))))"

definition rlpDecodeBody ::
  "(u8 list \<Rightarrow> rlpError + rlpNode list) \<Rightarrow> u8 list \<Rightarrow> rlpError + rlpNode \<times> u8 list"
where
  "rlpDecodeBody items b =
     (case b of
        [] \<Rightarrow> Inl UnexpectedEnd
      | p # _ \<Rightarrow>
          if p < 0x80 then Inr (RlpNode False [p] [], drop 1 b)
          else if p < 0xb8 then
            (let n = unat (p - 0x80) in
             if length b < 1 + n then Inl ShortStringOverrun
             else Inr (RlpNode False (take n (drop 1 b)) [], drop (1 + n) b))
          else if p < 0xc0 then rlpDecodeLong items b p 0xb7 False
          else if p < 0xf8 then rlpDecodeList items b 1 (int (unat (p - 0xc0)))
          else rlpDecodeLong items b p 0xf7 True)"

fun rlpItemsFuel :: "nat \<Rightarrow> u8 list \<Rightarrow> rlpError + rlpNode list" where
  "rlpItemsFuel 0 payload = Inr []"
| "rlpItemsFuel (Suc f) payload =
     (if payload = [] then Inr []
      else (case rlpDecodeBody (rlpItemsFuel f) payload of
              Inl e \<Rightarrow> Inl e
            | Inr (item, rest) \<Rightarrow>
                (case rlpItemsFuel f rest of Inl e \<Rightarrow> Inl e | Inr its \<Rightarrow> Inr (item # its))))"

definition rlpItems :: "u8 list \<Rightarrow> rlpError + rlpNode list" where
  "rlpItems payload = rlpItemsFuel (length payload) payload"

definition rlpDecode :: "u8 list \<Rightarrow> rlpError + rlpNode \<times> u8 list" where
  "rlpDecode b = rlpDecodeBody rlpItems b"

section \<open>The item loop is total\<close>

lemma rlpDecodeList_cong:
  assumes "\<And>q. length q < length b \<Longrightarrow> g q = h q" and "0 < off"
  shows "rlpDecodeList g b off n = rlpDecodeList h b off n"
proof (cases "off \<le> int (length b) \<and> 0 \<le> n \<and> n \<le> int (length b) - off")
  case True
  with assms(2) have "length (take (nat n) (drop (nat off) b)) < length b" by auto
  then show ?thesis by (simp add: rlpDecodeList_def assms(1))
qed (auto simp: rlpDecodeList_def)

lemma rlpDecodeLong_cong:
  assumes "\<And>q. length q < length b \<Longrightarrow> g q = h q"
  shows "rlpDecodeLong g b p base l = rlpDecodeLong h b p base l"
proof -
  have "rlpDecodeList g b (int (1 + k)) n = rlpDecodeList h b (int (1 + k)) n" for k n
    using assms by (intro rlpDecodeList_cong) auto
  then show ?thesis by (simp only: rlpDecodeLong_def Let_def)
qed

lemma rlpDecodeBody_cong:
  assumes "\<And>q. length q < length b \<Longrightarrow> g q = h q"
  shows "rlpDecodeBody g b = rlpDecodeBody h b"
proof -
  have "rlpDecodeList g b 1 n = rlpDecodeList h b 1 n" for n
    using assms by (intro rlpDecodeList_cong) auto
  moreover have "rlpDecodeLong g b p base l = rlpDecodeLong h b p base l" for p base l
    using assms by (intro rlpDecodeLong_cong) auto
  ultimately show ?thesis by (simp only: rlpDecodeBody_def)
qed

lemma drop_consumes: "0 < k \<Longrightarrow> b \<noteq> [] \<Longrightarrow> \<exists>pre. pre \<noteq> [] \<and> b = pre @ drop k b"
  by (rule exI [of _ "take k b"]) simp

lemma rlpDecodeList_consumes:
  "\<lbrakk>rlpDecodeList g b off n = Inr (node, rest); 0 < off; b \<noteq> []\<rbrakk>
    \<Longrightarrow> \<exists>pre. pre \<noteq> [] \<and> b = pre @ rest"
  by (auto simp: rlpDecodeList_def split: if_splits sum.splits intro!: drop_consumes)

lemma rlpDecodeLong_consumes:
  assumes "rlpDecodeLong g b p base l = Inr (node, rest)" and "b \<noteq> []"
  shows "\<exists>pre. pre \<noteq> [] \<and> b = pre @ rest"
proof -
  define ll where "ll = unat (p - base)"
  define sz where "sz = unat (be_accum (take ll (drop 1 b)))"
  from assms(1) consider
      (items) "rlpDecodeList g b (int (1 + ll)) (int sz) = Inr (node, rest)"
    | (str) "rest = drop (1 + ll + sz) b"
    by (auto simp only: rlpDecodeLong_def Let_def ll_def [symmetric] sz_def [symmetric]
        split: if_splits)
  then show ?thesis
  proof cases
    case items
    then show ?thesis using assms(2) by (intro rlpDecodeList_consumes) auto
  next
    case str
    have "\<exists>pre. pre \<noteq> [] \<and> b = pre @ drop (1 + ll + sz) b"
      using assms(2) by (intro drop_consumes) auto
    with str show ?thesis by simp
  qed
qed

text \<open>A decoded item takes at least one byte off the front, and nothing else is touched.\<close>

lemma rlpDecodeBody_consumes:
  assumes "rlpDecodeBody g b = Inr (node, rest)"
  shows "\<exists>pre. pre \<noteq> [] \<and> b = pre @ rest"
proof (cases b)
  case Nil
  with assms show ?thesis by (simp add: rlpDecodeBody_def)
next
  case (Cons p bs)
  then have ne: "b \<noteq> []" by simp
  have body: "(if p < 0x80 then Inr (RlpNode False [p] [], drop 1 b)
          else if p < 0xb8 then
            (let n = unat (p - 0x80) in
             if length b < 1 + n then Inl ShortStringOverrun
             else Inr (RlpNode False (take n (drop 1 b)) [], drop (1 + n) b))
          else if p < 0xc0 then rlpDecodeLong g b p 0xb7 False
          else if p < 0xf8 then rlpDecodeList g b 1 (int (unat (p - 0xc0)))
          else rlpDecodeLong g b p 0xf7 True) = Inr (node, rest)"
    using assms Cons by (simp only: rlpDecodeBody_def list.case)
  then consider
      (str) k where "rest = drop (1 + k) b"
    | (long) base l where "rlpDecodeLong g b p base l = Inr (node, rest)"
    | (items) n where "rlpDecodeList g b 1 n = Inr (node, rest)"
    by (cases "p < 0x80") (force simp: Let_def split: if_splits)+
  then show ?thesis
  proof cases
    case str
    have "\<exists>pre. pre \<noteq> [] \<and> b = pre @ drop (1 + k) b"
      using ne by (intro drop_consumes) auto
    with str show ?thesis by simp
  next
    case long
    then show ?thesis using ne by (intro rlpDecodeLong_consumes)
  next
    case items
    then show ?thesis using ne by (intro rlpDecodeList_consumes) auto
  qed
qed

lemma rlpDecodeBody_shorter:
  "rlpDecodeBody g b = Inr (node, rest) \<Longrightarrow> length rest < length b"
  by (drule rlpDecodeBody_consumes) auto

lemma rlpItemsFuel_enough:
  "\<lbrakk>length p \<le> f; length p \<le> f'\<rbrakk> \<Longrightarrow> rlpItemsFuel f p = rlpItemsFuel f' p"
proof (induction "length p" arbitrary: p f f' rule: less_induct)
  case less
  show ?case
  proof (cases p)
    case (Cons a as)
    then obtain g g' where f: "f = Suc g" "f' = Suc g'"
      using less.prems by (cases f; cases f') auto
    have eq: "rlpItemsFuel g q = rlpItemsFuel g' q" if "length q < length p" for q
      using that less.prems f by (intro less.hyps) auto
    have body: "rlpDecodeBody (rlpItemsFuel g) p = rlpDecodeBody (rlpItemsFuel g') p"
      by (rule rlpDecodeBody_cong) (rule eq)
    show ?thesis
    proof (cases "rlpDecodeBody (rlpItemsFuel g') p")
      case (Inr r)
      obtain item rest where r: "r = (item, rest)" by (cases r)
      then have "length rest < length p"
        using Inr rlpDecodeBody_shorter by blast
      then show ?thesis using Inr r eq f body by simp
    qed (simp add: f body)
  qed (cases f; cases f'; simp)
qed

lemma rlpItemsFuel_eq: "length p \<le> f \<Longrightarrow> rlpItemsFuel f p = rlpItems p"
  unfolding rlpItems_def by (rule rlpItemsFuel_enough) auto

lemmas rlpDecode_eq = rlpDecode_def

lemma rlpItems_eq:
  "rlpItems payload =
     (if payload = [] then Inr []
      else (case rlpDecode payload of
              Inl e \<Rightarrow> Inl e
            | Inr (item, rest) \<Rightarrow>
                (case rlpItems rest of Inl e \<Rightarrow> Inl e | Inr its \<Rightarrow> Inr (item # its))))"
proof (cases payload)
  case (Cons a as)
  have body: "rlpDecodeBody (rlpItemsFuel (length as)) payload = rlpDecode payload"
    unfolding rlpDecode_def by (rule rlpDecodeBody_cong) (simp add: rlpItemsFuel_eq Cons)
  have rest: "rlpItemsFuel (length as) rest = rlpItems rest"
    if "rlpDecode payload = Inr (item, rest)" for item rest
  proof (rule rlpItemsFuel_eq)
    have "length rest < length payload"
      using that unfolding rlpDecode_def by (rule rlpDecodeBody_shorter)
    then show "length rest \<le> length as" using Cons by simp
  qed
  have "rlpItems payload = rlpItemsFuel (Suc (length as)) payload"
    by (simp add: rlpItems_def Cons)
  also have "\<dots> = (case rlpDecode payload of
              Inl e \<Rightarrow> Inl e
            | Inr (item, rest) \<Rightarrow>
                (case rlpItems rest of Inl e \<Rightarrow> Inl e | Inr its \<Rightarrow> Inr (item # its)))"
    using body rest Cons by (cases "rlpDecode payload") (auto split: prod.splits)
  finally show ?thesis using Cons by simp
qed (simp add: rlpItems_def)

lemma rlpItems_Nil [simp]: "rlpItems [] = Inr []"
  by (subst rlpItems_eq) simp

section \<open>Big-endian lengths\<close>

lemma shift_or_add: "(push_bit 8 n) OR (ucast c) = 256 * n + (ucast (c :: u8) :: u64)"
proof -
  have "push_bit 8 n + (ucast c :: u64) = (push_bit 8 n) OR (ucast c)"
    by (rule disjunctive_add) (auto simp: bit_simps dest: bit_imp_le_length)
  moreover have "push_bit 8 n = 256 * n"
    by (simp add: push_bit_eq_mult)
  ultimately show ?thesis by simp
qed

lemma be_accum_nat:
  "foldl (\<lambda>n c. (push_bit 8 n) OR (ucast c)) (of_nat a :: u64) (bs :: u8 list) =
     of_nat (foldl (\<lambda>a c. 256 * a + unat c) a bs)"
proof (induction bs arbitrary: a)
  case (Cons b bs)
  have "(push_bit 8 (of_nat a)) OR (ucast b) = (of_nat (256 * a + unat b) :: u64)"
    by (simp add: shift_or_add)
  then show ?case by (simp only: foldl.simps Cons)
qed simp

lemma rlpUintLoop_value:
  "unat u < 256 ^ i \<Longrightarrow> 0 < i \<Longrightarrow>
     \<exists>ds. rlpUintLoop i u acc = ds @ acc \<and> ds \<noteq> [] \<and> length ds \<le> i
          \<and> foldl (\<lambda>a c. 256 * a + unat c) 0 ds = unat u"
proof (induction i arbitrary: u acc)
  case (Suc i)
  have byte: "unat (ucast u :: u8) = unat u mod 256"
    by (simp add: unsigned_ucast_eq take_bit_eq_mod)
  have shift: "unat (drop_bit 8 u) = unat u div 256"
    by (simp only: unsigned_drop_bit_eq) (simp add: drop_bit_eq_div take_bit_nat_eq_self unsigned_less [of u, simplified])
  show ?case
  proof (cases "drop_bit 8 u = 0")
    case True
    then have "unat u div 256 = 0" using shift by simp
    then have "unat u mod 256 = unat u" by simp
    then show ?thesis using True byte by (intro exI [of _ "[ucast u]"]) simp
  next
    case False
    then have "unat u div 256 \<noteq> 0" using shift by (metis unsigned_eq_0_iff)
    then have i: "0 < i" using Suc.prems by (cases i) auto
    have "unat (drop_bit 8 u) < 256 ^ i"
      using Suc.prems by (simp add: shift less_mult_imp_div_less mult.commute)
    from Suc.IH [OF this i, of "ucast u # acc"] obtain ds where
      ds: "rlpUintLoop i (drop_bit 8 u) (ucast u # acc) = ds @ ucast u # acc"
          "ds \<noteq> []" "length ds \<le> i"
          "foldl (\<lambda>a c. 256 * a + unat c) 0 ds = unat (drop_bit 8 u)"
      by blast
    then show ?thesis using False
      by (intro exI [of _ "ds @ [ucast u]"]) (simp add: byte shift)
  qed
qed simp

lemma rlpUint_value: "be_accum (rlpUint u) = u" and length_rlpUint: "length (rlpUint u) \<le> 8"
proof -
  have "unat u < 256 ^ 8" using unsigned_less [of u] by simp
  from rlpUintLoop_value [OF this, of "[]"] obtain ds where
    "rlpUintLoop 8 u [] = ds" "length ds \<le> 8" "foldl (\<lambda>a c. 256 * a + unat c) 0 ds = unat u"
    by auto
  then show "be_accum (rlpUint u) = u" "length (rlpUint u) \<le> 8"
    using be_accum_nat [of 0 ds] by (auto simp: rlpUint_def be_accum_def)
qed

lemma rlpUint_pos: "u \<noteq> 0 \<Longrightarrow> 0 < length (rlpUint u)"
  using rlpUintLoop_value [of u 8 "[]"] unsigned_less [of u] by (auto simp: rlpUint_def)

lemmas word_nat_simps = word_less_nat_alt word_le_nat_alt unat_word_ariths unat_of_nat

section \<open>The decoder inverts the encoders\<close>

lemma rlpDecodeList_at:
  assumes "n \<le> length body"
  shows "rlpDecodeList items (h @ body) (int (length h)) (int n) =
     (case items (take n body) of Inl e \<Rightarrow> Inl e | Inr its \<Rightarrow> Inr (listNode its, drop n body))"
proof -
  have "nat (int (length h) + int n) = length h + n" by simp
  then show ?thesis using assms by (simp add: rlpDecodeList_def split: sum.split)
qed

lemma rlpDecodeLong_at:
  fixes base :: u8
  assumes "n \<le> length body" and "length body < 2 ^ 63"
    and sz: "sz = rlpUint (of_nat n)" and p: "p = base + of_nat (length sz)"
  shows "rlpDecodeLong items (p # sz @ body) p base l =
     (if l then (case items (take n body) of Inl e \<Rightarrow> Inl e
                 | Inr its \<Rightarrow> Inr (listNode its, drop n body))
      else Inr (strNode (take n body), drop n body))"
proof -
  let ?b = "p # sz @ body"
  have ll: "unat (p - base) = length sz"
    using length_rlpUint [of "of_nat n"] by (simp add: p sz unat_of_nat)
  have acc: "be_accum (take (length sz) (drop 1 ?b)) = of_nat n"
    by (simp add: sz rlpUint_value)
  have n: "unat (of_nat n :: u64) = n"
    using assms(1,2) by (simp add: unat_of_nat)
  have rem: "length ?b - (1 + length sz) = length body" by simp
  have fits: "\<not> (of_nat (length body) :: u64) < of_nat n"
    using assms(1,2) by (simp add: word_less_nat_alt unat_of_nat n)
  have split: "?b = (p # sz) @ body" "int (1 + length sz) = int (length (p # sz))" by simp_all
  have items: "rlpDecodeList items ?b (int (1 + length sz)) (int n) =
     (case items (take n body) of Inl e \<Rightarrow> Inl e | Inr its \<Rightarrow> Inr (listNode its, drop n body))"
    unfolding split by (rule rlpDecodeList_at [OF assms(1)])
  show ?thesis
    unfolding rlpDecodeLong_def Let_def ll acc rem n items using fits by simp
qed

lemma rlpLen_long:
  "\<not> n < 56 \<Longrightarrow> rlpLen n base = (base + 55 + of_nat (length (rlpUint (of_nat n)))) # rlpUint (of_nat n)"
  by (simp add: rlpLen_def Let_def)

lemma rlpUint_of_nat_len:
  assumes "\<not> n < 56" and "n < 2 ^ 63"
  shows "1 \<le> length (rlpUint (of_nat n))" and "length (rlpUint (of_nat n)) \<le> 8"
proof -
  have "unat (of_nat n :: u64) = n" using assms(2) by (simp add: unat_of_nat)
  then have "(of_nat n :: u64) \<noteq> 0" using assms(1) by auto
  then show "1 \<le> length (rlpUint (of_nat n))" using rlpUint_pos [of "of_nat n"] by linarith
qed (rule length_rlpUint)

lemma rlpDecode_string:
  assumes "length bs + length rest < 2 ^ 63"
  shows "rlpDecode (rlpString bs @ rest) = Inr (strNode bs, rest)"
proof -
  consider (byte) "length bs = 1 \<and> hd bs < 0x80"
    | (short) "\<not> (length bs = 1 \<and> hd bs < 0x80)" "length bs < 56"
    | (long) "\<not> (length bs = 1 \<and> hd bs < 0x80)" "\<not> length bs < 56" by blast
  then show ?thesis
  proof cases
    case byte
    then obtain c where "bs = [c]" by (cases bs) auto
    with byte show ?thesis by (simp add: rlpDecode_def rlpDecodeBody_def rlpString_def)
  next
    case short
    define p where "p = (0x80 :: u8) + of_nat (length bs)"
    have p: "unat p = 128 + length bs"
      using short(2) by (simp add: p_def word_nat_simps)
    then have "unat (p - 0x80) = length bs"
      using short(2) by (simp add: p_def unat_of_nat)
    moreover have "rlpString bs @ rest = p # bs @ rest"
      using short by (auto simp: rlpString_def rlpLen_def p_def)
    ultimately show ?thesis
      using short p by (simp add: rlpDecode_def rlpDecodeBody_def word_less_nat_alt)
  next
    case long
    define sz where "sz = rlpUint (of_nat (length bs))"
    define p where "p = (0x80 :: u8) + 55 + of_nat (length sz)"
    have len: "1 \<le> length sz" "length sz \<le> 8"
      using rlpUint_of_nat_len [OF long(2)] assms by (auto simp: sz_def)
    then have p: "unat p = 183 + length sz"
      by (simp add: p_def word_nat_simps)
    have enc: "rlpString bs @ rest = p # sz @ bs @ rest"
      using long by (simp add: rlpString_def rlpLen_long p_def sz_def)
    have "rlpDecode (p # sz @ bs @ rest) = rlpDecodeLong rlpItems (p # sz @ bs @ rest) p 0xb7 False"
      using p len by (auto simp: rlpDecode_def rlpDecodeBody_def word_less_nat_alt)
    also have "\<dots> = Inr (strNode bs, rest)"
      using assms by (subst rlpDecodeLong_at [where n = "length bs"]) (auto simp: sz_def p_def)
    finally show ?thesis using enc by simp
  qed
qed

lemma rlpDecode_list:
  assumes "length payload + length rest < 2 ^ 63" and "rlpItems payload = Inr its"
  shows "rlpDecode (rlpLen (length payload) 0xc0 @ payload @ rest) = Inr (listNode its, rest)"
proof (cases "length payload < 56")
  case True
  define p where "p = (0xc0 :: u8) + of_nat (length payload)"
  have p: "unat p = 192 + length payload"
    using True by (simp add: p_def word_nat_simps)
  have n: "unat (p - 0xc0) = length payload"
    using True by (simp add: p_def unat_of_nat)
  have "rlpDecode (p # payload @ rest) = rlpDecodeList rlpItems ([p] @ payload @ rest) (int (length [p])) (int (length payload))"
    using p True n by (simp add: rlpDecode_def rlpDecodeBody_def word_less_nat_alt)
  also have "\<dots> = Inr (listNode its, rest)"
    by (subst rlpDecodeList_at) (simp_all add: assms(2))
  finally show ?thesis using True by (simp add: rlpLen_def p_def)
next
  case False
  define sz where "sz = rlpUint (of_nat (length payload))"
  define p where "p = (0xc0 :: u8) + 55 + of_nat (length sz)"
  have len: "1 \<le> length sz" "length sz \<le> 8"
    using rlpUint_of_nat_len [OF False] assms by (auto simp: sz_def)
  then have p: "unat p = 247 + length sz"
    by (simp add: p_def word_nat_simps)
  have "rlpDecode (p # sz @ payload @ rest) = rlpDecodeLong rlpItems (p # sz @ payload @ rest) p 0xf7 True"
    using p len by (auto simp: rlpDecode_def rlpDecodeBody_def word_less_nat_alt)
  also have "\<dots> = Inr (listNode its, rest)"
    using assms by (subst rlpDecodeLong_at [where n = "length payload"]) (auto simp: sz_def p_def)
  finally show ?thesis
    using False by (simp add: rlpLen_long p_def sz_def)
qed

lemma rlpItems_concat:
  assumes "\<And>n r. n \<in> set ns \<Longrightarrow> length (enc n) + length r < 2 ^ 63 \<Longrightarrow> rlpDecode (enc n @ r) = Inr (f n, r)"
    and "\<And>n. n \<in> set ns \<Longrightarrow> enc n \<noteq> []"
    and "length (concat (map enc ns)) < 2 ^ 63"
  shows "rlpItems (concat (map enc ns)) = Inr (map f ns)"
  using assms
proof (induction ns)
  case (Cons n ns)
  have "rlpDecode (enc n @ concat (map enc ns)) = Inr (f n, concat (map enc ns))"
    using Cons.prems by (intro Cons.prems(1)) auto
  moreover have "rlpItems (concat (map enc ns)) = Inr (map f ns)"
    using Cons.prems by (intro Cons.IH) auto
  ultimately show ?case
    using Cons.prems(2) by (subst rlpItems_eq) simp
qed simp

text \<open>A node the decoder can build: a string carries no items, a list carries no bytes.\<close>

fun wf_node :: "rlpNode \<Rightarrow> bool" where
  "wf_node (RlpNode il bs ns) = (if il then bs = [] \<and> list_all wf_node ns else ns = [])"

lemma rlpLen_not_Nil [simp]: "rlpLen n base \<noteq> []"
  by (simp add: rlpLen_def Let_def)

lemma rlpString_not_Nil [simp]: "rlpString bs \<noteq> []"
  by (auto simp: rlpString_def)

lemma encodeSealNode_not_Nil [simp]: "encodeSealNode n \<noteq> []"
  by (cases n) (simp add: Let_def)

lemma rlpDecode_encodeSealNode:
  "wf_node n \<Longrightarrow> length (encodeSealNode n) + length rest < 2 ^ 63 \<Longrightarrow>
     rlpDecode (encodeSealNode n @ rest) = Inr (n, rest)"
proof (induction n arbitrary: rest rule: encodeSealNode.induct)
  case (1 il bs ns)
  show ?case
  proof (cases il)
    case False
    have "length bs \<le> length (rlpString bs)" by (simp add: rlpString_def)
    with False 1(2,3) show ?thesis by (simp add: rlpDecode_string)
  next
    case True
    let ?payload = "concat (map encodeSealNode ns)"
    have wf: "\<And>m. m \<in> set ns \<Longrightarrow> wf_node m" and bs: "bs = []"
      using 1(2) True by (auto simp: list_all_iff)
    have len: "length ?payload + length rest < 2 ^ 63"
      using 1(3) True by (simp add: Let_def)
    then have small: "length ?payload < 2 ^ 63" by linarith
    have "rlpItems ?payload = Inr (map (\<lambda>m. m) ns)"
    proof (rule rlpItems_concat)
      fix m r assume "m \<in> set ns" "length (encodeSealNode m) + length (r :: u8 list) < 2 ^ 63"
      then show "rlpDecode (encodeSealNode m @ r) = Inr (m, r)"
        using 1(1) True wf by simp
    qed (rule encodeSealNode_not_Nil, rule small)
    then have "rlpItems ?payload = Inr ns" by simp
    from rlpDecode_list [OF len this] show ?thesis
      using True bs by (simp add: Let_def)
  qed
qed

fun node_of :: "rlpValue \<Rightarrow> rlpNode" where
  "node_of (RBytes x) = strNode x"
| "node_of (RUint x) = strNode (rlpUint x)"
| "node_of (RList xs) = listNode (map node_of xs)"

lemma wf_node_of [simp]: "wf_node (node_of v)"
  by (induction v rule: node_of.induct) (auto simp: list_all_iff)

lemma rlpEncode_node_of: "rlpEncode v = encodeSealNode (node_of v)"
proof (induction v rule: rlpEncode.induct)
  case (3 xs)
  then have "map rlpEncode xs = map (encodeSealNode \<circ> node_of) xs" by simp
  then show ?case by (simp add: Let_def del: map_eq_conv)
qed simp_all

lemma rlpDecode_rlpEncode:
  "length (rlpEncode v) + length rest < 2 ^ 63 \<Longrightarrow>
     rlpDecode (rlpEncode v @ rest) = Inr (node_of v, rest)"
  by (simp add: rlpEncode_node_of rlpDecode_encodeSealNode)

section \<open>Self-delimiting codecs\<close>

text \<open>
  The contract the users of the codec rely on: an encoded item, followed by anything, decodes to
  the item and leaves exactly what followed. \<open>limit\<close> is the longest slice the platform has.
\<close>

locale prefix_codec =
  fixes enc :: "'a \<Rightarrow> 'b list"
    and dec :: "'b list \<Rightarrow> 'e + 'a \<times> 'b list"
    and ok :: "'a \<Rightarrow> bool"
    and limit :: nat
  assumes dec_enc: "ok x \<Longrightarrow> length (enc x) + length r < limit \<Longrightarrow> dec (enc x @ r) = Inr (x, r)"
begin

lemma enc_prefix_free:
  assumes "ok x" "ok y" "enc x @ r = enc y @ s" "length (enc x) + length r < limit"
  shows "x = y \<and> r = s"
proof -
  have "length (enc y) + length s < limit"
    using arg_cong [OF assms(3), of length] assms(4) by simp
  then have "dec (enc y @ s) = Inr (y, s)" by (rule dec_enc [OF assms(2)])
  moreover have "dec (enc x @ r) = Inr (x, r)" by (rule dec_enc [OF assms(1,4)])
  ultimately have "Inr (x, r) = (Inr (y, s) :: 'e + 'a \<times> 'b list)"
    by (simp only: assms(3))
  then show ?thesis by simp
qed

lemma enc_inj:
  "\<lbrakk>ok x; ok y; enc x = enc y; length (enc x) < limit\<rbrakk> \<Longrightarrow> x = y"
  using enc_prefix_free [of x y "[]" "[]"] by simp

lemma dec_enc_whole: "ok x \<Longrightarrow> length (enc x) < limit \<Longrightarrow> dec (enc x) = Inr (x, [])"
  using dec_enc [of x "[]"] by simp

end

interpretation seal: prefix_codec encodeSealNode rlpDecode wf_node "2 ^ 63"
  by unfold_locales (rule rlpDecode_encodeSealNode)

end
