(* ===== verification/Wbft_Extra.thy ===== *)
theory Wbft_Extra
  imports Wbft_Rlp
begin

unbundle bit_operations_syntax

text \<open>
  The users of the RLP codec: the genesis extra-data of a wbft chain, written by \<open>ExtraData\<close>
  (\<open>consensus/wbft/extradata.go\<close>) and read back by \<open>genesisValidatorsFromExtraData\<close>
  (\<open>extradata_decode.go\<close>), and the committed-seal check \<open>VerifyCommittedHeader\<close>
  (\<open>committed_seal.go\<close>). The BLS and Keccak libraries are parameters (record \<open>sealLib\<close>). The
  JSON step that takes the \<open>extraData\<close> field out of a genesis document is not modelled: the
  reader's model starts from the field.
\<close>

section \<open>encoding/hex\<close>

datatype hexError = InvalidByte | OddLength

definition hexVal :: "char \<Rightarrow> nat option" where
  "hexVal c =
     (let n = (of_char c :: nat) in
      if 48 \<le> n \<and> n \<le> 57 then Some (n - 48)
      else if 97 \<le> n \<and> n \<le> 102 then Some (n - 87)
      else if 65 \<le> n \<and> n \<le> 70 then Some (n - 55)
      else None)"

fun hexDecode :: "string \<Rightarrow> hexError + u8 list" where
  "hexDecode [] = Inr []"
| "hexDecode [c] = (if hexVal c = None then Inl InvalidByte else Inl OddLength)"
| "hexDecode (a # b # r) =
     (case (hexVal a, hexVal b) of
        (Some x, Some y) \<Rightarrow>
          (case hexDecode r of Inl e \<Rightarrow> Inl e | Inr bs \<Rightarrow> Inr (of_nat (16 * x + y) # bs))
      | _ \<Rightarrow> Inl InvalidByte)"

definition hexDigit :: "nat \<Rightarrow> char" where
  "hexDigit n = (if n < 10 then char_of (48 + n) else char_of (87 + n))"

definition hexEncode :: "u8 list \<Rightarrow> string" where
  "hexEncode bs = concat (map (\<lambda>b. [hexDigit (unat b div 16), hexDigit (unat b mod 16)]) bs)"

section \<open>Writing the extra-data\<close>

definition initialGasTip :: u64 where "initialGasTip = 27600000000000"
definition defaultDiligence :: u64 where "defaultDiligence = 1900000"
definition blsPubKeyLen :: nat where "blsPubKeyLen = 48"
definition addressLen :: nat where "addressLen = 20"

datatype hexBytesError = NotHex hexError | WrongLength nat nat

definition hexBytes :: "string \<Rightarrow> nat \<Rightarrow> hexBytesError + u8 list" where
  "hexBytes s wantLen =
     (case hexDecode (trim_prefix ''0x'' s) of
        Inl e \<Rightarrow> Inl (NotHex e)
      | Inr b \<Rightarrow> if length b \<noteq> wantLen then Inl (WrongLength (length b) wantLen) else Inr b)"

datatype extraError =
    NoValidators
  | CountMismatch nat nat
  | BadValidator nat hexBytesError
  | BadBLSKey nat hexBytesError

text \<open>One turn of the loop: the candidate, its index and its key.\<close>

definition extraEntry ::
  "nat \<times> string \<times> string \<Rightarrow> extraError + rlpValue \<times> rlpValue \<times> rlpValue"
where
  "extraEntry e =
     (case e of (i, v, k) \<Rightarrow>
        (case hexBytes v addressLen of
           Inl err \<Rightarrow> Inl (BadValidator i err)
         | Inr addr \<Rightarrow>
             (case hexBytes k blsPubKeyLen of
                Inl err \<Rightarrow> Inl (BadBLSKey i err)
              | Inr bls \<Rightarrow>
                  Inr (RList [RBytes addr, RUint defaultDiligence], RUint (of_nat i), RBytes bls))))"

definition wbftExtra :: "(rlpValue \<times> rlpValue \<times> rlpValue) list \<Rightarrow> rlpValue" where
  "wbftExtra es =
     RList [RBytes [], RBytes [], RUint 0, RList [], RList [], RUint 0, RList [], RList [],
            RUint initialGasTip,
            RList [RList (map fst es), RList (map (fst \<circ> snd) es), RList (map (snd \<circ> snd) es)]]"

definition ExtraData :: "string list \<Rightarrow> string list \<Rightarrow> extraError + string" where
  "ExtraData validators blsKeys =
     (if validators = [] then Inl NoValidators
      else if length validators \<noteq> length blsKeys
        then Inl (CountMismatch (length validators) (length blsKeys))
      else (case traverse extraEntry (enumerate 0 (zip validators blsKeys)) of
              Inl e \<Rightarrow> Inl e
            | Inr es \<Rightarrow> Inr (''0x'' @ hexEncode (rlpEncode (wbftExtra es)))))"

section \<open>Reading the validators back\<close>

datatype gvError =
    NoExtraData
  | ExtraNotHex hexError
  | DecodeFailed rlpError
  | TrailingBytes nat
  | NotWBFTExtra
  | NoCandidateList
  | BadCandidate nat

definition candidateAddr :: "nat \<times> rlpNode \<Rightarrow> gvError + string" where
  "candidateAddr ic =
     (case ic of (i, c) \<Rightarrow>
        if \<not> isList c \<or> length (node_list c) < 1 \<or> isList (node_list c ! 0)
           \<or> length (node_bytes (node_list c ! 0)) \<noteq> addressLen
        then Inl (BadCandidate i)
        else Inr (''0x'' @ hexEncode (node_bytes (node_list c ! 0))))"

definition genesisValidatorsFromExtraData :: "string \<Rightarrow> gvError + string list" where
  "genesisValidatorsFromExtraData extraData =
     (if extraData = [] then Inl NoExtraData
      else (case hexDecode (trim_prefix ''0x'' extraData) of
              Inl e \<Rightarrow> Inl (ExtraNotHex e)
            | Inr raw \<Rightarrow>
                (case rlpDecode raw of
                   Inl e \<Rightarrow> Inl (DecodeFailed e)
                 | Inr (root, rest) \<Rightarrow>
                     if rest \<noteq> [] then Inl (TrailingBytes (length rest))
                     else if \<not> isList root \<or> length (node_list root) \<noteq> 10 then Inl NotWBFTExtra
                     else (let epoch = node_list root ! 9 in
                           if \<not> isList epoch \<or> length (node_list epoch) < 1
                              \<or> \<not> isList (node_list epoch ! 0)
                           then Inl NoCandidateList
                           else traverse candidateAddr
                                  (enumerate 0 (node_list (node_list epoch ! 0)))))))"

section \<open>The committed seal\<close>

record ('g1, 'g2) sealLib =
  g1_fromCompressed :: "u8 list \<Rightarrow> 'g1 option"
  g1_isZero :: "'g1 \<Rightarrow> bool"
  g1_zero :: 'g1
  g1_one :: 'g1
  g1_add :: "'g1 \<Rightarrow> 'g1 \<Rightarrow> 'g1"
  g2_fromCompressed :: "u8 list \<Rightarrow> 'g2 option"
  g2_isZero :: "'g2 \<Rightarrow> bool"
  g2_hashToCurve :: "u8 list \<Rightarrow> 'g2 option"
  pairing_check :: "'g1 \<Rightarrow> 'g2 \<Rightarrow> 'g1 \<Rightarrow> 'g2 \<Rightarrow> bool"
  keccak256 :: "u8 list \<Rightarrow> u8 list"

datatype sealError =
    BadBounds
  | BadHeaderRLP
  | ExtraNotBytes
  | BadExtraRLP
  | BadRound
  | BadAggregateShape
  | BadValidatorKey nat
  | BadValidatorPoint nat
  | SignerOutside
  | InsufficientSigners
  | BadSignaturePoint
  | HashCommitFailed
  | BadCommittedSeal

text \<open>The loop over the validator keys; \<open>seen\<close> is the map's key set.\<close>

fun sealPoints ::
  "('g1, 'g2) sealLib \<Rightarrow> nat \<Rightarrow> u8 list list \<Rightarrow> u8 list list \<Rightarrow> sealError + 'g1 list"
where
  "sealPoints L i seen [] = Inr []"
| "sealPoints L i seen (key # keys) =
     (if length key \<noteq> 48 \<or> key \<in> set seen then Inl (BadValidatorKey i)
      else (case g1_fromCompressed L key of
              None \<Rightarrow> Inl (BadValidatorPoint i)
            | Some p \<Rightarrow>
                if g1_isZero L p then Inl (BadValidatorPoint i)
                else (case sealPoints L (Suc i) (key # seen) keys of
                        Inl e \<Rightarrow> Inl e | Inr ps \<Rightarrow> Inr (p # ps))))"

text \<open>The positions \<open>(i, bit)\<close> of the two nested signer loops, in order.\<close>

definition sealPositions :: "u8 list \<Rightarrow> (nat \<times> u8 \<times> nat) list" where
  "sealPositions bs =
     concat (map (\<lambda>(i, b). map (\<lambda>k. (i, b, k)) [0..<8]) (enumerate 0 bs))"

fun sealSigners ::
  "('g1, 'g2) sealLib \<Rightarrow> 'g1 list \<Rightarrow> (nat \<times> u8 \<times> nat) list \<Rightarrow> 'g1 \<Rightarrow> nat \<Rightarrow> sealError + 'g1 \<times> nat"
where
  "sealSigners L points [] aggregate count = Inr (aggregate, count)"
| "sealSigners L points ((i, b, k) # ps) aggregate count =
     (if b AND push_bit k 1 = 0 then sealSigners L points ps aggregate count
      else (let index = i * 8 + k in
            if index \<ge> length points then Inl SignerOutside
            else sealSigners L points ps (g1_add L aggregate (points ! index)) (Suc count)))"

definition sealMessage :: "('g1, 'g2) sealLib \<Rightarrow> rlpNode \<Rightarrow> rlpNode \<Rightarrow> u8 list" where
  "sealMessage L header extra =
     (let extra' = RlpNode (isList extra) (node_bytes extra)
                     ((node_list extra)[6 := listNode [], 7 := listNode []]);
          field = node_list header ! 12;
          field' = RlpNode (isList field) (encodeSealNode extra') (node_list field);
          header' = RlpNode (isList header) (node_bytes header) ((node_list header)[12 := field'])
      in keccak256 L (keccak256 L (encodeSealNode header') @ [1]))"

definition VerifyCommittedHeader ::
  "('g1, 'g2) sealLib \<Rightarrow> u8 list \<Rightarrow> u8 list list \<Rightarrow> sealError + unit"
where
  "VerifyCommittedHeader L rawHeader keys =
     (if length rawHeader > 16384 \<or> length keys = 0 \<or> length keys > 1024 then Inl BadBounds
      else case rlpDecode rawHeader of Inl _ \<Rightarrow> Inl BadHeaderRLP | Inr (header, rest) \<Rightarrow>
      if rest \<noteq> [] \<or> \<not> isList header \<or> length (node_list header) < 15
         \<or> length (node_list header) > 24 \<or> encodeSealNode header \<noteq> rawHeader
      then Inl BadHeaderRLP
      else let field = node_list header ! 12 in
      if isList field then Inl ExtraNotBytes
      else case rlpDecode (node_bytes field) of Inl _ \<Rightarrow> Inl BadExtraRLP | Inr (extra, rest) \<Rightarrow>
      if rest \<noteq> [] \<or> \<not> isList extra
         \<or> (length (node_list extra) \<noteq> 9 \<and> length (node_list extra) \<noteq> 10)
         \<or> encodeSealNode extra \<noteq> node_bytes field
      then Inl BadExtraRLP
      else if isList (node_list extra ! 5) \<or> length (node_bytes (node_list extra ! 5)) > 4
      then Inl BadRound
      else let seal = node_list extra ! 7 in
      if \<not> isList seal \<or> length (node_list seal) \<noteq> 2 \<or> isList (node_list seal ! 0)
         \<or> isList (node_list seal ! 1) \<or> length (node_bytes (node_list seal ! 1)) \<noteq> 96
         \<or> length (node_bytes (node_list seal ! 0)) > (length keys + 7) div 8
      then Inl BadAggregateShape
      else case sealPoints L 0 [] keys of Inl e \<Rightarrow> Inl e | Inr points \<Rightarrow>
      case sealSigners L points (sealPositions (node_bytes (node_list seal ! 0))) (g1_zero L) 0 of
        Inl e \<Rightarrow> Inl e | Inr (aggregate, count) \<Rightarrow>
      if count < 2 * length keys div 3 + 1 \<or> g1_isZero L aggregate then Inl InsufficientSigners
      else case g2_fromCompressed L (node_bytes (node_list seal ! 1)) of
        None \<Rightarrow> Inl BadSignaturePoint | Some signature \<Rightarrow>
      if g2_isZero L signature then Inl BadSignaturePoint
      else case g2_hashToCurve L (sealMessage L header extra) of
        None \<Rightarrow> Inl HashCommitFailed | Some point \<Rightarrow>
      if \<not> pairing_check L aggregate point (g1_one L) signature then Inl BadCommittedSeal
      else Inr ())"

section \<open>The extra-data round trip\<close>

lemma hexVal_hexDigit [simp]: "n < 16 \<Longrightarrow> hexVal (hexDigit n) = Some n"
  by (simp add: hexVal_def hexDigit_def Let_def)

lemma hexDecode_hexEncode [simp]: "hexDecode (hexEncode bs) = Inr bs"
proof (induction bs)
  case (Cons b bs)
  have "unat b < 256" using unsigned_less [of b] by simp
  then have "unat b div 16 < 16" "unat b mod 16 < 16" by simp_all
  moreover have "(of_nat (16 * (unat b div 16) + unat b mod 16) :: u8) = b"
    by (simp only: mult_div_mod_eq) simp
  ultimately show ?case using Cons by (simp add: hexEncode_def)
qed (simp add: hexEncode_def)

lemma length_hexEncode [simp]: "length (hexEncode bs) = 2 * length bs"
  by (induction bs) (simp_all add: hexEncode_def)

definition addrBytes :: "string \<Rightarrow> u8 list" where
  "addrBytes v = (case hexBytes v addressLen of Inr b \<Rightarrow> b | Inl _ \<Rightarrow> [])"

text \<open>An address in the spelling the chain's own tools print: 0x, forty lower-case digits.\<close>

definition canonicalAddr :: "string \<Rightarrow> string" where
  "canonicalAddr v = ''0x'' @ hexEncode (addrBytes v)"

lemma extraEntry_Inr:
  assumes "extraEntry (i, v, k) = Inr (c, x, b)"
  shows "c = RList [RBytes (addrBytes v), RUint defaultDiligence] \<and> length (addrBytes v) = addressLen"
  using assms
  by (auto simp: extraEntry_def addrBytes_def hexBytes_def split: sum.splits if_splits)

lemma candidateAddr_node_of:
  "length a = addressLen \<Longrightarrow>
     candidateAddr (i, node_of (RList [RBytes a, RUint d])) = Inr (''0x'' @ hexEncode a)"
  by (simp add: candidateAddr_def)

lemma candidates_round_trip:
  assumes "traverse extraEntry (enumerate j (zip vs ks)) = Inr es" and "length vs = length ks"
  shows "traverse candidateAddr (enumerate k (map (\<lambda>e. node_of (fst e)) es)) = Inr (map canonicalAddr vs)"
  using assms
proof (induction vs arbitrary: ks j k es)
  case (Cons v vs)
  then obtain b ks' where ks: "ks = b # ks'" by (cases ks) auto
  from Cons.prems(1) obtain c x y es' where
    e: "extraEntry (j, v, b) = Inr (c, x, y)" and es: "es = (c, x, y) # es'"
    and rest: "traverse extraEntry (enumerate (Suc j) (zip vs ks')) = Inr es'"
    by (auto simp: ks split: sum.splits)
  from Cons.IH [OF rest] Cons.prems(2)
  have "traverse candidateAddr (enumerate (Suc k) (map (\<lambda>e. node_of (fst e)) es')) = Inr (map canonicalAddr vs)"
    by (simp add: ks)
  then show ?case
    using extraEntry_Inr [OF e] candidateAddr_node_of [of "addrBytes v" k]
    by (simp add: es canonicalAddr_def)
qed simp

lemma ExtraData_Inr:
  assumes "ExtraData vs ks = Inr x"
  obtains es where "length vs = length ks"
    "traverse extraEntry (enumerate 0 (zip vs ks)) = Inr es"
    "x = ''0x'' @ hexEncode (rlpEncode (wbftExtra es))"
  using assms by (auto simp: ExtraData_def split: if_splits sum.splits)

lemma genesisValidators_of_extra:
  assumes "length (rlpEncode (wbftExtra es)) < 2 ^ 63"
  shows "genesisValidatorsFromExtraData (''0x'' @ hexEncode (rlpEncode (wbftExtra es))) =
     traverse candidateAddr (enumerate 0 (map (\<lambda>e. node_of (fst e)) es))"
proof -
  have "rlpDecode (rlpEncode (wbftExtra es)) = Inr (node_of (wbftExtra es), [])"
    using rlpDecode_rlpEncode [of "wbftExtra es" "[]"] assms by simp
  moreover have "isList (node_of (wbftExtra es))" "length (node_list (node_of (wbftExtra es))) = 10"
    and "node_list (node_of (wbftExtra es)) ! 9 =
      listNode [listNode (map (\<lambda>e. node_of (fst e)) es),
        listNode (map (\<lambda>e. node_of (fst (snd e))) es), listNode (map (\<lambda>e. node_of (snd (snd e))) es)]"
    by (simp_all add: wbftExtra_def comp_def)
  ultimately show ?thesis
    by (simp add: genesisValidatorsFromExtraData_def trim_prefix_def cut_prefix_def)
qed

text \<open>
  Property C29. The validator set written into a genesis is the one read back from it: whenever
  \<open>ExtraData\<close> succeeds, \<open>genesisValidatorsFromExtraData\<close> on its result returns the same addresses
  in the same order, in the canonical lower-case spelling. The bound on the length is the platform's:
  a Go string is shorter than \<open>2 ^ 63\<close> bytes.
\<close>

theorem extraData_round_trip:
  assumes "ExtraData vs ks = Inr x" and "length x < 2 ^ 63"
  shows "genesisValidatorsFromExtraData x = Inr (map canonicalAddr vs)"
proof -
  obtain es where len: "length vs = length ks"
    and es: "traverse extraEntry (enumerate 0 (zip vs ks)) = Inr es"
    and x: "x = ''0x'' @ hexEncode (rlpEncode (wbftExtra es))"
    using ExtraData_Inr [OF assms(1)] by blast
  have "length (rlpEncode (wbftExtra es)) < 2 ^ 63" using assms(2) by (simp add: x)
  then show ?thesis
    unfolding x by (simp only: genesisValidators_of_extra candidates_round_trip [OF es len])
qed

definition sampleAddr :: string where
  "sampleAddr = ''0xAbcdef0123456789abcdef0123456789abcdef01''"

definition sampleKey :: string where
  "sampleKey = ''0x'' @ replicate 96 CHR ''7''"

lemma sample_extra:
  "case ExtraData [sampleAddr] [sampleKey] of
     Inl _ \<Rightarrow> False | Inr x \<Rightarrow> length x < 1000"
  by code_simp

theorem extraData_round_trip_witness:
  "\<exists>x. ExtraData [sampleAddr] [sampleKey] = Inr x \<and>
       genesisValidatorsFromExtraData x = Inr [canonicalAddr sampleAddr]"
proof -
  obtain x where x: "ExtraData [sampleAddr] [sampleKey] = Inr x" "length x < 1000"
    using sample_extra by (auto split: sum.splits)
  then have "genesisValidatorsFromExtraData x = Inr (map canonicalAddr [sampleAddr])"
    by (intro extraData_round_trip [of _ "[sampleKey]"]) simp_all
  with x show ?thesis by simp
qed

section \<open>What an accepted seal proves\<close>

text \<open>The validator positions whose bit is set in the sealer bitmap.\<close>

definition signerSet :: "u8 list \<Rightarrow> nat set" where
  "signerSet bs = {8 * i + k | i k. i < length bs \<and> k < 8 \<and> bit (bs ! i) k}"

lemma and_push_bit_one_iff: "((b :: u8) AND push_bit k 1 = 0) \<longleftrightarrow> \<not> bit b k"
proof
  assume eq: "b AND push_bit k 1 = 0"
  show "\<not> bit b k"
  proof
    assume b: "bit b k"
    then have "k < 8" using bit_imp_le_length [of b k] by simp
    then have "bit (b AND push_bit k 1) k" using b by (simp add: bit_simps)
    then show False using eq by simp
  qed
next
  assume "\<not> bit b k"
  then show "b AND push_bit k 1 = 0"
    by (intro bit_eqI) (auto simp: bit_simps)
qed

definition posIndex :: "nat \<times> u8 \<times> nat \<Rightarrow> nat" where
  "posIndex p = fst p * 8 + snd (snd p)"

definition posSet :: "nat \<times> u8 \<times> nat \<Rightarrow> bool" where
  "posSet p = bit (fst (snd p)) (snd (snd p))"

lemma sealSigners_Cons:
  "sealSigners L points (p # ps) agg c =
     (if \<not> posSet p then sealSigners L points ps agg c
      else if posIndex p \<ge> length points then Inl SignerOutside
      else sealSigners L points ps (g1_add L agg (points ! posIndex p)) (Suc c))"
  by (cases p) (simp only: sealSigners.simps posSet_def posIndex_def fst_conv snd_conv
      and_push_bit_one_iff Let_def)

lemma sealSigners_Inr:
  "sealSigners L points ps agg c = Inr (agg', c') \<Longrightarrow>
     c' = c + length (filter posSet ps)
     \<and> agg' = foldl (\<lambda>a j. g1_add L a (points ! j)) agg (map posIndex (filter posSet ps))
     \<and> (\<forall>p \<in> set (filter posSet ps). posIndex p < length points)"
proof (induction ps arbitrary: agg c)
  case (Cons p ps)
  show ?case
  proof (cases "posSet p")
    case True
    then have less: "posIndex p < length points"
      and "sealSigners L points ps (g1_add L agg (points ! posIndex p)) (Suc c) = Inr (agg', c')"
      using Cons.prems unfolding sealSigners_Cons by (auto split: if_splits)
    from Cons.IH [OF this(2)] less True show ?thesis by simp
  next
    case False
    then have "sealSigners L points ps agg c = Inr (agg', c')"
      using Cons.prems unfolding sealSigners_Cons by simp
    from Cons.IH [OF this] False show ?thesis by simp
  qed
qed simp

lemma concat_bytes_upt: "concat (map (\<lambda>i. map (\<lambda>k. i * 8 + k) [0..<8]) [0..<n]) = [0..<n * 8]"
proof (induction n)
  case (Suc n)
  have "map (\<lambda>k. n * 8 + k) [0..<8] = [n * 8..<n * 8 + 8]"
    using map_add_upt [of "n * 8" 8] by (simp add: add.commute)
  with Suc show ?case using upt_add_eq_append [of 0 "n * 8" 8] by (simp add: add.commute)
qed simp

lemma distinct_posIndex: "distinct (map posIndex (sealPositions bs))"
proof -
  have "map posIndex (sealPositions bs) = concat (map (\<lambda>i. map (\<lambda>k. i * 8 + k) [0..<8]) [0..<length bs])"
    by (simp add: sealPositions_def map_concat comp_def posIndex_def enumerate_eq_zip split_def
        flip: map_map [of "\<lambda>i. map (\<lambda>k. i * 8 + k) [0..<8]" fst, unfolded comp_def])
  then show ?thesis by (simp only: concat_bytes_upt distinct_upt)
qed

lemma set_sealPositions:
  "set (sealPositions bs) = {(i, bs ! i, k) | i k. i < length bs \<and> k < 8}"
proof -
  have "set (enumerate 0 bs) = (\<lambda>i. (i, bs ! i)) ` {..<length bs}"
    by (auto simp: in_set_enumerate_eq image_iff)
  then show ?thesis by (auto simp: sealPositions_def)
qed

lemma signerSet_positions: "signerSet bs = posIndex ` set (filter posSet (sealPositions bs))"
  by (force simp: signerSet_def set_sealPositions posIndex_def posSet_def image_iff)

lemma card_signerSet: "card (signerSet bs) = length (filter posSet (sealPositions bs))"
proof -
  have "distinct (map posIndex (filter posSet (sealPositions bs)))"
    using distinct_posIndex [of bs] by (simp add: distinct_map inj_on_def distinct_filter)
  then have "card (set (map posIndex (filter posSet (sealPositions bs)))) =
      length (map posIndex (filter posSet (sealPositions bs)))"
    by (rule distinct_card)
  then show ?thesis by (simp add: signerSet_positions)
qed

lemma length_sealPoints: "sealPoints L i seen keys = Inr ps \<Longrightarrow> length ps = length keys"
  by (induction L i seen keys arbitrary: ps rule: sealPoints.induct)
     (auto split: if_splits option.splits sum.splits)

lemma sealPoints_distinct:
  "sealPoints L i seen keys = Inr ps \<Longrightarrow> distinct keys \<and> set keys \<inter> set seen = {}"
  by (induction L i seen keys arbitrary: ps rule: sealPoints.induct)
     (auto split: if_splits option.splits sum.splits)


definition sampleLib :: "(nat, nat) sealLib" where
  "sampleLib = \<lparr>g1_fromCompressed = (\<lambda>_. Some 1), g1_isZero = (\<lambda>p. p = 0), g1_zero = 0, g1_one = 1,
     g1_add = (+), g2_fromCompressed = (\<lambda>_. Some 1), g2_isZero = (\<lambda>p. p = 0),
     g2_hashToCurve = (\<lambda>_. Some 1), pairing_check = (\<lambda>a p g s. a * p = g * s),
     keccak256 = (\<lambda>_. [])\<rparr>"

definition sampleExtra :: rlpNode where
  "sampleExtra = listNode (replicate 6 (strNode []) @
     [listNode [], listNode [strNode [1], strNode (replicate 96 7)], strNode []])"

definition sampleHeader :: "u8 list" where
  "sampleHeader = encodeSealNode (listNode
     (replicate 12 (strNode []) @ [strNode (encodeSealNode sampleExtra), strNode [], strNode []]))"
lemma sample_accepted: "VerifyCommittedHeader sampleLib sampleHeader [replicate 48 9] = Inr ()"
  by code_simp


end
