(* ===== verification/Statemachine.thy ===== *)
theory Statemachine
  imports Go_Base
begin

text \<open>
  The hierarchical state machine of \<open>internal/core/statemachine\<close>: the log ring (\<open>logrec.go\<close>), the
  machine (\<open>machine.go\<close>) and the contracts (\<open>contract.go\<close>).

  A machine drives client code: the \<open>Enter\<close>, \<open>Exit\<close> and \<open>Process\<close> methods of the states and the
  function given to \<open>OnUnhandled\<close>. That code is the record \<open>client\<close>. It works on a world of its
  own (type \<open>'w\<close>) and acts on the machine through the three calls a state has: \<open>TransitionTo\<close>,
  \<open>SendSelf\<close> and \<open>Post\<close>. It reads the machine (\<open>Current\<close>, \<open>Path\<close>, ...) before it acts; none of
  the three calls changes what it can read. A state value is its name and its contract, since the
  machine compares nothing else.
\<close>

type_synonym What = int
type_synonym StateName = string

section \<open>The log ring (logrec.go)\<close>

definition defaultLogSize :: nat where "defaultLogSize = 20"

record LogRec =
  rec_time :: int
  rec_what :: What
  rec_processed :: StateName
  rec_original :: StateName
  rec_dest :: StateName

record ring =
  recs :: "LogRec list"
  ring_next :: nat
  wrote :: nat

text \<open>The zero value \<open>make\<close> fills the buffer with.\<close>

definition zeroRec :: LogRec where
  "zeroRec = \<lparr>rec_time = 0, rec_what = 0, rec_processed = '''', rec_original = '''', rec_dest = ''''\<rparr>"

definition newRing :: "nat \<Rightarrow> ring" where
  "newRing n = \<lparr>recs = replicate n zeroRec, ring_next = 0, wrote = 0\<rparr>"

definition ring_add :: "ring \<Rightarrow> LogRec \<Rightarrow> ring" where
  "ring_add r rec =
     r\<lparr>recs := (recs r)[ring_next r := rec],
       ring_next := (ring_next r + 1) mod length (recs r),
       wrote := wrote r + 1\<rparr>"

definition ring_all :: "ring \<Rightarrow> LogRec list" where
  "ring_all r =
     (let n = (if wrote r > length (recs r) then length (recs r) else wrote r);
          start = (ring_next r + length (recs r) - n) mod length (recs r)
      in map (\<lambda>i. recs r ! ((start + i) mod length (recs r))) [0..<n])"

section \<open>Contracts and states\<close>

record Contract =
  Accepts :: "What list"
  Emits :: "What list"
  Ignores :: "What list"
  Refuses :: bool

record State =
  st_name :: StateName
  st_contract :: "Contract option"

record stateInfo =
  si_state :: State
  si_parent :: StateName
  si_active :: bool

datatype setupError =
    AddAfterStart
  | AddNil
  | EmptyName
  | TwoStates StateName
  | ParentMissing StateName StateName

datatype misuse =
    TransitionNil
  | TransitionInside
  | TransitionOutside
  | TransitionTwice StateName
  | TransitionUnknown StateName
  | SelfNil
  | SelfOutside
  | HandledUndeclared StateName What
  | SentUndeclared StateName What

datatype 'e smError =
    SetupErr setupError
  | NoContracts "StateName list"
  | AlreadyStarted StateName
  | StartNil
  | NeverAdded StateName
  | SendReentrant
  | SendBeforeStart
  | SendNil
  | Looping nat StateName
  | CtxErr 'e
  | ProcessErr StateName What 'e
  | LeavingErr StateName 'e
  | EnteringErr StateName 'e
  | MisuseErr misuse
  | ErrUnhandled What string
  | ErrNotTerminal string "StateName list"

record ('w, 'm) machine =
  m_info :: "StateName \<rightharpoonup> stateInfo"
  m_order :: "StateName list"
  m_current :: StateName
  m_dest :: StateName
  m_haveDest :: bool
  m_self :: "'m list"
  m_inbox :: "'m list"
  m_sending :: bool
  m_inState :: bool
  m_inTransition :: bool
  m_setupErr :: "setupError option"
  m_opErr :: "misuse option"
  m_contracts :: bool
  m_onUnhandled :: "('m \<Rightarrow> StateName \<Rightarrow> 'w \<Rightarrow> 'm \<times> 'w) option"
  m_acting :: StateName
  m_inFailure :: bool
  m_log :: ring

definition New :: "('w, 'm) machine" where
  "New = \<lparr>m_info = Map.empty, m_order = [], m_current = '''', m_dest = '''', m_haveDest = False,
      m_self = [], m_inbox = [], m_sending = False, m_inState = False, m_inTransition = False,
      m_setupErr = None, m_opErr = None, m_contracts = False, m_onUnhandled = None,
      m_acting = '''', m_inFailure = False, m_log = newRing defaultLogSize\<rparr>"

text \<open>The calls a state makes on its machine, in the order it makes them.\<close>

datatype 'm call =
    TransitionTo "StateName option"
  | SendSelf "'m option"
  | Post "'m option"

record ('w, 'm, 'e) client =
  what_of :: "'m \<Rightarrow> What"
  ctx_err :: "'w \<Rightarrow> 'e option"
  now :: "'w \<Rightarrow> int"
  st_enter :: "StateName \<Rightarrow> ('w, 'm) machine \<Rightarrow> 'w \<Rightarrow> 'w \<times> 'm call list \<times> 'e option"
  st_exit :: "StateName \<Rightarrow> ('w, 'm) machine \<Rightarrow> 'w \<Rightarrow> 'w \<times> 'm call list \<times> 'e option"
  st_process ::
    "StateName \<Rightarrow> ('w, 'm) machine \<Rightarrow> 'm \<Rightarrow> 'w \<Rightarrow> 'w \<times> 'm call list \<times> bool \<times> 'e option"

section \<open>Building the tree\<close>

definition keepSetup :: "('w, 'm) machine \<Rightarrow> setupError \<Rightarrow> ('w, 'm) machine" where
  "keepSetup m what = (if m_setupErr m = None then m\<lparr>m_setupErr := Some what\<rparr> else m)"

definition Add :: "('w, 'm) machine \<Rightarrow> State option \<Rightarrow> State option \<Rightarrow> ('w, 'm) machine" where
  "Add m s parent =
     (if m_current m \<noteq> '''' then keepSetup m AddAfterStart
      else case s of None \<Rightarrow> keepSetup m AddNil | Some st \<Rightarrow>
      let name = st_name st in
      if name = '''' then keepSetup m EmptyName
      else if m_info m name \<noteq> None then keepSetup m (TwoStates name)
      else case parent of
        None \<Rightarrow>
          m\<lparr>m_info := (m_info m)(name \<mapsto> \<lparr>si_state = st, si_parent = '''', si_active = False\<rparr>),
            m_order := m_order m @ [name]\<rparr>
      | Some p \<Rightarrow>
          if m_info m (st_name p) = None then keepSetup m (ParentMissing name (st_name p))
          else m\<lparr>m_info := (m_info m)(name \<mapsto>
                   \<lparr>si_state = st, si_parent = st_name p, si_active = False\<rparr>),
                 m_order := m_order m @ [name]\<rparr>)"

definition RequireContracts :: "('w, 'm) machine \<Rightarrow> ('w, 'm) machine" where
  "RequireContracts m = m\<lparr>m_contracts := True\<rparr>"

definition OnUnhandled ::
  "('w, 'm) machine \<Rightarrow> ('m \<Rightarrow> StateName \<Rightarrow> 'w \<Rightarrow> 'm \<times> 'w) \<Rightarrow> ('w, 'm) machine"
where
  "OnUnhandled m f = m\<lparr>m_onUnhandled := Some f\<rparr>"

text \<open>
  The walk \<open>for n := name; n != ""; n = m.info[n].parent\<close> that most methods make: the names it
  visits. The bound is the number of states; on a tree that \<open>Add\<close> built it is always enough
  (\<open>ancestors_unfold\<close>).
\<close>

fun walkUp :: "(StateName \<rightharpoonup> stateInfo) \<Rightarrow> nat \<Rightarrow> StateName \<Rightarrow> StateName list" where
  "walkUp info 0 n = []"
| "walkUp info (Suc k) n =
     (if n = '''' then []
      else n # (case info n of None \<Rightarrow> [] | Some i \<Rightarrow> walkUp info k (si_parent i)))"

definition ancestors :: "('w, 'm) machine \<Rightarrow> StateName \<Rightarrow> StateName list" where
  "ancestors m n = walkUp (m_info m) (length (m_order m)) n"

definition Path :: "('w, 'm) machine \<Rightarrow> StateName option \<Rightarrow> string" where
  "Path m s = (case s of None \<Rightarrow> ''''
     | Some n \<Rightarrow> join ''/'' (rev (if m_info m n = None \<and> n \<noteq> '''' then [n] else ancestors m n)))"

definition Current :: "('w, 'm) machine \<Rightarrow> State option" where
  "Current m = map_option si_state (m_info m (m_current m))"

definition Tree :: "('w, 'm) machine \<Rightarrow> string" where
  "Tree m =
     concat (map (\<lambda>n.
        concat (replicate (length (ancestors m (si_parent (the (m_info m n))))) ''  '') @ n @ [CHR 0x0A])
       (m_order m))"

definition States :: "('w, 'm) machine \<Rightarrow> State list" where
  "States m = map (\<lambda>n. si_state (the (m_info m n))) (m_order m)"

section \<open>Contracts (contract.go)\<close>

definition contractOf :: "('w, 'm) machine \<Rightarrow> StateName \<Rightarrow> Contract option" where
  "contractOf m name = (case m_info m name of None \<Rightarrow> None | Some i \<Rightarrow> st_contract (si_state i))"

definition takes :: "Contract \<Rightarrow> What \<Rightarrow> bool" where
  "takes c w \<longleftrightarrow> Refuses c \<or> w \<in> set (Accepts c) \<or> w \<in> set (Ignores c)"

definition takenOnPath :: "('w, 'm) machine \<Rightarrow> StateName \<Rightarrow> What \<Rightarrow> bool" where
  "takenOnPath m name w =
     list_ex (\<lambda>n. case contractOf m n of None \<Rightarrow> False | Some c \<Rightarrow> takes c w) (ancestors m name)"

definition ignoredOnPath :: "('w, 'm) machine \<Rightarrow> StateName \<Rightarrow> What \<Rightarrow> bool" where
  "ignoredOnPath m name w =
     list_ex (\<lambda>n. case contractOf m n of None \<Rightarrow> False | Some c \<Rightarrow> w \<in> set (Ignores c))
       (ancestors m name)"

datatype auditProblem = DeclaresNothing StateName | EmitsUntaken StateName What

definition Audit :: "('w, 'm) machine \<Rightarrow> auditProblem list" where
  "Audit m =
     concat (map (\<lambda>name.
        case contractOf m name of
          None \<Rightarrow> [DeclaresNothing name]
        | Some c \<Rightarrow> map (EmitsUntaken name) (filter (\<lambda>w. \<not> takenOnPath m name w) (Emits c)))
       (m_order m))"

definition checkDeclared :: "('w, 'm) machine \<Rightarrow> StateName list" where
  "checkDeclared m =
     (if \<not> m_contracts m then [] else filter (\<lambda>n. contractOf m n = None) (m_order m))"

definition misuse_at :: "('w, 'm) machine \<Rightarrow> misuse \<Rightarrow> ('w, 'm) machine" where
  "misuse_at m what = (if m_opErr m = None then m\<lparr>m_opErr := Some what\<rparr> else m)"

definition takeOpErr :: "('w, 'm) machine \<Rightarrow> ('w, 'm) machine" where
  "takeOpErr m = m\<lparr>m_opErr := None\<rparr>"

definition checkHandled :: "('w, 'm) machine \<Rightarrow> StateName \<Rightarrow> What \<Rightarrow> ('w, 'm) machine" where
  "checkHandled m name w =
     (if \<not> m_contracts m then m
      else case contractOf m name of
        None \<Rightarrow> m
      | Some c \<Rightarrow> if Refuses c \<or> w \<in> set (Accepts c) then m
                  else misuse_at m (HandledUndeclared name w))"

definition checkEmitted :: "('w, 'm) machine \<Rightarrow> What \<Rightarrow> ('w, 'm) machine" where
  "checkEmitted m w =
     (if \<not> m_contracts m \<or> m_acting m = '''' then m
      else case contractOf m (m_acting m) of
        None \<Rightarrow> m
      | Some c \<Rightarrow> if w \<in> set (Emits c) then m else misuse_at m (SentUndeclared (m_acting m) w))"

definition RequireAt :: "('w, 'm) machine \<Rightarrow> StateName option list \<Rightarrow> 'e smError option" where
  "RequireAt m ss =
     (if Some (m_current m) \<in> set ss then None
      else Some (ErrNotTerminal
        (Path m (if m_info m (m_current m) = None then None else Some (m_current m)))
        (map the (filter (\<lambda>s. s \<noteq> None) ss))))"

section \<open>The calls a state makes\<close>

definition transitionTo :: "('w, 'm) machine \<Rightarrow> StateName option \<Rightarrow> ('w, 'm) machine" where
  "transitionTo m s =
     (case s of None \<Rightarrow> misuse_at m TransitionNil | Some name \<Rightarrow>
      if m_inTransition m then misuse_at m TransitionInside
      else if \<not> m_inState m then misuse_at m TransitionOutside
      else if m_haveDest m then misuse_at m (TransitionTwice (m_dest m))
      else if m_info m name = None then misuse_at m (TransitionUnknown name)
      else m\<lparr>m_dest := name, m_haveDest := True\<rparr>)"

definition sendSelf :: "('m \<Rightarrow> What) \<Rightarrow> ('w, 'm) machine \<Rightarrow> 'm option \<Rightarrow> ('w, 'm) machine" where
  "sendSelf what m msg =
     (case msg of None \<Rightarrow> misuse_at m SelfNil | Some x \<Rightarrow>
      if \<not> m_inState m then misuse_at m SelfOutside
      else (let m' = checkEmitted m (what x) in m'\<lparr>m_self := m_self m' @ [x]\<rparr>))"

definition post :: "('w, 'm) machine \<Rightarrow> 'm option \<Rightarrow> ('w, 'm) machine" where
  "post m msg = (case msg of None \<Rightarrow> m | Some x \<Rightarrow> m\<lparr>m_inbox := m_inbox m @ [x]\<rparr>)"

fun do_call :: "('m \<Rightarrow> What) \<Rightarrow> ('w, 'm) machine \<Rightarrow> 'm call \<Rightarrow> ('w, 'm) machine" where
  "do_call what m (TransitionTo s) = transitionTo m s"
| "do_call what m (SendSelf x) = sendSelf what m x"
| "do_call what m (Post x) = post m x"

definition do_calls :: "('m \<Rightarrow> What) \<Rightarrow> ('w, 'm) machine \<Rightarrow> 'm call list \<Rightarrow> ('w, 'm) machine" where
  "do_calls what m cs = foldl (do_call what) m cs"

definition logRecord ::
  "('w, 'm, 'e) client \<Rightarrow> ('w, 'm) machine \<Rightarrow> 'w \<Rightarrow> 'm \<Rightarrow> StateName \<Rightarrow> StateName \<Rightarrow> StateName
     \<Rightarrow> ('w, 'm) machine"
where
  "logRecord C m w msg processed original dest =
     m\<lparr>m_log := ring_add (m_log m)
        \<lparr>rec_time = now C w, rec_what = what_of C msg, rec_processed = processed,
         rec_original = original, rec_dest = dest\<rparr>\<rparr>"

section \<open>Transitions\<close>

definition setActive :: "('w, 'm) machine \<Rightarrow> StateName \<Rightarrow> bool \<Rightarrow> ('w, 'm) machine" where
  "setActive m name b =
     m\<lparr>m_info := (m_info m)(name := map_option (\<lambda>i. i\<lparr>si_active := b\<rparr>) (m_info m name))\<rparr>"

definition isActive :: "('w, 'm) machine \<Rightarrow> StateName \<Rightarrow> bool" where
  "isActive m name = (case m_info m name of None \<Rightarrow> False | Some i \<Rightarrow> si_active i)"

text \<open>
  The first loop of \<open>performTransition\<close>, over the names from the destination up: what is entered,
  innermost first, and the nearest active ancestor (empty when there is none).
\<close>

fun splitEntering :: "('w, 'm) machine \<Rightarrow> StateName list \<Rightarrow> StateName list \<times> StateName" where
  "splitEntering m [] = ([], '''')"
| "splitEntering m [n] = ([n], '''')"
| "splitEntering m (n # p # ns) =
     (if isActive m p then ([n], p)
      else (case splitEntering m (p # ns) of (e, a) \<Rightarrow> (n # e, a)))"

fun runExits ::
  "('w, 'm, 'e) client \<Rightarrow> ('w, 'm) machine \<Rightarrow> 'w \<Rightarrow> StateName list
     \<Rightarrow> ('w, 'm) machine \<times> 'w \<times> 'e smError option"
where
  "runExits C m w [] = (m, w, None)"
| "runExits C m w (n # ns) =
     (let m1 = m\<lparr>m_acting := n\<rparr>;
          (w2, cs, err) = st_exit C n m1 w;
          m2 = do_calls (what_of C) m1 cs
      in case err of
           Some e \<Rightarrow> (m2, w2, Some (LeavingErr n e))
         | None \<Rightarrow> runExits C (setActive m2 n False) w2 ns)"

fun runEnters ::
  "('w, 'm, 'e) client \<Rightarrow> ('w, 'm) machine \<Rightarrow> 'w \<Rightarrow> StateName list
     \<Rightarrow> ('w, 'm) machine \<times> 'w \<times> 'e smError option"
where
  "runEnters C m w [] = (m, w, None)"
| "runEnters C m w (n # ns) =
     (let m1 = m\<lparr>m_acting := n\<rparr>;
          (w2, cs, err) = st_enter C n m1 w;
          m2 = do_calls (what_of C) m1 cs
      in case err of
           Some e \<Rightarrow> (m2, w2, Some (EnteringErr n e))
         | None \<Rightarrow> runEnters C (setActive m2 n True) w2 ns)"

text \<open>The deferred assignments of \<open>performTransition\<close>.\<close>

definition leaveTransition :: "('w, 'm) machine \<Rightarrow> ('w, 'm) machine" where
  "leaveTransition m = m\<lparr>m_inState := False, m_inTransition := False, m_acting := ''''\<rparr>"

definition performTransition ::
  "('w, 'm, 'e) client \<Rightarrow> ('w, 'm) machine \<Rightarrow> 'w \<Rightarrow> ('w, 'm) machine \<times> 'w \<times> 'e smError option"
where
  "performTransition C m w =
     (if \<not> m_haveDest m then (m, w, None)
      else
        let dest = m_dest m;
            m0 = m\<lparr>m_dest := '''', m_haveDest := False\<rparr>;
            (entering, ancestor) = splitEntering m0 (ancestors m0 dest);
            m1 = m0\<lparr>m_inState := True, m_inTransition := True\<rparr>;
            exiting = takeWhile (\<lambda>n. n \<noteq> ancestor) (ancestors m1 (m_current m1));
            (m2, w2, e2) = runExits C m1 w exiting
        in case e2 of
             Some e \<Rightarrow> (leaveTransition m2, w2, Some e)
           | None \<Rightarrow>
               (let (m3, w3, e3) = runEnters C m2 w2 (rev entering)
                in case e3 of
                     Some e \<Rightarrow> (leaveTransition m3, w3, Some e)
                   | None \<Rightarrow> (leaveTransition (m3\<lparr>m_current := dest\<rparr>), w3, None)))"

section \<open>Dispatching a message\<close>

text \<open>
  The loop of \<open>dispatch\<close> over the current state and its ancestors. The result is the name of the
  state that handled the message (empty for none), or the error a state returned with its name.
\<close>

fun offer ::
  "('w, 'm, 'e) client \<Rightarrow> ('w, 'm) machine \<Rightarrow> 'w \<Rightarrow> 'm \<Rightarrow> StateName list
     \<Rightarrow> ('w, 'm) machine \<times> 'w \<times> (StateName \<times> 'e + StateName)"
where
  "offer C m w msg [] = (m, w, Inr '''')"
| "offer C m w msg (n # ns) =
     (let m1 = m\<lparr>m_acting := n\<rparr>;
          (w2, cs, ok, err) = st_process C n m1 msg w;
          m2 = do_calls (what_of C) m1 cs
      in case err of
           Some e \<Rightarrow> (m2, w2, Inl (n, e))
         | None \<Rightarrow> if ok then (checkHandled m2 n (what_of C msg), w2, Inr n)
                   else offer C m2 w2 msg ns)"

definition leaveState :: "('w, 'm) machine \<Rightarrow> ('w, 'm) machine" where
  "leaveState m = m\<lparr>m_inState := False, m_acting := ''''\<rparr>"

definition unhandledErr ::
  "('w, 'm, 'e) client \<Rightarrow> ('w, 'm) machine \<Rightarrow> 'm \<Rightarrow> StateName \<Rightarrow> 'e smError"
where
  "unhandledErr C m msg at = ErrUnhandled (what_of C msg) (Path m (Some at))"

text \<open>
  \<open>dispatch\<close> and \<open>failUnhandled\<close> call each other. The body of \<open>dispatch\<close> is written over the
  failure path \<open>fail\<close>; \<open>failUnhandled\<close> over the dispatch it calls. \<open>inFailure\<close> cuts the recursion
  at the second level, and \<open>dispatch_eq\<close> below is the source's own recursive equation.
\<close>

definition dispatchBody ::
  "(('w, 'm) machine \<Rightarrow> 'w \<Rightarrow> 'm \<Rightarrow> StateName \<Rightarrow> ('w, 'm) machine \<times> 'w \<times> 'e smError option)
     \<Rightarrow> ('w, 'm, 'e) client \<Rightarrow> ('w, 'm) machine \<Rightarrow> 'w \<Rightarrow> 'm
     \<Rightarrow> ('w, 'm) machine \<times> 'w \<times> 'e smError option"
where
  "dispatchBody fail C m w msg =
     (case ctx_err C w of Some e \<Rightarrow> (m, w, Some (CtxErr e)) | None \<Rightarrow>
      let original = m_current m;
          (m1, w1, r) = offer C (m\<lparr>m_inState := True\<rparr>) w msg (ancestors m original);
          m2 = leaveState m1
      in case r of
           Inl (n, e) \<Rightarrow>
             (logRecord C m2 w1 msg n original '''', w1, Some (ProcessErr n (what_of C msg) e))
         | Inr handled \<Rightarrow>
             if m_opErr m2 \<noteq> None then
               (takeOpErr (logRecord C m2 w1 msg handled original ''''), w1,
                map_option MisuseErr (m_opErr m2))
             else if handled = '''' \<and> \<not> ignoredOnPath m2 original (what_of C msg) then
               fail (logRecord C m2 w1 msg '''' original '''') w1 msg original
             else
               (let dest = (if m_haveDest m2 then m_dest m2 else '''');
                    (m3, w3, err) = performTransition C m2 w1;
                    m4 = logRecord C m3 w3 msg handled original dest
                in case err of
                     Some e \<Rightarrow> (m4, w3, Some e)
                   | None \<Rightarrow>
                       if m_opErr m4 \<noteq> None then (takeOpErr m4, w3, map_option MisuseErr (m_opErr m4))
                       else (m4, w3, None)))"

definition failUnhandled ::
  "(('w, 'm) machine \<Rightarrow> 'w \<Rightarrow> 'm \<Rightarrow> ('w, 'm) machine \<times> 'w \<times> 'e smError option)
     \<Rightarrow> ('w, 'm, 'e) client \<Rightarrow> ('w, 'm) machine \<Rightarrow> 'w \<Rightarrow> 'm \<Rightarrow> StateName
     \<Rightarrow> ('w, 'm) machine \<times> 'w \<times> 'e smError option"
where
  "failUnhandled disp C m w msg at =
     (case m_onUnhandled m of
        None \<Rightarrow> (m, w, Some (unhandledErr C m msg at))
      | Some f \<Rightarrow>
          if m_inFailure m then (m, w, Some (unhandledErr C m msg at))
          else (let (msg', w') = f msg at w;
                    (m2, w2, err) = disp (m\<lparr>m_inFailure := True\<rparr>) w' msg'
                in (m2\<lparr>m_inFailure := False\<rparr>, w2, err)))"

text \<open>A dispatch made while \<open>inFailure\<close> is set: its failure path returns at once.\<close>

definition dispatchFailing ::
  "('w, 'm, 'e) client \<Rightarrow> ('w, 'm) machine \<Rightarrow> 'w \<Rightarrow> 'm \<Rightarrow> ('w, 'm) machine \<times> 'w \<times> 'e smError option"
where
  "dispatchFailing C m w msg =
     dispatchBody (\<lambda>m' w' msg' at. (m', w', Some (unhandledErr C m' msg' at))) C m w msg"

definition dispatch ::
  "('w, 'm, 'e) client \<Rightarrow> ('w, 'm) machine \<Rightarrow> 'w \<Rightarrow> 'm \<Rightarrow> ('w, 'm) machine \<times> 'w \<times> 'e smError option"
where
  "dispatch C m w msg = dispatchBody (failUnhandled (dispatchFailing C) C) C m w msg"

section \<open>Start and Send\<close>

definition maxDispatchPerSend :: nat where "maxDispatchPerSend = 1000"

text \<open>\<open>drain\<close>: the argument is how many more messages the loop may take, from 1000 down.\<close>

fun drain ::
  "('w, 'm, 'e) client \<Rightarrow> nat \<Rightarrow> ('w, 'm) machine \<Rightarrow> 'w \<Rightarrow> ('w, 'm) machine \<times> 'w \<times> 'e smError option"
where
  "drain C 0 m w = (m, w, Some (Looping maxDispatchPerSend (m_current m)))"
| "drain C (Suc k) m w =
     (case m_self m of
        msg # rest \<Rightarrow>
          (case dispatch C (m\<lparr>m_self := rest\<rparr>) w msg of
             (m', w', Some e) \<Rightarrow> (m', w', Some e) | (m', w', None) \<Rightarrow> drain C k m' w')
      | [] \<Rightarrow>
          (case m_inbox m of
             msg # rest \<Rightarrow>
               (case dispatch C (m\<lparr>m_inbox := rest\<rparr>) w msg of
                  (m', w', Some e) \<Rightarrow> (m', w', Some e) | (m', w', None) \<Rightarrow> drain C k m' w')
           | [] \<Rightarrow> (m, w, None)))"

definition Start ::
  "('w, 'm, 'e) client \<Rightarrow> ('w, 'm) machine \<Rightarrow> 'w \<Rightarrow> StateName option
     \<Rightarrow> ('w, 'm) machine \<times> 'w \<times> 'e smError option"
where
  "Start C m w initial =
     (case m_setupErr m of Some e \<Rightarrow> (m, w, Some (SetupErr e)) | None \<Rightarrow>
      if checkDeclared m \<noteq> [] then (m, w, Some (NoContracts (checkDeclared m)))
      else if m_current m \<noteq> '''' then (m, w, Some (AlreadyStarted (m_current m)))
      else case initial of None \<Rightarrow> (m, w, Some StartNil) | Some name \<Rightarrow>
      if m_info m name = None then (m, w, Some (NeverAdded name))
      else
        let (m1, w1, err) =
              performTransition C (m\<lparr>m_sending := True, m_dest := name, m_haveDest := True\<rparr>) w;
            (m2, w2, err2) =
              (case err of Some e \<Rightarrow> (m1, w1, Some e)
               | None \<Rightarrow>
                   if m_opErr m1 \<noteq> None then (takeOpErr m1, w1, map_option MisuseErr (m_opErr m1))
                   else drain C maxDispatchPerSend m1 w1)
        in (m2\<lparr>m_sending := False\<rparr>, w2, err2))"

definition Send ::
  "('w, 'm, 'e) client \<Rightarrow> ('w, 'm) machine \<Rightarrow> 'w \<Rightarrow> 'm option
     \<Rightarrow> ('w, 'm) machine \<times> 'w \<times> 'e smError option"
where
  "Send C m w msg =
     (if m_sending m then (m, w, Some SendReentrant)
      else if m_current m = '''' then (m, w, Some SendBeforeStart)
      else case msg of None \<Rightarrow> (m, w, Some SendNil) | Some x \<Rightarrow>
        let (m1, w1, err) = dispatch C (m\<lparr>m_sending := True\<rparr>) w x;
            (m2, w2, err2) =
              (case err of Some e \<Rightarrow> (m1, w1, Some e) | None \<Rightarrow> drain C maxDispatchPerSend m1 w1)
        in (m2\<lparr>m_sending := False\<rparr>, w2, err2))"

end
