(* ===== verification/Machine_Tree.thy ===== *)
theory Machine_Tree
  imports Statemachine
begin

text \<open>
  Lemmas on the state machine's data: the log ring keeps the last records in order; the tree that
  \<open>Add\<close> builds is well-formed, so every walk towards the root ends at the root; and what a state's
  calls leave untouched.
\<close>

section \<open>The log ring keeps the newest records\<close>

text \<open>
  The interface of a bounded history: adding a record keeps the newest \<open>cap\<close> of what was there.
\<close>

locale bounded_history =
  fixes add :: "'s \<Rightarrow> 'r \<Rightarrow> 's"
    and contents :: "'s \<Rightarrow> 'r list"
    and valid :: "'s \<Rightarrow> bool"
    and cap :: nat
  assumes cap_pos: "0 < cap"
    and valid_add: "valid s \<Longrightarrow> valid (add s x)"
    and contents_bound: "valid s \<Longrightarrow> length (contents s) \<le> cap"
    and contents_add: "valid s \<Longrightarrow>
      contents (add s x) = (if length (contents s) < cap then contents s @ [x] else tl (contents s) @ [x])"
begin

definition newest :: "'r list \<Rightarrow> 'r list" where
  "newest xs = drop (length xs - cap) xs"

lemma newest_snoc:
  "newest (xs @ [x]) = (if length (newest xs) < cap then newest xs @ [x] else tl (newest xs) @ [x])"
  using cap_pos by (auto simp: newest_def tl_drop Suc_diff_le drop_Suc simp flip: drop_Suc)

lemma fold_add:
  assumes "valid s" and "contents s = newest ys"
  shows "valid (foldl add s xs) \<and> contents (foldl add s xs) = newest (ys @ xs)"
  using assms
proof (induction xs arbitrary: s ys)
  case (Cons x xs)
  have "contents (add s x) = newest (ys @ [x])"
    using Cons.prems by (simp add: contents_add newest_snoc)
  with Cons.IH [of "add s x" "ys @ [x]"] Cons.prems show ?case
    by (simp add: valid_add)
qed simp

lemma contents_after:
  "valid s \<Longrightarrow> contents s = [] \<Longrightarrow> contents (foldl add s xs) = drop (length xs - cap) xs"
  using fold_add [of s "[]" xs] by (simp add: newest_def)

end

definition ring_ok :: "nat \<Rightarrow> ring \<Rightarrow> bool" where
  "ring_ok n r \<longleftrightarrow> 0 < n \<and> length (recs r) = n \<and> ring_next r = wrote r mod n"

lemma ring_ok_new: "0 < n \<Longrightarrow> ring_ok n (newRing n)"
  by (simp add: ring_ok_def newRing_def)

lemma ring_ok_add: "ring_ok n r \<Longrightarrow> ring_ok n (ring_add r x)"
  by (simp add: ring_ok_def ring_add_def mod_Suc_eq)

lemma ring_all_new [simp]: "ring_all (newRing n) = []"
  by (simp add: ring_all_def newRing_def)

lemma length_ring_all: "ring_ok n r \<Longrightarrow> length (ring_all r) = min (wrote r) n"
  by (simp add: ring_all_def ring_ok_def Let_def min_def)

text \<open>The record read at position \<open>i\<close> is the slot the \<open>i\<close>-th oldest kept record was written to.\<close>

lemma nth_ring_all:
  assumes "ring_ok n r" and "i < min (wrote r) n"
  shows "ring_all r ! i = recs r ! ((wrote r - min (wrote r) n + i) mod n)"
proof -
  have n: "0 < n" "length (recs r) = n" "ring_next r = wrote r mod n"
    using assms(1) by (auto simp: ring_ok_def)
  have eq: "((wrote r mod n + n - min (wrote r) n) mod n + i) mod n
      = (wrote r - min (wrote r) n + i) mod n"
  proof (cases "wrote r < n")
    case True
    then show ?thesis using n by simp
  next
    case False
    then have "(wrote r - n) mod n = wrote r mod n"
      by (simp add: le_mod_geq)
    moreover have "min (wrote r) n = n" using False by simp
    ultimately show ?thesis
      using mod_add_left_eq [of "wrote r" n i] mod_add_left_eq [of "wrote r - n" n i] by simp
  qed
  have "(if wrote r > length (recs r) then length (recs r) else wrote r) = min (wrote r) n"
    using n by (simp add: min_def)
  then show ?thesis
    using assms(2) n eq by (simp add: ring_all_def Let_def)
qed

lemma ring_all_add:
  assumes ok: "ring_ok n r"
  shows "ring_all (ring_add r x) =
     (if length (ring_all r) < n then ring_all r @ [x] else tl (ring_all r) @ [x])"
proof -
  have n: "0 < n" "length (recs r) = n" "ring_next r = wrote r mod n"
    using ok by (auto simp: ring_ok_def)
  note ok' = ring_ok_add [OF ok, of x]
  have w: "wrote (ring_add r x) = Suc (wrote r)"
    and rs: "recs (ring_add r x) = (recs r)[wrote r mod n := x]"
    by (simp_all add: ring_add_def n)
  show ?thesis
  proof (rule nth_equalityI)
    show "length (ring_all (ring_add r x)) =
        length (if length (ring_all r) < n then ring_all r @ [x] else tl (ring_all r) @ [x])"
      using ok ok' w n by (auto simp: length_ring_all min_def)
  next
    fix i assume "i < length (ring_all (ring_add r x))"
    then have i: "i < min (Suc (wrote r)) n" using ok' w by (simp add: length_ring_all)
    have lhs: "ring_all (ring_add r x) ! i =
        (recs r)[wrote r mod n := x] ! ((Suc (wrote r) - min (Suc (wrote r)) n + i) mod n)"
      using nth_ring_all [OF ok'] i by (simp add: w rs)
    show "ring_all (ring_add r x) ! i =
        (if length (ring_all r) < n then ring_all r @ [x] else tl (ring_all r) @ [x]) ! i"
    proof (cases "wrote r < n")
      case True
      then have "ring_all (ring_add r x) ! i = (recs r)[wrote r := x] ! i"
        using lhs i by (simp add: min_def split: if_splits)
      moreover have "i < wrote r \<Longrightarrow> ring_all r ! i = recs r ! i"
        using nth_ring_all [OF ok, of i] True by simp
      moreover have "length (ring_all r) = wrote r" using ok True by (simp add: length_ring_all)
      ultimately show ?thesis
        using True i n by (auto simp: nth_append nth_list_update min_def split: if_splits)
    next
      case False
      define k where "k = wrote r - n"
      have wk: "wrote r = n + k" using False by (simp add: k_def)
      have len: "length (ring_all r) = n" using ok False by (simp add: length_ring_all)
      have l: "ring_all (ring_add r x) ! i = (recs r)[k mod n := x] ! ((Suc k + i) mod n)"
        using lhs i by (simp add: wk)
      show ?thesis
      proof (cases "Suc i < n")
        case True
        have "(Suc k + i) mod n \<noteq> k mod n"
        proof
          assume "(Suc k + i) mod n = k mod n"
          then have "n dvd (Suc k + i) - k" by (subst (asm) mod_eq_dvd_iff_nat) simp_all
          then have "n dvd Suc i" by simp
          with True show False by (auto dest: dvd_imp_le)
        qed
        then have "ring_all (ring_add r x) ! i = recs r ! ((Suc k + i) mod n)"
          using l by simp
        moreover have "ring_all r ! Suc i = recs r ! ((k + Suc i) mod n)"
          using nth_ring_all [OF ok, of "Suc i"] True by (simp add: wk)
        ultimately show ?thesis using True len by (simp add: nth_append nth_tl)
      next
        case False
        then have "Suc i = n" using i by simp
        then have "(Suc k + i) mod n = k mod n" by (metis add_Suc add_Suc_right mod_add_self2)
        then show ?thesis using l n len \<open>Suc i = n\<close> by (simp add: nth_append)
      qed
    qed
  qed
qed

interpretation log20: bounded_history ring_add ring_all "ring_ok defaultLogSize" defaultLogSize
proof unfold_locales
  fix s x assume ok: "ring_ok defaultLogSize s"
  show "ring_ok defaultLogSize (ring_add s x)" by (rule ring_ok_add [OF ok])
  show "length (ring_all s) \<le> defaultLogSize" using ok by (simp add: length_ring_all)
  show "ring_all (ring_add s x) = (if length (ring_all s) < defaultLogSize
      then ring_all s @ [x] else tl (ring_all s) @ [x])"
    by (rule ring_all_add [OF ok])
qed (simp add: defaultLogSize_def)

text \<open>
  The log ring of a fresh machine answers "what happened just before": after any
  sequence of records it holds exactly the newest twenty, oldest first, and never anything else.
\<close>

theorem log_keeps_newest:
  "ring_all (foldl ring_add (newRing defaultLogSize) rs) = drop (length rs - defaultLogSize) rs"
  by (rule log20.contents_after) (simp_all add: ring_ok_new defaultLogSize_def)

section \<open>The tree Add builds\<close>

definition parentOf :: "(StateName \<rightharpoonup> stateInfo) \<Rightarrow> StateName \<Rightarrow> StateName" where
  "parentOf info n = (case info n of None \<Rightarrow> '''' | Some i \<Rightarrow> si_parent i)"

text \<open>Every state was added once, under no parent or under one added before it.\<close>

definition wf_tree :: "(StateName \<rightharpoonup> stateInfo) \<Rightarrow> StateName list \<Rightarrow> bool" where
  "wf_tree info ord \<longleftrightarrow>
     distinct ord \<and> dom info = set ord \<and> '''' \<notin> set ord
     \<and> (\<forall>k < length ord. parentOf info (ord ! k) \<in> insert '''' (set (take k ord)))"

abbreviation wf_machine :: "('w, 'm) machine \<Rightarrow> bool" where
  "wf_machine m \<equiv> wf_tree (m_info m) (m_order m)"

lemma wf_tree_New [simp]: "wf_machine New"
  by (simp add: wf_tree_def New_def)

lemma wf_tree_insert:
  assumes wf: "wf_tree info ord" and n: "n \<noteq> ''''" "info n = None"
    and p: "si_parent i = '''' \<or> si_parent i \<in> dom info"
  shows "wf_tree (info(n \<mapsto> i)) (ord @ [n])"
proof -
  have notin: "n \<notin> set ord" using wf n by (metis domIff wf_tree_def)
  have "parentOf (info(n \<mapsto> i)) ((ord @ [n]) ! k) \<in> insert '''' (set (take k (ord @ [n])))"
    if k: "k < length (ord @ [n])" for k
  proof (cases "k = length ord")
    case True
    then show ?thesis using p wf by (auto simp: parentOf_def wf_tree_def)
  next
    case False
    with k have "k < length ord" by simp
    then have "ord ! k \<noteq> n" using notin by auto
    then show ?thesis
      using wf \<open>k < length ord\<close> by (simp add: parentOf_def wf_tree_def nth_append)
  qed
  then show ?thesis
    using wf notin n by (auto simp: wf_tree_def)
qed

lemma wf_tree_Add: "wf_machine m \<Longrightarrow> wf_machine (Add m s parent)"
  by (auto simp: Add_def keepSetup_def Let_def split: option.splits intro!: wf_tree_insert)

text \<open>Walks do not depend on the bound, as long as it covers the states added so far.\<close>

lemma walkUp_Nil [simp]: "walkUp info k '''' = []"
  by (cases k) simp_all

lemma walkUp_bound:
  assumes wf: "wf_tree info ord"
  shows "\<lbrakk>j < length ord; j < k; j < k'\<rbrakk> \<Longrightarrow> walkUp info k (ord ! j) = walkUp info k' (ord ! j)"
proof (induction j arbitrary: k k' rule: less_induct)
  case (less j)
  obtain a b where k: "k = Suc a" "k' = Suc b" using less.prems by (cases k; cases k') auto
  have "ord ! j \<in> dom info" using wf less.prems by (simp add: wf_tree_def)
  then obtain i where i: "info (ord ! j) = Some i" by blast
  have "si_parent i = '''' \<or> si_parent i \<in> set (take j ord)"
    using wf less.prems(1) i by (auto simp: wf_tree_def parentOf_def)
  then have "walkUp info a (si_parent i) = walkUp info b (si_parent i)"
  proof
    assume "si_parent i \<in> set (take j ord)"
    then obtain j' where "j' < j" "si_parent i = ord ! j'"
      using less.prems(1) by (auto simp: in_set_conv_nth)
    then show ?thesis using less.IH [of j' a b] less.prems k by simp
  qed simp
  then show ?case using i k by simp
qed

lemma walkUp_unfold:
  assumes wf: "wf_tree info ord" and i: "info n = Some i"
  shows "walkUp info (length ord) n = n # walkUp info (length ord) (si_parent i)"
proof -
  have dom: "n \<in> set ord" using wf i by (auto simp: wf_tree_def)
  then obtain j where j: "j < length ord" "n = ord ! j" by (auto simp: in_set_conv_nth)
  have n: "n \<noteq> ''''" using wf dom by (auto simp: wf_tree_def)
  obtain k where k: "length ord = Suc k" using j by (cases "length ord") auto
  have "si_parent i = '''' \<or> si_parent i \<in> set (take j ord)"
    using wf j i by (auto simp: wf_tree_def parentOf_def)
  then have "walkUp info k (si_parent i) = walkUp info (length ord) (si_parent i)"
  proof
    assume "si_parent i \<in> set (take j ord)"
    then obtain j' where "j' < j" "si_parent i = ord ! j'"
      using j(1) by (auto simp: in_set_conv_nth)
    then show ?thesis using walkUp_bound [OF wf, of j' k "length ord"] j k by simp
  qed simp
  then show ?thesis using n i k by simp
qed

lemma ancestors_Nil [simp]: "ancestors m '''' = []"
  by (simp add: ancestors_def)

lemma ancestors_unfold:
  "\<lbrakk>wf_machine m; m_info m n = Some i\<rbrakk> \<Longrightarrow> ancestors m n = n # ancestors m (si_parent i)"
  by (simp add: ancestors_def walkUp_unfold)

lemma wf_parent:
  assumes "wf_machine m" "m_info m n = Some i"
  shows "si_parent i = '''' \<or> si_parent i \<in> dom (m_info m)"
proof -
  have "n \<in> set (m_order m)" using assms by (auto simp: wf_tree_def)
  then obtain j where "j < length (m_order m)" "n = m_order m ! j" by (auto simp: in_set_conv_nth)
  then have "si_parent i \<in> insert '''' (set (take j (m_order m)))"
    using assms by (auto simp: wf_tree_def parentOf_def)
  then show ?thesis using assms(1) by (auto simp: wf_tree_def dest: in_set_takeD)
qed

text \<open>
  Induction along the tree: from a state to its parent, up to the root. It is the induction every
  statement about ancestors uses.
\<close>

lemma tree_induct [consumes 2, case_names root child]:
  assumes wf: "wf_machine m" and n: "n \<in> dom (m_info m)"
    and root: "\<And>n i. m_info m n = Some i \<Longrightarrow> si_parent i = '''' \<Longrightarrow> P n"
    and child: "\<And>n i. m_info m n = Some i \<Longrightarrow> si_parent i \<in> dom (m_info m) \<Longrightarrow> P (si_parent i) \<Longrightarrow> P n"
  shows "P n"
proof -
  have "P (m_order m ! j)" if "j < length (m_order m)" for j
    using that
  proof (induction j rule: less_induct)
    case (less j)
    then have "m_order m ! j \<in> dom (m_info m)" using wf by (simp add: wf_tree_def)
    then obtain i where i: "m_info m (m_order m ! j) = Some i" by blast
    have "si_parent i \<in> insert '''' (set (take j (m_order m)))"
      using wf less.prems i by (auto simp: wf_tree_def parentOf_def)
    then consider "si_parent i = ''''"
      | j' where "j' < j" "si_parent i = m_order m ! j'"
      using less.prems by (auto simp: in_set_conv_nth)
    then show ?case
    proof cases
      case 1
      then show ?thesis using root i by blast
    next
      case 2
      then have "P (si_parent i)" "si_parent i \<in> dom (m_info m)"
        using less wf by (auto simp: wf_tree_def)
      then show ?thesis using child i by blast
    qed
  qed
  moreover have "n \<in> set (m_order m)" using wf n by (simp add: wf_tree_def)
  ultimately show ?thesis by (auto simp: in_set_conv_nth)
qed

lemma ancestors_dom:
  assumes wf: "wf_machine m" and "n \<in> dom (m_info m)"
  shows "set (ancestors m n) \<subseteq> dom (m_info m)"
  using assms
proof (induction rule: tree_induct)
  case (root n i)
  then show ?case using wf by (simp add: ancestors_unfold domI)
next
  case (child n i)
  then show ?case using wf by (simp add: ancestors_unfold domI)
qed

lemma ancestors_suffix:
  assumes "wf_machine m" "n \<in> dom (m_info m)" "a \<in> set (ancestors m n)"
  shows "\<exists>xs. ancestors m n = xs @ ancestors m a \<and> a \<notin> set xs"
  using assms
proof (induction rule: tree_induct)
  case (root n i)
  then show ?case using assms(1) by (auto simp: ancestors_unfold intro!: exI [of _ "[]"])
next
  case (child n i)
  show ?case
  proof (cases "a = n")
    case True
    then show ?thesis by (intro exI [of _ "[]"]) simp
  next
    case False
    then have "a \<in> set (ancestors m (si_parent i))"
      using child assms(1) by (simp add: ancestors_unfold)
    then obtain xs where "ancestors m (si_parent i) = xs @ ancestors m a" "a \<notin> set xs"
      using child by blast
    then show ?thesis
      using False child(1) assms(1) by (intro exI [of _ "n # xs"]) (simp add: ancestors_unfold)
  qed
qed

lemma ancestors_refl: "\<lbrakk>wf_machine m; n \<in> dom (m_info m)\<rbrakk> \<Longrightarrow> n \<in> set (ancestors m n)"
  by (auto simp: ancestors_unfold)

lemma ancestors_distinct:
  assumes wf: "wf_machine m" and "n \<in> dom (m_info m)"
  shows "distinct (ancestors m n)"
  using assms
proof (induction rule: tree_induct)
  case (root n i)
  then show ?case using wf by (simp add: ancestors_unfold)
next
  case (child n i)
  have "n \<notin> set (ancestors m (si_parent i))"
  proof
    assume "n \<in> set (ancestors m (si_parent i))"
    then obtain xs where "ancestors m (si_parent i) = xs @ ancestors m n"
      using ancestors_suffix [OF wf child(2)] by blast
    then have "length (ancestors m (si_parent i)) \<ge> Suc (length (ancestors m (si_parent i)))"
      using wf child(1) by (metis ancestors_unfold length_Cons length_append le_add2)
    then show False by simp
  qed
  then show ?case using wf child by (simp add: ancestors_unfold)
qed

end
