(* ===== verification/Machine_Laws.thy ===== *)
theory Machine_Laws
  imports Machine_Tree
begin

text \<open>
  What the state machine guarantees. The calls of a state leave the tree, the current state and the
  flags alone (frame lemmas); a transition ends with exactly the destination's path active; a
  \<open>Send\<close> keeps the machine settled and ends at rest; \<open>dispatch\<close> satisfies the source's recursive
  equation; the work of one \<open>Send\<close> is bounded.
\<close>

section \<open>What the calls of a state leave alone\<close>

lemma misuse_at_frame [simp]:
  "m_info (misuse_at m x) = m_info m" "m_order (misuse_at m x) = m_order m"
  "m_current (misuse_at m x) = m_current m" "m_dest (misuse_at m x) = m_dest m"
  "m_haveDest (misuse_at m x) = m_haveDest m" "m_sending (misuse_at m x) = m_sending m"
  "m_inState (misuse_at m x) = m_inState m" "m_inTransition (misuse_at m x) = m_inTransition m"
  "m_contracts (misuse_at m x) = m_contracts m" "m_onUnhandled (misuse_at m x) = m_onUnhandled m"
  "m_acting (misuse_at m x) = m_acting m" "m_inFailure (misuse_at m x) = m_inFailure m"
  "m_log (misuse_at m x) = m_log m" "m_self (misuse_at m x) = m_self m"
  "m_inbox (misuse_at m x) = m_inbox m" "m_setupErr (misuse_at m x) = m_setupErr m"
  "m_opErr (misuse_at m x) = (if m_opErr m = None then Some x else m_opErr m)"
  by (simp_all add: misuse_at_def)

text \<open>A check either passes or records one misuse.\<close>

lemma check_cases:
  "checkEmitted m w = m \<or> (\<exists>x. checkEmitted m w = misuse_at m x)"
  "checkHandled m n w = m \<or> (\<exists>x. checkHandled m n w = misuse_at m x)"
  by (auto simp: checkEmitted_def checkHandled_def split: option.splits)

lemma check_frame [simp]:
  "m_info (checkHandled m n w) = m_info m" "m_order (checkHandled m n w) = m_order m"
  "m_current (checkHandled m n w) = m_current m" "m_dest (checkHandled m n w) = m_dest m"
  "m_haveDest (checkHandled m n w) = m_haveDest m" "m_sending (checkHandled m n w) = m_sending m"
  "m_inState (checkHandled m n w) = m_inState m"
  "m_inTransition (checkHandled m n w) = m_inTransition m"
  "m_onUnhandled (checkHandled m n w) = m_onUnhandled m"
  "m_contracts (checkHandled m n w) = m_contracts m"
  "m_inFailure (checkHandled m n w) = m_inFailure m" "m_log (checkHandled m n w) = m_log m"
  "m_setupErr (checkHandled m n w) = m_setupErr m"
  using check_cases(2) [of m n w] by auto

lemma do_call_frame [simp]:
  "m_info (do_call wh m c) = m_info m" "m_order (do_call wh m c) = m_order m"
  "m_current (do_call wh m c) = m_current m" "m_sending (do_call wh m c) = m_sending m"
  "m_inState (do_call wh m c) = m_inState m" "m_inTransition (do_call wh m c) = m_inTransition m"
  "m_contracts (do_call wh m c) = m_contracts m" "m_onUnhandled (do_call wh m c) = m_onUnhandled m"
  "m_acting (do_call wh m c) = m_acting m" "m_inFailure (do_call wh m c) = m_inFailure m"
  "m_log (do_call wh m c) = m_log m" "m_setupErr (do_call wh m c) = m_setupErr m"
  by (cases c; simp add: transitionTo_def sendSelf_def post_def checkEmitted_def Let_def
        split: option.splits)+

lemma do_calls_simps [simp]:
  "do_calls wh m [] = m" "do_calls wh m (c # cs) = do_calls wh (do_call wh m c) cs"
  by (simp_all add: do_calls_def)

lemma do_calls_frame [simp]:
  "m_info (do_calls wh m cs) = m_info m" "m_order (do_calls wh m cs) = m_order m"
  "m_current (do_calls wh m cs) = m_current m" "m_sending (do_calls wh m cs) = m_sending m"
  "m_inState (do_calls wh m cs) = m_inState m"
  "m_inTransition (do_calls wh m cs) = m_inTransition m"
  "m_contracts (do_calls wh m cs) = m_contracts m"
  "m_onUnhandled (do_calls wh m cs) = m_onUnhandled m"
  "m_acting (do_calls wh m cs) = m_acting m" "m_inFailure (do_calls wh m cs) = m_inFailure m"
  "m_log (do_calls wh m cs) = m_log m" "m_setupErr (do_calls wh m cs) = m_setupErr m"
  by (induction cs arbitrary: m) simp_all

text \<open>A destination is a state of the tree, and no call can ask for one during a transition.\<close>

definition dest_known :: "('w, 'm) machine \<Rightarrow> bool" where
  "dest_known m \<longleftrightarrow> (m_haveDest m \<longrightarrow> m_dest m \<in> dom (m_info m))"

lemma do_call_dest_known: "dest_known m \<Longrightarrow> dest_known (do_call wh m c)"
  by (cases c) (auto simp: dest_known_def transitionTo_def sendSelf_def post_def checkEmitted_def
      Let_def split: option.splits)

lemma do_calls_dest_known: "dest_known m \<Longrightarrow> dest_known (do_calls wh m cs)"
  by (induction cs arbitrary: m) (simp_all add: do_call_dest_known)

lemma do_call_in_transition:
  "m_inTransition m \<Longrightarrow> m_haveDest (do_call wh m c) = m_haveDest m \<and> m_dest (do_call wh m c) = m_dest m"
  by (cases c) (simp_all add: transitionTo_def sendSelf_def post_def checkEmitted_def
      Let_def split: option.splits)

lemma do_calls_in_transition:
  "m_inTransition m \<Longrightarrow> m_haveDest (do_calls wh m cs) = m_haveDest m \<and> m_dest (do_calls wh m cs) = m_dest m"
  by (induction cs arbitrary: m) (simp_all add: do_call_in_transition)

section \<open>The shape of the tree and the active states\<close>

text \<open>What \<open>setActive\<close> keeps: the states, their parents and their order.\<close>

definition shape :: "('w, 'm) machine \<Rightarrow> (StateName \<rightharpoonup> State \<times> StateName) \<times> StateName list" where
  "shape m = ((\<lambda>n. map_option (\<lambda>i. (si_state i, si_parent i)) (m_info m n)), m_order m)"

definition active :: "('w, 'm) machine \<Rightarrow> StateName set" where
  "active m = {n. isActive m n}"

lemma shape_setActive [simp]: "shape (setActive m n b) = shape m"
  by (auto simp: shape_def setActive_def fun_eq_iff option.map_comp comp_def)

lemma shape_cong: "m_info m = m_info m' \<Longrightarrow> m_order m = m_order m' \<Longrightarrow> shape m = shape m'"
  by (simp add: shape_def)

lemma shape_walkUp:
  assumes "\<And>n. map_option (\<lambda>i. (si_state i, si_parent i)) (info n)
      = map_option (\<lambda>i. (si_state i, si_parent i)) (info' n)"
  shows "walkUp info k n = walkUp info' k n"
proof (induction k arbitrary: n)
  case (Suc k)
  then show ?case using assms [of n] by (auto split: option.splits)
qed simp

lemma shape_D:
  assumes "shape m = shape m'"
  shows "ancestors m n = ancestors m' n" and "dom (m_info m) = dom (m_info m')"
    and "contractOf m n = contractOf m' n" and "wf_machine m = wf_machine m'"
    and "m_order m = m_order m'"
proof -
  have eq: "map_option (\<lambda>i. (si_state i, si_parent i)) (m_info m n)
      = map_option (\<lambda>i. (si_state i, si_parent i)) (m_info m' n)" for n
    using assms by (simp add: shape_def fun_eq_iff)
  have none: "m_info m n = None \<longleftrightarrow> m_info m' n = None" for n
    using eq [of n] by (cases "m_info m n"; cases "m_info m' n") simp_all
  show ord: "m_order m = m_order m'" using assms by (simp add: shape_def)
  show dom: "dom (m_info m) = dom (m_info m')"
    by (simp add: dom_def none)
  show "ancestors m n = ancestors m' n"
    using shape_walkUp [OF eq] ord by (simp add: ancestors_def)
  show "contractOf m n = contractOf m' n"
    using eq [of n] by (auto simp: contractOf_def split: option.splits)
  have "parentOf (m_info m) n = parentOf (m_info m') n" for n
    using eq [of n] by (auto simp: parentOf_def split: option.splits)
  then show "wf_machine m = wf_machine m'"
    using dom ord by (simp add: wf_tree_def)
qed

lemma setActive_frame [simp]:
  "m_current (setActive m n b) = m_current m" "m_dest (setActive m n b) = m_dest m"
  "m_haveDest (setActive m n b) = m_haveDest m" "m_sending (setActive m n b) = m_sending m"
  "m_inState (setActive m n b) = m_inState m" "m_inTransition (setActive m n b) = m_inTransition m"
  "m_onUnhandled (setActive m n b) = m_onUnhandled m" "m_log (setActive m n b) = m_log m"
  "m_inFailure (setActive m n b) = m_inFailure m" "m_opErr (setActive m n b) = m_opErr m"
  "m_order (setActive m n b) = m_order m" "m_contracts (setActive m n b) = m_contracts m"
  "m_setupErr (setActive m n b) = m_setupErr m"
  "dom (m_info (setActive m n b)) = dom (m_info m)"
  by (auto simp: setActive_def dom_def)

lemma active_setActive:
  "n \<in> dom (m_info m) \<Longrightarrow>
     active (setActive m n b) = (if b then insert n (active m) else active m - {n})"
  by (auto simp: active_def isActive_def setActive_def split: option.splits)

lemma active_cong: "m_info m = m_info m' \<Longrightarrow> active m = active m'"
  by (simp add: active_def isActive_def)

section \<open>Transitions\<close>

text \<open>What a run of exits or of enters keeps, whatever it returns.\<close>

definition keeps :: "('w, 'm) machine \<Rightarrow> ('w, 'm) machine \<Rightarrow> bool" where
  "keeps m m' \<longleftrightarrow> shape m' = shape m \<and> m_current m' = m_current m \<and> m_sending m' = m_sending m
     \<and> m_onUnhandled m' = m_onUnhandled m \<and> m_inFailure m' = m_inFailure m
     \<and> m_contracts m' = m_contracts m \<and> m_log m' = m_log m \<and> m_setupErr m' = m_setupErr m"

lemma keeps_refl [simp]: "keeps m m" and keeps_trans: "keeps a b \<Longrightarrow> keeps b c \<Longrightarrow> keeps a c"
  by (simp_all add: keeps_def)

lemma keeps_acting_calls: "keeps m (do_calls wh (m\<lparr>m_acting := n\<rparr>) cs)"
  by (simp add: keeps_def shape_def)

lemma keeps_setActive: "keeps m m' \<Longrightarrow> keeps m (setActive m' n b)"
  by (simp add: keeps_def)

lemma runExits_keeps:
  assumes "runExits C m w ns = (m', w', e)"
  shows "keeps m m'"
  using assms
proof (induction ns arbitrary: m w)
  case (Cons n ns)
  then show ?case
    by (auto simp: Let_def split: prod.splits option.splits
        intro: keeps_acting_calls keeps_trans [OF keeps_setActive [OF keeps_acting_calls]])
qed simp

lemma runEnters_keeps:
  assumes "runEnters C m w ns = (m', w', e)"
  shows "keeps m m'"
  using assms
proof (induction ns arbitrary: m w)
  case (Cons n ns)
  then show ?case
    by (auto simp: Let_def split: prod.splits option.splits
        intro: keeps_acting_calls keeps_trans [OF keeps_setActive [OF keeps_acting_calls]])
qed simp

lemma runExits_transition:
  assumes "runExits C m w ns = (m', w', e)" "m_inTransition m"
  shows "m_inTransition m' \<and> m_haveDest m' = m_haveDest m \<and> m_dest m' = m_dest m"
  using assms
proof (induction ns arbitrary: m w)
  case (Cons n ns)
  then show ?case
    by (fastforce simp: Let_def do_calls_in_transition split: prod.splits option.splits)
qed simp

lemma runEnters_transition:
  assumes "runEnters C m w ns = (m', w', e)" "m_inTransition m"
  shows "m_inTransition m' \<and> m_haveDest m' = m_haveDest m \<and> m_dest m' = m_dest m"
  using assms
proof (induction ns arbitrary: m w)
  case (Cons n ns)
  then show ?case
    by (fastforce simp: Let_def do_calls_in_transition split: prod.splits option.splits)
qed simp

text \<open>A run of exits that finishes deactivates the states it left; a run of enters activates them.\<close>

lemma runExits_active:
  assumes "runExits C m w ns = (m', w', None)" "set ns \<subseteq> dom (m_info m)"
  shows "active m' = active m - set ns"
  using assms
proof (induction ns arbitrary: m w)
  case (Cons n ns)
  obtain w2 cs err where x: "st_exit C n (m\<lparr>m_acting := n\<rparr>) w = (w2, cs, err)"
    by (cases "st_exit C n (m\<lparr>m_acting := n\<rparr>) w") auto
  let ?m2 = "do_calls (what_of C) (m\<lparr>m_acting := n\<rparr>) cs"
  have r: "runExits C (setActive ?m2 n False) w2 ns = (m', w', None)"
    using Cons.prems x by (simp add: Let_def split: option.splits)
  have "active ?m2 = active m" by (rule active_cong) simp
  with Cons.IH [OF r] Cons.prems show ?case by (auto simp: active_setActive)
qed simp

lemma runEnters_active:
  assumes "runEnters C m w ns = (m', w', None)" "set ns \<subseteq> dom (m_info m)"
  shows "active m' = active m \<union> set ns"
  using assms
proof (induction ns arbitrary: m w)
  case (Cons n ns)
  obtain w2 cs err where x: "st_enter C n (m\<lparr>m_acting := n\<rparr>) w = (w2, cs, err)"
    by (cases "st_enter C n (m\<lparr>m_acting := n\<rparr>) w") auto
  let ?m2 = "do_calls (what_of C) (m\<lparr>m_acting := n\<rparr>) cs"
  have r: "runEnters C (setActive ?m2 n True) w2 ns = (m', w', None)"
    using Cons.prems x by (simp add: Let_def split: option.splits)
  have "active ?m2 = active m" by (rule active_cong) simp
  with Cons.IH [OF r] Cons.prems show ?case by (auto simp: active_setActive)
qed simp

text \<open>The nearest active ancestor splits the destination's path.\<close>

lemma ancestors_nonempty_name:
  "wf_machine m \<Longrightarrow> n \<in> dom (m_info m) \<Longrightarrow> n \<noteq> ''''"
  by (auto simp: wf_tree_def)

lemma splitEntering_ancestors:
  assumes wf: "wf_machine m" and "n \<in> dom (m_info m)"
    and "splitEntering m (ancestors m n) = (e, a)"
  shows "ancestors m n = e @ ancestors m a \<and> e \<noteq> [] \<and> (a \<noteq> '''' \<longrightarrow> isActive m a)
     \<and> (\<forall>x \<in> set (tl e). \<not> isActive m x)"
  using assms
proof (induction arbitrary: e a rule: tree_induct)
  case (root n i)
  then show ?case using wf by (auto simp: ancestors_unfold)
next
  case (child n i)
  then obtain j where j: "m_info m (si_parent i) = Some j" by blast
  have p: "si_parent i \<noteq> ''''" using ancestors_nonempty_name [OF wf child(2)] .
  have up: "ancestors m (si_parent i) = si_parent i # ancestors m (si_parent j)"
    and here: "ancestors m n = n # ancestors m (si_parent i)"
    using wf j child(1) by (simp_all add: ancestors_unfold)
  show ?case
  proof (cases "isActive m (si_parent i)")
    case True
    then show ?thesis using child.prems here up p by auto
  next
    case False
    obtain e' a' where r: "splitEntering m (ancestors m (si_parent i)) = (e', a')" by fastforce
    then have "e = n # e'" "a = a'" using False child.prems here up by auto
    moreover from child.IH [OF r] have "e' = si_parent i # tl e'"
      using up by (cases e') auto
    ultimately show ?thesis using child.IH [OF r] here False
      by (metis append_Cons list.distinct(1) list.sel(3) set_ConsD)
  qed
qed

definition on_path :: "('w, 'm) machine \<Rightarrow> bool" where
  "on_path m \<longleftrightarrow> (m_current m = '''' \<or> m_current m \<in> dom (m_info m))
     \<and> active m = set (ancestors m (m_current m))"

lemma exits_split:
  assumes wf: "wf_machine m" and p: "on_path m" and a: "a \<noteq> '''' \<longrightarrow> isActive m a"
  shows "ancestors m (m_current m)
     = takeWhile (\<lambda>n. n \<noteq> a) (ancestors m (m_current m)) @ ancestors m a"
proof (cases "a = ''''")
  case True
  have "'''' \<notin> set (ancestors m (m_current m))"
  proof (cases "m_current m = ''''")
    case False
    then have "set (ancestors m (m_current m)) \<subseteq> dom (m_info m)"
      using p ancestors_dom [OF wf] by (simp add: on_path_def)
    then show ?thesis using ancestors_nonempty_name [OF wf] by blast
  qed simp
  then have "takeWhile (\<lambda>n. n \<noteq> '''') (ancestors m (m_current m)) = ancestors m (m_current m)"
    by (subst takeWhile_eq_all_conv) blast
  then show ?thesis unfolding True by (metis append_Nil2 ancestors_Nil)
next
  case False
  then have in_cur: "a \<in> set (ancestors m (m_current m))" using p a by (auto simp: on_path_def active_def)
  then have "m_current m \<in> dom (m_info m)" using p by (auto simp: on_path_def)
  then obtain xs where xs: "ancestors m (m_current m) = xs @ ancestors m a" "a \<notin> set xs"
    using ancestors_suffix [OF wf _ in_cur] by blast
  have "a \<in> dom (m_info m)"
    using ancestors_dom [OF wf \<open>m_current m \<in> dom (m_info m)\<close>] in_cur by blast
  then obtain i where "m_info m a = Some i" by blast
  then have "ancestors m a = a # ancestors m (si_parent i)" using wf by (simp add: ancestors_unfold)
  then have "takeWhile (\<lambda>n. n \<noteq> a) (ancestors m (m_current m)) = xs"
    using xs by (simp add: takeWhile_append)
  then show ?thesis using xs by simp
qed

text \<open>The states a transition leaves and enters, and what both paths share.\<close>

definition transition_plan ::
  "('w, 'm) machine \<Rightarrow> StateName list \<Rightarrow> StateName list \<Rightarrow> StateName list \<Rightarrow> bool"
where
  "transition_plan m xs ys common \<longleftrightarrow>
     ancestors m (m_current m) = xs @ common \<and> ancestors m (m_dest m) = ys @ common
     \<and> ys \<noteq> [] \<and> (\<forall>n \<in> set (tl ys). \<not> isActive m n)"

text \<open>The machine a transition's \<open>Exit\<close> and \<open>Enter\<close> calls see first, and the calls in order.\<close>

definition movingMachine :: "('w, 'm) machine \<Rightarrow> ('w, 'm) machine" where
  "movingMachine m =
     m\<lparr>m_dest := '''', m_haveDest := False, m_inState := True, m_inTransition := True\<rparr>"

definition runTransition ::
  "('w, 'm, 'e) client \<Rightarrow> ('w, 'm) machine \<Rightarrow> 'w \<Rightarrow> StateName list \<Rightarrow> StateName list
     \<Rightarrow> ('w, 'm) machine \<times> 'w \<times> 'e smError option"
where
  "runTransition C m w xs ys =
     (case runExits C (movingMachine m) w xs of
         (m2, w2, Some e) \<Rightarrow> (leaveTransition m2, w2, Some e)
       | (m2, w2, None) \<Rightarrow>
           (case runEnters C m2 w2 (rev ys) of
              (m3, w3, Some e) \<Rightarrow> (leaveTransition m3, w3, Some e)
            | (m3, w3, None) \<Rightarrow> (leaveTransition (m3\<lparr>m_current := m_dest m\<rparr>), w3, None)))"

lemma movingMachine_frame [simp]:
  "ancestors (movingMachine m) n = ancestors m n" "active (movingMachine m) = active m"
  "shape (movingMachine m) = shape m" "m_info (movingMachine m) = m_info m"
  "m_haveDest (movingMachine m) = False" "m_inTransition (movingMachine m)"
  "m_current (movingMachine m) = m_current m" "m_log (movingMachine m) = m_log m"
  "m_sending (movingMachine m) = m_sending m" "m_onUnhandled (movingMachine m) = m_onUnhandled m"
  "m_inFailure (movingMachine m) = m_inFailure m"
  by (simp_all add: movingMachine_def ancestors_def active_def isActive_def shape_def)

lemma performTransition_run:
  assumes "m_haveDest m"
    and "splitEntering (m\<lparr>m_dest := '''', m_haveDest := False\<rparr>) (ancestors m (m_dest m)) = (e, a)"
  shows "performTransition C m w =
     runTransition C m w (takeWhile (\<lambda>n. n \<noteq> a) (ancestors m (m_current m))) e"
proof -
  let ?m0 = "m\<lparr>m_dest := '''', m_haveDest := False\<rparr>"
  have "ancestors ?m0 n = ancestors m n"
    "?m0\<lparr>m_inState := True, m_inTransition := True\<rparr> = movingMachine m" for n
    by (simp_all add: ancestors_def movingMachine_def)
  then show ?thesis
    using assms
    by (simp add: performTransition_def runTransition_def Let_def split: prod.splits option.splits)
qed

lemma performTransition_plan:
  assumes wf: "wf_machine m" and p: "on_path m" and d: "m_haveDest m" "m_dest m \<in> dom (m_info m)"
  shows "\<exists>xs ys common. transition_plan m xs ys common
     \<and> performTransition C m w = runTransition C m w xs ys"
proof -
  let ?m0 = "m\<lparr>m_dest := '''', m_haveDest := False\<rparr>"
  have same: "ancestors ?m0 n = ancestors m n" "isActive ?m0 n = isActive m n"
    for n by (simp_all add: ancestors_def isActive_def)
  obtain e a where s: "splitEntering ?m0 (ancestors m (m_dest m)) = (e, a)" by fastforce
  have split: "ancestors m (m_dest m) = e @ ancestors m a" "e \<noteq> []" "a \<noteq> '''' \<longrightarrow> isActive m a"
    "\<forall>x \<in> set (tl e). \<not> isActive m x"
    using splitEntering_ancestors [of ?m0 "m_dest m" e a] wf d s by (simp_all add: same)
  let ?xs = "takeWhile (\<lambda>n. n \<noteq> a) (ancestors m (m_current m))"
  have "transition_plan m ?xs e (ancestors m a)"
    using split exits_split [OF wf p split(3)] by (simp add: transition_plan_def)
  moreover have "performTransition C m w = runTransition C m w ?xs e"
    by (rule performTransition_run [OF d(1) s])
  ultimately show ?thesis by blast
qed

text \<open>The effect of the calls of a planned transition that none of them fails.\<close>

lemma runTransition_effect:
  assumes wf: "wf_machine m" and p: "on_path m" and d: "m_dest m \<in> dom (m_info m)"
    and plan: "transition_plan m xs ys common"
    and run: "runTransition C m w xs ys = (m', w', None)"
  shows "m_current m' = m_dest m" "active m' = set (ys @ common)" "shape m' = shape m"
    "\<not> m_haveDest m'" "\<not> m_inState m'" "\<not> m_inTransition m'"
proof -
  obtain m2 w2 m3 where ex: "runExits C (movingMachine m) w xs = (m2, w2, None)"
    and en: "runEnters C m2 w2 (rev ys) = (m3, w', None)"
    and m': "m' = leaveTransition (m3\<lparr>m_current := m_dest m\<rparr>)"
    using run by (auto simp: runTransition_def split: prod.splits option.splits)
  have k: "shape m2 = shape m" "shape m3 = shape m"
    using runExits_keeps [OF ex] runEnters_keeps [OF en] by (simp_all add: keeps_def)
  have tr: "\<not> m_haveDest m3"
    using runExits_transition [OF ex] runEnters_transition [OF en] by simp
  have cur: "set (xs @ common) \<subseteq> dom (m_info m)" "distinct (xs @ common)"
    "active m = set (xs @ common)"
    using plan p ancestors_dom [OF wf, of "m_current m"] ancestors_distinct [OF wf, of "m_current m"]
    by (auto simp: transition_plan_def on_path_def)
  have dst: "set ys \<subseteq> dom (m_info m)"
    using plan ancestors_dom [OF wf d] by (simp add: transition_plan_def)
  have "active m2 = active m - set xs"
    using runExits_active [OF ex] cur by simp
  moreover have "active m3 = active m2 \<union> set ys"
    using runEnters_active [OF en] dst shape_D(2) [OF k(1)] by simp
  ultimately have "active m3 = set (ys @ common)" using cur by auto
  moreover have "active m' = active m3" by (rule active_cong) (simp add: m' leaveTransition_def)
  ultimately show "active m' = set (ys @ common)" by simp
  show "shape m' = shape m" using k by (simp add: m' leaveTransition_def shape_def)
  show "m_current m' = m_dest m" "\<not> m_haveDest m'" "\<not> m_inState m'" "\<not> m_inTransition m'"
    using tr by (simp_all add: m' leaveTransition_def)
qed

text \<open>
  Property C1. A transition that does not fail in an \<open>Enter\<close> or \<open>Exit\<close> leaves, innermost first,
  exactly the current states that the destination's path does not keep, enters the rest of the
  destination's path outermost first, and ends with the destination current and the destination's
  path, and nothing else, active. The tree is untouched and no destination is left behind.
\<close>

theorem performTransition_correct:
  assumes "wf_machine m" "on_path m" "m_haveDest m" "m_dest m \<in> dom (m_info m)"
    and "performTransition C m w = (m', w', None)"
  shows "\<exists>xs ys common. transition_plan m xs ys common
    \<and> runTransition C m w xs ys = (m', w', None)
    \<and> m_current m' = m_dest m \<and> active m' = set (ys @ common) \<and> shape m' = shape m
    \<and> \<not> m_haveDest m' \<and> \<not> m_inState m' \<and> \<not> m_inTransition m'"
proof -
  obtain xs ys common where plan: "transition_plan m xs ys common"
    and eq: "performTransition C m w = runTransition C m w xs ys"
    using performTransition_plan [OF assms(1-4)] by blast
  show ?thesis
    using plan eq assms runTransition_effect [OF assms(1,2,4) plan] by metis
qed

lemma performTransition_settles:
  assumes "wf_machine m" "on_path m" "dest_known m"
    and "performTransition C m w = (m', w', None)"
  shows "on_path m' \<and> shape m' = shape m \<and> \<not> m_haveDest m'"
proof (cases "m_haveDest m")
  case True
  then have d: "m_dest m \<in> dom (m_info m)" using assms(3) by (simp add: dest_known_def)
  obtain xs ys common where plan: "transition_plan m xs ys common"
    and eq: "performTransition C m w = runTransition C m w xs ys"
    using performTransition_plan [OF assms(1,2) True d] by blast
  note * = runTransition_effect [OF assms(1,2) d plan, of C w m' w']
  show ?thesis
    using * d assms(4) eq plan shape_D(1,2) [of m' m] by (simp add: on_path_def transition_plan_def)
next
  case False
  then show ?thesis using assms by (simp add: performTransition_def)
qed

section \<open>Invariants of dispatch, drain, Start and Send\<close>

lemma logRecord_eq: "logRecord C m w msg p q d =
    m\<lparr>m_log := ring_add (m_log m) \<lparr>rec_time = now C w, rec_what = what_of C msg, rec_processed = p,
        rec_original = q, rec_dest = d\<rparr>\<rparr>"
  by (simp add: logRecord_def)

lemma logRecord_frame [simp]:
  "m_info (logRecord C m w msg p q d) = m_info m" "m_order (logRecord C m w msg p q d) = m_order m"
  "m_opErr (logRecord C m w msg p q d) = m_opErr m" "m_haveDest (logRecord C m w msg p q d) = m_haveDest m"
  "m_dest (logRecord C m w msg p q d) = m_dest m" "m_inFailure (logRecord C m w msg p q d) = m_inFailure m"
  "m_onUnhandled (logRecord C m w msg p q d) = m_onUnhandled m"
  "m_current (logRecord C m w msg p q d) = m_current m"
  "wrote (m_log (logRecord C m w msg p q d)) = Suc (wrote (m_log m))"
  by (simp_all add: logRecord_def ring_add_def)

text \<open>
  The rule for proving that a whole \<open>Send\<close> keeps a predicate: show it for the offer loop, for a
  transition with a tolerated outcome, and for the fields the loops themselves write.
\<close>

locale dispatch_invariant =
  fixes C :: "('w, 'm, 'e) client"
    and inv :: "('w, 'm) machine \<Rightarrow> bool"
    and tolerated :: "'e smError option \<Rightarrow> bool"
  assumes inv_offer: "\<lbrakk>inv m; offer C (m\<lparr>m_inState := True\<rparr>) w msg (ancestors m (m_current m)) = (m', w', r)\<rbrakk>
        \<Longrightarrow> inv (leaveState m')"
    and inv_transition: "\<lbrakk>inv m; performTransition C m w = (m', w', e); tolerated e\<rbrakk> \<Longrightarrow> inv m'"
    and inv_log: "inv m \<Longrightarrow> inv (m\<lparr>m_log := l\<rparr>)"
    and inv_self: "inv m \<Longrightarrow> inv (m\<lparr>m_self := q\<rparr>)"
    and inv_inbox: "inv m \<Longrightarrow> inv (m\<lparr>m_inbox := q\<rparr>)"
    and inv_opErr: "inv m \<Longrightarrow> inv (m\<lparr>m_opErr := None\<rparr>)"
    and inv_failure: "inv m \<Longrightarrow> inv (m\<lparr>m_inFailure := b\<rparr>)"
    and inv_sending: "inv m \<Longrightarrow> inv (m\<lparr>m_sending := b\<rparr>)"
    and inv_dest: "\<lbrakk>inv m; d \<in> dom (m_info m)\<rbrakk> \<Longrightarrow> inv (m\<lparr>m_dest := d, m_haveDest := True\<rparr>)"
    and tolerated_None: "tolerated None"
begin

lemmas inv_parts = inv_log inv_self inv_inbox inv_opErr inv_failure inv_sending

lemma body_inv:
  assumes "inv m" and "dispatchBody fail C m w msg = (m', w', e)" and "tolerated e"
    and fail: "\<And>m1 w1 at m2 w2. \<lbrakk>inv m1; fail m1 w1 msg at = (m2, w2, e)\<rbrakk> \<Longrightarrow> inv m2"
  shows "inv m'"
proof (cases "ctx_err C w")
  case None
  obtain m1 w1 r where o: "offer C (m\<lparr>m_inState := True\<rparr>) w msg (ancestors m (m_current m)) = (m1, w1, r)"
    by (cases "offer C (m\<lparr>m_inState := True\<rparr>) w msg (ancestors m (m_current m))") auto
  have i: "inv (leaveState m1)" by (rule inv_offer [OF assms(1) o])
  then have lg: "inv (logRecord C (leaveState m1) w1 msg p q d)" for p q d
    unfolding logRecord_eq by (rule inv_log)
  show ?thesis
  proof (cases r)
    case (Inl x)
    then show ?thesis using assms(2) None o lg by (auto simp: dispatchBody_def Let_def split: prod.splits)
  next
    case (Inr h)
    obtain m3 w3 err where t: "performTransition C (leaveState m1) w1 = (m3, w3, err)"
      by (cases "performTransition C (leaveState m1) w1") auto
    have tr: "inv (logRecord C m3 w3 msg h q d)" if "tolerated err" for q d
      unfolding logRecord_eq by (rule inv_log, rule inv_transition [OF i t that])
    show ?thesis
      using assms(2,3) None o Inr t lg tr tolerated_None fail [OF lg]
      by (auto simp: dispatchBody_def Let_def takeOpErr_def intro: inv_opErr split: if_splits option.splits)
  qed
qed (use assms in \<open>simp add: dispatchBody_def\<close>)

lemma failing_inv:
  "\<lbrakk>inv m; dispatchFailing C m w msg = (m', w', e); tolerated e\<rbrakk> \<Longrightarrow> inv m'"
  unfolding dispatchFailing_def by (erule body_inv) auto

lemma fail_inv:
  "\<lbrakk>inv m; failUnhandled (dispatchFailing C) C m w msg at = (m', w', e); tolerated e\<rbrakk> \<Longrightarrow> inv m'"
  by (auto simp: failUnhandled_def Let_def intro!: inv_failure
      split: option.splits if_splits prod.splits dest: failing_inv [OF inv_failure])

lemma dispatch_inv:
  "\<lbrakk>inv m; dispatch C m w msg = (m', w', e); tolerated e\<rbrakk> \<Longrightarrow> inv m'"
  unfolding dispatch_def by (erule body_inv) (auto dest: fail_inv)

lemma drain_inv:
  "\<lbrakk>inv m; drain C k m w = (m', w', e); tolerated e\<rbrakk> \<Longrightarrow> inv m'"
proof (induction k arbitrary: m w)
  case (Suc k)
  show ?case
  proof (cases "m_self m @ m_inbox m")
    case Nil
    then show ?thesis using Suc.prems by simp
  next
    case (Cons x xs)
    define q where "q = (case m_self m of y # ys \<Rightarrow> m\<lparr>m_self := ys\<rparr> | [] \<Rightarrow> m\<lparr>m_inbox := xs\<rparr>)"
    have q: "inv q" using Suc.prems(1) by (auto simp: q_def intro: inv_self inv_inbox split: list.splits)
    obtain m1 w1 e1 where d: "dispatch C q w x = (m1, w1, e1)" by (cases "dispatch C q w x") auto
    have "(case e1 of Some a \<Rightarrow> (m1, w1, Some a) | None \<Rightarrow> drain C k m1 w1) = (m', w', e)"
      using Suc.prems(2) Cons d by (auto simp: q_def split: list.splits option.splits)
    then show ?thesis
      using Suc.IH [OF dispatch_inv [OF q d]] dispatch_inv [OF q d] Suc.prems(3) tolerated_None
      by (auto split: option.splits)
  qed
qed simp

lemma then_drain_inv:
  assumes "tolerated e1 \<Longrightarrow> inv m1" and "tolerated e"
    and "(case e1 of Some a \<Rightarrow> (m1, w1, Some a) | None \<Rightarrow> drain C k m1 w1) = (m', w', e)"
  shows "inv m'"
  using assms tolerated_None by (cases e1) (auto dest: drain_inv)

lemma send_inv:
  assumes "inv m" "Send C m w msg = (m', w', e)" "tolerated e"
  shows "inv m'"
proof (cases "m_sending m \<or> m_current m = '''' \<or> msg = None")
  case True
  then show ?thesis using assms by (auto simp: Send_def split: if_splits)
next
  case False
  then obtain x where x: "msg = Some x" by blast
  obtain m1 w1 e1 where d: "dispatch C (m\<lparr>m_sending := True\<rparr>) w x = (m1, w1, e1)"
    by (cases "dispatch C (m\<lparr>m_sending := True\<rparr>) w x") auto
  obtain m2 w2 e2 where t:
    "(case e1 of Some a \<Rightarrow> (m1, w1, Some a) | None \<Rightarrow> drain C maxDispatchPerSend m1 w1) = (m2, w2, e2)"
    by (metis prod_cases3)
  have "m' = m2\<lparr>m_sending := False\<rparr>" "e2 = e"
    using assms(2) False x d t by (simp_all add: Send_def)
  then show ?thesis
    using then_drain_inv [OF dispatch_inv [OF inv_sending [OF assms(1)] d] _ t] assms(3) inv_sending
    by simp
qed

lemma start_inv:
  assumes "inv m" "Start C m w s = (m', w', e)" "tolerated e"
  shows "inv m'"
proof (cases "m_setupErr m = None \<and> checkDeclared m = [] \<and> m_current m = '''' \<and>
    (\<exists>n. s = Some n \<and> n \<in> dom (m_info m))")
  case True
  then obtain n where n: "s = Some n" "n \<in> dom (m_info m)" by blast
  let ?m0 = "m\<lparr>m_sending := True, m_dest := n, m_haveDest := True\<rparr>"
  have i: "inv ?m0" using inv_dest [OF inv_sending [OF assms(1), of True], of n] n by simp
  obtain m1 w1 err where t: "performTransition C ?m0 w = (m1, w1, err)"
    by (cases "performTransition C ?m0 w") auto
  define e1 where "e1 = (if err = None then map_option MisuseErr (m_opErr m1) else err)"
  define m1' where "m1' = (if err = None \<and> m_opErr m1 \<noteq> None then takeOpErr m1 else m1)"
  obtain m2 w2 e2 where r:
    "(case e1 of Some a \<Rightarrow> (m1', w1, Some a) | None \<Rightarrow> drain C maxDispatchPerSend m1' w1) = (m2, w2, e2)"
    by (metis prod_cases3)
  have "m' = m2\<lparr>m_sending := False\<rparr> \<and> e2 = e"
    using assms(2) True n t r by (auto simp: Start_def e1_def m1'_def split: option.splits if_splits)
  moreover have "inv m1'" if "tolerated e1"
    using that inv_transition [OF i t] tolerated_None inv_opErr
    by (auto simp: e1_def m1'_def takeOpErr_def split: if_splits)
  ultimately show ?thesis using then_drain_inv [OF _ _ r] assms(3) inv_sending by simp
next
  case False
  then show ?thesis using assms by (auto simp: Start_def Let_def split: option.splits if_splits)
qed

end


text \<open>What holds after every operation, whatever it returned.\<close>

definition sound :: "('w, 'm) machine \<Rightarrow> bool" where
  "sound m \<longleftrightarrow> wf_machine m \<and> (m_current m = '''' \<or> m_current m \<in> dom (m_info m))
     \<and> dest_known m \<and> \<not> m_inState m \<and> \<not> m_inTransition m \<and> m_acting m = ''''"

text \<open>What holds after every operation that did not fail halfway through a transition.\<close>

definition settled :: "('w, 'm) machine \<Rightarrow> bool" where
  "settled m \<longleftrightarrow> sound m \<and> active m = set (ancestors m (m_current m))"

fun halfway :: "'e smError option \<Rightarrow> bool" where
  "halfway (Some (LeavingErr n e)) = True"
| "halfway (Some (EnteringErr n e)) = True"
| "halfway r = False"

lemma offer_frame:
  assumes "offer C m w msg ns = (m', w', r)"
  shows "m_info m' = m_info m \<and> m_order m' = m_order m \<and> m_current m' = m_current m
     \<and> m_inTransition m' = m_inTransition m \<and> m_inFailure m' = m_inFailure m
     \<and> m_onUnhandled m' = m_onUnhandled m \<and> m_log m' = m_log m \<and> m_sending m' = m_sending m"
  using assms
proof (induction ns arbitrary: m w)
  case (Cons n ns)
  then show ?case by (fastforce simp: Let_def split: prod.splits option.splits if_splits)
qed simp

lemma dest_known_frame: "dest_known (m\<lparr>m_acting := a\<rparr>) = dest_known m"
  "dest_known (checkHandled m n x) = dest_known m"
  by (simp_all add: dest_known_def)

lemma offer_dest_known:
  assumes "offer C m w msg ns = (m', w', r)" "dest_known m"
  shows "dest_known m'"
  using assms
proof (induction ns arbitrary: m w)
  case (Cons n ns)
  obtain w2 cs ok err where x: "st_process C n (m\<lparr>m_acting := n\<rparr>) msg w = (w2, cs, ok, err)"
    by (metis prod_cases4)
  have "dest_known (do_calls (what_of C) (m\<lparr>m_acting := n\<rparr>) cs)"
    using Cons.prems(2) by (simp add: do_calls_dest_known dest_known_frame)
  then show ?case
    using Cons x by (auto simp: Let_def dest_known_frame split: option.splits if_splits)
qed simp

lemma offer_sound:
  assumes "sound m" "offer C (m\<lparr>m_inState := True\<rparr>) w msg ns = (m', w', r)"
  shows "sound (leaveState m')"
  using assms offer_frame [OF assms(2)] offer_dest_known [OF assms(2)]
  by (simp add: sound_def leaveState_def dest_known_def)

lemma offer_active:
  assumes "offer C (m\<lparr>m_inState := True\<rparr>) w msg ns = (m', w', r)"
  shows "active (leaveState m') = active m" "m_current (leaveState m') = m_current m"
    "ancestors (leaveState m') n = ancestors m n"
  using offer_frame [OF assms] by (simp_all add: active_def isActive_def leaveState_def ancestors_def)

lemma performTransition_sound:
  assumes s: "sound m" and r: "performTransition C m w = (m', w', e)"
  shows "sound m'"
proof (cases "m_haveDest m")
  case True
  then have d: "m_dest m \<in> dom (m_info m)" using s by (simp add: sound_def dest_known_def)
  obtain xs ys where eq: "performTransition C m w = runTransition C m w xs ys"
    using performTransition_run [OF True] by (metis surj_pair)
  obtain m2 w2 e2 where ex: "runExits C (movingMachine m) w xs = (m2, w2, e2)" by (metis prod_cases3)
  obtain m3 w3 e3 where en: "runEnters C m2 w2 (rev ys) = (m3, w3, e3)" by (metis prod_cases3)
  have sh: "shape m2 = shape m" "shape m3 = shape m" "m_current m2 = m_current m" "m_current m3 = m_current m"
    using runExits_keeps [OF ex] runEnters_keeps [OF en] by (simp_all add: keeps_def)
  have nd: "\<not> m_haveDest m2" "\<not> m_haveDest m3"
    using runExits_transition [OF ex] runEnters_transition [OF en] by simp_all
  have "m' \<in> {leaveTransition m2, leaveTransition m3, leaveTransition (m3\<lparr>m_current := m_dest m\<rparr>)}"
    using r eq ex en by (auto simp: runTransition_def split: option.splits)
  then show ?thesis
    using s d sh nd shape_D(2,4) [OF sh(1)] shape_D(2,4) [OF sh(2)]
    by (elim insertE emptyE; simp add: sound_def leaveTransition_def dest_known_def)
qed (use assms in \<open>simp add: performTransition_def\<close>)

lemma runExits_halfway: "runExits C m w ns = (m', w', e) \<Longrightarrow> e = None \<or> halfway e"
  by (induction ns arbitrary: m w) (auto simp: Let_def split: prod.splits option.splits)

lemma runEnters_halfway: "runEnters C m w ns = (m', w', e) \<Longrightarrow> e = None \<or> halfway e"
  by (induction ns arbitrary: m w) (auto simp: Let_def split: prod.splits option.splits)

lemma performTransition_halfway:
  "performTransition C m w = (m', w', e) \<Longrightarrow> e = None \<or> halfway e"
  by (auto simp: performTransition_def Let_def split: if_splits prod.splits option.splits
      dest: runExits_halfway runEnters_halfway)

lemma performTransition_settled:
  assumes "settled m" "performTransition C m w = (m', w', e)" "\<not> halfway e"
  shows "settled m'"
proof -
  have s: "sound m'" using assms performTransition_sound by (auto simp: settled_def)
  have p: "wf_machine m" "on_path m" "dest_known m"
    using assms(1) by (auto simp: settled_def sound_def on_path_def)
  have "e = None" using performTransition_halfway [OF assms(2)] assms(3) by simp
  then show ?thesis
    using performTransition_settles [OF p, of C w m' w'] assms(2) s by (simp add: settled_def on_path_def)
qed

interpretation sound: dispatch_invariant C sound "\<lambda>e. True" for C :: "('w, 'm, 'e) client"
proof unfold_locales
  fix m :: "('w, 'm) machine" and w msg m' w' r
  assume "sound m" "offer C (m\<lparr>m_inState := True\<rparr>) w msg (ancestors m (m_current m)) = (m', w', r)"
  then show "sound (leaveState m')" by (rule offer_sound)
next
  fix m :: "('w, 'm) machine" and w m' w' e
  assume "sound m" "performTransition C m w = (m', w', e)"
  then show "sound m'" by (rule performTransition_sound)
qed (simp_all add: sound_def dest_known_def)

interpretation settled: dispatch_invariant C settled "\<lambda>e. \<not> halfway e"
  for C :: "('w, 'm, 'e) client"
proof unfold_locales
  fix m :: "('w, 'm) machine" and w msg m' w' r
  assume s: "settled m" and o: "offer C (m\<lparr>m_inState := True\<rparr>) w msg (ancestors m (m_current m)) = (m', w', r)"
  show "settled (leaveState m')"
    using s offer_sound [OF _ o] offer_active [OF o] by (simp add: settled_def)
next
  fix m :: "('w, 'm) machine" and w m' w' e
  assume "settled m" "performTransition C m w = (m', w', e)" "\<not> halfway e"
  then show "settled m'" by (rule performTransition_settled)
qed (auto simp: settled_def sound_def dest_known_def active_def isActive_def ancestors_def)

section \<open>Every machine the code can build\<close>

text \<open>
  The machines reached from \<open>New\<close> by the package's exported operations, in any order, with any
  client and whatever the operations returned.
\<close>

inductive reachable :: "('w, 'm, 'e) client \<Rightarrow> ('w, 'm) machine \<Rightarrow> bool" for C where
  reach_New: "reachable C New"
| reach_Add: "reachable C m \<Longrightarrow> reachable C (Add m s parent)"
| reach_RequireContracts: "reachable C m \<Longrightarrow> reachable C (RequireContracts m)"
| reach_OnUnhandled: "reachable C m \<Longrightarrow> reachable C (OnUnhandled m f)"
| reach_Post: "reachable C m \<Longrightarrow> reachable C (post m msg)"
| reach_Start: "\<lbrakk>reachable C m; Start C m w s = (m', w', e)\<rbrakk> \<Longrightarrow> reachable C m'"
| reach_Send: "\<lbrakk>reachable C m; Send C m w msg = (m', w', e)\<rbrakk> \<Longrightarrow> reachable C m'"

text \<open>The same, keeping to operations that did not fail halfway through a transition.\<close>

inductive reachable_whole :: "('w, 'm, 'e) client \<Rightarrow> ('w, 'm) machine \<Rightarrow> bool" for C where
  whole_New: "reachable_whole C New"
| whole_Add: "reachable_whole C m \<Longrightarrow> reachable_whole C (Add m s parent)"
| whole_RequireContracts: "reachable_whole C m \<Longrightarrow> reachable_whole C (RequireContracts m)"
| whole_OnUnhandled: "reachable_whole C m \<Longrightarrow> reachable_whole C (OnUnhandled m f)"
| whole_Post: "reachable_whole C m \<Longrightarrow> reachable_whole C (post m msg)"
| whole_Start: "\<lbrakk>reachable_whole C m; Start C m w s = (m', w', e); \<not> halfway e\<rbrakk> \<Longrightarrow> reachable_whole C m'"
| whole_Send: "\<lbrakk>reachable_whole C m; Send C m w msg = (m', w', e); \<not> halfway e\<rbrakk> \<Longrightarrow> reachable_whole C m'"

lemma keepSetup_frame [simp]:
  "m_info (keepSetup m e) = m_info m" "m_order (keepSetup m e) = m_order m"
  "m_current (keepSetup m e) = m_current m" "m_haveDest (keepSetup m e) = m_haveDest m"
  "m_dest (keepSetup m e) = m_dest m" "m_inState (keepSetup m e) = m_inState m"
  "m_inTransition (keepSetup m e) = m_inTransition m" "m_acting (keepSetup m e) = m_acting m"
  by (simp_all add: keepSetup_def)

lemma Add_frame [simp]:
  "m_current (Add m s p) = m_current m" "m_haveDest (Add m s p) = m_haveDest m"
  "m_dest (Add m s p) = m_dest m" "m_inState (Add m s p) = m_inState m"
  "m_inTransition (Add m s p) = m_inTransition m" "m_acting (Add m s p) = m_acting m"
  by (auto simp: Add_def Let_def split: option.splits)

lemma Add_dom: "dom (m_info m) \<subseteq> dom (m_info (Add m s p))"
  by (auto simp: Add_def Let_def split: option.splits)

text \<open>Before \<open>Start\<close> no state is active and there is no path; adding a state keeps that.\<close>

lemma sound_Add: "sound m \<Longrightarrow> sound (Add m s p)"
  using wf_tree_Add [of m s p] Add_dom [of m s p] unfolding sound_def dest_known_def Add_frame by blast

lemma active_Add: "active (Add m s p) = active m"
  by (auto simp: Add_def Let_def keepSetup_def active_def isActive_def split: option.splits if_splits)

lemma Add_started: "m_current m \<noteq> '''' \<Longrightarrow> m_info (Add m s p) = m_info m \<and> m_order (Add m s p) = m_order m"
  by (simp add: Add_def)

lemma settled_Add: "settled m \<Longrightarrow> settled (Add m s p)"
  using sound_Add [of m s p] active_Add [of m s p] Add_started [of m s p]
  by (cases "m_current m = ''''") (auto simp: settled_def ancestors_def)

lemma sound_New: "sound New" and settled_New: "settled New"
  by (simp_all add: sound_def settled_def dest_known_def active_def isActive_def ancestors_def)
    (simp_all add: New_def)

lemma sound_setup:
  "sound m \<Longrightarrow> sound (RequireContracts m)" "sound m \<Longrightarrow> sound (OnUnhandled m f)"
  "sound m \<Longrightarrow> sound (post m msg)"
  by (simp_all add: sound_def dest_known_def RequireContracts_def OnUnhandled_def post_def
      split: option.splits)

lemma settled_setup:
  "settled m \<Longrightarrow> settled (RequireContracts m)" "settled m \<Longrightarrow> settled (OnUnhandled m f)"
  "settled m \<Longrightarrow> settled (post m msg)"
  by (simp_all add: settled_def sound_setup)
    (simp_all add: active_def isActive_def ancestors_def RequireContracts_def OnUnhandled_def post_def
      split: option.splits)

lemma reachable_sound: "reachable C m \<Longrightarrow> sound m"
  by (induction rule: reachable.induct)
    (auto intro: sound_New sound_Add sound_setup sound.start_inv sound.send_inv)

lemma reachable_whole_settled: "reachable_whole C m \<Longrightarrow> settled m"
  by (induction rule: reachable_whole.induct)
    (auto intro: settled_New settled_Add settled_setup settled.start_inv settled.send_inv)

text \<open>
  No machine the package can build, whatever its states do or return, ever walks off
  its tree: the current state and a pending destination are states that were added, and every state
  on either path towards the root was added too, so no lookup of the walk meets a missing entry.
\<close>

theorem walks_stay_in_tree:
  assumes "reachable C m"
  shows "set (ancestors m (m_current m)) \<subseteq> dom (m_info m)
     \<and> (m_haveDest m \<longrightarrow> set (ancestors m (m_dest m)) \<subseteq> dom (m_info m))
     \<and> distinct (m_order m) \<and> dom (m_info m) = set (m_order m)"
proof -
  have s: "sound m" by (rule reachable_sound [OF assms])
  then have wf: "wf_machine m" by (simp add: sound_def)
  have "set (ancestors m (m_current m)) \<subseteq> dom (m_info m)"
    using s ancestors_dom [OF wf] by (cases "m_current m = ''''") (auto simp: sound_def)
  moreover have "m_haveDest m \<longrightarrow> set (ancestors m (m_dest m)) \<subseteq> dom (m_info m)"
    using s ancestors_dom [OF wf] by (simp add: sound_def dest_known_def)
  ultimately show ?thesis using wf by (simp add: wf_tree_def)
qed

text \<open>
  Property C2. As long as no \<open>Enter\<close> or \<open>Exit\<close> has failed, the active states are exactly the
  current state and its ancestors, in every machine the package can build: this is what makes "the
  nearest active ancestor" of a destination the right place to stop leaving states.
\<close>

theorem active_states_are_the_path:
  assumes "reachable_whole C m"
  shows "isActive m n \<longleftrightarrow> n \<in> set (ancestors m (m_current m))"
  using reachable_whole_settled [OF assms] by (auto simp: settled_def active_def)

section \<open>What one Send does\<close>

text \<open>The source's own equation: \<open>dispatch\<close> with a failure path that dispatches again.\<close>

lemma dispatch_inFailure:
  assumes "m_inFailure m"
  shows "dispatch C m w msg = dispatchFailing C m w msg"
proof -
  obtain m1 w1 r where o: "offer C (m\<lparr>m_inState := True\<rparr>) w msg (ancestors m (m_current m)) = (m1, w1, r)"
    by (metis prod_cases3)
  then have "m_inFailure (logRecord C (leaveState m1) w1 msg p q d)" for p q d
    using offer_frame [OF o] assms by (simp add: leaveState_def)
  then show ?thesis
    using o by (simp add: dispatch_def dispatchFailing_def dispatchBody_def failUnhandled_def Let_def
        split: option.splits sum.splits)
qed

lemma dispatch_eq:
  "dispatch C m w msg = dispatchBody (failUnhandled (dispatch C) C) C m w msg"
proof -
  have "failUnhandled (dispatchFailing C) C = failUnhandled (dispatch C) C"
    by (intro ext) (simp add: failUnhandled_def dispatch_inFailure Let_def split: option.splits)
  then show ?thesis by (simp add: dispatch_def)
qed

lemma performTransition_keeps:
  assumes "performTransition C m w = (m', w', e)"
  shows "m_log m' = m_log m \<and> m_inFailure m' = m_inFailure m \<and> m_onUnhandled m' = m_onUnhandled m
     \<and> (e = None \<longrightarrow> \<not> m_haveDest m')"
proof (cases "m_haveDest m")
  case True
  obtain xs ys where eq: "performTransition C m w = runTransition C m w xs ys"
    using performTransition_run [OF True] by (metis surj_pair)
  obtain m2 w2 e2 where ex: "runExits C (movingMachine m) w xs = (m2, w2, e2)" by (metis prod_cases3)
  obtain m3 w3 e3 where en: "runEnters C m2 w2 (rev ys) = (m3, w3, e3)" by (metis prod_cases3)
  show ?thesis
    using assms eq ex en runExits_keeps [OF ex] runEnters_keeps [OF en]
      runExits_transition [OF ex] runEnters_transition [OF en]
    by (auto simp: runTransition_def leaveTransition_def keeps_def split: option.splits)
qed (use assms in \<open>simp add: performTransition_def\<close>)

text \<open>A dispatch writes at most the given number of records more than its failure path.\<close>

lemma body_effect:
  assumes "dispatchBody fail C m w msg = (m', w', e)"
    and "\<And>m1 w1 at m2 w2 e2. \<lbrakk>fail m1 w1 msg at = (m2, w2, e2); m_inFailure m1 = m_inFailure m\<rbrakk> \<Longrightarrow>
      wrote (m_log m2) \<le> wrote (m_log m1) + k \<and> m_inFailure m2 = m_inFailure m1
      \<and> (e2 = None \<longrightarrow> \<not> m_haveDest m2 \<and> m_opErr m2 = None)"
  shows "wrote (m_log m') \<le> wrote (m_log m) + Suc k \<and> m_inFailure m' = m_inFailure m
     \<and> (e = None \<longrightarrow> \<not> m_haveDest m' \<and> m_opErr m' = None)"
proof (cases "ctx_err C w")
  case None
  obtain m1 w1 r where o: "offer C (m\<lparr>m_inState := True\<rparr>) w msg (ancestors m (m_current m)) = (m1, w1, r)"
    by (metis prod_cases3)
  let ?m2 = "leaveState m1"
  have m1: "m_log ?m2 = m_log m" "m_inFailure ?m2 = m_inFailure m"
    using offer_frame [OF o] by (simp_all add: leaveState_def)
  obtain m3 w3 err where t: "performTransition C ?m2 w1 = (m3, w3, err)" by (metis prod_cases3)
  note pk = performTransition_keeps [OF t]
  note fl = assms(2) [of "logRecord C ?m2 w1 msg '''' (m_current m) ''''" w1]
  show ?thesis
    using assms(1) None o t m1 pk fl
    by (auto simp: dispatchBody_def Let_def takeOpErr_def
        split: sum.splits if_splits option.splits)
qed (use assms(1) in \<open>auto simp: dispatchBody_def\<close>)

lemma failing_effect:
  assumes "dispatchFailing C m w msg = (m', w', e)"
  shows "wrote (m_log m') \<le> wrote (m_log m) + 1 \<and> m_inFailure m' = m_inFailure m
     \<and> (e = None \<longrightarrow> \<not> m_haveDest m' \<and> m_opErr m' = None)"
  using body_effect [OF assms [unfolded dispatchFailing_def], of 0] by simp

lemma fail_effect:
  assumes "failUnhandled (dispatchFailing C) C m w msg at = (m', w', e)" "\<not> m_inFailure m"
  shows "wrote (m_log m') \<le> wrote (m_log m) + 1 \<and> m_inFailure m' = m_inFailure m
     \<and> (e = None \<longrightarrow> \<not> m_haveDest m' \<and> m_opErr m' = None)"
  using assms failing_effect [of C "m\<lparr>m_inFailure := True\<rparr>"]
  by (fastforce simp: failUnhandled_def Let_def split: option.splits prod.splits)

lemma dispatch_effect:
  assumes "dispatch C m w msg = (m', w', e)" "\<not> m_inFailure m"
  shows "wrote (m_log m') \<le> wrote (m_log m) + 2 \<and> \<not> m_inFailure m'
     \<and> (e = None \<longrightarrow> \<not> m_haveDest m' \<and> m_opErr m' = None)"
proof -
  have "wrote (m_log m') \<le> wrote (m_log m) + Suc 1 \<and> m_inFailure m' = m_inFailure m
     \<and> (e = None \<longrightarrow> \<not> m_haveDest m' \<and> m_opErr m' = None)"
    using assms(1) unfolding dispatch_def
    by (rule body_effect) (rule fail_effect, assumption, simp add: assms(2))
  then show ?thesis using assms(2) by simp
qed

lemma drain_effect:
  assumes "drain C k m w = (m', w', e)" "\<not> m_inFailure m" "\<not> m_haveDest m" "m_opErr m = None"
  shows "wrote (m_log m') \<le> wrote (m_log m) + 2 * k \<and> \<not> m_inFailure m'
     \<and> (e = None \<longrightarrow> \<not> m_haveDest m' \<and> m_opErr m' = None \<and> m_self m' = [] \<and> m_inbox m' = [])"
  using assms
proof (induction k arbitrary: m w)
  case (Suc k)
  have step: ?case if d: "dispatch C q w x = (m1, w1, e1)" and q: "m_log q = m_log m" "\<not> m_inFailure q"
    and r: "(case e1 of Some a \<Rightarrow> (m1, w1, Some a) | None \<Rightarrow> drain C k m1 w1) = (m', w', e)"
    for q x m1 w1 e1
    using dispatch_effect [OF d q(2)] Suc.IH [of m1 w1] r q by (auto split: option.splits)
  show ?case
  proof (cases "m_self m")
    case (Cons x xs)
    obtain m1 w1 e1 where d: "dispatch C (m\<lparr>m_self := xs\<rparr>) w x = (m1, w1, e1)" by (metis prod_cases3)
    show ?thesis using step [OF d] Suc.prems d Cons by (simp split: option.splits)
  next
    case Nil
    show ?thesis
    proof (cases "m_inbox m")
      case Nil
      then show ?thesis using Suc.prems \<open>m_self m = []\<close> by auto
    next
      case (Cons x xs)
      obtain m1 w1 e1 where d: "dispatch C (m\<lparr>m_inbox := xs\<rparr>) w x = (m1, w1, e1)" by (metis prod_cases3)
      show ?thesis using step [OF d] Suc.prems d Cons \<open>m_self m = []\<close> by (simp split: option.splits)
    qed
  qed
qed auto

lemma Send_effect:
  assumes "Send C m w msg = (m', w', e)" "\<not> m_inFailure m"
  shows "wrote (m_log m') \<le> wrote (m_log m) + 2 * (maxDispatchPerSend + 1) \<and> \<not> m_inFailure m'
     \<and> (e = None \<longrightarrow> \<not> m_haveDest m' \<and> m_opErr m' = None \<and> m_self m' = [] \<and> m_inbox m' = [] \<and> \<not> m_sending m')"
proof (cases "m_sending m \<or> m_current m = '''' \<or> msg = None")
  case True
  then show ?thesis using assms by (auto simp: Send_def split: if_splits)
next
  case False
  then obtain x where x: "msg = Some x" by blast
  obtain m1 w1 e1 where d: "dispatch C (m\<lparr>m_sending := True\<rparr>) w x = (m1, w1, e1)" by (metis prod_cases3)
  obtain m2 w2 e2 where dr: "drain C maxDispatchPerSend m1 w1 = (m2, w2, e2)" by (metis prod_cases3)
  have d1: "wrote (m_log m1) \<le> wrote (m_log m) + 2" "\<not> m_inFailure m1"
    "e1 = None \<longrightarrow> \<not> m_haveDest m1 \<and> m_opErr m1 = None"
    using dispatch_effect [OF d] assms(2) by simp_all
  show ?thesis
    using assms(1) False x d dr d1 drain_effect [OF dr] by (cases e1) (auto simp: Send_def)
qed

lemma Start_effect:
  assumes "Start C m w s = (m', w', e)" "\<not> m_inFailure m" "m_opErr m = None"
  shows "\<not> m_inFailure m' \<and> (e = None \<longrightarrow> \<not> m_haveDest m' \<and> m_opErr m' = None
     \<and> m_self m' = [] \<and> m_inbox m' = [] \<and> \<not> m_sending m')"
proof (cases "m_setupErr m = None \<and> checkDeclared m = [] \<and> m_current m = '''' \<and>
    (\<exists>n. s = Some n \<and> n \<in> dom (m_info m))")
  case True
  then obtain n where n: "s = Some n" "n \<in> dom (m_info m)" by blast
  let ?m0 = "m\<lparr>m_sending := True, m_dest := n, m_haveDest := True\<rparr>"
  obtain m1 w1 err where t: "performTransition C ?m0 w = (m1, w1, err)" by (metis prod_cases3)
  obtain m2 w2 e2 where dr: "drain C maxDispatchPerSend m1 w1 = (m2, w2, e2)" by (metis prod_cases3)
  show ?thesis
    using assms(1,2) True n t dr performTransition_keeps [OF t] drain_effect [OF dr]
    by (cases err) (auto simp: Start_def takeOpErr_def split: if_splits)
next
  case False
  then show ?thesis using assms by (auto simp: Start_def Let_def split: option.splits if_splits)
qed

lemma Send_sending: "Send C m w msg = (m', w', e) \<Longrightarrow> \<not> m_sending m \<Longrightarrow> \<not> m_sending m'"
  by (auto simp: Send_def Let_def split: if_splits option.splits prod.splits)

lemma Start_sending: "Start C m w s = (m', w', e) \<Longrightarrow> \<not> m_sending m \<Longrightarrow> \<not> m_sending m'"
  by (auto simp: Start_def Let_def split: if_splits option.splits prod.splits)

section \<open>Properties of a Send\<close>

definition at_rest :: "('w, 'm) machine \<Rightarrow> bool" where
  "at_rest m \<longleftrightarrow> m_self m = [] \<and> m_inbox m = [] \<and> \<not> m_haveDest m \<and> m_opErr m = None
     \<and> \<not> m_sending m \<and> \<not> m_inState m \<and> \<not> m_inTransition m \<and> \<not> m_inFailure m \<and> m_acting m = ''''"

text \<open>
  Property C3. A \<open>Send\<close> that returns no error ends at rest: both queues are empty, no move and no
  misuse is pending, every flag is reset, and the active states are again the path of the current
  state.
\<close>

theorem send_ends_at_rest:
  assumes "settled m" "\<not> m_inFailure m" and "Send C m w msg = (m', w', None)"
  shows "at_rest m' \<and> settled m'"
  using Send_effect [OF assms(3,2)] settled.send_inv [OF assms(1,3)]
  by (simp add: at_rest_def settled_def sound_def)

text \<open>
  One \<open>Send\<close> does a bounded amount of work whatever the states do: it terminates (it
  is a total function) and, with any client, handles so few messages that the log grows by at most
  two records for the message sent and for each of the thousand it may lead to.
\<close>

theorem send_is_bounded:
  assumes "\<not> m_inFailure m" and "Send C m w msg = (m', w', e)"
  shows "wrote (m_log m') \<le> wrote (m_log m) + 2 * 1001"
  using Send_effect [OF assms(2,1)] by (simp add: maxDispatchPerSend_def)

text \<open>
  Property C36. A message that no state on the path handled, and that none declared it ignores, is
  never dropped: the \<open>Send\<close> fails with \<open>ErrUnhandled\<close>, naming the message and the path, or, when
  the machine has a failure message, continues exactly as the dispatch of that message.
\<close>

theorem unhandled_is_never_silent:
  assumes "ctx_err C w = None"
    and "offer C (m\<lparr>m_inState := True\<rparr>) w msg (ancestors m (m_current m)) = (m1, w1, Inr '''')"
    and "m_opErr m1 = None" and "\<not> ignoredOnPath m (m_current m) (what_of C msg)"
  shows "dispatch C m w msg =
     (let m2 = logRecord C (leaveState m1) w1 msg '''' (m_current m) ''''
      in case m_onUnhandled m of
           None \<Rightarrow> (m2, w1, Some (ErrUnhandled (what_of C msg) (Path m (Some (m_current m)))))
         | Some f \<Rightarrow>
             if m_inFailure m
             then (m2, w1, Some (ErrUnhandled (what_of C msg) (Path m (Some (m_current m)))))
             else (case f msg (m_current m) w1 of (msg', w2) \<Rightarrow>
               (case dispatch C (m2\<lparr>m_inFailure := True\<rparr>) w2 msg' of
                  (m3, w3, e) \<Rightarrow> (m3\<lparr>m_inFailure := False\<rparr>, w3, e))))"
proof -
  let ?m2 = "leaveState m1"
  have f: "m_info m1 = m_info m" "m_order m1 = m_order m" "m_onUnhandled m1 = m_onUnhandled m"
    "m_inFailure m1 = m_inFailure m" using offer_frame [OF assms(2)] by simp_all
  then have "ignoredOnPath ?m2 = ignoredOnPath m"
    by (intro ext) (simp add: ignoredOnPath_def ancestors_def contractOf_def leaveState_def)
  moreover have "Path (logRecord C ?m2 w1 msg p q d) = Path m" for p q d
    using f by (intro ext) (simp add: Path_def ancestors_def logRecord_def leaveState_def
        split: option.splits)
  moreover have "m_opErr ?m2 = None" "m_onUnhandled ?m2 = m_onUnhandled m" "m_inFailure ?m2 = m_inFailure m"
    using assms(3) f by (simp_all add: leaveState_def)
  ultimately show ?thesis
    using assms(1,2,4) by (subst dispatch_eq) (simp add: dispatchBody_def failUnhandled_def unhandledErr_def
        Let_def split: option.splits)
qed

text \<open>
  A state that breaks the rules (a second \<open>TransitionTo\<close>, one to a state never added,
  a message its contract does not declare, ...) while it processes a message fails that \<open>Send\<close> with
  the first thing it did wrong, and the machine does not move. The destination it had asked for
  before, however, stays pending: nothing on this path clears it.
\<close>

theorem misuse_fails_the_send:
  assumes "\<not> m_sending m" "m_current m \<noteq> ''''" "ctx_err C w = None"
    and "offer C (m\<lparr>m_sending := True, m_inState := True\<rparr>) w x (ancestors m (m_current m)) = (m1, w1, Inr h)"
    and "m_opErr m1 = Some bad" and "Send C m w (Some x) = (m', w', e)"
  shows "e = Some (MisuseErr bad) \<and> m_current m' = m_current m \<and> m_info m' = m_info m
     \<and> m_opErr m' = None \<and> m_haveDest m' = m_haveDest m1 \<and> m_dest m' = m_dest m1"
proof -
  have f: "m_info m1 = m_info m" "m_current m1 = m_current m" using offer_frame [OF assms(4)] by simp_all
  have a: "ancestors (m\<lparr>m_sending := True\<rparr>) n = ancestors m n" for n by (simp add: ancestors_def)
  have "dispatch C (m\<lparr>m_sending := True\<rparr>) w x =
      (takeOpErr (logRecord C (leaveState m1) w1 x h (m_current m) ''''), w1, Some (MisuseErr bad))"
    using assms(3-5) a by (simp add: dispatch_def dispatchBody_def Let_def leaveState_def)
  then have "m' = takeOpErr (logRecord C (leaveState m1) w1 x h (m_current m) '''')\<lparr>m_sending := False\<rparr>"
    "e = Some (MisuseErr bad)" using assms(1,2,6) by (auto simp: Send_def)
  then show ?thesis using f by (simp add: takeOpErr_def leaveState_def logRecord_def)
qed

text \<open>
  \<open>Audit\<close> finds nothing exactly when every state declares a contract and each message
  a state says it sends is taken (accepted, ignored, or refused as unexpected) by that state or one
  of its ancestors.
\<close>

theorem audit_clean_iff:
  "Audit m = [] \<longleftrightarrow>
     (\<forall>n \<in> set (m_order m). \<exists>c. contractOf m n = Some c \<and>
        (\<forall>what \<in> set (Emits c). \<exists>a \<in> set (ancestors m n). \<exists>d. contractOf m a = Some d \<and>
           (Refuses d \<or> what \<in> set (Accepts d) \<or> what \<in> set (Ignores d))))"
  by (auto simp: Audit_def takenOnPath_def takes_def list_ex_iff filter_empty_conv
      split: option.splits) (fastforce split: option.splits)+

section \<open>A destination that outlives its Send\<close>

lemma do_call_pending:
  "m_haveDest m \<Longrightarrow> m_haveDest (do_call wh m c) \<and> m_dest (do_call wh m c) = m_dest m"
  by (cases c) (simp_all add: transitionTo_def sendSelf_def post_def checkEmitted_def
      Let_def split: option.splits)

lemma do_calls_pending:
  "m_haveDest m \<Longrightarrow> m_haveDest (do_calls wh m cs) \<and> m_dest (do_calls wh m cs) = m_dest m"
  by (induction cs arbitrary: m) (simp_all add: do_call_pending)

lemma offer_pending:
  assumes "offer C m w msg ns = (m', w', r)" "m_haveDest m"
  shows "m_haveDest m' \<and> m_dest m' = m_dest m"
  using assms
proof (induction ns arbitrary: m w)
  case (Cons n ns)
  obtain w2 cs ok err where x: "st_process C n (m\<lparr>m_acting := n\<rparr>) msg w = (w2, cs, ok, err)"
    by (metis prod_cases4)
  have "m_haveDest (do_calls (what_of C) (m\<lparr>m_acting := n\<rparr>) cs)
      \<and> m_dest (do_calls (what_of C) (m\<lparr>m_acting := n\<rparr>) cs) = m_dest m"
    using do_calls_pending [of "m\<lparr>m_acting := n\<rparr>"] Cons.prems(2) by simp
  then show ?case
    using Cons x by (auto simp: Let_def split: option.splits if_splits)
qed simp

lemma performTransition_current:
  assumes "m_haveDest m" "performTransition C m w = (m', w', None)"
  shows "m_current m' = m_dest m"
proof -
  obtain xs ys where "performTransition C m w = runTransition C m w xs ys"
    using performTransition_run [OF assms(1)] by (metis surj_pair)
  then show ?thesis
    using assms(2) by (auto simp: runTransition_def leaveTransition_def split: prod.splits option.splits)
qed


end
