(* ===== verification/Machine_Demo.thy ===== *)
theory Machine_Demo
  imports Machine_Laws
begin

text \<open>
  A concrete machine with three states, built and driven through the model's own operations: the
  inputs at which the properties of the state machine are applied.
\<close>

section \<open>A small machine\<close>

text \<open>
  Two sibling stages under one root. Message 1 moves to the second stage, message 2 asks for two
  moves, message 3 is handled where it is, message 4 is handled by nobody.
\<close>

definition demoClient :: "(unit, int, unit) client" where
  "demoClient = \<lparr>what_of = (\<lambda>x. x), ctx_err = (\<lambda>w. None), now = (\<lambda>w. 0),
     st_enter = (\<lambda>n m w. (w, [], None)), st_exit = (\<lambda>n m w. (w, [], None)),
     st_process = (\<lambda>n m x w.
       if n \<noteq> ''ROOT'' then (w, [], False, None)
       else if x = 1 then (w, [TransitionTo (Some ''TWO'')], True, None)
       else if x = 2 then (w, [TransitionTo (Some ''TWO''), TransitionTo (Some ''ONE'')], True, None)
       else if x = 3 then (w, [], True, None)
       else (w, [], False, None))\<rparr>"

definition demoState :: "StateName \<Rightarrow> State" where
  "demoState n = \<lparr>st_name = n, st_contract = None\<rparr>"

definition demoMachine :: "(unit, int) machine" where
  "demoMachine =
     Add (Add (Add New (Some (demoState ''ROOT'')) None)
       (Some (demoState ''ONE'')) (Some (demoState ''ROOT'')))
       (Some (demoState ''TWO'')) (Some (demoState ''ROOT''))"

definition demoStarted :: "(unit, int) machine" where
  "demoStarted = fst (Start demoClient demoMachine () (Some ''ONE''))"

definition demoSend :: "(unit, int) machine \<Rightarrow> int \<Rightarrow> (unit, int) machine" where
  "demoSend m x = fst (Send demoClient m () (Some x))"

definition demoError :: "(unit, int) machine \<Rightarrow> int \<Rightarrow> unit smError option" where
  "demoError m x = snd (snd (Send demoClient m () (Some x)))"

lemma demo_start_ok: "snd (snd (Start demoClient demoMachine () (Some ''ONE''))) = None"
  by code_simp

lemma demo_started_whole: "reachable_whole demoClient demoStarted"
proof (rule whole_Start)
  show "reachable_whole demoClient demoMachine"
    unfolding demoMachine_def by (intro whole_Add whole_New)
  show "Start demoClient demoMachine () (Some ''ONE'')
      = (demoStarted, (), snd (snd (Start demoClient demoMachine () (Some ''ONE''))))"
    by (simp add: demoStarted_def prod_eq_iff)
  show "\<not> halfway (snd (snd (Start demoClient demoMachine () (Some ''ONE''))))"
    by (simp add: demo_start_ok)
qed

lemma demo_started: "m_current demoStarted = ''ONE''" "\<not> m_inFailure demoStarted"
  "\<not> m_sending demoStarted" "m_onUnhandled demoStarted = None"
  "ancestors demoStarted ''ONE'' = [''ONE'', ''ROOT'']" "ancestors demoStarted ''TWO'' = [''TWO'', ''ROOT'']"
  by code_simp+

lemma demo_send: "Send demoClient m () (Some x) = (demoSend m x, (), demoError m x)"
  by (simp add: demoSend_def demoError_def prod_eq_iff)

lemma whole_reachable: "reachable_whole C m \<Longrightarrow> reachable C m"
  by (induction rule: reachable_whole.induct) (auto intro: reachable.intros)

theorem walks_stay_in_tree_witness:
  "set (ancestors demoStarted (m_current demoStarted)) \<subseteq> dom (m_info demoStarted)
     \<and> dom (m_info demoStarted) = {''ROOT'', ''ONE'', ''TWO''}"
proof -
  have "m_order demoStarted = [''ROOT'', ''ONE'', ''TWO'']" by code_simp
  then show ?thesis using walks_stay_in_tree [OF whole_reachable [OF demo_started_whole]] by auto
qed

theorem active_states_are_the_path_witness:
  "isActive demoStarted ''ROOT'' \<and> isActive demoStarted ''ONE'' \<and> \<not> isActive demoStarted ''TWO''"
  using active_states_are_the_path [OF demo_started_whole] by (simp add: demo_started)

definition demoMoving :: "(unit, int) machine" where
  "demoMoving = demoStarted\<lparr>m_dest := ''TWO'', m_haveDest := True\<rparr>"

lemma demo_moving:
  "wf_machine demoMoving" "on_path demoMoving" "m_haveDest demoMoving" "m_dest demoMoving = ''TWO''"
  "m_dest demoMoving \<in> dom (m_info demoMoving)"
  "performTransition demoClient demoMoving () = (fst (performTransition demoClient demoMoving ()), (), None)"
proof -
  have s: "settled demoStarted" by (rule reachable_whole_settled [OF demo_started_whole])
  then show "wf_machine demoMoving" "on_path demoMoving"
    by (simp_all add: settled_def sound_def on_path_def demoMoving_def active_def isActive_def ancestors_def)
  show "m_haveDest demoMoving" "m_dest demoMoving = ''TWO''" by (simp_all add: demoMoving_def)
  have "m_info demoMoving (m_dest demoMoving) \<noteq> None" by code_simp
  then show "m_dest demoMoving \<in> dom (m_info demoMoving)" by blast
  have "snd (snd (performTransition demoClient demoMoving ())) = None" by code_simp
  then show "performTransition demoClient demoMoving () = (fst (performTransition demoClient demoMoving ()), (), None)"
    by (simp add: prod_eq_iff)
qed

theorem performTransition_correct_witness:
  "m_current (fst (performTransition demoClient demoMoving ())) = ''TWO''
     \<and> \<not> m_haveDest (fst (performTransition demoClient demoMoving ()))"
  using performTransition_correct [OF demo_moving(1,2,3,5,6)] demo_moving(4) by auto

lemma demo_errors: "demoError demoStarted 1 = None" "demoError demoStarted 3 = None"
  "demoError (demoSend demoStarted 2) 3 = None"
  by code_simp+

theorem send_ends_at_rest_witness:
  "at_rest (demoSend demoStarted 1) \<and> m_current (demoSend demoStarted 1) = ''TWO''"
proof -
  have "m_current (demoSend demoStarted 1) = ''TWO''" by code_simp
  then show ?thesis
    using send_ends_at_rest [OF reachable_whole_settled [OF demo_started_whole] demo_started(2)]
      demo_send [of demoStarted 1] demo_errors(1) by metis
qed

theorem send_is_bounded_witness:
  "wrote (m_log (demoSend demoStarted 1)) \<le> wrote (m_log demoStarted) + 2 * 1001"
  by (rule send_is_bounded [OF demo_started(2) demo_send])

lemma demo_offer4:
  "offer demoClient (demoStarted\<lparr>m_inState := True\<rparr>) () 4 (ancestors demoStarted (m_current demoStarted))
     = (demoStarted\<lparr>m_inState := True, m_acting := ''ROOT''\<rparr>, (), Inr '''')"
  by (simp add: demo_started demoClient_def)

theorem unhandled_is_never_silent_witness:
  "snd (snd (dispatch demoClient demoStarted () 4)) = Some (ErrUnhandled 4 ''ROOT/ONE'')"
proof -
  have "m_opErr (demoStarted\<lparr>m_inState := True, m_acting := ''ROOT''\<rparr>) = None"
    "\<not> ignoredOnPath demoStarted (m_current demoStarted) (what_of demoClient 4)"
    "Path demoStarted (Some (m_current demoStarted)) = ''ROOT/ONE''" "what_of demoClient 4 = 4"
    "ctx_err demoClient () = None"
    by code_simp+
  then show ?thesis
    using unhandled_is_never_silent [OF _ demo_offer4] by (simp add: demo_started Let_def)
qed

theorem misuse_fails_the_send_witness:
  "demoError demoStarted 2 = Some (MisuseErr (TransitionTwice ''TWO''))
     \<and> m_current (demoSend demoStarted 2) = ''ONE'' \<and> m_haveDest (demoSend demoStarted 2)"
proof -
  define r where "r = offer demoClient (demoStarted\<lparr>m_sending := True, m_inState := True\<rparr>) () 2
      (ancestors demoStarted (m_current demoStarted))"
  have o: "r = (fst r, (), Inr ''ROOT'')" "m_opErr (fst r) = Some (TransitionTwice ''TWO'')" "m_haveDest (fst r)"
  proof -
    have "snd r = ((), Inr ''ROOT'')" unfolding r_def by code_simp
    then show "r = (fst r, (), Inr ''ROOT'')" by (simp add: prod_eq_iff)
    show "m_opErr (fst r) = Some (TransitionTwice ''TWO'')" "m_haveDest (fst r)" unfolding r_def by code_simp+
  qed
  have "ctx_err demoClient () = None" "m_current demoStarted \<noteq> ''''" by code_simp+
  from misuse_fails_the_send [OF demo_started(3) this(2,1) o(1) [unfolded r_def] o(2) [unfolded r_def] demo_send]
  show ?thesis using o(3) by (simp add: r_def demo_started)
qed


text \<open>The same tree with contracts: the second stage emits what the root accepts.\<close>

definition demoContracted :: "(unit, int) machine" where
  "demoContracted =
     (let root = \<lparr>st_name = ''ROOT'', st_contract = Some \<lparr>Accepts = [1, 2], Emits = [], Ignores = [], Refuses = False\<rparr>\<rparr>;
          two = \<lparr>st_name = ''TWO'', st_contract = Some \<lparr>Accepts = [], Emits = [2], Ignores = [], Refuses = False\<rparr>\<rparr>
      in Add (Add New (Some root) None) (Some two) (Some root))"

theorem audit_clean_iff_witness:
  "Audit demoContracted = [] \<and> (\<exists>c. contractOf demoContracted ''TWO'' = Some c) \<and> Audit demoMachine \<noteq> []"
proof -
  have "Audit demoContracted = []" "''TWO'' \<in> set (m_order demoContracted)" by code_simp+
  moreover have "contractOf demoMachine ''ONE'' = None" "''ONE'' \<in> set (m_order demoMachine)" by code_simp+
  ultimately show ?thesis
    using audit_clean_iff [of demoContracted] audit_clean_iff [of demoMachine] by fastforce
qed

end
