(* ===== verification/Run_Machine.thy ===== *)
theory Run_Machine
  imports Machine_Laws
begin

text \<open>
  The test run (\<open>internal/testengine/runmachine.go\<close>, \<open>runprotocol.go\<close>): its messages, its tree of
  states with their contracts, what each state does on \<open>Enter\<close> and on \<open>Process\<close>, and \<open>Run\<close>, over
  the state machine of \<open>Statemachine\<close>.

  A stage's work (composing a network, running cases, tearing down) is done by calls into other
  packages on processes, files and sockets. Those calls are the record \<open>stages\<close>: functions of an
  opaque outside world \<open>'x\<close>, which also holds what the runner only passes from one of them to the
  next (the composition, the plan). Of a parsed spec the runner itself reads the chain name only, so
  \<open>specs\<close> is the list of those. Nothing is assumed of the calls.
\<close>

section \<open>Messages (runprotocol.go)\<close>

definition BaseTest :: What where "BaseTest = 0x8000"

definition CmdRun :: What where "CmdRun = BaseTest + 0x001"

definition eventDeclarationRead :: What where "eventDeclarationRead = BaseTest + 0x100"
definition eventSessionOpened :: What where "eventSessionOpened = BaseTest + 0x100 + 1"
definition eventNetworkWayChosen :: What where "eventNetworkWayChosen = BaseTest + 0x100 + 2"
definition eventNetworkReached :: What where "eventNetworkReached = BaseTest + 0x100 + 3"
definition eventChainPrepared :: What where "eventChainPrepared = BaseTest + 0x100 + 4"
definition eventCasesRun :: What where "eventCasesRun = BaseTest + 0x100 + 5"
definition eventCollected :: What where "eventCollected = BaseTest + 0x100 + 6"
definition eventStageStopped :: What where "eventStageStopped = BaseTest + 0x100 + 7"

datatype runMsg =
    startRun
  | declarationRead
  | sessionOpened
  | networkWayChosen
  | networkReached
  | chainPrepared
  | casesRun
  | collected
  | stageStopped

fun runWhat :: "runMsg \<Rightarrow> What" where
  "runWhat startRun = CmdRun"
| "runWhat declarationRead = eventDeclarationRead"
| "runWhat sessionOpened = eventSessionOpened"
| "runWhat networkWayChosen = eventNetworkWayChosen"
| "runWhat networkReached = eventNetworkReached"
| "runWhat chainPrepared = eventChainPrepared"
| "runWhat casesRun = eventCasesRun"
| "runWhat collected = eventCollected"
| "runWhat stageStopped = eventStageStopped"

section \<open>State names\<close>

definition nameTest :: StateName where "nameTest = ''TEST''"
definition nameTestIdle :: StateName where "nameTestIdle = ''TEST_IDLE''"
definition nameTestReadDeclaration :: StateName where "nameTestReadDeclaration = ''TEST_READ_DECLARATION''"
definition nameTestOpenSession :: StateName where "nameTestOpenSession = ''TEST_OPEN_SESSION''"
definition nameTestStandUpNetwork :: StateName where "nameTestStandUpNetwork = ''TEST_STAND_UP_NETWORK''"
definition nameTestStandUpNetworkCompose :: StateName where
  "nameTestStandUpNetworkCompose = ''TEST_STAND_UP_NETWORK_COMPOSE''"
definition nameTestStandUpNetworkAttach :: StateName where
  "nameTestStandUpNetworkAttach = ''TEST_STAND_UP_NETWORK_ATTACH''"
definition nameTestPrepare :: StateName where "nameTestPrepare = ''TEST_PREPARE''"
definition nameTestRunCases :: StateName where "nameTestRunCases = ''TEST_RUN_CASES''"
definition nameTestCollect :: StateName where "nameTestCollect = ''TEST_COLLECT''"
definition nameTestDone :: StateName where "nameTestDone = ''TEST_DONE''"
definition nameTestFailed :: StateName where "nameTestFailed = ''TEST_FAILED''"

lemmas run_names = nameTest_def nameTestIdle_def nameTestReadDeclaration_def nameTestOpenSession_def
  nameTestStandUpNetwork_def nameTestStandUpNetworkCompose_def nameTestStandUpNetworkAttach_def
  nameTestPrepare_def nameTestRunCases_def nameTestCollect_def nameTestDone_def nameTestFailed_def

section \<open>The runner\<close>

datatype 'e runError =
    External 'e
  | NoSpecs
  | WorkspaceRequired
  | ChainRequired
  | SessionFailed 'e
  | TeardownFailed 'e
  | AlsoNotTakenDown "'e runError" 'e
  | UnhandledAt What StateName
  | Stalled string "StateName list"

record RunSuiteIn =
  SpecPaths :: "string list"
  SpecContent :: "string list"
  DataDir :: string
  Chain :: string
  ArtifactRoot :: string
  WorkspaceConfigPath :: string
  KeepUp :: bool
  NoNodeControl :: bool
  OnPlan :: bool

record RunSuiteOut =
  SetupSteps :: "string list"
  Endpoints :: "string list"
  SessionRoot :: string
  Stopped :: bool
  CleanupFailed :: bool
  FailedAt :: string

text \<open>A network the run has: its endpoints, and whether it has a teardown and a node control.\<close>

record composed =
  endpoints :: "string list"
  teardown :: bool
  control :: bool

record ('x, 'e) runner =
  r_in :: RunSuiteIn
  r_out :: RunSuiteOut
  raw :: "string list"
  specs :: "string list"
  sess :: "string option"
  keysDir :: string
  net :: composed
  failure :: "'e runError option"
  failedIn :: string
  networkUp :: bool
  attach :: bool
  outside :: 'x

record ('x, 'e) stages =
  s_ctxErr :: "'x \<Rightarrow> 'e option"
  s_now :: "'x \<Rightarrow> int"
  s_errorText :: "'e \<Rightarrow> string"
  s_openWorkspace :: "string \<Rightarrow> 'x \<Rightarrow> (string \<times> string) option"
  s_resolveComposition :: "RunSuiteIn \<Rightarrow> 'x \<Rightarrow> 'x \<times> ('e + string list \<times> string list)"
  s_planOf :: "string list \<Rightarrow> 'x \<Rightarrow> 'x"
  s_onPlan :: "'x \<Rightarrow> 'x"
  s_writePlan :: "string \<Rightarrow> 'x \<Rightarrow> 'x \<times> 'e option"
  s_artifactRoot :: "string \<Rightarrow> string \<Rightarrow> 'x \<Rightarrow> 'x \<times> ('e + string)"
  s_newSession :: "string \<Rightarrow> 'x \<Rightarrow> 'x \<times> ('e + string)"
  s_compose :: "RunSuiteOut \<Rightarrow> 'x \<Rightarrow> 'x \<times> RunSuiteOut \<times> composed \<times> 'e option"
  s_verifyAgainstPlan :: "RunSuiteOut \<Rightarrow> 'x \<Rightarrow> 'x \<times> RunSuiteOut \<times> 'e option"
  s_readWorkspace :: "string \<Rightarrow> string \<Rightarrow> string list \<Rightarrow> 'x \<Rightarrow> 'x \<times> string list \<times> ('e + composed)"
  s_prepareChain :: "RunSuiteIn \<Rightarrow> composed \<Rightarrow> RunSuiteOut \<Rightarrow> 'x \<Rightarrow> 'x \<times> composed \<times> RunSuiteOut \<times> 'e option"
  s_runCases :: "RunSuiteIn \<Rightarrow> string \<Rightarrow> string list \<Rightarrow> composed \<Rightarrow> string option \<Rightarrow> RunSuiteOut \<Rightarrow> 'x
     \<Rightarrow> 'x \<times> RunSuiteOut \<times> 'e option"
  s_recordBlocked :: "composed \<Rightarrow> RunSuiteOut \<Rightarrow> 'e runError \<Rightarrow> 'x \<Rightarrow> 'x \<times> RunSuiteOut"
  s_teardown :: "'x \<Rightarrow> 'x \<times> 'e option"

definition zeroOut :: RunSuiteOut where
  "zeroOut = \<lparr>SetupSteps = [], Endpoints = [], SessionRoot = '''', Stopped = False,
     CleanupFailed = False, FailedAt = ''''\<rparr>"

definition noNetwork :: composed where
  "noNetwork = \<lparr>endpoints = [], teardown = False, control = False\<rparr>"

definition initRunner :: "RunSuiteIn \<Rightarrow> 'x \<Rightarrow> ('x, 'e) runner" where
  "initRunner inp x = \<lparr>r_in = inp, r_out = zeroOut, raw = [], specs = [], sess = None, keysDir = '''',
     net = noNetwork, failure = None, failedIn = '''', networkUp = False, attach = False, outside = x\<rparr>"

text \<open>
  \<open>fail\<close>: the reason and the path of the stage being entered are kept, and the stage reports that
  it stopped. What an \<open>Enter\<close> does is the new runner and the messages it leaves with \<open>SendSelf\<close>;
  \<open>path\<close> is \<open>Machine.Path\<close> of the state being entered.
\<close>

definition failStage :: "string \<Rightarrow> 'e runError \<Rightarrow> ('x, 'e) runner \<Rightarrow> ('x, 'e) runner \<times> runMsg list" where
  "failStage path err r = (r\<lparr>failure := Some err, failedIn := path\<rparr>, [stageStopped])"

definition chain :: "('x, 'e) runner \<Rightarrow> string" where
  "chain r = (if length (specs r) > 0 then specs r ! 0 else Chain (r_in r))"

definition readAttachTarget ::
  "('x, 'e) stages \<Rightarrow> ('x, 'e) runner \<Rightarrow> ('x, 'e) runner \<times> 'e runError option"
where
  "readAttachTarget D r =
     (if DataDir (r_in r) = '''' then (r, Some WorkspaceRequired)
      else
        let r1 = (case s_openWorkspace D (DataDir (r_in r)) (outside r) of
                    None \<Rightarrow> r
                  | Some (kd, ch) \<Rightarrow>
                      r\<lparr>keysDir := kd,
                        r_in := (if Chain (r_in r) = '''' then (r_in r)\<lparr>Chain := ch\<rparr> else r_in r)\<rparr>)
        in if Chain (r_in r1) = '''' then (r1, Some ChainRequired)
           else (r1\<lparr>raw := SpecContent (r_in r1)\<rparr>, None))"

definition adopted :: "('x, 'e) runner \<Rightarrow> composed \<Rightarrow> composed" where
  "adopted r n = (if NoNodeControl (r_in r) then n\<lparr>control := False\<rparr> else n)"

section \<open>What each state does when it is entered\<close>

definition enter_readingDeclaration ::
  "('x, 'e) stages \<Rightarrow> string \<Rightarrow> ('x, 'e) runner \<Rightarrow> ('x, 'e) runner \<times> runMsg list"
where
  "enter_readingDeclaration D path r =
     (if attach r then
        (case readAttachTarget D r of
           (r1, Some err) \<Rightarrow> failStage path err r1
         | (r1, None) \<Rightarrow> (r1, [declarationRead]))
      else if length (SpecPaths (r_in r)) = 0 \<and> length (SpecContent (r_in r)) = 0 then
        failStage path NoSpecs r
      else
        (case s_resolveComposition D (r_in r) (outside r) of
           (x1, Inl err) \<Rightarrow> failStage path (External err) (r\<lparr>outside := x1\<rparr>)
         | (x1, Inr (rw, sp)) \<Rightarrow>
             (let r1 = r\<lparr>raw := rw, specs := sp, outside := s_planOf D sp x1\<rparr>;
                  r2 = (if OnPlan (r_in r1) then r1\<lparr>outside := s_onPlan D (outside r1)\<rparr> else r1)
              in case s_writePlan D (DataDir (r_in r2)) (outside r2) of
                   (x3, Some perr) \<Rightarrow>
                     (r2\<lparr>outside := x3, r_out := (r_out r2)
                        \<lparr>SetupSteps := SetupSteps (r_out r2) @ [''plan: '' @ s_errorText D perr]\<rparr>\<rparr>,
                      [declarationRead])
                 | (x3, None) \<Rightarrow> (r2\<lparr>outside := x3\<rparr>, [declarationRead]))))"

definition enter_openingSession ::
  "('x, 'e) stages \<Rightarrow> string \<Rightarrow> ('x, 'e) runner \<Rightarrow> ('x, 'e) runner \<times> runMsg list"
where
  "enter_openingSession D path r =
     (case s_artifactRoot D (ArtifactRoot (r_in r)) (WorkspaceConfigPath (r_in r)) (outside r) of
        (x1, Inl err) \<Rightarrow> failStage path (External err) (r\<lparr>outside := x1\<rparr>)
      | (x1, Inr root) \<Rightarrow>
          (let r1 = r\<lparr>outside := x1, r_in := (r_in r)\<lparr>ArtifactRoot := root\<rparr>\<rparr>
           in if attach r1 then (r1, [sessionOpened])
              else case s_newSession D root (outside r1) of
                     (x2, Inl err) \<Rightarrow> failStage path (SessionFailed err) (r1\<lparr>outside := x2\<rparr>)
                   | (x2, Inr sroot) \<Rightarrow>
                       (r1\<lparr>outside := x2, sess := Some sroot,
                           r_out := (r_out r1)\<lparr>SessionRoot := sroot\<rparr>\<rparr>, [sessionOpened])))"

definition enter_reachingNetwork :: "('x, 'e) runner \<Rightarrow> ('x, 'e) runner \<times> runMsg list" where
  "enter_reachingNetwork r = (r, [networkWayChosen])"

definition enter_composingNetwork ::
  "('x, 'e) stages \<Rightarrow> string \<Rightarrow> ('x, 'e) runner \<Rightarrow> ('x, 'e) runner \<times> runMsg list"
where
  "enter_composingNetwork D path r =
     (case s_compose D (r_out r) (outside r) of (x1, out1, nt, err) \<Rightarrow>
        let r1 = r\<lparr>outside := x1, r_out := out1, net := nt, networkUp := True\<rparr>
        in case err of
             Some e \<Rightarrow> failStage path (External e) r1
           | None \<Rightarrow>
               (case s_verifyAgainstPlan D (r_out r1) (outside r1) of
                  (x2, out2, Some verr) \<Rightarrow>
                    failStage path (External verr) (r1\<lparr>outside := x2, r_out := out2\<rparr>)
                | (x2, out2, None) \<Rightarrow>
                    (r1\<lparr>outside := x2, r_out := out2\<lparr>Endpoints := endpoints nt\<rparr>\<rparr>, [networkReached])))"

definition enter_attachingToNetwork ::
  "('x, 'e) stages \<Rightarrow> string \<Rightarrow> ('x, 'e) runner \<Rightarrow> ('x, 'e) runner \<times> runMsg list"
where
  "enter_attachingToNetwork D path r =
     (case s_readWorkspace D (DataDir (r_in r)) (keysDir r) (SetupSteps (r_out r)) (outside r) of
        (x1, steps, res) \<Rightarrow>
          let r1 = r\<lparr>outside := x1, r_out := (r_out r)\<lparr>SetupSteps := steps\<rparr>\<rparr>
          in case res of
               Inl e \<Rightarrow> failStage path (External e) r1
             | Inr nt \<Rightarrow>
                 (r1\<lparr>net := adopted r1 nt, networkUp := True,
                     r_out := (r_out r1)\<lparr>Endpoints := endpoints nt\<rparr>\<rparr>, [networkReached]))"

definition enter_preparingRun ::
  "('x, 'e) stages \<Rightarrow> string \<Rightarrow> ('x, 'e) runner \<Rightarrow> ('x, 'e) runner \<times> runMsg list"
where
  "enter_preparingRun D path r =
     (case s_prepareChain D (r_in r) (net r) (r_out r) (outside r) of (x1, nt, out1, err) \<Rightarrow>
        let r1 = r\<lparr>outside := x1, net := nt, r_out := out1\<rparr>
        in case err of Some e \<Rightarrow> failStage path (External e) r1 | None \<Rightarrow> (r1, [chainPrepared]))"

definition enter_runningCases ::
  "('x, 'e) stages \<Rightarrow> string \<Rightarrow> ('x, 'e) runner \<Rightarrow> ('x, 'e) runner \<times> runMsg list"
where
  "enter_runningCases D path r =
     (case s_runCases D (r_in r) (chain r) (raw r) (net r) (sess r) (r_out r) (outside r) of
        (x1, out1, err) \<Rightarrow>
          let r1 = r\<lparr>outside := x1, r_out := out1\<rparr>
          in case err of Some e \<Rightarrow> failStage path (External e) r1 | None \<Rightarrow> (r1, [casesRun]))"

definition enter_collecting ::
  "('x, 'e) stages \<Rightarrow> ('x, 'e) runner \<Rightarrow> ('x, 'e) runner \<times> runMsg list"
where
  "enter_collecting D r =
     (let r1 = (case failure r of
                  Some f \<Rightarrow>
                    if networkUp r \<and> sess r \<noteq> None then
                      (case s_recordBlocked D (net r) (r_out r) f (outside r) of
                         (x1, out1) \<Rightarrow> r\<lparr>outside := x1, r_out := out1\<rparr>)
                    else r
                | None \<Rightarrow> r);
          r2 = (if \<not> KeepUp (r_in r1) \<and> teardown (net r1) then
                  (case s_teardown D (outside r1) of
                     (x2, None) \<Rightarrow> r1\<lparr>outside := x2, r_out := (r_out r1)\<lparr>Stopped := True\<rparr>\<rparr>
                   | (x2, Some err) \<Rightarrow>
                       r1\<lparr>outside := x2, r_out := (r_out r1)\<lparr>CleanupFailed := True\<rparr>,
                          failure := Some (case failure r1 of
                              None \<Rightarrow> TeardownFailed err
                            | Some f \<Rightarrow> AlsoNotTakenDown f err)\<rparr>)
                else r1)
      in (r2, [collected]))"

section \<open>What each state does with a message\<close>

text \<open>\<open>Some d\<close>: handled, with the one call \<open>TransitionTo\<close> d; \<open>None\<close>: not handled.\<close>

definition process_runState :: "runMsg \<Rightarrow> StateName option" where
  "process_runState x = (if x \<noteq> stageStopped then None else Some nameTestCollect)"

definition process_pendingState :: "runMsg \<Rightarrow> StateName option" where
  "process_pendingState x = (if x \<noteq> startRun then None else Some nameTestReadDeclaration)"

definition process_readingDeclaration :: "runMsg \<Rightarrow> StateName option" where
  "process_readingDeclaration x = (if x \<noteq> declarationRead then None else Some nameTestOpenSession)"

definition process_openingSession :: "runMsg \<Rightarrow> StateName option" where
  "process_openingSession x = (if x \<noteq> sessionOpened then None else Some nameTestStandUpNetwork)"

definition process_reachingNetwork :: "('x, 'e) runner \<Rightarrow> runMsg \<Rightarrow> StateName option" where
  "process_reachingNetwork r x =
     (case x of
        networkWayChosen \<Rightarrow>
          if attach r then Some nameTestStandUpNetworkAttach else Some nameTestStandUpNetworkCompose
      | networkReached \<Rightarrow> if attach r then Some nameTestRunCases else Some nameTestPrepare
      | _ \<Rightarrow> None)"

definition process_preparingRun :: "runMsg \<Rightarrow> StateName option" where
  "process_preparingRun x = (if x \<noteq> chainPrepared then None else Some nameTestRunCases)"

definition process_runningCases :: "runMsg \<Rightarrow> StateName option" where
  "process_runningCases x = (if x \<noteq> casesRun then None else Some nameTestCollect)"

definition process_collecting :: "('x, 'e) runner \<Rightarrow> runMsg \<Rightarrow> StateName option" where
  "process_collecting r x =
     (if x \<noteq> collected then None
      else if failure r \<noteq> None then Some nameTestFailed else Some nameTestDone)"

text \<open>The method a state's name selects; \<open>Base\<close> does nothing.\<close>

definition run_enter ::
  "('x, 'e) stages \<Rightarrow> StateName \<Rightarrow> string \<Rightarrow> ('x, 'e) runner \<Rightarrow> ('x, 'e) runner \<times> runMsg list"
where
  "run_enter D n path r =
     (if n = nameTestReadDeclaration then enter_readingDeclaration D path r
      else if n = nameTestOpenSession then enter_openingSession D path r
      else if n = nameTestStandUpNetwork then enter_reachingNetwork r
      else if n = nameTestStandUpNetworkCompose then enter_composingNetwork D path r
      else if n = nameTestStandUpNetworkAttach then enter_attachingToNetwork D path r
      else if n = nameTestPrepare then enter_preparingRun D path r
      else if n = nameTestRunCases then enter_runningCases D path r
      else if n = nameTestCollect then enter_collecting D r
      else (r, []))"

definition run_process :: "StateName \<Rightarrow> ('x, 'e) runner \<Rightarrow> runMsg \<Rightarrow> StateName option" where
  "run_process n r x =
     (if n = nameTest then process_runState x
      else if n = nameTestIdle then process_pendingState x
      else if n = nameTestReadDeclaration then process_readingDeclaration x
      else if n = nameTestOpenSession then process_openingSession x
      else if n = nameTestStandUpNetwork then process_reachingNetwork r x
      else if n = nameTestPrepare then process_preparingRun x
      else if n = nameTestRunCases then process_runningCases x
      else if n = nameTestCollect then process_collecting r x
      else None)"

definition runClient :: "('x, 'e) stages \<Rightarrow> (('x, 'e) runner, runMsg, 'e) client" where
  "runClient D = \<lparr>what_of = runWhat, ctx_err = (\<lambda>r. s_ctxErr D (outside r)), now = (\<lambda>r. s_now D (outside r)),
     st_enter = (\<lambda>n m r. case run_enter D n (Path m (Some n)) r of
        (r', ms) \<Rightarrow> (r', map (\<lambda>x. SendSelf (Some x)) ms, None)),
     st_exit = (\<lambda>n m r. (r, [], None)),
     st_process = (\<lambda>n m x r. case run_process n r x of
        None \<Rightarrow> (r, [], False, None) | Some d \<Rightarrow> (r, [TransitionTo (Some d)], True, None))\<rparr>"

section \<open>The tree and its contracts\<close>

definition runContract :: "What list \<Rightarrow> What list \<Rightarrow> Contract" where
  "runContract acc em = \<lparr>Accepts = acc, Emits = em, Ignores = [], Refuses = False\<rparr>"

definition runStateOf :: "StateName \<Rightarrow> What list \<Rightarrow> What list \<Rightarrow> State option" where
  "runStateOf n acc em = Some \<lparr>st_name = n, st_contract = Some (runContract acc em)\<rparr>"

definition st_run :: "State option" where
  "st_run = runStateOf nameTest [eventStageStopped] []"
definition st_pending :: "State option" where
  "st_pending = runStateOf nameTestIdle [CmdRun] []"
definition st_reading :: "State option" where
  "st_reading = runStateOf nameTestReadDeclaration [eventDeclarationRead] [eventDeclarationRead, eventStageStopped]"
definition st_opening :: "State option" where
  "st_opening = runStateOf nameTestOpenSession [eventSessionOpened] [eventSessionOpened, eventStageStopped]"
definition st_reaching :: "State option" where
  "st_reaching = runStateOf nameTestStandUpNetwork [eventNetworkWayChosen, eventNetworkReached] [eventNetworkWayChosen]"
definition st_composing :: "State option" where
  "st_composing = runStateOf nameTestStandUpNetworkCompose [] [eventNetworkReached, eventStageStopped]"
definition st_attaching :: "State option" where
  "st_attaching = runStateOf nameTestStandUpNetworkAttach [] [eventNetworkReached, eventStageStopped]"
definition st_preparing :: "State option" where
  "st_preparing = runStateOf nameTestPrepare [eventChainPrepared] [eventChainPrepared, eventStageStopped]"
definition st_running :: "State option" where
  "st_running = runStateOf nameTestRunCases [eventCasesRun] [eventCasesRun, eventStageStopped]"
definition st_collect :: "State option" where
  "st_collect = runStateOf nameTestCollect [eventCollected] [eventCollected]"
definition st_done :: "State option" where
  "st_done = runStateOf nameTestDone [] []"
definition st_failed :: "State option" where
  "st_failed = runStateOf nameTestFailed [] []"

definition runUnhandled ::
  "runMsg \<Rightarrow> StateName \<Rightarrow> ('x, 'e) runner \<Rightarrow> runMsg \<times> ('x, 'e) runner"
where
  "runUnhandled x at r =
     (stageStopped,
      if failure r = None then r\<lparr>failure := Some (UnhandledAt (runWhat x) at), failedIn := at\<rparr> else r)"

definition newRunner :: "(('x, 'e) runner, runMsg) machine" where
  "newRunner =
     (let m = RequireContracts New;
          m = Add m st_run None;
          m = Add m st_pending st_run;
          m = Add m st_reading st_run;
          m = Add m st_opening st_run;
          m = Add m st_reaching st_run;
          m = Add m st_composing st_reaching;
          m = Add m st_attaching st_reaching;
          m = Add m st_preparing st_run;
          m = Add m st_running st_run;
          m = Add m st_collect st_run;
          m = Add m st_done st_run;
          m = Add m st_failed st_run
      in OnUnhandled m runUnhandled)"

section \<open>Run\<close>

datatype 'e runResult = RunOk | MachineFailed "'e smError" | RunFailed "'e runError"

definition Run ::
  "('x, 'e) stages \<Rightarrow> ('x, 'e) runner
     \<Rightarrow> (('x, 'e) runner, runMsg) machine \<times> ('x, 'e) runner \<times> 'e runResult"
where
  "Run D r =
     (case Start (runClient D) newRunner r (Some nameTestIdle) of
        (m1, r1, Some e) \<Rightarrow> (m1, r1, MachineFailed e)
      | (m1, r1, None) \<Rightarrow>
          (case Send (runClient D) m1 r1 (Some startRun) of
             (m2, r2, Some e) \<Rightarrow> (m2, r2, MachineFailed e)
           | (m2, r2, None) \<Rightarrow>
               (let r3 = (case RequireAt m2 [Some nameTestDone, Some nameTestFailed] :: 'e smError option of
                            Some e \<Rightarrow>
                              if failure r2 = None then
                                r2\<lparr>failure := Some (Stalled (Path m2 (Some (m_current m2)))
                                     [nameTestDone, nameTestFailed]),
                                   failedIn := Path m2 (Some (m_current m2))\<rparr>
                              else r2
                          | None \<Rightarrow> r2)
                in case failure r3 of
                     Some f \<Rightarrow> (m2, r3\<lparr>r_out := (r_out r3)\<lparr>FailedAt := failedIn r3\<rparr>\<rparr>, RunFailed f)
                   | None \<Rightarrow> (m2, r3, RunOk))))"

end
