(* ===== verification/Machine_Client.thy ===== *)
theory Machine_Client
  imports Machine_Laws
begin

text \<open>
  What a client of the state machine gets from it. A client whose states enter by doing work and leaving
  messages to themselves, never exit with work, and answer a message by moving, by leaving messages or by
  an error, and which keeps to its contracts, can be read without the machine: \<open>walk\<close> takes the
  messages in order, finds the state on the path that answers, and enters the states between.
  \<open>drain\<close>, \<open>Send\<close> and \<open>Start\<close> do exactly that.
\<close>

section \<open>Trees\<close>

lemma shape_Add:
  assumes s: "shape m = shape m'" and c: "m_current m = m_current m'"
  shows "shape (Add m st p) = shape (Add m' st p)"
proof -
  have none: "m_info m n = None \<longleftrightarrow> m_info m' n = None" for n
    using shape_D(2) [OF s] by (metis domIff)
  have ext: "shape (m\<lparr>m_info := (m_info m)(n \<mapsto> i), m_order := m_order m @ [n]\<rparr>)
      = shape (m'\<lparr>m_info := (m_info m')(n \<mapsto> i), m_order := m_order m' @ [n]\<rparr>)" for n i
    using s by (auto simp: shape_def fun_eq_iff)
  have keep: "shape (keepSetup m e) = shape (keepSetup m' e)" for e
    using s by (simp add: shape_def)
  show ?thesis
    using ext keep c none by (simp add: Add_def Let_def split: option.splits)
qed

lemma shape_setup: "shape (OnUnhandled m f) = shape m" "shape (RequireContracts m) = shape m"
  "m_current (RequireContracts m) = m_current m"
  by (simp_all add: OnUnhandled_def RequireContracts_def shape_def)

lemma Path_shape: "shape m = shape m' \<Longrightarrow> Path m s = Path m' s"
proof -
  assume s: "shape m = shape m'"
  have "m_info m n = None \<longleftrightarrow> m_info m' n = None" for n
    using shape_D(2) [OF s] by (metis domIff)
  then show ?thesis using shape_D(1) [OF s] by (simp add: Path_def split: option.splits)
qed

lemma contract_known: "contractOf m n = Some c \<Longrightarrow> n \<in> dom (m_info m)"
  by (auto simp: contractOf_def split: option.splits)

text \<open>The messages a state may leave itself and the messages it may answer, by its contract.\<close>

definition emitsOf :: "('w, 'm) machine \<Rightarrow> StateName \<Rightarrow> What set" where
  "emitsOf T n = (case contractOf T n of None \<Rightarrow> UNIV | Some c \<Rightarrow> set (Emits c))"

definition answersOf :: "('w, 'm) machine \<Rightarrow> StateName \<Rightarrow> What set" where
  "answersOf T n = (case contractOf T n of None \<Rightarrow> UNIV | Some c \<Rightarrow> if Refuses c then UNIV else set (Accepts c))"

text \<open>The states entered on the way to \<open>d\<close>, outermost first, when the path of \<open>n\<close> is active.\<close>

definition entryPath :: "('w, 'm) machine \<Rightarrow> StateName \<Rightarrow> StateName \<Rightarrow> StateName list" where
  "entryPath T n d = rev (hd (ancestors T d) # takeWhile (\<lambda>p. p \<notin> set (ancestors T n)) (tl (ancestors T d)))"

lemma planned_entry:
  assumes plan: "transition_plan m xs ys common" and act: "active m = set (ancestors m (m_current m))"
  shows "rev ys = entryPath m (m_current m) (m_dest m)"
proof -
  obtain y zs where ys: "ys = y # zs" using plan by (cases ys) (auto simp: transition_plan_def)
  have c: "ancestors m (m_current m) = xs @ common" "ancestors m (m_dest m) = y # zs @ common"
    and inact: "\<forall>n \<in> set zs. n \<notin> set (ancestors m (m_current m))"
    using plan act by (auto simp: transition_plan_def ys active_def)
  have "takeWhile (\<lambda>p. p \<notin> set (ancestors m (m_current m))) (zs @ common) = zs"
    using inact c(1) by (cases common) (auto simp: takeWhile_append)
  then show ?thesis by (simp add: entryPath_def c ys)
qed

section \<open>Clients\<close>

datatype ('w, 'm, 'e) reaction = NotMine | Moves 'w StateName | Says 'w "'m list" | Errs 'w 'e

datatype ('w, 'e) outcome = Rested StateName 'w | Broke "'e smError" 'w | Stuck

locale walker =
  fixes C :: "('w, 'm, 'e) client"
    and T :: "('v, 'n) machine"
    and ent :: "StateName \<Rightarrow> 'w \<Rightarrow> 'w \<times> 'm list"
    and react :: "StateName \<Rightarrow> 'w \<Rightarrow> 'm \<Rightarrow> ('w, 'm, 'e) reaction"
  assumes enter_eq: "shape m = shape T \<Longrightarrow>
      st_enter C n m w = (fst (ent n w), map (\<lambda>x. SendSelf (Some x)) (snd (ent n w)), None)"
    and exit_eq: "st_exit C n m w = (w, [], None)"
    and process_eq: "shape m = shape T \<Longrightarrow> st_process C n m x w =
      (case react n w x of
         NotMine \<Rightarrow> (w, [], False, None)
       | Moves w' d \<Rightarrow> (w', [TransitionTo (Some d)], True, None)
       | Says w' ms \<Rightarrow> (w', map (\<lambda>x. SendSelf (Some x)) ms, True, None)
       | Errs w' e \<Rightarrow> (w', [], True, Some e))"
    and ent_declared: "what_of C ` set (snd (ent n w)) \<subseteq> emitsOf T n"
    and react_declared: "react n w x \<noteq> NotMine \<Longrightarrow> what_of C x \<in> answersOf T n"
    and moves_known: "react n w x = Moves w' d \<Longrightarrow> d \<in> dom (m_info T)"
    and says_declared: "react n w x = Says w' ms \<Longrightarrow> what_of C ` set ms \<subseteq> emitsOf T n"
begin

fun enterAll :: "StateName list \<Rightarrow> 'w \<Rightarrow> 'w \<times> 'm list" where
  "enterAll [] w = (w, [])"
| "enterAll (n # ns) w = (case ent n w of (w1, ms) \<Rightarrow> case enterAll ns w1 of (w2, ms') \<Rightarrow> (w2, ms @ ms'))"

fun answer :: "StateName list \<Rightarrow> 'w \<Rightarrow> 'm \<Rightarrow> (StateName \<times> ('w, 'm, 'e) reaction) option" where
  "answer [] w x = None"
| "answer (n # ns) w x = (if react n w x = NotMine then answer ns w x else Some (n, react n w x))"

fun walk :: "nat \<Rightarrow> StateName \<Rightarrow> 'm list \<Rightarrow> 'w \<Rightarrow> ('w, 'e) outcome" where
  "walk 0 n q w = Broke (Looping maxDispatchPerSend n) w"
| "walk (Suc k) n [] w = Rested n w"
| "walk (Suc k) n (x # q) w =
     (case ctx_err C w of Some e \<Rightarrow> Broke (CtxErr e) w | None \<Rightarrow>
      case answer (ancestors T n) w x of
        None \<Rightarrow> Stuck
      | Some (h, NotMine) \<Rightarrow> Stuck
      | Some (h, Errs w1 e) \<Rightarrow> Broke (ProcessErr h (what_of C x) e) w1
      | Some (h, Says w1 ms) \<Rightarrow> walk k n (q @ ms) w1
      | Some (h, Moves w1 d) \<Rightarrow>
          (case enterAll (entryPath T n d) w1 of (w2, ms) \<Rightarrow> walk k d (q @ ms) w2))"

text \<open>The machine stands at a state with these messages to itself, and nothing else pending.\<close>

definition standing :: "('w, 'm) machine \<Rightarrow> StateName \<Rightarrow> 'm list \<Rightarrow> bool" where
  "standing m n q \<longleftrightarrow> settled m \<and> shape m = shape T \<and> m_current m = n \<and> m_self m = q
     \<and> m_inbox m = [] \<and> m_opErr m = None \<and> \<not> m_haveDest m"

lemma standing_self: "standing m n (x # q) \<Longrightarrow> standing (m\<lparr>m_self := q\<rparr>) n q"
  by (simp add: standing_def shape_def settled.inv_self)

lemma standing_sending: "standing (m\<lparr>m_sending := b\<rparr>) n q = standing m n q"
  using settled.inv_sending [of m b] settled.inv_sending [of "m\<lparr>m_sending := b\<rparr>" "m_sending m"]
  by (auto simp: standing_def shape_def)

text \<open>What a step that only leaves declared messages does to a machine.\<close>

definition calm :: "('w, 'm) machine \<Rightarrow> ('w, 'm) machine \<Rightarrow> 'm list \<Rightarrow> bool" where
  "calm m m' ms \<longleftrightarrow> shape m' = shape m \<and> m_current m' = m_current m \<and> m_self m' = m_self m @ ms
     \<and> m_inbox m' = m_inbox m \<and> m_opErr m' = m_opErr m \<and> m_inState m' = m_inState m
     \<and> m_inTransition m' = m_inTransition m \<and> m_haveDest m' = m_haveDest m"

lemma calm_trans: "calm a b ms \<Longrightarrow> calm b c ms' \<Longrightarrow> calm a c (ms @ ms')"
  by (simp add: calm_def)

lemma calm_active: "calm m (setActive (m\<lparr>m_acting := n, m_self := m_self m @ ms\<rparr>) n b) ms"
proof -
  have "shape (m\<lparr>m_acting := n, m_self := m_self m @ ms\<rparr>) = shape m" by (simp add: shape_def)
  then show ?thesis by (simp add: calm_def) (simp add: setActive_def)
qed

lemma do_declared:
  assumes "m_inState m" "shape m = shape T" "what_of C ` set ms \<subseteq> emitsOf T (m_acting m)"
  shows "do_calls (what_of C) m (map (\<lambda>x. SendSelf (Some x)) ms) = m\<lparr>m_self := m_self m @ ms\<rparr>"
  using assms
proof (induction ms arbitrary: m)
  case (Cons x ms)
  have "contractOf m (m_acting m) = contractOf T (m_acting m)" by (rule shape_D(3) [OF Cons.prems(2)])
  then have "checkEmitted m (what_of C x) = m"
    using Cons.prems(3) by (auto simp: checkEmitted_def emitsOf_def split: option.splits)
  then have "do_call (what_of C) m (SendSelf (Some x)) = m\<lparr>m_self := m_self m @ [x]\<rparr>"
    using Cons.prems(1) by (simp add: sendSelf_def)
  moreover have "shape (m\<lparr>m_self := m_self m @ [x]\<rparr>) = shape T" using Cons.prems(2) by (simp add: shape_def)
  ultimately show ?case using Cons.IH [of "m\<lparr>m_self := m_self m @ [x]\<rparr>"] Cons.prems by simp
qed simp

lemma exits_walk: "\<exists>m'. runExits C m w ns = (m', w, None) \<and> calm m m' []"
proof (induction ns arbitrary: m)
  case (Cons n ns)
  have "calm m (setActive (m\<lparr>m_acting := n\<rparr>) n False) []"
    using calm_active [where m = m and n = n and ms = "[]" and b = False] by simp
  then show ?case using Cons [of "setActive (m\<lparr>m_acting := n\<rparr>) n False"] calm_trans
    by (fastforce simp: Let_def exit_eq)
qed (simp add: calm_def)

lemma enters_walk:
  assumes "m_inState m" "shape m = shape T"
  shows "\<exists>m'. runEnters C m w ns = (m', fst (enterAll ns w), None) \<and> calm m m' (snd (enterAll ns w))"
  using assms
proof (induction ns arbitrary: m w)
  case (Cons n ns)
  obtain w1 ms where e: "ent n w = (w1, ms)" by fastforce
  let ?m1 = "m\<lparr>m_acting := n\<rparr>"
  let ?m2 = "setActive (m\<lparr>m_acting := n, m_self := m_self m @ ms\<rparr>) n True"
  have sh: "shape ?m1 = shape T" using Cons.prems(2) by (simp add: shape_def)
  have "do_calls (what_of C) ?m1 (map (\<lambda>x. SendSelf (Some x)) ms) = ?m1\<lparr>m_self := m_self ?m1 @ ms\<rparr>"
    using Cons.prems(1) sh ent_declared [of n w] e by (intro do_declared) auto
  then have step: "runEnters C m w (n # ns) = runEnters C ?m2 w1 ns"
    using enter_eq [OF sh, of n w] e by (simp add: Let_def)
  have c: "calm m ?m2 ms" by (rule calm_active)
  then have "m_inState ?m2" "shape ?m2 = shape T" using Cons.prems by (simp_all add: calm_def)
  from Cons.IH [OF this, of w1] obtain m' where
    "runEnters C ?m2 w1 ns = (m', fst (enterAll ns w1), None)" "calm ?m2 m' (snd (enterAll ns w1))" by blast
  then show ?case using step calm_trans [OF c] e by (auto split: prod.splits)
qed (simp add: calm_def)

lemma transition_walk:
  assumes s: "settled m" "shape m = shape T" and d: "m_haveDest m" "m_dest m \<in> dom (m_info T)"
    and st: "m_opErr m = None" "m_inbox m = []"
    and e: "enterAll (entryPath T (m_current m) (m_dest m)) w = (w', ms)"
  obtains m' where "performTransition C m w = (m', w', None)" "standing m' (m_dest m) (m_self m @ ms)"
proof -
  have wf: "wf_machine m" "on_path m" using s(1) by (auto simp: settled_def sound_def on_path_def)
  have dom: "m_dest m \<in> dom (m_info m)" using d(2) shape_D(2) [OF s(2)] by simp
  obtain xs ys common where plan: "transition_plan m xs ys common"
    and run: "performTransition C m w = runTransition C m w xs ys"
    using performTransition_plan [OF wf d(1) dom] by blast
  have "rev ys = entryPath m (m_current m) (m_dest m)"
    using planned_entry [OF plan] s(1) by (simp add: settled_def)
  then have ys: "rev ys = entryPath T (m_current m) (m_dest m)"
    by (simp add: entryPath_def shape_D(1) [OF s(2)])
  obtain m2 where ex: "runExits C (movingMachine m) w xs = (m2, w, None)" and c2: "calm (movingMachine m) m2 []"
    using exits_walk by blast
  have m2: "m_inState m2" "shape m2 = shape T" using c2 s(2) by (simp_all add: calm_def movingMachine_def shape_def)
  obtain m3 where en: "runEnters C m2 w (rev ys) = (m3, w', None)" and c3: "calm m2 m3 ms"
    using enters_walk [OF m2, of w "rev ys"] e ys by auto
  let ?m' = "leaveTransition (m3\<lparr>m_current := m_dest m\<rparr>)"
  have pt: "performTransition C m w = (?m', w', None)" using run ex en by (simp add: runTransition_def)
  have "settled ?m'" by (rule performTransition_settled [OF s(1) pt]) simp
  moreover have "shape ?m' = shape T" using c3 m2(2) by (simp add: calm_def leaveTransition_def shape_def)
  ultimately have "standing ?m' (m_dest m) (m_self m @ ms)"
    using c2 c3 st by (simp add: standing_def calm_def leaveTransition_def movingMachine_def)
  then show ?thesis using that [OF pt] by simp
qed

lemma answer_state: "answer ns w x = Some (h, r) \<Longrightarrow> h \<in> set ns \<and> r = react h w x \<and> r \<noteq> NotMine"
  by (induction ns) (auto split: if_splits)

text \<open>Offering a message to the states of a path, by what the first that answers does.\<close>

definition offered :: "('w, 'm) machine \<Rightarrow> StateName \<Rightarrow> ('w, 'm, 'e) reaction
  \<Rightarrow> ('w, 'm) machine \<times> 'w \<times> (StateName \<times> 'e + StateName) \<Rightarrow> bool" where
  "offered m h r res \<longleftrightarrow> (case r of
       NotMine \<Rightarrow> False
     | Moves w' d \<Rightarrow> res = (m\<lparr>m_acting := h, m_dest := d, m_haveDest := True\<rparr>, w', Inr h)
     | Says w' ms \<Rightarrow> res = (m\<lparr>m_acting := h, m_self := m_self m @ ms\<rparr>, w', Inr h)
     | Errs w' e \<Rightarrow> res = (m\<lparr>m_acting := h\<rparr>, w', Inl (h, e)))"

lemma handled_declared:
  assumes "shape m = shape T" "react h w x \<noteq> NotMine"
  shows "checkHandled m h (what_of C x) = m"
  using react_declared [OF assms(2)] shape_D(3) [OF assms(1)]
  by (auto simp: checkHandled_def answersOf_def split: option.splits if_splits)

lemma offer_here:
  assumes sh: "shape m = shape T" and st: "m_inState m" "\<not> m_inTransition m" "\<not> m_haveDest m"
    and r: "react n w x \<noteq> NotMine"
  shows "offered m n (react n w x) (offer C m w x (n # ns))"
proof -
  let ?m1 = "m\<lparr>m_acting := n\<rparr>"
  have sh1: "shape ?m1 = shape T" using sh by (simp add: shape_def)
  show ?thesis
  proof (cases "react n w x")
    case (Moves w' d)
    obtain i where "m_info m d = Some i" using moves_known [OF Moves] shape_D(2) [OF sh] by blast
    then have c: "do_calls (what_of C) ?m1 [TransitionTo (Some d)] = ?m1\<lparr>m_dest := d, m_haveDest := True\<rparr>"
      using st by (simp add: transitionTo_def)
    have "shape (?m1\<lparr>m_dest := d, m_haveDest := True\<rparr>) = shape T" using sh by (simp add: shape_def)
    from handled_declared [OF this r] show ?thesis
      using Moves process_eq [OF sh1, of n x w] c by (simp add: offered_def Let_def)
  next
    case (Says w' ms)
    have c: "do_calls (what_of C) ?m1 (map (\<lambda>x. SendSelf (Some x)) ms) = ?m1\<lparr>m_self := m_self ?m1 @ ms\<rparr>"
      using st(1) sh1 says_declared [OF Says] by (intro do_declared) auto
    have "shape (?m1\<lparr>m_self := m_self ?m1 @ ms\<rparr>) = shape T" using sh by (simp add: shape_def)
    from handled_declared [OF this r] show ?thesis
      using Says process_eq [OF sh1, of n x w] c by (simp add: offered_def Let_def)
  next
    case (Errs w' e)
    then show ?thesis using process_eq [OF sh1, of n x w] by (simp add: offered_def Let_def)
  qed (use r in simp)
qed

lemma offer_walk:
  assumes "shape m = shape T" "m_inState m" "\<not> m_inTransition m" "\<not> m_haveDest m"
    and "answer ns w x = Some (h, r)"
  shows "offered m h r (offer C m w x ns)"
  using assms
proof (induction ns arbitrary: m)
  case (Cons n ns)
  show ?case
  proof (cases "react n w x = NotMine")
    case True
    let ?m1 = "m\<lparr>m_acting := n\<rparr>"
    have sh: "shape ?m1 = shape T" using Cons.prems(1) by (simp add: shape_def)
    have "offered ?m1 h r (offer C ?m1 w x ns)" by (rule Cons.IH) (use Cons.prems True sh in simp_all)
    moreover have "offer C m w x (n # ns) = offer C ?m1 w x ns"
      using process_eq [OF sh, of n x w] True by (simp add: Let_def)
    ultimately show ?thesis by (simp add: offered_def split: reaction.splits)
  next
    case False
    then show ?thesis using offer_here [OF Cons.prems(1-4) False] Cons.prems(5) by auto
  qed
qed simp

lemma standing_D:
  assumes "standing m n q"
  shows "settled m" "shape m = shape T" "m_current m = n" "m_self m = q" "m_inbox m = []" "m_opErr m = None"
    "\<not> m_haveDest m" "\<not> m_inState m" "\<not> m_inTransition m" "m_acting m = ''''"
    "ancestors m k = ancestors T k"
  using assms shape_D(1) [of m T k] by (auto simp: standing_def settled_def sound_def)

lemma answer_named:
  assumes "standing m n q" "answer (ancestors T n) w x = Some (h, r)"
  shows "h \<noteq> ''''"
proof -
  have s: "settled m" "shape m = shape T" "m_current m = n" using standing_D [OF assms(1)] by simp_all
  have "h \<in> set (ancestors m n)" using answer_state [OF assms(2)] shape_D(1) [OF s(2)] by simp
  moreover from this have "n \<in> dom (m_info m)" using s by (auto simp: settled_def sound_def)
  moreover have wf: "wf_machine m" using s(1) by (simp add: settled_def sound_def)
  ultimately have "h \<in> dom (m_info m)" using ancestors_dom [OF wf] by blast
  then show ?thesis using ancestors_nonempty_name [OF wf] by simp
qed

lemma standing_log: "standing m n q \<Longrightarrow> standing (logRecord C m w x p o' d) n q"
  by (simp add: standing_def logRecord_def shape_def settled.inv_log)

lemma dispatch_moves:
  assumes s: "standing m n q" and ctx: "ctx_err C w = None"
    and a: "answer (ancestors T n) w x = Some (h, Moves w1 d)"
    and e: "enterAll (entryPath T n d) w1 = (w2, ms)"
  obtains m' where "dispatch C m w x = (m', w2, None)" "standing m' d (q @ ms)"
proof -
  note m = standing_D [OF s]
  let ?m0 = "m\<lparr>m_inState := True\<rparr>" and ?m2 = "m\<lparr>m_dest := d, m_haveDest := True\<rparr>"
  have sh0: "shape ?m0 = shape T" using m(2) by (simp add: shape_def)
  have o: "offer C ?m0 w x (ancestors m (m_current m)) = (?m0\<lparr>m_acting := h, m_dest := d, m_haveDest := True\<rparr>, w1, Inr h)"
    using offer_walk [OF sh0 _ _ _ a] m by (simp add: offered_def)
  have leave: "leaveState (?m0\<lparr>m_acting := h, m_dest := d, m_haveDest := True\<rparr>) = ?m2"
    using m(8,10) by (simp add: leaveState_def)
  have d: "d \<in> dom (m_info T)" using answer_state [OF a] moves_known by metis
  have "settled ?m2" "shape ?m2 = shape T"
    using settled.inv_dest [OF m(1), of d] d shape_D(2) [OF m(2)] m(2) by (simp_all add: shape_def)
  then obtain m3 where t: "performTransition C ?m2 w1 = (m3, w2, None)" "standing m3 d (q @ ms)"
    using transition_walk [of ?m2 w1 w2 ms] d e m by auto
  have "dispatch C m w x = (logRecord C m3 w2 x h n d, w2, None)"
    using o t ctx m answer_named [OF s a] standing_D(6) [OF t(2)]
    unfolding dispatch_def dispatchBody_def Let_def by (simp add: leave)
  then show ?thesis using that standing_log [OF t(2)] by blast
qed

lemma dispatch_says:
  assumes s: "standing m n q" and ctx: "ctx_err C w = None"
    and a: "answer (ancestors T n) w x = Some (h, Says w1 ms)"
  obtains m' where "dispatch C m w x = (m', w1, None)" "standing m' n (q @ ms)"
proof -
  note m = standing_D [OF s]
  let ?m0 = "m\<lparr>m_inState := True\<rparr>" and ?m2 = "m\<lparr>m_self := q @ ms\<rparr>"
  have sh0: "shape ?m0 = shape T" using m(2) by (simp add: shape_def)
  have o: "offer C ?m0 w x (ancestors m (m_current m)) = (?m0\<lparr>m_acting := h, m_self := q @ ms\<rparr>, w1, Inr h)"
    using offer_walk [OF sh0 _ _ _ a] m by (simp add: offered_def)
  have leave: "leaveState (?m0\<lparr>m_acting := h, m_self := q @ ms\<rparr>) = ?m2"
    using m(8,10) by (simp add: leaveState_def)
  have t: "standing ?m2 n (q @ ms)" using s by (simp add: standing_def shape_def settled.inv_self)
  have "dispatch C m w x = (logRecord C ?m2 w1 x h n '''', w1, None)"
    using o ctx m answer_named [OF s a]
    unfolding dispatch_def dispatchBody_def Let_def by (simp add: leave performTransition_def)
  then show ?thesis using that standing_log [OF t] by blast
qed

lemma dispatch_errs:
  assumes s: "standing m n q" and ctx: "ctx_err C w = None"
    and a: "answer (ancestors T n) w x = Some (h, Errs w1 e)"
  obtains m' where "dispatch C m w x = (m', w1, Some (ProcessErr h (what_of C x) e))"
proof -
  note m = standing_D [OF s]
  let ?m0 = "m\<lparr>m_inState := True\<rparr>"
  have sh0: "shape ?m0 = shape T" using m(2) by (simp add: shape_def)
  have "offer C ?m0 w x (ancestors m (m_current m)) = (?m0\<lparr>m_acting := h\<rparr>, w1, Inl (h, e))"
    using offer_walk [OF sh0 _ _ _ a] m by (simp add: offered_def)
  then show ?thesis using that ctx unfolding dispatch_def dispatchBody_def Let_def by simp
qed

text \<open>What \<open>drain\<close>, \<open>Send\<close> and \<open>Start\<close> return is what the walk does.\<close>

definition does :: "('w, 'm) machine \<times> 'w \<times> 'e smError option \<Rightarrow> ('w, 'e) outcome \<Rightarrow> bool" where
  "does res out \<longleftrightarrow> (case out of
       Stuck \<Rightarrow> True
     | Rested n w \<Rightarrow> (\<exists>m. res = (m, w, None) \<and> standing m n [])
     | Broke e w \<Rightarrow> (\<exists>m. res = (m, w, Some e)))"

lemma drain_walk:
  assumes "standing m n q"
  shows "does (drain C k m w) (walk k n q w)"
  using assms
proof (induction k arbitrary: m n q w)
  case 0
  then show ?case by (simp add: does_def standing_def)
next
  case (Suc k)
  note m = standing_D [OF Suc.prems]
  show ?case
  proof (cases q)
    case Nil
    then show ?thesis using m Suc.prems by (simp add: does_def)
  next
    case (Cons x q')
    let ?m = "m\<lparr>m_self := q'\<rparr>"
    have s: "standing ?m n q'" using standing_self Suc.prems Cons by blast
    have dr: "drain C (Suc k) m w = (case dispatch C ?m w x of
        (m', w', Some e) \<Rightarrow> (m', w', Some e) | (m', w', None) \<Rightarrow> drain C k m' w')"
      using m Cons by simp
    show ?thesis
    proof (cases "ctx_err C w")
      case (Some e)
      then show ?thesis using dr Cons by (simp add: dispatch_def dispatchBody_def does_def)
    next
      case None
      show ?thesis
      proof (cases "answer (ancestors T n) w x")
        case (Some hr)
        then obtain h r where a: "answer (ancestors T n) w x = Some (h, r)" by (cases hr) auto
        show ?thesis
        proof (cases r)
          case (Moves w1 d)
          obtain w2 ms where e: "enterAll (entryPath T n d) w1 = (w2, ms)" by fastforce
          obtain m' where "dispatch C ?m w x = (m', w2, None)" "standing m' d (q' @ ms)"
            using dispatch_moves [OF s None a [unfolded Moves] e] .
          then show ?thesis using dr Cons None a Moves e Suc.IH by simp
        next
          case (Says w1 ms)
          obtain m' where "dispatch C ?m w x = (m', w1, None)" "standing m' n (q' @ ms)"
            using dispatch_says [OF s None a [unfolded Says]] .
          then show ?thesis using dr Cons None a Says Suc.IH by simp
        next
          case (Errs w1 e)
          obtain m' where "dispatch C ?m w x = (m', w1, Some (ProcessErr h (what_of C x) e))"
            using dispatch_errs [OF s None a [unfolded Errs]] .
          then show ?thesis using dr Cons None a Errs by (simp add: does_def)
        qed (use Cons None a in \<open>simp add: does_def\<close>)
      qed (use Cons None in \<open>simp add: does_def\<close>)
    qed
  qed
qed

lemma does_sending: "does (m, w, e) out \<Longrightarrow> does (m\<lparr>m_sending := b\<rparr>, w, e) out"
  by (auto simp: does_def standing_sending split: outcome.splits)

theorem send_walk:
  assumes "standing m n []" "n \<noteq> ''''" "\<not> m_sending m"
  shows "does (Send C m w (Some x)) (walk (Suc maxDispatchPerSend) n [x] w)"
proof -
  let ?m = "m\<lparr>m_sending := True, m_self := [x]\<rparr>"
  have "standing ?m n [x]"
    using assms(1) by (simp add: standing_def shape_def settled.inv_self settled.inv_sending)
  from drain_walk [OF this, of "Suc maxDispatchPerSend" w]
  have d: "does (drain C (Suc maxDispatchPerSend) ?m w) (walk (Suc maxDispatchPerSend) n [x] w)" .
  have "m\<lparr>m_sending := True, m_self := []\<rparr> = m\<lparr>m_sending := True\<rparr>"
    using standing_D(4) [OF assms(1)] by simp
  then have "drain C (Suc maxDispatchPerSend) ?m w = (case dispatch C (m\<lparr>m_sending := True\<rparr>) w x of
        (m', w', Some e) \<Rightarrow> (m', w', Some e) | (m', w', None) \<Rightarrow> drain C maxDispatchPerSend m' w')"
    by simp
  then have "Send C m w (Some x) = (case drain C (Suc maxDispatchPerSend) ?m w of
      (m', w', e) \<Rightarrow> (m'\<lparr>m_sending := False\<rparr>, w', e))"
    using assms standing_D(3) [OF assms(1)]
    by (simp add: Send_def Let_def split: prod.splits option.splits)
  then show ?thesis using d does_sending by (auto split: prod.splits)
qed

text \<open>A machine that has been built and not started.\<close>

definition fresh :: "('w, 'm) machine \<Rightarrow> bool" where
  "fresh m \<longleftrightarrow> settled m \<and> shape m = shape T \<and> m_current m = '''' \<and> m_self m = [] \<and> m_inbox m = []
     \<and> m_opErr m = None \<and> m_setupErr m = None \<and> checkDeclared m = []"

theorem start_walk:
  assumes f: "fresh m" and n: "n \<in> dom (m_info T)"
    and e: "enterAll (entryPath T '''' n) w = (w1, ms)"
  shows "does (Start C m w (Some n)) (walk maxDispatchPerSend n ms w1)"
proof -
  let ?m = "m\<lparr>m_sending := True, m_dest := n, m_haveDest := True\<rparr>"
  have sh: "shape m = shape T" "settled m" using f by (simp_all add: fresh_def)
  have dom: "n \<in> dom (m_info m)" using n shape_D(2) [OF sh(1)] by simp
  have s: "settled ?m" "shape ?m = shape T"
    using settled.inv_dest [OF settled.inv_sending [OF sh(2), of True], of n] dom sh(1)
    by (simp_all add: shape_def)
  obtain m1 where t: "performTransition C ?m w = (m1, w1, None)" "standing m1 n ms"
    using transition_walk [OF s, of w w1 ms] n e f by (auto simp: fresh_def)
  have "Start C m w (Some n) = (case drain C maxDispatchPerSend m1 w1 of (m', w', e) \<Rightarrow> (m'\<lparr>m_sending := False\<rparr>, w', e))"
    using f dom t standing_D(6) [OF t(2)] by (auto simp: Start_def fresh_def Let_def split: prod.splits)
  then show ?thesis
    using drain_walk [OF t(2), of maxDispatchPerSend w1] does_sending by (auto split: prod.splits)
qed

text \<open>Walking a stretch of messages: what is left takes that many fewer.\<close>

definition walkC :: "nat \<Rightarrow> StateName \<times> 'm list \<times> 'w \<Rightarrow> ('w, 'e) outcome" where
  "walkC k c = walk k (fst c) (fst (snd c)) (snd (snd c))"

definition leads :: "nat \<Rightarrow> StateName \<times> 'm list \<times> 'w \<Rightarrow> StateName \<times> 'm list \<times> 'w \<Rightarrow> bool" where
  "leads k c c' \<longleftrightarrow> (\<forall>j. walkC (k + j) c = walkC j c')"

lemma leads_refl: "leads 0 c c"
  by (simp add: leads_def)

lemma leads_trans: "leads k c c' \<Longrightarrow> leads l c' c'' \<Longrightarrow> leads (k + l) c c''"
  by (simp add: leads_def add.assoc)

lemma leads_moves:
  assumes "ctx_err C w = None" "answer (ancestors T n) w x = Some (h, Moves w1 d)"
    "enterAll (entryPath T n d) w1 = (w2, ms)"
  shows "leads 1 (n, [x], w) (d, ms, w2)"
  using assms by (simp add: leads_def walkC_def)

lemma leads_says:
  assumes "ctx_err C w = None" "answer (ancestors T n) w x = Some (h, Says w1 ms)"
  shows "leads 1 (n, [x], w) (n, ms, w1)"
  using assms by (simp add: leads_def walkC_def)

lemma leads_rested:
  assumes "leads k (n, q, w) (n', [], w')" "k < j"
  shows "walk j n q w = Rested n' w'"
proof -
  obtain i where j: "j = k + Suc i" using assms(2) less_imp_Suc_add by fastforce
  have "walkC (k + Suc i) (n, q, w) = walkC (Suc i) (n', [], w')"
    using assms(1) unfolding leads_def by blast
  then show ?thesis by (simp add: walkC_def j)
qed

end

end
