(* ===== verification/Run_Laws.thy ===== *)
theory Run_Laws
  imports Run_Machine Machine_Client
begin

text \<open>
  What a test run guarantees: its tree passes the audit, the machine walks the stages exactly as a
  straight-line program would, every run that is not cancelled ends in \<open>TEST_DONE\<close> or
  \<open>TEST_FAILED\<close> through the collecting stage, and the network it built is taken down.
\<close>

section \<open>The tree of the run\<close>

text \<open>The run's tree at one type: the shape of a machine does not depend on what it drives.\<close>

definition runTree :: "((unit, unit) runner, runMsg) machine" where
  "runTree = newRunner"

lemma shape_newRunner: "shape newRunner = shape runTree"
  unfolding runTree_def newRunner_def Let_def shape_setup
  by (intro shape_Add) (simp_all add: shape_setup RequireContracts_def New_def shape_def)

lemma run_ancestors:
  "ancestors runTree nameTest = [nameTest]"
  "ancestors runTree nameTestIdle = [nameTestIdle, nameTest]"
  "ancestors runTree nameTestReadDeclaration = [nameTestReadDeclaration, nameTest]"
  "ancestors runTree nameTestOpenSession = [nameTestOpenSession, nameTest]"
  "ancestors runTree nameTestStandUpNetwork = [nameTestStandUpNetwork, nameTest]"
  "ancestors runTree nameTestStandUpNetworkCompose
     = [nameTestStandUpNetworkCompose, nameTestStandUpNetwork, nameTest]"
  "ancestors runTree nameTestStandUpNetworkAttach
     = [nameTestStandUpNetworkAttach, nameTestStandUpNetwork, nameTest]"
  "ancestors runTree nameTestPrepare = [nameTestPrepare, nameTest]"
  "ancestors runTree nameTestRunCases = [nameTestRunCases, nameTest]"
  "ancestors runTree nameTestCollect = [nameTestCollect, nameTest]"
  "ancestors runTree nameTestDone = [nameTestDone, nameTest]"
  "ancestors runTree nameTestFailed = [nameTestFailed, nameTest]"
  by code_simp+

lemma run_contracts:
  "contractOf runTree nameTest = Some (runContract [eventStageStopped] [])"
  "contractOf runTree nameTestIdle = Some (runContract [CmdRun] [])"
  "contractOf runTree nameTestReadDeclaration
     = Some (runContract [eventDeclarationRead] [eventDeclarationRead, eventStageStopped])"
  "contractOf runTree nameTestOpenSession
     = Some (runContract [eventSessionOpened] [eventSessionOpened, eventStageStopped])"
  "contractOf runTree nameTestStandUpNetwork
     = Some (runContract [eventNetworkWayChosen, eventNetworkReached] [eventNetworkWayChosen])"
  "contractOf runTree nameTestStandUpNetworkCompose
     = Some (runContract [] [eventNetworkReached, eventStageStopped])"
  "contractOf runTree nameTestStandUpNetworkAttach
     = Some (runContract [] [eventNetworkReached, eventStageStopped])"
  "contractOf runTree nameTestPrepare
     = Some (runContract [eventChainPrepared] [eventChainPrepared, eventStageStopped])"
  "contractOf runTree nameTestRunCases
     = Some (runContract [eventCasesRun] [eventCasesRun, eventStageStopped])"
  "contractOf runTree nameTestCollect = Some (runContract [eventCollected] [eventCollected])"
  "contractOf runTree nameTestDone = Some (runContract [] [])"
  "contractOf runTree nameTestFailed = Some (runContract [] [])"
  by code_simp+

lemma run_fields: "m_setupErr newRunner = None" "m_current newRunner = ''''"
  "m_self newRunner = []" "m_inbox newRunner = []" "m_opErr newRunner = None" "\<not> m_haveDest newRunner"
  "\<not> m_inFailure newRunner" "m_contracts newRunner" "checkDeclared newRunner = []"
  "\<not> m_sending newRunner"
  by code_simp+

lemma run_settled: "settled newRunner"
  unfolding newRunner_def Let_def
  by (intro settled_setup settled_Add settled_New)

lemma names_distinct:
  "distinct [nameTest, nameTestIdle, nameTestReadDeclaration, nameTestOpenSession, nameTestStandUpNetwork,
     nameTestStandUpNetworkCompose, nameTestStandUpNetworkAttach, nameTestPrepare, nameTestRunCases,
     nameTestCollect, nameTestDone, nameTestFailed]"
  "distinct [nameTestFailed, nameTestDone, nameTestCollect, nameTestRunCases, nameTestPrepare,
     nameTestStandUpNetworkAttach, nameTestStandUpNetworkCompose, nameTestStandUpNetwork,
     nameTestOpenSession, nameTestReadDeclaration, nameTestIdle, nameTest]"
  by (simp_all add: run_names)

lemmas names_neq [simp] = names_distinct [simplified]

section \<open>The run as a client of the machine\<close>

lemma run_paths:
  "Path runTree (Some nameTestReadDeclaration) = ''TEST/TEST_READ_DECLARATION''"
  "Path runTree (Some nameTestOpenSession) = ''TEST/TEST_OPEN_SESSION''"
  "Path runTree (Some nameTestStandUpNetworkCompose)
     = ''TEST/TEST_STAND_UP_NETWORK/TEST_STAND_UP_NETWORK_COMPOSE''"
  "Path runTree (Some nameTestStandUpNetworkAttach)
     = ''TEST/TEST_STAND_UP_NETWORK/TEST_STAND_UP_NETWORK_ATTACH''"
  "Path runTree (Some nameTestPrepare) = ''TEST/TEST_PREPARE''"
  "Path runTree (Some nameTestRunCases) = ''TEST/TEST_RUN_CASES''"
  by code_simp+

lemmas run_methods = run_process_def run_enter_def process_runState_def process_pendingState_def
  process_readingDeclaration_def process_openingSession_def process_reachingNetwork_def
  process_preparingRun_def process_runningCases_def process_collecting_def

text \<open>Each stage reports that it finished, or that it stopped and why.\<close>

lemma failStage_snd [simp]: "snd (failStage p e r) = [stageStopped]"
  by (simp add: failStage_def)

lemma stage_reports:
  "snd (enter_readingDeclaration D p r) \<in> {[declarationRead], [stageStopped]}"
  "snd (enter_openingSession D p r) \<in> {[sessionOpened], [stageStopped]}"
  "snd (enter_composingNetwork D p r) \<in> {[networkReached], [stageStopped]}"
  "snd (enter_attachingToNetwork D p r) \<in> {[networkReached], [stageStopped]}"
  "snd (enter_preparingRun D p r) \<in> {[chainPrepared], [stageStopped]}"
  "snd (enter_runningCases D p r) \<in> {[casesRun], [stageStopped]}"
  "snd (enter_collecting D r) = [collected]"
  by (auto simp: enter_readingDeclaration_def enter_openingSession_def enter_composingNetwork_def
      enter_attachingToNetwork_def enter_preparingRun_def enter_runningCases_def enter_collecting_def
      failStage_def Let_def split: prod.splits option.splits sum.splits)

definition run_ent :: "('x, 'e) stages \<Rightarrow> StateName \<Rightarrow> ('x, 'e) runner \<Rightarrow> ('x, 'e) runner \<times> runMsg list" where
  "run_ent D n r = run_enter D n (Path runTree (Some n)) r"

definition run_react :: "StateName \<Rightarrow> ('x, 'e) runner \<Rightarrow> runMsg \<Rightarrow> (('x, 'e) runner, runMsg, 'e) reaction" where
  "run_react n r x = (case run_process n r x of None \<Rightarrow> NotMine | Some d \<Rightarrow> Moves r d)"

lemma stage_emits:
  "runWhat ` set (snd (enter_readingDeclaration D p r)) \<subseteq> {eventDeclarationRead, eventStageStopped}"
  "runWhat ` set (snd (enter_openingSession D p r)) \<subseteq> {eventSessionOpened, eventStageStopped}"
  "runWhat ` set (snd (enter_composingNetwork D p r)) \<subseteq> {eventNetworkReached, eventStageStopped}"
  "runWhat ` set (snd (enter_attachingToNetwork D p r)) \<subseteq> {eventNetworkReached, eventStageStopped}"
  "runWhat ` set (snd (enter_preparingRun D p r)) \<subseteq> {eventChainPrepared, eventStageStopped}"
  "runWhat ` set (snd (enter_runningCases D p r)) \<subseteq> {eventCasesRun, eventStageStopped}"
  using stage_reports(1-6) [of D p r] by auto

lemma run_ent_declared: "runWhat ` set (snd (run_ent D n r)) \<subseteq> emitsOf runTree n"
  by (simp add: run_ent_def run_enter_def stage_emits stage_reports(7) emitsOf_def run_contracts runContract_def
      enter_reachingNetwork_def)

lemma run_react_declared: "run_react n r x \<noteq> NotMine \<Longrightarrow> runWhat x \<in> answersOf runTree n"
  by (cases x) (auto simp: run_react_def run_methods answersOf_def run_contracts runContract_def split: if_splits)

lemma run_moves_known:
  assumes "run_react n r x = Moves r' d" shows "d \<in> dom (m_info runTree)"
proof -
  have "d \<in> {nameTestReadDeclaration, nameTestOpenSession, nameTestStandUpNetwork, nameTestStandUpNetworkCompose,
      nameTestStandUpNetworkAttach, nameTestPrepare, nameTestRunCases, nameTestCollect, nameTestDone, nameTestFailed}"
    using assms by (cases x) (auto simp: run_react_def run_methods split: if_splits)
  then show ?thesis using contract_known run_contracts by (elim insertE emptyE) blast+
qed

interpretation run: walker "runClient D" runTree "run_ent D" run_react for D
proof (unfold_locales, goal_cases)
  case (1 m n r)
  then show ?case using Path_shape [OF 1] by (simp add: runClient_def run_ent_def split: prod.splits)
next
  case (4 n r)
  then show ?case using run_ent_declared by (simp add: runClient_def)
next
  case (5 n r x)
  then show ?case using run_react_declared by (simp add: runClient_def)
next
  case (6 n r x r' d)
  then show ?case by (rule run_moves_known)
qed (simp_all add: runClient_def run_react_def split: option.splits)

lemma run_fresh: "run.fresh newRunner"
  using run_settled shape_newRunner by (simp add: run.fresh_def run_fields)


section \<open>The run as a straight-line program\<close>

text \<open>
  What the stages do, one after the other, with no machine: the specification the machine refines.
  A stage that stopped is followed by collecting; so is the last one.
\<close>

definition stoppedStage :: "runMsg list \<Rightarrow> bool" where
  "stoppedStage ms \<longleftrightarrow> ms = [stageStopped]"

definition spec_collect :: "('x, 'e) stages \<Rightarrow> ('x, 'e) runner \<Rightarrow> ('x, 'e) runner" where
  "spec_collect D r = fst (enter_collecting D r)"

definition spec_cases :: "('x, 'e) stages \<Rightarrow> ('x, 'e) runner \<Rightarrow> ('x, 'e) runner" where
  "spec_cases D r = spec_collect D (fst (enter_runningCases D ''TEST/TEST_RUN_CASES'' r))"

definition spec_prepare :: "('x, 'e) stages \<Rightarrow> ('x, 'e) runner \<Rightarrow> ('x, 'e) runner" where
  "spec_prepare D r =
     (case enter_preparingRun D ''TEST/TEST_PREPARE'' r of (r1, ms) \<Rightarrow>
        if stoppedStage ms then spec_collect D r1 else spec_cases D r1)"

definition spec_network :: "('x, 'e) stages \<Rightarrow> ('x, 'e) runner \<Rightarrow> ('x, 'e) runner" where
  "spec_network D r =
     (if attach r then
        (case enter_attachingToNetwork D ''TEST/TEST_STAND_UP_NETWORK/TEST_STAND_UP_NETWORK_ATTACH'' r of
           (r1, ms) \<Rightarrow> if stoppedStage ms then spec_collect D r1 else spec_cases D r1)
      else
        (case enter_composingNetwork D ''TEST/TEST_STAND_UP_NETWORK/TEST_STAND_UP_NETWORK_COMPOSE'' r of
           (r1, ms) \<Rightarrow> if stoppedStage ms then spec_collect D r1 else spec_prepare D r1))"

definition spec_session :: "('x, 'e) stages \<Rightarrow> ('x, 'e) runner \<Rightarrow> ('x, 'e) runner" where
  "spec_session D r =
     (case enter_openingSession D ''TEST/TEST_OPEN_SESSION'' r of (r1, ms) \<Rightarrow>
        if stoppedStage ms then spec_collect D r1 else spec_network D r1)"

definition spec_run :: "('x, 'e) stages \<Rightarrow> ('x, 'e) runner \<Rightarrow> ('x, 'e) runner" where
  "spec_run D r =
     (case enter_readingDeclaration D ''TEST/TEST_READ_DECLARATION'' r of (r1, ms) \<Rightarrow>
        if stoppedStage ms then spec_collect D r1 else spec_session D r1)"

text \<open>The run from a state with one message to itself, within \<open>k\<close> messages.\<close>

definition final_name :: "('x, 'e) runner \<Rightarrow> StateName" where
  "final_name r = (if failure r = None then nameTestDone else nameTestFailed)"

definition ends :: "('x, 'e) stages \<Rightarrow> nat \<Rightarrow> StateName \<Rightarrow> runMsg list \<Rightarrow> ('x, 'e) runner \<Rightarrow> ('x, 'e) runner \<Rightarrow> bool" where
  "ends D k n ms r r' \<longleftrightarrow> (\<forall>j. k \<le> j \<longrightarrow> run.walk D j n ms r = Rested (final_name r') r')"

lemma ends_here: "n = final_name r \<Longrightarrow> ends D (Suc 0) n [] r r"
  unfolding ends_def by (metis Suc_le_D run.walk.simps(2))

lemma ends_step:
  assumes ctx: "\<forall>x. s_ctxErr D x = None"
    and h: "run.answer (ancestors runTree n) r x = Some (h, Moves r d)"
    and anc: "ancestors runTree d = d # p # rest" "p \<in> set (ancestors runTree n)"
    and go: "ends D k d (snd (run_ent D d r)) (fst (run_ent D d r)) r'"
  shows "ends D (Suc k) n [x] r r'"
  unfolding ends_def
proof (intro allI impI)
  fix j assume "Suc k \<le> j"
  then obtain i where i: "j = Suc i" "k \<le> i" by (cases j) auto
  have c: "ctx_err (runClient D) r = None" using ctx by (simp add: runClient_def)
  have "entryPath runTree n d = [d]" using anc by (simp add: entryPath_def)
  then have "run.walk D j n [x] r = run.walk D i d (snd (run_ent D d r)) (fst (run_ent D d r))"
    using i(1) h c by (simp split: prod.splits)
  then show "run.walk D j n [x] r = Rested (final_name r') r'" using go i(2) by (simp add: ends_def)
qed

lemma run_ents:
  "run_ent D nameTestReadDeclaration r = enter_readingDeclaration D ''TEST/TEST_READ_DECLARATION'' r"
  "run_ent D nameTestOpenSession r = enter_openingSession D ''TEST/TEST_OPEN_SESSION'' r"
  "run_ent D nameTestStandUpNetwork r = enter_reachingNetwork r"
  "run_ent D nameTestStandUpNetworkCompose r
     = enter_composingNetwork D ''TEST/TEST_STAND_UP_NETWORK/TEST_STAND_UP_NETWORK_COMPOSE'' r"
  "run_ent D nameTestStandUpNetworkAttach r
     = enter_attachingToNetwork D ''TEST/TEST_STAND_UP_NETWORK/TEST_STAND_UP_NETWORK_ATTACH'' r"
  "run_ent D nameTestPrepare r = enter_preparingRun D ''TEST/TEST_PREPARE'' r"
  "run_ent D nameTestRunCases r = enter_runningCases D ''TEST/TEST_RUN_CASES'' r"
  "run_ent D nameTestCollect r = enter_collecting D r"
  "run_ent D nameTestDone r = (r, [])" "run_ent D nameTestFailed r = (r, [])"
  "run_ent D nameTest r = (r, [])" "run_ent D nameTestIdle r = (r, [])"
  by (simp_all add: run_ent_def run_enter_def run_paths)

lemmas run_walks = run_ancestors run_react_def run_methods run_ents

lemma ends_collected:
  assumes ctx: "\<forall>x. s_ctxErr D x = None"
  shows "ends D 2 nameTestCollect [collected] r r"
  unfolding numeral_2_eq_2
  by (rule ends_step [OF ctx, where h = nameTestCollect and d = "final_name r" and p = nameTest and rest = "[]"])
    (auto simp: run_walks final_name_def intro!: ends_here)

text \<open>Every stage's stop goes to collecting, by the root.\<close>

lemma ends_collect_from:
  assumes ctx: "\<forall>x. s_ctxErr D x = None"
    and h: "run.answer (ancestors runTree n) r x = Some (h, Moves r nameTestCollect)"
    and n: "nameTest \<in> set (ancestors runTree n)"
  shows "ends D 3 n [x] r (spec_collect D r)"
  unfolding numeral_3_eq_3 numeral_2_eq_2 [symmetric]
  by (rule ends_step [OF ctx h run_ancestors(10) n])
    (use ends_collected [OF ctx] stage_reports(7) [of D r] in \<open>simp add: run_ents spec_collect_def\<close>)

lemma ends_stopped:
  assumes ctx: "\<forall>x. s_ctxErr D x = None"
    and n: "n \<in> {nameTestReadDeclaration, nameTestOpenSession, nameTestStandUpNetworkCompose,
      nameTestStandUpNetworkAttach, nameTestPrepare, nameTestRunCases}"
  shows "ends D 3 n [stageStopped] r (spec_collect D r)"
  by (rule ends_collect_from [OF ctx, where h = nameTest]) (use n in \<open>auto simp: run_walks\<close>)

lemma ends_mono: "ends D k n ms r r' \<Longrightarrow> k \<le> j \<Longrightarrow> ends D j n ms r r'"
  by (simp add: ends_def)

text \<open>A stage that reports one of two ends: it stopped, or it is done and the machine goes on.\<close>

lemma ends_stage:
  assumes ctx: "\<forall>x. s_ctxErr D x = None" and k: "3 \<le> k"
    and n: "n \<in> {nameTestReadDeclaration, nameTestOpenSession, nameTestStandUpNetworkCompose,
      nameTestStandUpNetworkAttach, nameTestPrepare, nameTestRunCases}"
    and rep: "snd out \<in> {[done], [stageStopped]}"
    and go: "ends D k n [done] (fst out) (go (fst out))" and d: "done \<noteq> stageStopped"
  shows "ends D k n (snd out) (fst out) (case out of (r1, ms) \<Rightarrow> if stoppedStage ms then spec_collect D r1 else go r1)"
  using ends_mono [OF ends_stopped [OF ctx n, of "fst out"] k] rep go d
  by (cases out) (auto simp: stoppedStage_def)

lemma ends_cases:
  assumes ctx: "\<forall>x. s_ctxErr D x = None"
    and h: "run.answer (ancestors runTree n) r x = Some (h, Moves r nameTestRunCases)"
    and n: "nameTest \<in> set (ancestors runTree n)"
  shows "ends D 4 n [x] r (spec_cases D r)"
proof -
  let ?r = "fst (enter_runningCases D ''TEST/TEST_RUN_CASES'' r)"
  have "ends D 3 nameTestRunCases [casesRun] ?r (spec_collect D ?r)"
    by (rule ends_collect_from [OF ctx, where h = nameTestRunCases]) (simp_all add: run_walks)
  then have "ends D 3 nameTestRunCases (snd (run_ent D nameTestRunCases r)) ?r (spec_cases D r)"
    using stage_reports(6) [of D "''TEST/TEST_RUN_CASES''" r] ends_stopped [OF ctx, of nameTestRunCases ?r]
    by (auto simp: run_ents spec_cases_def)
  from ends_step [OF ctx h run_ancestors(9) n, of 3] this show ?thesis by (simp add: run_ents eval_nat_numeral)
qed

lemma ends_prepare:
  assumes ctx: "\<forall>x. s_ctxErr D x = None" and a: "\<not> attach r"
  shows "ends D 5 nameTestStandUpNetworkCompose [networkReached] r (spec_prepare D r)"
proof -
  let ?r = "fst (run_ent D nameTestPrepare r)"
  have "ends D 4 nameTestPrepare [chainPrepared] ?r (spec_cases D ?r)"
    by (rule ends_cases [OF ctx, where h = nameTestPrepare]) (simp_all add: run_walks)
  from ends_stage [where go = "spec_cases D" and out = "run_ent D nameTestPrepare r", OF ctx _ _ _ this]
  have "ends D 4 nameTestPrepare (snd (run_ent D nameTestPrepare r)) ?r (spec_prepare D r)"
    using stage_reports(5) [of D "''TEST/TEST_PREPARE''" r] by (simp add: run_ents spec_prepare_def)
  from ends_step [OF ctx _ run_ancestors(8) _ this, of nameTestStandUpNetworkCompose networkReached nameTestStandUpNetwork] a
  show ?thesis by (simp add: run_walks eval_nat_numeral)
qed

lemma ends_network:
  assumes ctx: "\<forall>x. s_ctxErr D x = None"
  shows "ends D 6 nameTestStandUpNetwork [networkWayChosen] r (spec_network D r)"
proof (cases "attach r")
  case True
  let ?n = nameTestStandUpNetworkAttach and ?r = "fst (run_ent D nameTestStandUpNetworkAttach r)"
  have "attach ?r" using True
    by (auto simp: run_ents enter_attachingToNetwork_def failStage_def Let_def split: prod.splits sum.splits)
  then have "ends D 4 ?n [networkReached] ?r (spec_cases D ?r)"
    by (intro ends_cases [OF ctx, where h = nameTestStandUpNetwork]) (simp_all add: run_walks)
  from ends_stage [where go = "spec_cases D" and out = "run_ent D ?n r", OF ctx _ _ _ ends_mono [OF this, of 5]]
  have "ends D 5 ?n (snd (run_ent D ?n r)) ?r (spec_network D r)"
    using stage_reports(4) [of D "''TEST/TEST_STAND_UP_NETWORK/TEST_STAND_UP_NETWORK_ATTACH''" r] True by (simp add: run_ents spec_network_def)
  from ends_step [OF ctx _ run_ancestors(7) _ this, of nameTestStandUpNetwork networkWayChosen nameTestStandUpNetwork] True
  show ?thesis by (simp add: run_walks eval_nat_numeral)
next
  case False
  let ?n = nameTestStandUpNetworkCompose and ?r = "fst (run_ent D nameTestStandUpNetworkCompose r)"
  have "\<not> attach ?r" using False
    by (auto simp: run_ents enter_composingNetwork_def failStage_def Let_def split: prod.splits option.splits)
  from ends_stage [where go = "spec_prepare D" and out = "run_ent D ?n r", OF ctx _ _ _ ends_prepare [OF ctx this]]
  have "ends D 5 ?n (snd (run_ent D ?n r)) ?r (spec_network D r)"
    using stage_reports(3) [of D "''TEST/TEST_STAND_UP_NETWORK/TEST_STAND_UP_NETWORK_COMPOSE''" r] False by (simp add: run_ents spec_network_def)
  from ends_step [OF ctx _ run_ancestors(6) _ this, of nameTestStandUpNetwork networkWayChosen nameTestStandUpNetwork] False
  show ?thesis by (simp add: run_walks eval_nat_numeral)
qed

lemma ends_session:
  assumes ctx: "\<forall>x. s_ctxErr D x = None"
  shows "ends D 8 nameTestReadDeclaration [declarationRead] r (spec_session D r)"
proof -
  let ?n = nameTestOpenSession and ?r = "fst (run_ent D nameTestOpenSession r)"
  have "ends D 7 ?n [sessionOpened] ?r (spec_network D ?r)"
    using ends_step [OF ctx _ run_ancestors(5) _ , of ?n ?r sessionOpened ?n 6 "spec_network D ?r"] ends_network [OF ctx, of ?r]
    by (simp add: run_walks enter_reachingNetwork_def eval_nat_numeral)
  from ends_stage [where go = "spec_network D" and out = "run_ent D ?n r", OF ctx _ _ _ this]
  have "ends D 7 ?n (snd (run_ent D ?n r)) ?r (spec_session D r)"
    using stage_reports(2) [of D "''TEST/TEST_OPEN_SESSION''" r] by (simp add: run_ents spec_session_def)
  from ends_step [OF ctx _ run_ancestors(4) _ this, of nameTestReadDeclaration declarationRead nameTestReadDeclaration]
  show ?thesis by (simp add: run_walks eval_nat_numeral)
qed

lemma ends_run:
  assumes ctx: "\<forall>x. s_ctxErr D x = None"
  shows "ends D 9 nameTestIdle [startRun] r (spec_run D r)"
proof -
  let ?n = nameTestReadDeclaration and ?r = "fst (run_ent D nameTestReadDeclaration r)"
  from ends_stage [where go = "spec_session D" and out = "run_ent D ?n r", OF ctx _ _ _ ends_session [OF ctx, of ?r]]
  have "ends D 8 ?n (snd (run_ent D ?n r)) ?r (spec_run D r)"
    using stage_reports(1) [of D "''TEST/TEST_READ_DECLARATION''" r] by (simp add: run_ents spec_run_def)
  from ends_step [OF ctx _ run_ancestors(3) _ this, of nameTestIdle startRun nameTestIdle]
  show ?thesis by (simp add: run_walks eval_nat_numeral)
qed

section \<open>Start, Send and Run\<close>

lemma run_start:
  obtains m where "Start (runClient D) newRunner r (Some nameTestIdle) = (m, r, None)"
    "run.standing m nameTestIdle []"
proof -
  have "ancestors runTree '''' = []" by code_simp
  then have e: "run.enterAll D (entryPath runTree '''' nameTestIdle) r = (r, [])"
    by (simp add: entryPath_def run_ancestors run_ents)
  have w: "run.walk D maxDispatchPerSend nameTestIdle [] r = Rested nameTestIdle r"
    by (simp add: maxDispatchPerSend_def numeral_eq_Suc)
  have "nameTestIdle \<in> dom (m_info runTree)" by (rule contract_known [OF run_contracts(2)])
  from run.start_walk [OF run_fresh this e] w show thesis using that by (auto simp: run.does_def)
qed

lemma run_send:
  assumes ctx: "\<forall>x. s_ctxErr D x = None" and st: "run.standing m nameTestIdle []" "\<not> m_sending m"
  obtains m' where "Send (runClient D) m r (Some startRun) = (m', spec_run D r, None)"
    "run.standing m' (final_name (spec_run D r)) []"
proof -
  have "run.walk D (Suc maxDispatchPerSend) nameTestIdle [startRun] r = Rested (final_name (spec_run D r)) (spec_run D r)"
    using ends_run [OF ctx, of r] by (simp add: ends_def maxDispatchPerSend_def)
  then show thesis using run.send_walk [OF st(1) _ st(2), of D r startRun] that
    by (auto simp: run.does_def run_names)
qed

definition report :: "('x, 'e) runner \<Rightarrow> ('x, 'e) runner \<times> 'e runResult" where
  "report r = (case failure r of
       None \<Rightarrow> (r, RunOk)
     | Some f \<Rightarrow> (r\<lparr>r_out := (r_out r)\<lparr>FailedAt := failedIn r\<rparr>\<rparr>, RunFailed f))"

lemma run_refines:
  fixes D :: "('x, 'e) stages"
  assumes "\<forall>x. s_ctxErr D x = None"
  shows "\<exists>m. Run D r = (m, report (spec_run D r)) \<and> run.standing m (final_name (spec_run D r)) []"
proof -
  let ?C = "runClient D" and ?r = "spec_run D r"
  obtain m1 where s: "Start ?C newRunner r (Some nameTestIdle) = (m1, r, None)" "run.standing m1 nameTestIdle []"
    by (rule run_start)
  have "\<not> m_sending m1" using Start_sending [OF s(1) run_fields(10)] .
  then obtain m2 where t: "Send ?C m1 r (Some startRun) = (m2, ?r, None)" "run.standing m2 (final_name ?r) []"
    using run_send [OF assms s(2)] by blast
  have cur: "m_current m2 = final_name ?r" using t(2) by (simp add: run.standing_def)
  then have "RequireAt m2 [Some nameTestDone, Some nameTestFailed] = (None :: 'e smError option)"
    by (auto simp: RequireAt_def final_name_def)
  then have "Run D r = (m2, report ?r)"
    using s(1) t(1) by (simp add: Run_def report_def split: option.splits)
  then show ?thesis using t(2) by blast
qed

text \<open>
  Property C4. A run that is not cancelled does exactly what its stages do one after the other: the
  state machine, with its queues, contracts and transitions, refines the straight-line program
  \<open>spec_run\<close>. It ends at rest in \<open>TEST_DONE\<close> when nothing failed and in \<open>TEST_FAILED\<close> otherwise;
  the error it returns is why, and \<open>FailedAt\<close> is the path of the stage that stopped.
\<close>

theorem run_refines_straight_line:
  fixes D :: "('x, 'e) stages"
  assumes "\<forall>x. s_ctxErr D x = None"
  shows "\<exists>m. Run D r = (m, report (spec_run D r))
     \<and> m_current m = (if failure (spec_run D r) = None then nameTestDone else nameTestFailed)
     \<and> m_self m = [] \<and> m_inbox m = []"
  using run_refines [OF assms, of r] by (auto simp: run.standing_def final_name_def)


text \<open>Whatever a run does, its last stage is collecting.\<close>

lemma spec_run_collects: "\<exists>r0. spec_run D r = spec_collect D r0"
proof -
  have "\<exists>r0. spec_prepare D r = spec_collect D r0" for r
    by (auto simp: spec_prepare_def spec_cases_def split: prod.splits)
  then have "\<exists>r0. spec_network D r = spec_collect D r0" for r
    by (auto simp: spec_network_def spec_cases_def split: prod.splits)
  then have "\<exists>r0. spec_session D r = spec_collect D r0" for r
    by (auto simp: spec_session_def split: prod.splits)
  then show ?thesis by (auto simp: spec_run_def split: prod.splits)
qed

lemma collect_takes_down:
  assumes "r' = spec_collect D r" "\<not> KeepUp (r_in r')" "teardown (net r')"
  shows "Stopped (r_out r') \<or> (CleanupFailed (r_out r') \<and> failure r' \<noteq> None)"
proof -
  define r1 where "r1 = (case failure r of
      Some f \<Rightarrow>
        if networkUp r \<and> sess r \<noteq> None then
          (case s_recordBlocked D (net r) (r_out r) f (outside r) of
             (x1, out1) \<Rightarrow> r\<lparr>outside := x1, r_out := out1\<rparr>)
        else r
    | None \<Rightarrow> r)"
  obtain x2 err where t: "s_teardown D (outside r1) = (x2, err)" by fastforce
  have "r' = (if \<not> KeepUp (r_in r1) \<and> teardown (net r1) then
                  (case err of
                     None \<Rightarrow> r1\<lparr>outside := x2, r_out := (r_out r1)\<lparr>Stopped := True\<rparr>\<rparr>
                   | Some e \<Rightarrow>
                       r1\<lparr>outside := x2, r_out := (r_out r1)\<lparr>CleanupFailed := True\<rparr>,
                          failure := Some (case failure r1 of
                              None \<Rightarrow> TeardownFailed e | Some f \<Rightarrow> AlsoNotTakenDown f e)\<rparr>)
                else r1)"
    using assms(1) t by (simp add: spec_collect_def enter_collecting_def Let_def r1_def split: option.splits)
  then show ?thesis using assms(2,3) by (cases err) (simp_all split: if_splits)
qed

lemma report_fields:
  "report r = (r', res) \<Longrightarrow> r_in r' = r_in r \<and> net r' = net r \<and> failure r' = failure r
     \<and> Stopped (r_out r') = Stopped (r_out r) \<and> CleanupFailed (r_out r') = CleanupFailed (r_out r)"
  by (auto simp: report_def split: option.splits)

text \<open>
  Property C5. A run that is not cancelled never leaves a network it owns up without saying so:
  when the run has a network it can take down and was not asked to keep it, the network was stopped,
  or the run reports that the cleanup failed and returns an error. This holds on every path,
  whichever stage stopped the run.
\<close>

theorem run_takes_its_network_down:
  assumes "\<forall>x. s_ctxErr D x = None" and "Run D r = (m, r', res)"
    and "\<not> KeepUp (r_in r')" and "teardown (net r')"
  shows "Stopped (r_out r') \<or> (CleanupFailed (r_out r') \<and> res \<noteq> RunOk)"
proof -
  have *: "report (spec_run D r) = (r', res)"
    using run_refines [OF assms(1), of r] assms(2) by auto
  note f = report_fields [OF *]
  obtain r0 where "spec_run D r = spec_collect D r0" using spec_run_collects by blast
  from collect_takes_down [OF this] f assms(3,4)
  have "Stopped (r_out r') \<or> (CleanupFailed (r_out r') \<and> failure (spec_run D r) \<noteq> None)" by simp
  then show ?thesis using * by (auto simp: report_def)
qed

text \<open>
  The run's tree is the one its contracts describe: it builds without a setup error,
  every state declares a contract, and every message a state says it sends is taken by that state or
  one of its ancestors, so \<open>Audit\<close> has nothing to report.
\<close>

theorem run_tree_passes_audit:
  "Audit runTree = [] \<and> m_setupErr runTree = None \<and> checkDeclared runTree = []
     \<and> length (States runTree) = 12"
  by code_simp

section \<open>A cancelled run\<close>

text \<open>
  Stages that all succeed, on an outside world that counts what was done: 1 after the network is
  composed, 2 after it is torn down. \<open>cancelAt\<close> is the count from which the context is cancelled.
\<close>

definition demoStages :: "nat option \<Rightarrow> (nat, unit) stages" where
  "demoStages cancelAt = \<lparr>
     s_ctxErr = (\<lambda>x. case cancelAt of None \<Rightarrow> None | Some k \<Rightarrow> if k \<le> x then Some () else None),
     s_now = (\<lambda>x. 0), s_errorText = (\<lambda>e. ''''), s_openWorkspace = (\<lambda>d x. None),
     s_resolveComposition = (\<lambda>i x. (x, Inr ([''doc''], [''stablenet'']))),
     s_planOf = (\<lambda>sp x. x), s_onPlan = (\<lambda>x. x), s_writePlan = (\<lambda>d x. (x, None)),
     s_artifactRoot = (\<lambda>a b x. (x, Inr ''root'')), s_newSession = (\<lambda>d x. (x, Inr ''root/s1'')),
     s_compose = (\<lambda>out x. (1, out, \<lparr>endpoints = [''http://127.0.0.1:8545''], teardown = True, control = True\<rparr>, None)),
     s_verifyAgainstPlan = (\<lambda>out x. (x, out, None)),
     s_readWorkspace = (\<lambda>a b st x. (x, st, Inr noNetwork)),
     s_prepareChain = (\<lambda>i n out x. (x, n, out, None)),
     s_runCases = (\<lambda>i c rw n se out x. (x, out, None)),
     s_recordBlocked = (\<lambda>n out f x. (x, out)),
     s_teardown = (\<lambda>x. (2, None))\<rparr>"

definition demoIn :: RunSuiteIn where
  "demoIn = \<lparr>SpecPaths = [''a.yaml''], SpecContent = [], DataDir = ''w'', Chain = '''', ArtifactRoot = '''',
     WorkspaceConfigPath = '''', KeepUp = False, NoNodeControl = False, OnPlan = False\<rparr>"

lemma demo_uncancelled: "\<forall>x. s_ctxErr (demoStages None) x = None"
  by (simp add: demoStages_def)

definition demoRun :: "nat option \<Rightarrow> ((nat, unit) runner, runMsg) machine \<times> (nat, unit) runner \<times> unit runResult" where
  "demoRun cancelAt = Run (demoStages cancelAt) (initRunner demoIn 0)"

theorem run_refines_straight_line_witness:
  "m_current (fst (demoRun None)) = nameTestDone \<and> snd (snd (demoRun None)) = RunOk"
proof -
  have "failure (spec_run (demoStages None) (initRunner demoIn 0)) = None" by code_simp
  then show ?thesis
    using run_refines_straight_line [OF demo_uncancelled, of "initRunner demoIn 0"]
    by (auto simp: demoRun_def report_def)
qed

theorem run_takes_its_network_down_witness:
  "Stopped (r_out (fst (snd (demoRun None))))"
proof -
  have 1: "\<not> KeepUp (r_in (fst (snd (demoRun None))))" "teardown (net (fst (snd (demoRun None))))"
    "\<not> CleanupFailed (r_out (fst (snd (demoRun None))))" by code_simp+
  have "Run (demoStages None) (initRunner demoIn 0)
      = (fst (demoRun None), fst (snd (demoRun None)), snd (snd (demoRun None)))"
    by (simp add: demoRun_def)
  from run_takes_its_network_down [OF demo_uncancelled this 1(1,2)] 1(3) show ?thesis by simp
qed


end
