(* ===== verification/Node_Vocab.thy ===== *)
theory Node_Vocab
  imports Go_Base
begin

text \<open>
  The vocabulary of \<open>internal/core/node\<close>: roles (\<open>role.go\<close>), the two ways a node is named
  (\<open>label.go\<close>) and the scopes a per-node value is set in (\<open>scope.go\<close>). A role and a label are
  strings, as in the source; strings are sequences of bytes.
\<close>

type_synonym Role = string
type_synonym Label = string

datatype nodeError =
    UnknownRole string
  | NotIndexedLabel Label
  | NotRoleLabel Label
  | NoOrdinal Label

section \<open>Roles\<close>

definition RoleBP :: Role where "RoleBP = ''bp''"
definition RoleEN :: Role where "RoleEN = ''en''"
definition RolePN :: Role where "RolePN = ''pn''"

lemmas role_defs = RoleBP_def RoleEN_def RolePN_def

definition NormalizeRole :: "string \<Rightarrow> nodeError + Role" where
  "NormalizeRole s = (if s = RoleBP \<or> s = RoleEN \<or> s = RolePN then Inr s else Inl (UnknownRole s))"

text \<open>\<open>Is\<close>.\<close>

definition Is_role :: "Role \<Rightarrow> Role \<Rightarrow> bool" where
  "Is_role role canonical =
     (case NormalizeRole role of Inl e \<Rightarrow> False
      | Inr got \<Rightarrow> (case NormalizeRole canonical of Inl e \<Rightarrow> False | Inr want \<Rightarrow> got = want))"

definition in_vocabulary :: "Role \<Rightarrow> bool" where
  "in_vocabulary r \<longleftrightarrow> r \<in> {RoleBP, RoleEN, RolePN}"

lemma NormalizeRole_Inr_iff: "NormalizeRole s = Inr r \<longleftrightarrow> r = s \<and> in_vocabulary s"
  by (auto simp: NormalizeRole_def in_vocabulary_def)

lemma Is_role_iff: "Is_role r c \<longleftrightarrow> r = c \<and> in_vocabulary c"
  by (auto simp: Is_role_def in_vocabulary_def NormalizeRole_def split: sum.splits)

lemma Is_role_BP [simp]: "Is_role r RoleBP \<longleftrightarrow> r = RoleBP"
  and Is_role_EN [simp]: "Is_role r RoleEN \<longleftrightarrow> r = RoleEN"
  and Is_role_PN [simp]: "Is_role r RolePN \<longleftrightarrow> r = RolePN"
  by (simp_all add: Is_role_iff in_vocabulary_def)

lemma roles_distinct [simp]: "RoleBP \<noteq> RoleEN" "RoleEN \<noteq> RoleBP" "RoleBP \<noteq> RolePN"
  "RolePN \<noteq> RoleBP" "RoleEN \<noteq> RolePN" "RolePN \<noteq> RoleEN"
  by (simp_all add: role_defs)

section \<open>Labels\<close>

definition labelPrefix :: string where "labelPrefix = ''node''"

definition LabelFor :: "int \<Rightarrow> Label" where
  "LabelFor index = labelPrefix @ itoa index"

definition Index :: "Label \<Rightarrow> nodeError + int" where
  "Index l =
     (case cut_prefix labelPrefix l of
        None \<Rightarrow> Inl (NotIndexedLabel l)
      | Some rest \<Rightarrow>
          (case atoi rest of
             None \<Rightarrow> Inl (NotIndexedLabel l)
           | Some n \<Rightarrow> if n < 1 then Inl (NotIndexedLabel l) else Inr n))"

definition RoleLabel :: "Role \<Rightarrow> int \<Rightarrow> Label" where
  "RoleLabel role ord = role @ itoa ord"

text \<open>
  \<open>strings.LastIndexFunc\<close> finds the last byte that is not a digit; what is before and at it is the
  role, what is after it the ordinal. (On a label with a multi-byte rune the source reports the
  ordinal rather than the role as unreadable; it refuses the label all the same.)
\<close>

definition ParseRoleLabel :: "Label \<Rightarrow> nodeError + Role \<times> int" where
  "ParseRoleLabel s =
     (let rest = rev (takeWhile is_digit (rev s));
          split = length s - length rest
      in if split = 0 \<or> split = length s then Inl (NotRoleLabel s)
         else case atoi (drop split s) of
                None \<Rightarrow> Inl (NoOrdinal s)
              | Some ord \<Rightarrow>
                  if ord < 1 then Inl (NoOrdinal s)
                  else (case NormalizeRole (take split s) of Inl e \<Rightarrow> Inl e | Inr role \<Rightarrow> Inr (role, ord)))"

definition node_number :: "int \<Rightarrow> bool" where
  "node_number i \<longleftrightarrow> 1 \<le> i \<and> i < 2 ^ 63"

interpretation node_label: printer_parser LabelFor Index node_number
  by unfold_locales (simp add: LabelFor_def Index_def node_number_def atoi_itoa_pos)

lemma itoa_digits: "0 \<le> i \<Longrightarrow> list_all is_digit (itoa i) \<and> itoa i \<noteq> []"
  by (simp add: itoa_def nat_digits_all_digits)

lemma takeWhile_rev_digits:
  "list_all is_digit ds \<Longrightarrow> r \<noteq> [] \<Longrightarrow> \<not> is_digit (last r) \<Longrightarrow>
     takeWhile is_digit (rev (r @ ds)) = rev ds"
  by (cases r rule: rev_cases) (auto simp: list_all_iff takeWhile_append)

lemma role_last: "in_vocabulary r \<Longrightarrow> r \<noteq> [] \<and> \<not> is_digit (last r)"
  by (auto simp: in_vocabulary_def role_defs is_digit_def)

interpretation role_label: printer_parser "\<lambda>(r, i). RoleLabel r i" ParseRoleLabel
    "\<lambda>(r, i). in_vocabulary r \<and> node_number i"
proof unfold_locales
  fix x :: "Role \<times> int" assume x: "case x of (r, i) \<Rightarrow> in_vocabulary r \<and> node_number i"
  obtain r i where ri: "x = (r, i)" by fastforce
  have i: "0 \<le> i" "list_all is_digit (itoa i)" "itoa i \<noteq> []"
    using x ri itoa_digits [of i] by (auto simp: node_number_def)
  have r: "r \<noteq> []" "\<not> is_digit (last r)" using role_last x ri by auto
  have "takeWhile is_digit (rev (RoleLabel r i)) = rev (itoa i)"
    unfolding RoleLabel_def by (rule takeWhile_rev_digits [OF i(2) r])
  then show "ParseRoleLabel (case x of (r, i) \<Rightarrow> RoleLabel r i) = Inr x"
    using x ri i r atoi_itoa_pos [of i]
    by (simp add: ParseRoleLabel_def RoleLabel_def Let_def node_number_def NormalizeRole_def
        in_vocabulary_def split: sum.splits)
qed

text \<open>
  A node's two names are faithful and never confused: the identity label of an index
  reads back as that index, the alias of a role and ordinal reads back as that role and ordinal, no
  alias is an identity label, and different indexes or different (role, ordinal) pairs have
  different names.
\<close>

theorem node_names_read_back:
  assumes "node_number i" "node_number j" "in_vocabulary r"
  shows "Index (LabelFor i) = Inr i \<and> ParseRoleLabel (RoleLabel r j) = Inr (r, j)
     \<and> LabelFor i \<noteq> RoleLabel r j
     \<and> (LabelFor i = LabelFor j \<longrightarrow> i = j)
     \<and> (\<forall>r' j'. in_vocabulary r' \<and> node_number j' \<and> RoleLabel r j = RoleLabel r' j' \<longrightarrow> r = r' \<and> j = j')"
proof (intro conjI)
  show "Index (LabelFor i) = Inr i" by (rule node_label.parsed_printed [OF assms(1)])
  show "ParseRoleLabel (RoleLabel r j) = Inr (r, j)"
    using role_label.parsed_printed [of "(r, j)"] assms by simp
  show "LabelFor i \<noteq> RoleLabel r j"
    using assms(3) by (auto simp: LabelFor_def RoleLabel_def labelPrefix_def in_vocabulary_def role_defs)
  show "LabelFor i = LabelFor j \<longrightarrow> i = j" using node_label.printed_inj assms by blast
  show "\<forall>r' j'. in_vocabulary r' \<and> node_number j' \<and> RoleLabel r j = RoleLabel r' j' \<longrightarrow> r = r' \<and> j = j'"
  proof (intro allI impI)
    fix r' j' assume "in_vocabulary r' \<and> node_number j' \<and> RoleLabel r j = RoleLabel r' j'"
    then show "r = r' \<and> j = j'" using role_label.printed_inj [of "(r, j)" "(r', j')"] assms by simp
  qed
qed

theorem node_names_read_back_witness:
  "Index (LabelFor 7) = Inr 7 \<and> ParseRoleLabel (RoleLabel RoleEN 2) = Inr (RoleEN, 2) \<and> LabelFor 7 \<noteq> RoleLabel RoleEN 2"
proof -
  have "node_number 7" "node_number 2" "in_vocabulary RoleEN" by (simp_all add: node_number_def in_vocabulary_def)
  from node_names_read_back [OF this] show ?thesis by blast
qed

section \<open>Scopes\<close>

definition ScopeAll :: string where "ScopeAll = ''all''"

text \<open>\<open>ScopeIndex\<close>, with the pattern \<open>^node([1-9][0-9]*)$\<close> written out.\<close>

definition ScopeIndex :: "string \<Rightarrow> int" where
  "ScopeIndex s =
     (case cut_prefix ''node'' s of
        None \<Rightarrow> 0
      | Some d \<Rightarrow>
          if d \<noteq> [] \<and> list_all is_digit d \<and> hd d \<noteq> CHR ''0'' then
            (case atoi d of None \<Rightarrow> 0 | Some n \<Rightarrow> n)
          else 0)"

definition ValidScope :: "string \<Rightarrow> bool" where
  "ValidScope s =
     (if s = ScopeAll then True
      else if ScopeIndex s > 0 then True
      else case NormalizeRole s of Inl e \<Rightarrow> False | Inr r \<Rightarrow> True)"

definition ScopeFor :: "Role \<Rightarrow> int \<Rightarrow> string list" where
  "ScopeFor role index =
     [ScopeAll]
     @ (case NormalizeRole role of Inr canonical \<Rightarrow> [canonical] | Inl e \<Rightarrow> [])
     @ (if index > 0 then [''node'' @ itoa index] else [])"

definition ScopeRank :: "string \<Rightarrow> nat" where
  "ScopeRank s =
     (if s = ScopeAll then 0
      else if ScopeIndex s > 0 then 2
      else case NormalizeRole s of Inr r \<Rightarrow> 1 | Inl e \<Rightarrow> 3)"

lemma parse_nat_pos:
  "list_all is_digit d \<Longrightarrow> d \<noteq> [] \<Longrightarrow> hd d \<noteq> CHR ''0'' \<Longrightarrow> 0 < parse_nat d"
proof (induction d rule: rev_induct)
  case (snoc c xs)
  show ?case
  proof (cases "xs = []")
    case True
    have "(of_char (CHR ''0'') :: nat) = 48" by simp
    then have "(of_char c :: nat) \<noteq> 48"
      using snoc.prems True by (metis append_Nil list.sel(1) of_char_eq_iff)
    then show ?thesis using snoc.prems True by (auto simp: parse_nat_def digit_val_def is_digit_def)
  next
    case False
    then show ?thesis using snoc by (simp add: parse_nat_snoc)
  qed
qed simp


lemma digit_digit_val: "is_digit c \<Longrightarrow> digit (digit_val c) = c"
  by (simp add: digit_def digit_val_def is_digit_def)

text \<open>Decimal notation without a leading zero is unique.\<close>

lemma nat_digits_parse_nat:
  "list_all is_digit d \<Longrightarrow> d \<noteq> [] \<Longrightarrow> hd d \<noteq> CHR ''0'' \<Longrightarrow> nat_digits (parse_nat d) = d"
proof (induction d rule: rev_induct)
  case (snoc c xs)
  have c: "digit_val c < 10" "digit (digit_val c) = c"
    using snoc.prems by (auto simp: digit_digit_val) (auto simp: digit_val_def is_digit_def)
  show ?case
  proof (cases "xs = []")
    case True
    then show ?thesis using c by (simp add: parse_nat_def nat_digits.simps [of "digit_val c"])
  next
    case False
    then have xs: "0 < parse_nat xs" "nat_digits (parse_nat xs) = xs"
      using snoc parse_nat_pos by simp_all
    then show ?thesis
      using c by (subst nat_digits.simps) (simp add: parse_nat_snoc)
  qed
qed simp

lemma digits_not_signed: "list_all is_digit d \<Longrightarrow> d \<noteq> [] \<Longrightarrow> hd d \<noteq> CHR ''-'' \<and> hd d \<noteq> CHR ''+''"
  by (cases d) (auto simp: is_digit_def)

lemma atoi_digits:
  "list_all is_digit d \<Longrightarrow> d \<noteq> [] \<Longrightarrow>
     atoi d = (if int (parse_nat d) < 2 ^ 63 then Some (int (parse_nat d)) else None)"
  using digits_not_signed [of d] by (auto simp: atoi_def Let_def)

lemma nat_digits_hd: "0 < n \<Longrightarrow> hd (nat_digits n) \<noteq> CHR ''0''"
proof (induction n rule: nat_digits.induct)
  case (1 n)
  show ?case
  proof (cases "n < 10")
    case True
    then have "n \<in> {1, 2, 3, 4, 5, 6, 7, 8, 9}" using 1 by auto
    then show ?thesis by (subst nat_digits.simps) (auto simp: digit_def char_of_def)
  next
    case False
    then show ?thesis using 1 by (subst nat_digits.simps) simp
  qed
qed

text \<open>The indexed scopes are exactly the labels of the node numbers, each with one spelling.\<close>

lemma ScopeIndex_iff: "ScopeIndex s = n \<and> 0 < n \<longleftrightarrow> node_number n \<and> s = LabelFor n"
proof
  assume a: "ScopeIndex s = n \<and> 0 < n"
  then obtain d where d: "s = ''node'' @ d" "d \<noteq> []" "list_all is_digit d" "hd d \<noteq> CHR ''0''"
    and n: "n = int (parse_nat d)" "n < 2 ^ 63"
    by (auto simp: ScopeIndex_def atoi_digits cut_prefix_Some_iff split: option.splits if_splits)
  have "itoa n = d" using nat_digits_parse_nat [of d] d n by (simp add: itoa_def)
  then show "node_number n \<and> s = LabelFor n"
    using a d n by (simp add: node_number_def LabelFor_def labelPrefix_def)
next
  assume a: "node_number n \<and> s = LabelFor n"
  then have "hd (itoa n) \<noteq> CHR ''0''" using nat_digits_hd [of "nat n"] by (simp add: itoa_def node_number_def)
  then show "ScopeIndex s = n \<and> 0 < n"
    using a itoa_digits [of n] atoi_itoa_pos [of n] cut_prefix_append [of "''node''" "itoa n"]
    by (simp add: ScopeIndex_def node_number_def LabelFor_def labelPrefix_def)
qed

lemma ScopeIndex_nonneg: "0 \<le> ScopeIndex s"
  by (auto simp: ScopeIndex_def atoi_digits split: option.splits)

lemma ScopeIndex_words: "ScopeIndex ScopeAll = 0" "in_vocabulary r \<Longrightarrow> ScopeIndex r = 0"
  by (auto simp: ScopeIndex_def ScopeAll_def cut_prefix_def in_vocabulary_def role_defs)

text \<open>
  The scopes of a node are valid and come most general first: a fold over them in this
  order lets the value set for the node itself win over the one for its role, and that one over the
  one for all. A string is a scope exactly when it is one of these for some node.
\<close>

theorem scopes_most_general_first:
  assumes "in_vocabulary r" "node_number i"
  shows "ScopeFor r i = [ScopeAll, r, LabelFor i] \<and> list_all ValidScope (ScopeFor r i)
     \<and> map ScopeRank (ScopeFor r i) = [0, 1, 2]
     \<and> (\<forall>s. ValidScope s \<longleftrightarrow> (\<exists>r' i'. in_vocabulary r' \<and> node_number i' \<and> s \<in> set (ScopeFor r' i')))"
proof -
  have sf: "ScopeFor r' i' = [ScopeAll, r', LabelFor i']" if "in_vocabulary r'" "node_number i'" for r' i'
    using that by (simp add: ScopeFor_def NormalizeRole_def in_vocabulary_def node_number_def
        LabelFor_def labelPrefix_def)
  have idx: "ScopeIndex (LabelFor i') = i' \<and> 0 < i'" if "node_number i'" for i'
    using ScopeIndex_iff [of "LabelFor i'" i'] that by simp
  have pos: "0 < ScopeIndex s \<longleftrightarrow> (\<exists>n. node_number n \<and> s = LabelFor n)" for s
    using ScopeIndex_iff [of s "ScopeIndex s"] idx by auto
  have valid: "ValidScope s \<longleftrightarrow> s = ScopeAll \<or> in_vocabulary s \<or> (\<exists>n. node_number n \<and> s = LabelFor n)" for s
    unfolding ValidScope_def pos by (simp add: NormalizeRole_def in_vocabulary_def)
  have ne: "r \<noteq> ScopeAll" "LabelFor i \<noteq> ScopeAll"
    using assms(1) by (auto simp: in_vocabulary_def ScopeAll_def role_defs LabelFor_def labelPrefix_def)
  have "ScopeRank r = 1"
    using assms(1) ne(1) by (simp add: ScopeRank_def ScopeIndex_words NormalizeRole_def in_vocabulary_def)
  moreover have "ScopeRank (LabelFor i) = 2" using ne(2) idx [OF assms(2)] by (simp add: ScopeRank_def)
  ultimately have rank: "map ScopeRank [ScopeAll, r, LabelFor i] = [0, 1, 2]" by (simp add: ScopeRank_def)
  have "ValidScope s \<longleftrightarrow> (\<exists>r' i'. in_vocabulary r' \<and> node_number i' \<and> s \<in> set (ScopeFor r' i'))" for s
  proof
    assume "ValidScope s"
    then consider "s = ScopeAll" | "in_vocabulary s" | n where "node_number n" "s = LabelFor n"
      using valid by blast
    then show "\<exists>r' i'. in_vocabulary r' \<and> node_number i' \<and> s \<in> set (ScopeFor r' i')"
      by cases (use assms sf in \<open>fastforce\<close>)+
  next
    assume "\<exists>r' i'. in_vocabulary r' \<and> node_number i' \<and> s \<in> set (ScopeFor r' i')"
    then show "ValidScope s" unfolding valid using sf by auto
  qed
  moreover have "list_all ValidScope (ScopeFor r i)"
    using assms sf [OF assms] valid by simp blast
  ultimately show ?thesis using sf [OF assms] rank by simp
qed

theorem scopes_most_general_first_witness:
  "map ScopeRank (ScopeFor RolePN 3) = [0, 1, 2] \<and> list_all ValidScope (ScopeFor RolePN 3)"
proof -
  have "node_number 3" "in_vocabulary RolePN" by (simp_all add: node_number_def in_vocabulary_def)
  from scopes_most_general_first [OF this(2,1)] show ?thesis by blast
qed

text \<open>
  One node can be written two ways for a label and only one for a scope: \<open>Index\<close>
  reads a leading zero or a sign, which the scope pattern refuses so that "node01" cannot mean node 1
  under one reader and nothing under another.
\<close>

theorem label_reads_what_scope_refuses:
  "Index ''node01'' = Inr 1 \<and> ScopeIndex ''node01'' = 0 \<and> \<not> ValidScope ''node01''
     \<and> Index ''node+1'' = Inr 1 \<and> ScopeIndex ''node+1'' = 0"
  by code_simp

end
