(* ===== verification/Node_Placement.thy ===== *)
theory Node_Placement
  imports Node_Vocab
begin

text \<open>
  Where nodes run: a node's ports and the node set (\<open>node.go\<close>), how many ports a node reserves
  (\<open>reservation.go\<close>), and the placement map with its reverse lookup (\<open>placement.go\<close>).
\<close>

section \<open>Ports and node sets (node.go, reservation.go)\<close>

record Endpoints =
  P2P :: int
  Etcd :: int
  EtcdClient :: int
  HTTP :: int
  WS :: int
  Auth :: int
  Metrics :: int

definition Offset :: "Endpoints \<Rightarrow> int \<Rightarrow> Endpoints" where
  "Offset base i =
     \<lparr>P2P = P2P base + i, Etcd = 0, EtcdClient = 0, HTTP = HTTP base + i, WS = WS base + i,
      Auth = Auth base + i, Metrics = Metrics base + i\<rparr>"

text \<open>A node; the authentication descriptor, a map of arbitrary values, is left out.\<close>

record Node =
  n_chain :: string
  n_index :: int
  n_role :: Role
  n_host :: string
  n_rpcURL :: string
  n_metricsURL :: string
  n_wsURL :: string
  n_ports :: Endpoints
  n_pid :: int
  n_apis :: "string list"

record NodeSet =
  ns_chain :: string
  ns_network :: string
  ns_nodes :: "Node list"
  ns_capabilities :: "string list"

definition Primary :: "NodeSet \<Rightarrow> Node option" where
  "Primary s = (case ns_nodes s of
       [] \<Rightarrow> None
     | first # rest \<Rightarrow> Some (foldl (\<lambda>best n. if n_index n < n_index best then n else best) first rest))"

definition HasCapability :: "NodeSet \<Rightarrow> string \<Rightarrow> bool" where
  "HasCapability s c = list_ex (\<lambda>x. x = c) (ns_capabilities s)"

record Reservation =
  P2PSpan :: int
  RPCSpan :: int

definition DefaultReservation :: Reservation where
  "DefaultReservation = \<lparr>P2PSpan = 2, RPCSpan = 3\<rparr>"

definition WithDefaults :: "Reservation \<Rightarrow> Reservation" where
  "WithDefaults r =
     (let r1 = (if P2PSpan r < 1 then r\<lparr>P2PSpan := P2PSpan DefaultReservation\<rparr> else r)
      in if RPCSpan r1 < 1 then r1\<lparr>RPCSpan := RPCSpan DefaultReservation\<rparr> else r1)"

lemma WithDefaults_positive: "1 \<le> P2PSpan (WithDefaults r)" "1 \<le> RPCSpan (WithDefaults r)"
  by (auto simp: WithDefaults_def DefaultReservation_def Let_def)

section \<open>The placement map\<close>

record Placement =
  pl_index :: int
  pl_label :: Label
  pl_role :: Role
  pl_ord :: int
  pl_host :: string
  pl_ports :: Endpoints
  pl_dataDir :: string

record Map =
  byLabel :: "Label \<rightharpoonup> Placement"
  byAddr :: "string \<rightharpoonup> Label"
  order :: "Label list"

datatype placementError =
    PlacementNoLabel
  | DuplicateLabel Label
  | AssignedToBoth string Label Label

definition portsOf :: "Endpoints \<Rightarrow> int list" where
  "portsOf p = [P2P p, Etcd p, EtcdClient p, HTTP p, WS p, Auth p, Metrics p]"

text \<open>The inner loop of \<open>NewMap\<close>: the ports of one placement, from those still to take.\<close>

fun holdPorts ::
  "(string \<rightharpoonup> Label) \<Rightarrow> Placement \<Rightarrow> int list \<Rightarrow> placementError + (string \<rightharpoonup> Label)"
where
  "holdPorts a p [] = Inr a"
| "holdPorts a p (port # ports) =
     (if port = 0 then holdPorts a p ports
      else
        let addr = join_host_port (pl_host p) port
        in case a addr of
             Some holder \<Rightarrow> Inl (AssignedToBoth addr holder (pl_label p))
           | None \<Rightarrow> holdPorts (a(addr \<mapsto> pl_label p)) p ports)"

fun placeAll :: "Map \<Rightarrow> Placement list \<Rightarrow> placementError + Map" where
  "placeAll m [] = Inr m"
| "placeAll m (p # ps) =
     (if pl_label p = '''' then Inl PlacementNoLabel
      else if byLabel m (pl_label p) \<noteq> None then Inl (DuplicateLabel (pl_label p))
      else
        let m1 = m\<lparr>byLabel := (byLabel m)(pl_label p \<mapsto> p), order := order m @ [pl_label p]\<rparr>
        in case holdPorts (byAddr m1) p (portsOf (pl_ports p)) of
             Inl e \<Rightarrow> Inl e
           | Inr a \<Rightarrow> placeAll (m1\<lparr>byAddr := a\<rparr>) ps)"

definition NewMap :: "Placement list \<Rightarrow> placementError + Map" where
  "NewMap placements = placeAll \<lparr>byLabel = Map.empty, byAddr = Map.empty, order = []\<rparr> placements"

definition Lookup :: "Map \<Rightarrow> Label \<Rightarrow> Placement option" where
  "Lookup m label = byLabel m label"

definition At :: "Map \<Rightarrow> string \<Rightarrow> int \<Rightarrow> Label option" where
  "At m host port = byAddr m (join_host_port host port)"

definition Labels :: "Map \<Rightarrow> Label list" where
  "Labels m = order m"

definition Placements :: "Map \<Rightarrow> Placement list" where
  "Placements m = map (\<lambda>l. the (byLabel m l)) (order m)"

definition placementRoleLabel :: "Placement \<Rightarrow> Label" where
  "placementRoleLabel p = RoleLabel (pl_role p) (pl_ord p)"

section \<open>What the map answers\<close>

text \<open>The addresses a placement holds, and those of a list of placements with their holders.\<close>

definition addrsOf :: "Placement \<Rightarrow> string list" where
  "addrsOf p = map (join_host_port (pl_host p)) (filter (\<lambda>x. x \<noteq> 0) (portsOf (pl_ports p)))"

definition held :: "Placement list \<Rightarrow> (string \<times> Label) list" where
  "held ps = concat (map (\<lambda>p. map (\<lambda>a. (a, pl_label p)) (addrsOf p)) ps)"

text \<open>Taking one address after the other.\<close>

fun holdAddrs :: "(string \<rightharpoonup> Label) \<Rightarrow> Label \<Rightarrow> string list \<Rightarrow> placementError + (string \<rightharpoonup> Label)" where
  "holdAddrs a l [] = Inr a"
| "holdAddrs a l (x # xs) =
     (case a x of Some h \<Rightarrow> Inl (AssignedToBoth x h l) | None \<Rightarrow> holdAddrs (a(x \<mapsto> l)) l xs)"

lemma holdPorts_eq_holdAddrs:
  "holdPorts a p ports
     = holdAddrs a (pl_label p) (map (join_host_port (pl_host p)) (filter (\<lambda>x. x \<noteq> 0) ports))"
  by (induction ports arbitrary: a) (simp_all add: Let_def split: option.splits)

lemma holdAddrs_spec:
  "if distinct xs \<and> (\<forall>x \<in> set xs. a x = None)
   then holdAddrs a l xs = Inr (\<lambda>x. if x \<in> set xs then Some l else a x)
   else (\<exists>e. holdAddrs a l xs = Inl e)"
proof (induction xs arbitrary: a)
  case (Cons x xs)
  show ?case
  proof (cases "a x")
    case None
    have "(\<forall>y \<in> set xs. (a(x \<mapsto> l)) y = None) \<longleftrightarrow> x \<notin> set xs \<and> (\<forall>y \<in> set xs. a y = None)" by auto
    then show ?thesis
      using Cons [of "a(x \<mapsto> l)"] None by (auto simp: fun_eq_iff split: if_splits)
  qed simp
qed simp

lemma holdPorts_spec:
  "if distinct (addrsOf p) \<and> (\<forall>x \<in> set (addrsOf p). a x = None)
   then holdPorts a p (portsOf (pl_ports p)) = Inr (\<lambda>x. if x \<in> set (addrsOf p) then Some (pl_label p) else a x)
   else (\<exists>e. holdPorts a p (portsOf (pl_ports p)) = Inl e)"
  unfolding holdPorts_eq_holdAddrs addrsOf_def [symmetric] by (rule holdAddrs_spec)

definition placeable :: "Map \<Rightarrow> Placement list \<Rightarrow> bool" where
  "placeable m ps \<longleftrightarrow>
     (\<forall>p \<in> set ps. pl_label p \<noteq> '''' \<and> byLabel m (pl_label p) = None) \<and> distinct (map pl_label ps)
     \<and> distinct (map fst (held ps)) \<and> (\<forall>x \<in> fst ` set (held ps). byAddr m x = None)"

lemma fst_held: "fst ` set (held ps) = (\<Union>p \<in> set ps. set (addrsOf p))"
  by (force simp: held_def)

lemma distinct_held_Cons:
  "distinct (map fst (held (p # ps))) \<longleftrightarrow>
     distinct (addrsOf p) \<and> distinct (map fst (held ps)) \<and> set (addrsOf p) \<inter> fst ` set (held ps) = {}"
  by (simp add: held_def comp_def distinct_append)

lemma map_of_held_Cons:
  "a ++ map_of (held (p # ps)) =
     (if set (addrsOf p) \<inter> fst ` set (held ps) = {}
      then (\<lambda>x. if x \<in> set (addrsOf p) then Some (pl_label p) else a x) ++ map_of (held ps)
      else a ++ map_of (held (p # ps)))"
proof -
  have hd: "map_of (held (p # ps)) = map_of (held ps) ++ map_of (map (\<lambda>x. (x, pl_label p)) (addrsOf p))"
    by (simp add: held_def)
  have one: "map_of (map (\<lambda>x. (x, pl_label p)) (addrsOf p)) y
      = (if y \<in> set (addrsOf p) then Some (pl_label p) else None)" for y
    by (induction "addrsOf p") (auto simp: map_of_eq_None_iff map_of_map_restrict)
  show ?thesis
    by (auto simp: fun_eq_iff hd map_add_def one map_of_eq_None_iff split: option.splits
        dest!: map_of_SomeD intro!: rev_image_eqI)
qed

lemma placeAll_spec:
  "if placeable m ps
   then placeAll m ps = Inr
      \<lparr>byLabel = byLabel m ++ map_of (map (\<lambda>p. (pl_label p, p)) ps),
       byAddr = byAddr m ++ map_of (held ps), order = order m @ map pl_label ps\<rparr>
   else (\<exists>e. placeAll m ps = Inl e)"
proof (induction ps arbitrary: m)
  case Nil
  then show ?case by (simp add: placeable_def held_def)
next
  case (Cons p ps)
  show ?case
  proof (cases "pl_label p = '''' \<or> byLabel m (pl_label p) \<noteq> None")
    case True
    then show ?thesis by (auto simp: placeable_def)
  next
    case lab: False
    show ?thesis
    proof (cases "distinct (addrsOf p) \<and> (\<forall>x \<in> set (addrsOf p). byAddr m x = None)")
      case False
      then obtain e where "holdPorts (byAddr m) p (portsOf (pl_ports p)) = Inl e"
        using holdPorts_spec [of p "byAddr m"] by (auto split: if_splits)
      moreover have "\<not> placeable m (p # ps)"
        using False unfolding placeable_def distinct_held_Cons fst_held by auto
      ultimately show ?thesis using lab by (simp add: Let_def)
    next
      case True
      define m1 where "m1 = m\<lparr>byLabel := (byLabel m)(pl_label p \<mapsto> p), order := order m @ [pl_label p],
        byAddr := (\<lambda>x. if x \<in> set (addrsOf p) then Some (pl_label p) else byAddr m x)\<rparr>"
      have step: "placeAll m (p # ps) = placeAll m1 ps"
        using lab True holdPorts_spec [of p "byAddr m"] by (simp add: Let_def m1_def)
      have iff: "placeable m (p # ps) \<longleftrightarrow> placeable m1 ps"
        using lab True unfolding placeable_def distinct_held_Cons fst_held
        by (auto simp: m1_def split: if_splits) (metis image_eqI)
      show ?thesis
      proof (cases "placeable m1 ps")
        case ok: True
        then have dis: "pl_label p \<notin> pl_label ` set ps" "set (addrsOf p) \<inter> fst ` set (held ps) = {}"
          using iff unfolding placeable_def distinct_held_Cons by auto
        have "byLabel m1 ++ map_of (map (\<lambda>p. (pl_label p, p)) ps)
            = byLabel m ++ map_of (map (\<lambda>p. (pl_label p, p)) (p # ps))"
          using dis(1) by (simp add: m1_def map_add_upd_left dom_map_of_conv_image_fst image_image)
        moreover have "byAddr m1 ++ map_of (held ps) = byAddr m ++ map_of (held (p # ps))"
          using dis(2) map_of_held_Cons [of "byAddr m" p ps] by (simp add: m1_def)
        ultimately show ?thesis using Cons [of m1] ok iff step by (simp add: m1_def)
      next
        case False
        then show ?thesis using Cons [of m1] iff step by simp
      qed
    qed
  qed
qed

definition distinct_places :: "Placement list \<Rightarrow> bool" where
  "distinct_places ps \<longleftrightarrow> (\<forall>p \<in> set ps. pl_label p \<noteq> '''') \<and> distinct (map pl_label ps)
     \<and> distinct (map fst (held ps))"

lemma NewMap_spec:
  "if distinct_places ps
   then NewMap ps = Inr \<lparr>byLabel = map_of (map (\<lambda>p. (pl_label p, p)) ps),
       byAddr = map_of (held ps), order = map pl_label ps\<rparr>
   else (\<exists>e. NewMap ps = Inl e)"
  using placeAll_spec [of "\<lparr>byLabel = Map.empty, byAddr = Map.empty, order = []\<rparr>" ps]
  by (simp add: NewMap_def placeable_def distinct_places_def)

lemma NewMap_D:
  assumes "NewMap ps = Inr m"
  shows "distinct_places ps" "byLabel m = map_of (map (\<lambda>p. (pl_label p, p)) ps)"
    "byAddr m = map_of (held ps)" "order m = map pl_label ps"
  using assms NewMap_spec [of ps] by (auto split: if_splits)

lemma map_of_labels:
  "distinct (map pl_label ps) \<Longrightarrow> p \<in> set ps \<Longrightarrow> map_of (map (\<lambda>p. (pl_label p, p)) ps) (pl_label p) = Some p"
  by (rule map_of_is_SomeI) (auto simp: comp_def)

lemma NewMap_Placements: "NewMap ps = Inr m \<Longrightarrow> Placements m = ps"
  using NewMap_D [of ps m] by (auto simp: Placements_def distinct_places_def map_of_labels intro!: map_idI)

lemma NewMap_Lookup:
  "NewMap ps = Inr m \<Longrightarrow> Lookup m l = Some p \<longleftrightarrow> p \<in> set ps \<and> pl_label p = l"
  using NewMap_D [of ps m]
  by (auto simp: Lookup_def distinct_places_def map_of_labels dest!: map_of_SomeD)

text \<open>
  The reverse lookup is exact: in a map that \<open>NewMap\<close> built, \<open>At\<close> answers a node for
  an address exactly when that node was placed on that host and listens on that (nonzero) port, so
  an address in a log line is traced to the right node or to none. The map holds every placement,
  in the order given, under its label.
\<close>

theorem reverse_lookup_is_exact:
  assumes "NewMap ps = Inr m" and "\<forall>p \<in> set ps. \<forall>x \<in> set (portsOf (pl_ports p)). 0 \<le> x" and "0 < port"
  shows "(At m host port = Some l \<longleftrightarrow>
      (\<exists>p \<in> set ps. pl_label p = l \<and> pl_host p = host \<and> port \<in> set (portsOf (pl_ports p))))
     \<and> Placements m = ps \<and> (\<forall>p \<in> set ps. Lookup m (pl_label p) = Some p)"
proof -
  note d = NewMap_D [OF assms(1)]
  have "map_of (held ps) a = Some l \<longleftrightarrow> (a, l) \<in> set (held ps)" for a
    using d(1) map_of_eq_Some_iff [of "held ps"] by (simp add: distinct_places_def)
  then have "At m host port = Some l \<longleftrightarrow> (join_host_port host port, l) \<in> set (held ps)"
    by (simp add: At_def d(3))
  also have "\<dots> \<longleftrightarrow> (\<exists>p \<in> set ps. pl_label p = l \<and> join_host_port host port \<in> set (addrsOf p))"
    by (auto simp: held_def)
  also have "\<dots> \<longleftrightarrow> (\<exists>p \<in> set ps. pl_label p = l \<and> pl_host p = host \<and> port \<in> set (portsOf (pl_ports p)))"
    using assms(2,3) by (fastforce simp: addrsOf_def dest!: join_host_port_inj)
  finally show ?thesis using NewMap_Placements [OF assms(1)] NewMap_Lookup [OF assms(1)] by blast
qed

text \<open>
  \<open>NewMap\<close> refuses exactly the compositions in which two nodes cannot both start or
  cannot be told apart: an empty label, a repeated label, or an address used twice.
\<close>

theorem newmap_accepts_iff:
  "(\<exists>m. NewMap ps = Inr m) \<longleftrightarrow>
     (\<forall>p \<in> set ps. pl_label p \<noteq> '''') \<and> distinct (map pl_label ps) \<and> distinct (concat (map addrsOf ps))"
proof -
  have "map fst (held ps) = concat (map addrsOf ps)"
    by (simp add: held_def map_concat comp_def)
  then show ?thesis using NewMap_spec [of ps] by (auto simp: distinct_places_def split: if_splits)
qed

section \<open>Offset\<close>

text \<open>
  \<open>Offset\<close> advances the five ports every family listens on and drops the other two:
  whatever the base says, the etcd ports come back as 0, which the collision checks read as "none".
\<close>

theorem offset_drops_etcd_ports:
  "P2P (Offset b i) = P2P b + i \<and> HTTP (Offset b i) = HTTP b + i \<and> WS (Offset b i) = WS b + i
     \<and> Auth (Offset b i) = Auth b + i \<and> Metrics (Offset b i) = Metrics b + i
     \<and> Etcd (Offset b i) = 0 \<and> EtcdClient (Offset b i) = 0"
  by (simp add: Offset_def)

definition samplePlacements :: "Placement list" where
  "samplePlacements =
     [\<lparr>pl_index = 1, pl_label = ''node1'', pl_role = RoleBP, pl_ord = 1, pl_host = ''127.0.0.1'',
       pl_ports = \<lparr>P2P = 1, Etcd = 0, EtcdClient = 0, HTTP = 2, WS = 3, Auth = 4, Metrics = 5\<rparr>,
       pl_dataDir = ''d1''\<rparr>,
      \<lparr>pl_index = 2, pl_label = ''node2'', pl_role = RoleBP, pl_ord = 2, pl_host = ''127.0.0.1'',
       pl_ports = \<lparr>P2P = 6, Etcd = 0, EtcdClient = 0, HTTP = 7, WS = 8, Auth = 9, Metrics = 10\<rparr>,
       pl_dataDir = ''d2''\<rparr>]"

definition sampleMap :: Map where
  "sampleMap = projr (NewMap samplePlacements)"

lemma sample_map: "NewMap samplePlacements = Inr sampleMap"
proof -
  have "\<not> isl (NewMap samplePlacements)" by code_simp
  then show ?thesis by (simp add: sampleMap_def)
qed

theorem reverse_lookup_is_exact_witness:
  "At sampleMap ''127.0.0.1'' 7 = Some ''node2''"
proof -
  have p: "\<forall>p \<in> set samplePlacements. \<forall>x \<in> set (portsOf (pl_ports p)). 0 \<le> x"
    by (simp add: samplePlacements_def portsOf_def)
  have "\<exists>p \<in> set samplePlacements. pl_label p = ''node2'' \<and> pl_host p = ''127.0.0.1''
      \<and> 7 \<in> set (portsOf (pl_ports p))" by (simp add: samplePlacements_def portsOf_def)
  moreover have "0 < (7 :: int)" by simp
  ultimately show ?thesis using reverse_lookup_is_exact [OF sample_map p] by blast
qed

theorem newmap_accepts_iff_witness:
  "(\<exists>m. NewMap samplePlacements = Inr m) \<and> distinct (concat (map addrsOf samplePlacements))"
  using newmap_accepts_iff [of samplePlacements] sample_map by blast

end
