(* ===== verification/Node_Peering.thy ===== *)
theory Node_Peering
  imports Node_Placement
begin

text \<open>
  Who dials whom (\<open>internal/core/node/peering.go\<close>, \<open>enode.go\<close>): the derived graphs (mesh, proxied),
  the declared one (groups of node labels carried in the peering's name), their validation against a
  placement map and the peer list of one node. Where the source ranges over a Go map, the model
  keeps no order: a set of neighbours is a list without repetitions of which only the members
  matter, and an error found by such a loop does not say which entry it met first.
\<close>

type_synonym Peering = string

definition Mesh :: Peering where "Mesh = ''mesh''"
definition Proxied :: Peering where "Proxied = ''proxied''"
definition groupsPrefix :: string where "groupsPrefix = ''groups:''"

datatype peeringError =
    NoGroups
  | GroupTooSmall nat nat
  | GroupLabel nat nodeError
  | GroupListsTwice nat string
  | UnknownPeering string
  | NoMap
  | RoleUnsupported
  | ProxiedWithoutPN
  | MeshWithPN nat
  | GroupNamesForeign nat Label
  | GroupsLeaveOut Label
  | ProducerUnreachable Label Label
  | NotInNetwork Label
  | NoPlaceForRole Role Label
  | NoFormatter Label
  | ListsForeign Label Label

section \<open>Declared groups\<close>

text \<open>The inner loop of \<open>GroupsPeering\<close> over one group; \<open>i\<close> is the group's index from 0.\<close>

fun checkLabels :: "nat \<Rightarrow> string list \<Rightarrow> string list \<Rightarrow> peeringError option" where
  "checkLabels i seen [] = None"
| "checkLabels i seen (l # ls) =
     (case Index l of
        Inl e \<Rightarrow> Some (GroupLabel (i + 1) e)
      | Inr n \<Rightarrow> if l \<in> set seen then Some (GroupListsTwice (i + 1) l)
                 else checkLabels i (l # seen) ls)"

fun groupParts :: "nat \<Rightarrow> string list list \<Rightarrow> peeringError + string list" where
  "groupParts i [] = Inr []"
| "groupParts i (g # gs) =
     (if length g < 2 then Inl (GroupTooSmall (i + 1) (length g))
      else case checkLabels i [] g of
        Some e \<Rightarrow> Inl e
      | None \<Rightarrow> (case groupParts (i + 1) gs of Inl e \<Rightarrow> Inl e | Inr ps \<Rightarrow> Inr (join '','' g # ps)))"

definition GroupsPeering :: "string list list \<Rightarrow> peeringError + Peering" where
  "GroupsPeering gs =
     (if length gs = 0 then Inl NoGroups
      else case groupParts 0 gs of Inl e \<Rightarrow> Inl e | Inr parts \<Rightarrow> Inr (groupsPrefix @ join '';'' parts))"

definition groups :: "Peering \<Rightarrow> Label list list option" where
  "groups p =
     (case cut_prefix groupsPrefix p of
        None \<Rightarrow> None
      | Some body \<Rightarrow> Some (map (split_on (CHR '','')) (split_on (CHR '';'') body)))"

definition neighbours :: "Peering \<Rightarrow> Label \<Rightarrow> Label list" where
  "neighbours p label =
     (case groups p of
        None \<Rightarrow> []
      | Some gs \<Rightarrow> remdups (concat (map (\<lambda>g. if label \<in> set g then filter (\<lambda>l. l \<noteq> label) g else []) gs)))"

definition DeclaredPeers :: "Peering \<Rightarrow> Label \<Rightarrow> nat option" where
  "DeclaredPeers p label = (if groups p = None then None else Some (length (neighbours p label)))"

definition ParsePeering :: "string \<Rightarrow> peeringError + Peering" where
  "ParsePeering s =
     (if s = '''' \<or> s = Mesh then Inr Mesh
      else if s = Proxied then Inr Proxied
      else case groups s of Some gs \<Rightarrow> GroupsPeering gs | None \<Rightarrow> Inl (UnknownPeering s))"

section \<open>Validation\<close>

definition roleCount :: "Map \<Rightarrow> Role \<Rightarrow> nat" where
  "roleCount m r = length (filter (\<lambda>pl. pl_role pl = r) (Placements m))"

text \<open>
  The search of \<open>validateGroups\<close>: from the first producer, along neighbours that are producers.
  It ends because every step either finds producers not reached before or shortens the queue.
\<close>

function bfs :: "(Label \<Rightarrow> Label list) \<Rightarrow> Label list \<Rightarrow> Label list \<Rightarrow> Label list \<Rightarrow> Label list" where
  "bfs nb bps reached [] = reached"
| "bfs nb bps reached (cur # queue) =
     (let new = filter (\<lambda>n. n \<in> set bps \<and> n \<notin> set reached) (nb cur)
      in bfs nb bps (reached @ new) (queue @ new))"
  by pat_completeness auto

termination
proof (relation "measures [\<lambda>(nb, bps, reached, queue). card (set bps - set reached),
    \<lambda>(nb, bps, reached, queue). length queue]")
  fix nb :: "Label \<Rightarrow> Label list" and cur :: Label and bps reached queue new :: "Label list"
  assume n: "new = filter (\<lambda>n. n \<in> set bps \<and> n \<notin> set reached) (nb cur)"
  show "((nb, bps, reached @ new, queue @ new), nb, bps, reached, cur # queue)
      \<in> measures [\<lambda>(nb, bps, reached, queue). card (set bps - set reached),
          \<lambda>(nb, bps, reached, queue). length queue]"
  proof (cases "new = []")
    case False
    then obtain x where "x \<in> set new" by fastforce
    then have "set bps - set (reached @ new) \<subset> set bps - set reached" using n by auto
    then have "card (set bps - set (reached @ new)) < card (set bps - set reached)"
      by (rule psubset_card_mono [rotated]) simp
    then show ?thesis by simp
  qed simp
qed simp

fun foreignLabel :: "Map \<Rightarrow> nat \<Rightarrow> Label list list \<Rightarrow> peeringError option" where
  "foreignLabel m i [] = None"
| "foreignLabel m i (g # gs) =
     (case find (\<lambda>l. Lookup m l = None) g of
        Some l \<Rightarrow> Some (GroupNamesForeign (i + 1) l)
      | None \<Rightarrow> foreignLabel m (i + 1) gs)"

definition validateGroups :: "Peering \<Rightarrow> Map \<Rightarrow> peeringError option" where
  "validateGroups p m =
     (let gs = (case groups p of None \<Rightarrow> [] | Some gs \<Rightarrow> gs)
      in case foreignLabel m 0 gs of
           Some e \<Rightarrow> Some e
         | None \<Rightarrow>
             (case find (\<lambda>pl. \<not> list_ex (\<lambda>g. pl_label pl \<in> set g) gs) (Placements m) of
                Some pl \<Rightarrow> Some (GroupsLeaveOut (pl_label pl))
              | None \<Rightarrow>
                  (let bps = map pl_label (filter (\<lambda>pl. Is_role (pl_role pl) RoleBP) (Placements m))
                   in if length bps < 2 then None
                      else let reached = bfs (neighbours p) bps [hd bps] [hd bps]
                           in case find (\<lambda>l. l \<notin> set reached) bps of
                                Some l \<Rightarrow> Some (ProducerUnreachable l (hd bps))
                              | None \<Rightarrow> None)))"

definition ValidatePeering :: "Peering \<Rightarrow> Map option \<Rightarrow> (Role \<Rightarrow> bool) option \<Rightarrow> peeringError option" where
  "ValidatePeering p mo supports =
     (case mo of None \<Rightarrow> Some NoMap | Some m \<Rightarrow>
      if (case supports of None \<Rightarrow> False
          | Some f \<Rightarrow> list_ex (\<lambda>pl. \<not> f (pl_role pl)) (Placements m))
      then Some RoleUnsupported
      else if groups p \<noteq> None then validateGroups p m
      else if p = Proxied \<and> roleCount m RolePN = 0 then Some ProxiedWithoutPN
      else if p = Mesh \<and> roleCount m RolePN > 0 then Some (MeshWithPN (roleCount m RolePN))
      else None)"

section \<open>Peer lists\<close>

text \<open>Which roles a node of this role lists under proxied peering; \<open>None\<close> when it has no place.\<close>

definition proxiedWants :: "Role \<Rightarrow> (Role \<Rightarrow> bool) option" where
  "proxiedWants self =
     (if Is_role self RoleBP then Some (\<lambda>r. Is_role r RoleBP \<or> Is_role r RolePN)
      else if Is_role self RoleEN then Some (\<lambda>r. Is_role r RolePN)
      else if Is_role self RolePN then Some (\<lambda>r. True)
      else None)"

definition Peers :: "Peering \<Rightarrow> Map option \<Rightarrow> Label \<Rightarrow> peeringError + Label list" where
  "Peers p mo label =
     (case mo of None \<Rightarrow> Inl NoMap | Some m \<Rightarrow>
      case Lookup m label of None \<Rightarrow> Inl (NotInNetwork label) | Some self \<Rightarrow>
      if p = Mesh then Inr (map pl_label (Placements m))
      else if groups p \<noteq> None then
        Inr (map pl_label (filter (\<lambda>pl. pl_label pl \<in> set (neighbours p label)) (Placements m)))
      else case proxiedWants (pl_role self) of
        None \<Rightarrow> Inl (NoPlaceForRole (pl_role self) label)
      | Some wants \<Rightarrow>
          Inr (map pl_label (filter (\<lambda>pl. pl_label pl \<noteq> label \<and> wants (pl_role pl)) (Placements m))))"

text \<open>The loop of \<open>StaticNodes\<close> over the peers.\<close>

fun formatPeers ::
  "Map \<Rightarrow> Label \<Rightarrow> (Placement \<Rightarrow> string option) \<Rightarrow> Label list \<Rightarrow> peeringError + string list"
where
  "formatPeers m label enode [] = Inr []"
| "formatPeers m label enode (peer # peers) =
     (case Lookup m peer of
        None \<Rightarrow> Inl (ListsForeign label peer)
      | Some pl \<Rightarrow>
          (case formatPeers m label enode peers of
             Inl e \<Rightarrow> Inl e
           | Inr out \<Rightarrow> Inr (case enode pl of Some e \<Rightarrow> e # out | None \<Rightarrow> out)))"

definition StaticNodes ::
  "Peering \<Rightarrow> Map option \<Rightarrow> Label \<Rightarrow> (Placement \<Rightarrow> string option) option \<Rightarrow> peeringError + string list"
where
  "StaticNodes p mo label enode =
     (case enode of None \<Rightarrow> Inl (NoFormatter label) | Some f \<Rightarrow>
      case Peers p mo label of Inl e \<Rightarrow> Inl e | Inr peers \<Rightarrow>
      case mo of None \<Rightarrow> Inl NoMap | Some m \<Rightarrow> formatPeers m label f peers)"

definition Enode :: "string \<Rightarrow> string \<Rightarrow> int \<Rightarrow> string" where
  "Enode publicKey host p2pPort =
     ''enode://'' @ publicKey @ ''@'' @ host @ '':'' @ itoa p2pPort @ ''?discport=0''"

definition PeerList ::
  "Map option \<Rightarrow> Peering \<Rightarrow> Label \<Rightarrow> (int \<Rightarrow> string option) \<Rightarrow> peeringError + string list"
where
  "PeerList m p label pubkey =
     StaticNodes p m label (Some (\<lambda>pl. case pubkey (pl_index pl) of
        None \<Rightarrow> None | Some pk \<Rightarrow> Some (Enode pk (pl_host pl) (P2P (pl_ports pl)))))"

section \<open>Declared graphs read back\<close>

lemma Index_label_chars:
  assumes "Index l = Inr n"
  shows "CHR '','' \<notin> set l \<and> CHR '';'' \<notin> set l"
proof -
  obtain rest where l: "l = ''node'' @ rest" and a: "atoi rest \<noteq> None"
    using assms by (auto simp: Index_def labelPrefix_def cut_prefix_Some_iff split: option.splits)
  define ds where "ds = (if rest \<noteq> [] \<and> (hd rest = CHR ''-'' \<or> hd rest = CHR ''+'') then tl rest else rest)"
  have "list_all is_digit ds"
    using a unfolding atoi_def Let_def ds_def [symmetric] by (auto split: if_splits)
  moreover have "rest = ds \<or> (\<exists>c \<in> {CHR ''-'', CHR ''+''}. rest = c # ds)"
    by (cases rest) (auto simp: ds_def)
  moreover have "CHR '','' \<notin> set ds \<and> CHR '';'' \<notin> set ds"
    using \<open>list_all is_digit ds\<close> digit_not_sep unfolding list_all_iff by blast
  ultimately have "CHR '','' \<notin> set rest \<and> CHR '';'' \<notin> set rest" by auto
  then show ?thesis using l by auto
qed

definition group_ok :: "string list \<Rightarrow> bool" where
  "group_ok g \<longleftrightarrow> 2 \<le> length g \<and> distinct g \<and> (\<forall>l \<in> set g. \<exists>n. Index l = Inr n)"

lemma checkLabels_None_iff:
  "checkLabels i seen ls = None \<longleftrightarrow>
     (\<forall>l \<in> set ls. \<exists>n. Index l = Inr n) \<and> distinct ls \<and> set ls \<inter> set seen = {}"
  by (induction ls arbitrary: seen) (auto split: sum.splits)

lemma groupParts_Inr_iff:
  "groupParts i gs = Inr ps \<longleftrightarrow> list_all group_ok gs \<and> ps = map (join '','') gs"
proof (induction gs arbitrary: i ps)
  case (Cons g gs)
  have "groupParts i (g # gs) = Inr ps \<longleftrightarrow>
      group_ok g \<and> (\<exists>qs. groupParts (i + 1) gs = Inr qs \<and> ps = join '','' g # qs)"
    using checkLabels_None_iff [of i "[]" g]
    by (auto simp: group_ok_def split: option.splits sum.splits)
  then show ?case using Cons by auto
qed auto

lemma GroupsPeering_Inr_iff:
  "GroupsPeering gs = Inr p \<longleftrightarrow>
     gs \<noteq> [] \<and> list_all group_ok gs \<and> p = groupsPrefix @ join '';'' (map (join '','') gs)"
proof (cases "groupParts 0 gs")
  case (Inl e)
  then have "\<not> list_all group_ok gs" using groupParts_Inr_iff [of 0 gs "map (join '','') gs"] by auto
  then show ?thesis using Inl by (simp add: GroupsPeering_def)
next
  case (Inr ps)
  then have "list_all group_ok gs" "ps = map (join '','') gs" using groupParts_Inr_iff [of 0 gs ps] by simp_all
  then show ?thesis using Inr by (auto simp: GroupsPeering_def)
qed

lemma groups_GroupsPeering:
  assumes "gs \<noteq> []" "list_all group_ok gs"
  shows "groups (groupsPrefix @ join '';'' (map (join '','') gs)) = Some gs"
proof -
  have lab: "CHR '','' \<notin> set l" "CHR '';'' \<notin> set l" if "g \<in> set gs" "l \<in> set g" for g l
    using assms(2) that Index_label_chars by (fastforce simp: list_all_iff group_ok_def)+
  have "CHR '';'' \<notin> set (join '','' g)" if "g \<in> set gs" for g
    using set_join_subset [of "'',''" g] lab(2) [OF that] by auto
  then have "split_on (CHR '';'') (join '';'' (map (join '','') gs)) = map (join '','') gs"
    using assms(1) by (intro split_on_join) auto
  moreover have "split_on (CHR '','') (join '','' g) = g" if "g \<in> set gs" for g
    using assms(2) lab(1) [OF that] that by (intro split_on_join) (auto simp: list_all_iff group_ok_def)
  ultimately show ?thesis by (simp add: groups_def comp_def map_idI)
qed

interpretation declared_graph: printer_parser "\<lambda>gs. projr (GroupsPeering gs)"
    "\<lambda>p. case groups p of Some gs \<Rightarrow> Inr gs | None \<Rightarrow> Inl (UnknownPeering p)"
    "\<lambda>gs. gs \<noteq> [] \<and> list_all group_ok gs"
proof unfold_locales
  fix gs assume g: "gs \<noteq> [] \<and> list_all group_ok gs"
  then have "GroupsPeering gs = Inr (groupsPrefix @ join '';'' (map (join '','') gs))"
    by (simp add: GroupsPeering_Inr_iff)
  then show "(case groups (projr (GroupsPeering gs)) of Some gs \<Rightarrow> Inr gs
      | None \<Rightarrow> Inl (UnknownPeering (projr (GroupsPeering gs)))) = Inr gs"
    using g groups_GroupsPeering by simp
qed

text \<open>
  A declared peer graph survives being carried as a string: \<open>GroupsPeering\<close> accepts
  exactly the nonempty lists of groups of at least two distinct indexed labels, \<open>groups\<close> and
  \<open>ParsePeering\<close> read the accepted string back as the same graph, and two different graphs never
  have the same string.
\<close>

theorem declared_graph_round_trip:
  "(\<exists>p. GroupsPeering gs = Inr p) = (gs \<noteq> [] \<and> list_all group_ok gs)
     \<and> (GroupsPeering gs = Inr p \<longrightarrow>
          groups p = Some gs \<and> ParsePeering p = Inr p
          \<and> (\<forall>hs. GroupsPeering hs = Inr p \<longrightarrow> hs = gs))"
proof (intro conjI impI)
  show "(\<exists>p. GroupsPeering gs = Inr p) = (gs \<noteq> [] \<and> list_all group_ok gs)"
    by (simp add: GroupsPeering_Inr_iff)
  assume p: "GroupsPeering gs = Inr p"
  then have ok: "gs \<noteq> [] \<and> list_all group_ok gs" "p = groupsPrefix @ join '';'' (map (join '','') gs)"
    by (simp_all add: GroupsPeering_Inr_iff)
  then show g: "groups p = Some gs" using groups_GroupsPeering by simp
  have "p \<noteq> ''''" "p \<noteq> Mesh" "p \<noteq> Proxied"
    using ok(2) by (auto simp: groupsPrefix_def Mesh_def Proxied_def)
  then show "ParsePeering p = Inr p" using g p by (simp add: ParsePeering_def)
  show "\<forall>hs. GroupsPeering hs = Inr p \<longrightarrow> hs = gs"
  proof (intro allI impI)
    fix hs assume h: "GroupsPeering hs = Inr p"
    then have "hs \<noteq> [] \<and> list_all group_ok hs" by (simp add: GroupsPeering_Inr_iff)
    then show "hs = gs" using declared_graph.printed_inj ok(1) h p by simp
  qed
qed

theorem declared_graph_round_trip_witness:
  "GroupsPeering [[''node1'', ''node2''], [''node2'', ''node3'']] = Inr ''groups:node1,node2;node2,node3''
     \<and> groups ''groups:node1,node2;node2,node3'' = Some [[''node1'', ''node2''], [''node2'', ''node3'']]"
proof -
  have g: "GroupsPeering [[''node1'', ''node2''], [''node2'', ''node3'']] = Inr ''groups:node1,node2;node2,node3''"
    by code_simp
  then show ?thesis using declared_graph_round_trip by blast
qed

end
