(* ===== verification/Node_Graph.thy ===== *)
theory Node_Graph
  imports Node_Peering
begin

text \<open>
  What the peer graphs guarantee: connections are listed by both ends, proxied peering keeps the
  endpoints away from the producers, and a declared graph passes validation exactly when the
  producers can reach each other through producers.
\<close>

section \<open>Peer lists\<close>

lemma neighbours_iff:
  "b \<in> set (neighbours p a) \<longleftrightarrow> a \<noteq> b \<and> (\<exists>gs. groups p = Some gs \<and> (\<exists>g \<in> set gs. a \<in> set g \<and> b \<in> set g))"
  by (cases "groups p") (auto simp: neighbours_def split: if_splits)

lemma distinct_neighbours: "distinct (neighbours p a)"
  by (simp add: neighbours_def split: option.splits)

text \<open>Whether one placed node lists another, for the graph \<open>p\<close>.\<close>

definition lists :: "Peering \<Rightarrow> Placement \<Rightarrow> Placement \<Rightarrow> bool" where
  "lists p a b \<longleftrightarrow>
     (if p = Mesh then True
      else if groups p \<noteq> None then pl_label b \<in> set (neighbours p (pl_label a))
      else pl_label b \<noteq> pl_label a \<and> (case proxiedWants (pl_role a) of None \<Rightarrow> False | Some f \<Rightarrow> f (pl_role b)))"

lemma Peers_Inr:
  assumes m: "NewMap ps = Inr m" and a: "a \<in> set ps" and r: "Peers p (Some m) (pl_label a) = Inr xs"
  shows "xs = map pl_label (filter (lists p a) ps)"
    and "p = Mesh \<or> groups p \<noteq> None \<or> proxiedWants (pl_role a) \<noteq> None"
proof -
  have "Lookup m (pl_label a) = Some a" using NewMap_Lookup [OF m] a by blast
  then show "xs = map pl_label (filter (lists p a) ps)"
    "p = Mesh \<or> groups p \<noteq> None \<or> proxiedWants (pl_role a) \<noteq> None"
    using r NewMap_Placements [OF m]
    by (auto simp: Peers_def lists_def [abs_def] split: if_splits option.splits)
qed

lemma listed_iff:
  assumes m: "NewMap ps = Inr m" and ab: "a \<in> set ps" "b \<in> set ps"
    and r: "Peers p (Some m) (pl_label a) = Inr xs"
  shows "pl_label b \<in> set xs \<longleftrightarrow> lists p a b"
proof -
  have "inj_on pl_label (set ps)"
    using NewMap_D(1) [OF m] by (simp add: distinct_places_def distinct_map)
  then show ?thesis unfolding Peers_Inr(1) [OF m ab(1) r] using ab by (auto dest: inj_onD)
qed

lemma lists_sym:
  assumes "p = Mesh \<or> groups p \<noteq> None \<or> (proxiedWants (pl_role a) \<noteq> None \<and> proxiedWants (pl_role b) \<noteq> None)"
  shows "lists p a b \<longleftrightarrow> lists p b a"
  using assms by (auto simp: lists_def neighbours_iff proxiedWants_def split: if_splits)

text \<open>
  In every peer graph both ends of a connection list each other: for two nodes of one
  network, whatever the peering, the second is in the first's peer list exactly when the first is in
  the second's.
\<close>

theorem peer_lists_are_symmetric:
  assumes "NewMap ps = Inr m" "a \<in> set ps" "b \<in> set ps"
    and "Peers p (Some m) (pl_label a) = Inr xs" "Peers p (Some m) (pl_label b) = Inr ys"
  shows "pl_label b \<in> set xs \<longleftrightarrow> pl_label a \<in> set ys"
proof -
  have "lists p a b \<longleftrightarrow> lists p b a"
    using Peers_Inr(2) [OF assms(1,2,4)] Peers_Inr(2) [OF assms(1,3,5)] by (intro lists_sym) blast
  then show ?thesis
    using listed_iff [OF assms(1,2,3,4)] listed_iff [OF assms(1,3,2,5)] by simp
qed

text \<open>
  Proxied peering does what it is for: an endpoint lists the proxies and nothing else,
  so no endpoint learns a producer; a producer lists every other producer and every proxy; and no
  producer lists an endpoint.
\<close>

theorem proxied_keeps_endpoints_from_producers:
  assumes "NewMap ps = Inr m" "a \<in> set ps" "b \<in> set ps" "a \<noteq> b"
    and "Peers Proxied (Some m) (pl_label a) = Inr xs"
  shows "(pl_role a = RoleEN \<longrightarrow> (pl_label b \<in> set xs \<longleftrightarrow> pl_role b = RolePN))
     \<and> (pl_role a = RoleBP \<longrightarrow> (pl_label b \<in> set xs \<longleftrightarrow> pl_role b = RoleBP \<or> pl_role b = RolePN))
     \<and> (pl_role a = RolePN \<longrightarrow> pl_label b \<in> set xs)"
proof -
  have "pl_label a \<noteq> pl_label b"
    using NewMap_D(1) [OF assms(1)] assms(2-4)
    by (auto simp: distinct_places_def distinct_map dest: inj_onD)
  moreover have "Proxied \<noteq> Mesh" "groups Proxied = None"
    by (simp_all add: Proxied_def Mesh_def groups_def cut_prefix_def groupsPrefix_def)
  ultimately show ?thesis
    unfolding listed_iff [OF assms(1,2,3,5)] by (auto simp: lists_def proxiedWants_def)
qed

section \<open>Producers reach each other\<close>

definition producers :: "Map \<Rightarrow> Label list" where
  "producers m = map pl_label (filter (\<lambda>pl. Is_role (pl_role pl) RoleBP) (Placements m))"

definition link :: "(Label \<Rightarrow> Label list) \<Rightarrow> Label list \<Rightarrow> Label \<Rightarrow> Label \<Rightarrow> bool" where
  "link nb bps a b \<longleftrightarrow> b \<in> set (nb a) \<and> b \<in> set bps"

declare bfs.simps [simp del]

lemma bfs_Cons: "bfs nb bps reached (cur # queue) =
    bfs nb bps (reached @ filter (\<lambda>n. n \<in> set bps \<and> n \<notin> set reached) (nb cur))
      (queue @ filter (\<lambda>n. n \<in> set bps \<and> n \<notin> set reached) (nb cur))"
  by (simp add: bfs.simps(2) Let_def)

lemma bfs_sound:
  assumes "\<forall>x \<in> set reached. (link nb bps)\<^sup>*\<^sup>* s x" "set queue \<subseteq> set reached"
  shows "\<forall>x \<in> set (bfs nb bps reached queue). (link nb bps)\<^sup>*\<^sup>* s x"
  using assms
proof (induction nb bps reached queue rule: bfs.induct)
  case (2 nb bps reached cur queue)
  let ?new = "filter (\<lambda>n. n \<in> set bps \<and> n \<notin> set reached) (nb cur)"
  have "(link nb bps)\<^sup>*\<^sup>* s x" if "x \<in> set ?new" for x
  proof (rule rtranclp.rtrancl_into_rtrancl)
    show "(link nb bps)\<^sup>*\<^sup>* s cur" using 2(2,3) by simp
    show "link nb bps cur x" using that by (simp add: link_def)
  qed
  then have "\<forall>x \<in> set (reached @ ?new). (link nb bps)\<^sup>*\<^sup>* s x" using 2(2) by auto
  moreover have "set (queue @ ?new) \<subseteq> set (reached @ ?new)" using 2(3) by auto
  ultimately show ?case unfolding bfs_Cons by (rule 2(1) [OF refl])
qed (simp add: bfs.simps(1))

lemma bfs_closed:
  assumes "\<forall>x \<in> set reached - set queue. \<forall>y. link nb bps x y \<longrightarrow> y \<in> set reached"
  shows "set reached \<subseteq> set (bfs nb bps reached queue)
     \<and> (\<forall>x \<in> set (bfs nb bps reached queue). \<forall>y. link nb bps x y \<longrightarrow> y \<in> set (bfs nb bps reached queue))"
  using assms
proof (induction nb bps reached queue rule: bfs.induct)
  case (2 nb bps reached cur queue)
  let ?new = "filter (\<lambda>n. n \<in> set bps \<and> n \<notin> set reached) (nb cur)"
  have "\<forall>x \<in> set (reached @ ?new) - set (queue @ ?new). \<forall>y. link nb bps x y \<longrightarrow> y \<in> set (reached @ ?new)"
  proof (intro ballI allI impI)
    fix x y assume x: "x \<in> set (reached @ ?new) - set (queue @ ?new)" and l: "link nb bps x y"
    then have "x \<in> set reached" "x \<notin> set queue" by auto
    show "y \<in> set (reached @ ?new)"
    proof (cases "x = cur")
      case True
      then show ?thesis using l by (simp add: link_def)
    next
      case False
      then have "x \<in> set reached - set (cur # queue)" using \<open>x \<in> set reached\<close> \<open>x \<notin> set queue\<close> by simp
      then have "y \<in> set reached" using 2(2) l by blast
      then show ?thesis by simp
    qed
  qed
  from 2(1) [OF refl this] show ?case unfolding bfs_Cons by simp
qed (simp add: bfs.simps(1))

lemma bfs_reaches: "set (bfs nb bps [s] [s]) = {x. (link nb bps)\<^sup>*\<^sup>* s x}"
proof
  show "set (bfs nb bps [s] [s]) \<subseteq> {x. (link nb bps)\<^sup>*\<^sup>* s x}"
    using bfs_sound [of "[s]" nb bps s "[s]"] by auto
  have c: "s \<in> set (bfs nb bps [s] [s])"
    "\<forall>x \<in> set (bfs nb bps [s] [s]). \<forall>y. link nb bps x y \<longrightarrow> y \<in> set (bfs nb bps [s] [s])"
    using bfs_closed [of "[s]" "[s]" nb bps] by auto
  have "x \<in> set (bfs nb bps [s] [s])" if "(link nb bps)\<^sup>*\<^sup>* s x" for x
    using that by (induction rule: rtranclp_induct) (use c in auto)
  then show "{x. (link nb bps)\<^sup>*\<^sup>* s x} \<subseteq> set (bfs nb bps [s] [s])" by blast
qed

lemma foreignLabel_None_iff: "foreignLabel m i gs = None \<longleftrightarrow> (\<forall>g \<in> set gs. \<forall>l \<in> set g. Lookup m l \<noteq> None)"
  by (induction gs arbitrary: i) (auto simp: find_None_iff find_Some_iff split: option.splits)

text \<open>Two producers share a group.\<close>

definition direct :: "Peering \<Rightarrow> Map \<Rightarrow> Label \<Rightarrow> Label \<Rightarrow> bool" where
  "direct p m a b \<longleftrightarrow> a \<in> set (producers m) \<and> b \<in> set (producers m) \<and> b \<in> set (neighbours p a)"

lemma direct_sym: "direct p m a b \<Longrightarrow> direct p m b a"
  by (auto simp: direct_def neighbours_iff)

lemma direct_rtrancl_sym: "(direct p m)\<^sup>*\<^sup>* a b \<Longrightarrow> (direct p m)\<^sup>*\<^sup>* b a"
  by (induction rule: rtranclp_induct) (auto intro: converse_rtranclp_into_rtranclp direct_sym)

lemma link_rtrancl_direct:
  assumes "a \<in> set (producers m)"
  shows "(link (neighbours p) (producers m))\<^sup>*\<^sup>* a b \<longleftrightarrow> (direct p m)\<^sup>*\<^sup>* a b"
proof
  assume "(link (neighbours p) (producers m))\<^sup>*\<^sup>* a b"
  then have "(direct p m)\<^sup>*\<^sup>* a b \<and> b \<in> set (producers m)"
  proof (induction rule: rtranclp_induct)
    case (step y z)
    then have "direct p m y z" by (auto simp: link_def direct_def)
    then show ?case using step by (auto simp: link_def)
  qed (use assms in simp)
  then show "(direct p m)\<^sup>*\<^sup>* a b" by blast
next
  assume "(direct p m)\<^sup>*\<^sup>* a b"
  then show "(link (neighbours p) (producers m))\<^sup>*\<^sup>* a b"
    by (rule rtranclp_mono [THEN predicate2D, rotated]) (auto simp: link_def direct_def)
qed

lemma all_from_one:
  assumes "bs \<noteq> []" and sym: "\<And>a b. R a b \<Longrightarrow> R b a" and trans: "\<And>a b c. R a b \<Longrightarrow> R b c \<Longrightarrow> R a c"
  shows "(\<forall>b \<in> set bs. R (hd bs) b) \<longleftrightarrow> (\<forall>a \<in> set bs. \<forall>b \<in> set bs. R a b)"
  using assms(1) sym trans hd_in_set [OF assms(1)] by blast

lemma find_None_ball: "find P xs = None \<longleftrightarrow> (\<forall>x \<in> set xs. \<not> P x)"
  by (auto simp: find_None_iff)

lemma case_find_None:
  "(case find P xs of Some x \<Rightarrow> Some (f x) | None \<Rightarrow> None) = None \<longleftrightarrow> (\<forall>x \<in> set xs. \<not> P x)"
  using find_None_ball [of P xs] by (cases "find P xs") auto

text \<open>
  Property C30. A declared graph is accepted exactly when it can run: every label it names is a node
  of the network, every node is in some group, and any two producers are joined by a path of
  producers that share groups pairwise. The search decides the last condition, and it always ends.
\<close>

theorem groups_accepted_iff_producers_connected:
  assumes "groups p = Some gs"
  shows "validateGroups p m = None \<longleftrightarrow>
     (\<forall>g \<in> set gs. \<forall>l \<in> set g. Lookup m l \<noteq> None)
     \<and> (\<forall>pl \<in> set (Placements m). \<exists>g \<in> set gs. pl_label pl \<in> set g)
     \<and> (\<forall>a \<in> set (producers m). \<forall>b \<in> set (producers m). (direct p m)\<^sup>*\<^sup>* a b)"
proof -
  let ?bs = "producers m"
  have conn: "(if length ?bs < 2 then None else
        case find (\<lambda>l. l \<notin> set (bfs (neighbours p) ?bs [hd ?bs] [hd ?bs])) ?bs of
          Some l \<Rightarrow> Some (ProducerUnreachable l (hd ?bs)) | None \<Rightarrow> None) = None
      \<longleftrightarrow> (\<forall>a \<in> set ?bs. \<forall>b \<in> set ?bs. (direct p m)\<^sup>*\<^sup>* a b)" (is "?L = None \<longleftrightarrow> ?R")
  proof (cases "length ?bs < 2")
    case True
    then have "\<forall>a \<in> set ?bs. \<forall>b \<in> set ?bs. a = b" by (cases ?bs) (auto simp: less_Suc_eq)
    then show ?thesis using True by auto
  next
    case False
    then have ne: "?bs \<noteq> []" by auto
    then have "?L = None \<longleftrightarrow> (\<forall>b \<in> set ?bs. (direct p m)\<^sup>*\<^sup>* (hd ?bs) b)"
      using False link_rtrancl_direct [OF hd_in_set [OF ne]]
      by (simp add: bfs_reaches case_find_None)
    also have "\<dots> \<longleftrightarrow> ?R"
      using ne direct_rtrancl_sym rtranclp_trans by (rule all_from_one)
    finally show ?thesis .
  qed
  have "validateGroups p m = None \<longleftrightarrow> foreignLabel m 0 gs = None
      \<and> find (\<lambda>pl. \<not> list_ex (\<lambda>g. pl_label pl \<in> set g) gs) (Placements m) = None \<and> ?L = None"
    using assms by (simp add: validateGroups_def Let_def producers_def split: option.splits)
  then show ?thesis
    unfolding conn foreignLabel_None_iff find_None_ball by (simp add: list_ex_iff)
qed

section \<open>A small network\<close>

definition tierPlacement :: "int \<Rightarrow> Role \<Rightarrow> Placement" where
  "tierPlacement i r = \<lparr>pl_index = i, pl_label = LabelFor i, pl_role = r, pl_ord = 1, pl_host = ''h'',
     pl_ports = \<lparr>P2P = i, Etcd = 0, EtcdClient = 0, HTTP = 0, WS = 0, Auth = 0, Metrics = 0\<rparr>, pl_dataDir = ''''\<rparr>"

definition tierNodes :: "Placement list" where
  "tierNodes = [tierPlacement 1 RoleBP, tierPlacement 2 RoleBP, tierPlacement 3 RolePN, tierPlacement 4 RoleEN]"

definition tierMap :: Map where
  "tierMap = projr (NewMap tierNodes)"

lemma tier_map: "NewMap tierNodes = Inr tierMap"
proof -
  have "\<not> isl (NewMap tierNodes)" by code_simp
  then show ?thesis by (simp add: tierMap_def)
qed

lemma tier_labels: "pl_label (tierPlacement 1 RoleBP) = ''node1''" "pl_label (tierPlacement 4 RoleEN) = ''node4''"
  by code_simp+

lemma tier_members: "tierPlacement 1 RoleBP \<in> set tierNodes" "tierPlacement 4 RoleEN \<in> set tierNodes"
  "tierPlacement 4 RoleEN \<noteq> tierPlacement 1 RoleBP" "pl_role (tierPlacement 4 RoleEN) = RoleEN"
  "pl_role (tierPlacement 1 RoleBP) = RoleBP"
  by (simp_all add: tierNodes_def tierPlacement_def)

lemma tier_peers: "Peers Proxied (Some tierMap) ''node1'' = Inr [''node2'', ''node3'']"
  "Peers Proxied (Some tierMap) ''node4'' = Inr [''node3'']"
  by code_simp+

theorem peer_lists_are_symmetric_witness:
  "''node1'' \<in> set [''node3''] \<longleftrightarrow> ''node4'' \<in> set [''node2'', ''node3'']"
  using peer_lists_are_symmetric [OF tier_map tier_members(2,1), unfolded tier_labels, OF tier_peers(2,1)] .

theorem proxied_keeps_endpoints_from_producers_witness:
  "\<not> ''node1'' \<in> set [''node3'']"
  using proxied_keeps_endpoints_from_producers [OF tier_map tier_members(2,1,3), unfolded tier_labels,
      OF tier_peers(2)] tier_members(4,5) by simp

theorem groups_accepted_iff_producers_connected_witness:
  "validateGroups ''groups:node1,node2,node3;node3,node4'' tierMap = None
     \<and> (direct ''groups:node1,node2,node3;node3,node4'' tierMap)\<^sup>*\<^sup>* ''node1'' ''node2''"
proof -
  let ?p = "''groups:node1,node2,node3;node3,node4''"
  have g: "groups ?p = Some [[''node1'', ''node2'', ''node3''], [''node3'', ''node4'']]" by code_simp
  have v: "validateGroups ?p tierMap = None" by code_simp
  have "producers tierMap = [''node1'', ''node2'']" by code_simp
  then show ?thesis using v groups_accepted_iff_producers_connected [OF g, of tierMap] by simp
qed

end
