(* ===== verification/Node_Topology.thy ===== *)
theory Node_Topology
  imports Node_Vocab
begin

text \<open>
  The declared node table (\<open>internal/core/node/topology.go\<close>) and its validation, with what \<open>Validate\<close>
  accepts and what a consumer of an accepted table relies on. Reading the YAML file is outside the
  model: \<open>Load\<close> is \<open>Validate\<close> after it.
\<close>

section \<open>Topology\<close>

record Entry =
  e_index :: int
  e_role :: string
  e_syncMode :: string
  e_bootnode :: bool
  e_binary :: string
  e_config :: string
  e_key :: string

record Topology =
  t_chain :: string
  t_network :: string
  t_nodes :: "Entry list"

datatype topologyError =
    TopoNoChain
  | TopoNoNodes
  | TopoUnknownRole int string
  | TopoUnknownSyncMode int string
  | TopoNoProducer
  | TopoBootnodes nat
  | TopoIndices "int list"

definition validSyncModes :: "string list" where
  "validSyncModes = ['''', ''full'', ''snap'', ''archive'']"

text \<open>The loop of \<open>Validate\<close>: the producers and bootnodes counted and the indexes appended so far.\<close>

fun scanNodes ::
  "nat \<Rightarrow> nat \<Rightarrow> int list \<Rightarrow> Entry list \<Rightarrow> topologyError + nat \<times> nat \<times> int list"
where
  "scanNodes producers bootnodes idx [] = Inr (producers, bootnodes, idx)"
| "scanNodes producers bootnodes idx (n # ns) =
     (case NormalizeRole (e_role n) of
        Inl e \<Rightarrow> Inl (TopoUnknownRole (e_index n) (e_role n))
      | Inr role \<Rightarrow>
          if e_syncMode n \<notin> set validSyncModes then Inl (TopoUnknownSyncMode (e_index n) (e_syncMode n))
          else scanNodes
                 (if role = RoleBP then producers + 1 else producers)
                 (if e_bootnode n then bootnodes + 1 else bootnodes)
                 (idx @ [e_index n]) ns)"

definition Validate :: "Topology \<Rightarrow> topologyError option" where
  "Validate t =
     (if t_chain t = '''' then Some TopoNoChain
      else if length (t_nodes t) = 0 then Some TopoNoNodes
      else case scanNodes 0 0 [] (t_nodes t) of
        Inl e \<Rightarrow> Some e
      | Inr (producers, bootnodes, idx) \<Rightarrow>
          if producers = 0 then Some TopoNoProducer
          else if bootnodes > 1 then Some (TopoBootnodes bootnodes)
          else (let sorted_idx = sort idx
                in if list_ex (\<lambda>i. sorted_idx ! i \<noteq> int i + 1) [0..<length sorted_idx]
                   then Some (TopoIndices sorted_idx) else None))"

definition NodeRole :: "Entry \<Rightarrow> Role" where
  "NodeRole n = (case NormalizeRole (e_role n) of Inl e \<Rightarrow> '''' | Inr role \<Rightarrow> role)"

definition EffectiveSyncMode :: "Entry \<Rightarrow> string" where
  "EffectiveSyncMode n = (if e_syncMode n = '''' then ''full'' else e_syncMode n)"

text \<open>\<open>sort.Slice\<close> on the indexes; on the distinct indexes of a valid topology the order is unique.\<close>

definition Sorted :: "Topology \<Rightarrow> Entry list" where
  "Sorted t = sort_key e_index (t_nodes t)"

definition BootnodeIndex :: "Topology \<Rightarrow> int" where
  "BootnodeIndex t = (case find e_bootnode (t_nodes t) of Some n \<Rightarrow> e_index n | None \<Rightarrow> 0)"

definition Counts :: "Topology \<Rightarrow> nat \<times> nat" where
  "Counts t =
     foldl (\<lambda>(producers, ends) n.
        if Is_role (NodeRole n) RoleBP then (producers + 1, ends)
        else if Is_role (NodeRole n) RoleEN then (producers, ends + 1)
        else (producers, ends)) (0, 0) (t_nodes t)"

section \<open>What Validate accepts\<close>

definition entry_ok :: "Entry \<Rightarrow> bool" where
  "entry_ok n \<longleftrightarrow> in_vocabulary (e_role n) \<and> e_syncMode n \<in> set validSyncModes"

definition is_producer :: "Entry \<Rightarrow> bool" where
  "is_producer n \<longleftrightarrow> e_role n = RoleBP"

lemma scanNodes_Inr_iff:
  "scanNodes p b idx ns = Inr r \<longleftrightarrow>
     list_all entry_ok ns
     \<and> r = (p + length (filter is_producer ns), b + length (filter e_bootnode ns), idx @ map e_index ns)"
proof (induction ns arbitrary: p b idx)
  case (Cons n ns)
  then show ?case
    by (auto simp: entry_ok_def is_producer_def NormalizeRole_def in_vocabulary_def split: sum.splits)
qed auto

lemma sorted_indices_iff:
  "(\<forall>i < length xs. sort xs ! i = int i + 1) \<longleftrightarrow> distinct xs \<and> set xs = {1..int (length xs)}"
    (is "?L \<longleftrightarrow> ?R")
proof
  assume l: ?L
  have "sort xs = map (\<lambda>i. int i + 1) [0..<length xs]"
    using l by (intro nth_equalityI) simp_all
  moreover have "distinct (map (\<lambda>i. int i + 1) [0..<length xs])"
    by (simp add: distinct_map inj_on_def)
  moreover have "set (map (\<lambda>i. int i + 1) [0..<length xs]) = {1..int (length xs)}"
  proof -
    have "x \<in> (\<lambda>i. int i + 1) ` {0..<length xs}" if "1 \<le> x" "x \<le> int (length xs)" for x
      using that by (intro image_eqI [of _ _ "nat (x - 1)"]) auto
    then show ?thesis by auto
  qed
  ultimately show ?R by (metis distinct_sort set_sort)
next
  assume r: ?R
  have "sort xs = [1..int (length xs)]"
    using r by (intro sorted_distinct_set_unique) simp_all
  then show ?L by simp
qed

lemma Validate_None_iff:
  "Validate t = None \<longleftrightarrow>
     t_chain t \<noteq> '''' \<and> t_nodes t \<noteq> [] \<and> list_all entry_ok (t_nodes t)
     \<and> (\<exists>n \<in> set (t_nodes t). is_producer n)
     \<and> length (filter e_bootnode (t_nodes t)) \<le> 1
     \<and> distinct (map e_index (t_nodes t))
     \<and> set (map e_index (t_nodes t)) = {1..int (length (t_nodes t))}"
proof -
  let ?idx = "map e_index (t_nodes t)"
  have idx: "list_ex (\<lambda>i. sort ?idx ! i \<noteq> int i + 1) [0..<length (sort ?idx)]
      \<longleftrightarrow> \<not> (distinct ?idx \<and> set ?idx = {1..int (length (t_nodes t))})"
    using sorted_indices_iff [of ?idx] by (auto simp: list_ex_iff)
  show ?thesis
  proof (cases "scanNodes 0 0 [] (t_nodes t)")
    case (Inl e)
    then have "\<not> list_all entry_ok (t_nodes t)"
      using scanNodes_Inr_iff [of 0 0 "[]" "t_nodes t"] by (metis sum.distinct(1))
    then show ?thesis using Inl by (simp add: Validate_def)
  next
    case (Inr r)
    then have "list_all entry_ok (t_nodes t)"
      "r = (length (filter is_producer (t_nodes t)), length (filter e_bootnode (t_nodes t)), ?idx)"
      using scanNodes_Inr_iff [of 0 0 "[]" "t_nodes t" r] by simp_all
    then show ?thesis
      using Inr idx by (auto simp: Validate_def Let_def filter_empty_conv not_le)
  qed
qed

text \<open>
  \<open>Validate\<close> accepts exactly the consistent topologies: a chain, at least one node,
  every role and sync mode in the vocabulary, a producer, at most one bootnode, and node indexes that
  are 1 to N, each once.
\<close>

theorem topology_valid_iff:
  "Validate t = None \<longleftrightarrow>
     t_chain t \<noteq> '''' \<and> t_nodes t \<noteq> []
     \<and> (\<forall>n \<in> set (t_nodes t). in_vocabulary (e_role n) \<and> e_syncMode n \<in> {'''', ''full'', ''snap'', ''archive''})
     \<and> (\<exists>n \<in> set (t_nodes t). e_role n = RoleBP)
     \<and> length (filter e_bootnode (t_nodes t)) \<le> 1
     \<and> distinct (map e_index (t_nodes t))
     \<and> set (map e_index (t_nodes t)) = {1..int (length (t_nodes t))}"
  unfolding Validate_None_iff by (auto simp: list_all_iff entry_ok_def is_producer_def validSyncModes_def)

lemma Counts_fold:
  "foldl (\<lambda>(producers, ends) n.
        if Is_role (NodeRole n) RoleBP then (producers + 1, ends)
        else if Is_role (NodeRole n) RoleEN then (producers, ends + 1)
        else (producers, ends)) (p, q) ns
   = (p + length (filter (\<lambda>n. NodeRole n = RoleBP) ns), q + length (filter (\<lambda>n. NodeRole n = RoleEN) ns))"
  by (induction ns arbitrary: p q) auto

lemma NodeRole_BP: "NodeRole n = RoleBP \<longleftrightarrow> is_producer n"
  by (auto simp: NodeRole_def is_producer_def NormalizeRole_def role_defs split: sum.splits)

text \<open>
  What a consumer of a valid topology relies on: sorted, its nodes are numbered 1 to N
  in order; it has a producer; the bootnode index is 0 or the index of the one node marked as the
  bootnode; and every node has a role of the vocabulary and a sync mode.
\<close>

theorem valid_topology_is_usable:
  assumes "Validate t = None"
  shows "map e_index (Sorted t) = [1..int (length (t_nodes t))]
     \<and> 1 \<le> fst (Counts t)
     \<and> (BootnodeIndex t = 0 \<longleftrightarrow> filter e_bootnode (t_nodes t) = [])
     \<and> (\<forall>n. filter e_bootnode (t_nodes t) = [n] \<longrightarrow> BootnodeIndex t = e_index n)
     \<and> (\<forall>n \<in> set (t_nodes t). in_vocabulary (NodeRole n) \<and> EffectiveSyncMode n \<noteq> '''')"
proof -
  note v = assms [unfolded Validate_None_iff]
  have srt: "map e_index (Sorted t) = [1..int (length (t_nodes t))]"
    using v by (intro sorted_distinct_set_unique) (simp_all add: Sorted_def distinct_map)
  have pos: "e_index n \<ge> 1" if "n \<in> set (t_nodes t)" for n
  proof -
    have "e_index n \<in> set (map e_index (t_nodes t))" using that by simp
    then show ?thesis using v by (metis atLeastAtMost_iff)
  qed
  have "fst (Counts t) = length (filter is_producer (t_nodes t))"
    unfolding Counts_def Counts_fold by (simp add: NodeRole_BP)
  then have "1 \<le> fst (Counts t)"
    using v by (metis (no_types, lifting) One_nat_def Suc_leI empty_filter_conv length_greater_0_conv)
  moreover have "BootnodeIndex t = 0 \<longleftrightarrow> filter e_bootnode (t_nodes t) = []"
  proof (cases "find e_bootnode (t_nodes t)")
    case None
    then have "filter e_bootnode (t_nodes t) = []" by (auto simp: find_None_iff filter_empty_conv)
    then show ?thesis using None by (simp add: BootnodeIndex_def)
  next
    case (Some n)
    then have "n \<in> set (t_nodes t)" "e_bootnode n" by (auto simp: find_Some_iff)
    then show ?thesis using Some pos [of n] by (auto simp: BootnodeIndex_def filter_empty_conv)
  qed
  moreover have "BootnodeIndex t = e_index n" if "filter e_bootnode (t_nodes t) = [n]" for n
  proof -
    have "n \<in> set (filter e_bootnode (t_nodes t))" using that by simp
    then have "find e_bootnode (t_nodes t) \<noteq> None" by (auto simp: find_None_iff)
    then obtain n' where "find e_bootnode (t_nodes t) = Some n'" by blast
    moreover from this have "n' \<in> set (filter e_bootnode (t_nodes t))" by (auto simp: find_Some_iff)
    ultimately show ?thesis using that by (simp add: BootnodeIndex_def)
  qed
  moreover have "in_vocabulary (NodeRole n) \<and> EffectiveSyncMode n \<noteq> ''''" if "n \<in> set (t_nodes t)" for n
    using v that by (auto simp: list_all_iff entry_ok_def NodeRole_def NormalizeRole_def in_vocabulary_def
        EffectiveSyncMode_def)
  ultimately show ?thesis using srt by blast
qed

definition sampleTopology :: Topology where
  "sampleTopology = \<lparr>t_chain = ''stablenet'', t_network = '''', t_nodes =
     [\<lparr>e_index = 2, e_role = ''en'', e_syncMode = '''', e_bootnode = False, e_binary = '''', e_config = '''', e_key = ''''\<rparr>,
      \<lparr>e_index = 1, e_role = ''bp'', e_syncMode = ''full'', e_bootnode = True, e_binary = '''', e_config = '''', e_key = ''''\<rparr>]\<rparr>"

theorem valid_topology_is_usable_witness:
  "Validate sampleTopology = None \<and> map e_index (Sorted sampleTopology) = [1, 2]"
proof -
  have v: "Validate sampleTopology = None" by code_simp
  have "[1..int (length (t_nodes sampleTopology))] = [1, 2]" by code_simp
  then show ?thesis using v valid_topology_is_usable [OF v] by simp
qed

theorem topology_valid_iff_witness:
  "Validate sampleTopology = None \<and> distinct (map e_index (t_nodes sampleTopology))
     \<and> \<not> Validate (sampleTopology\<lparr>t_nodes := []\<rparr>) = None"
proof -
  have "Validate sampleTopology = None" by code_simp
  then show ?thesis
    using topology_valid_iff [of sampleTopology] topology_valid_iff [of "sampleTopology\<lparr>t_nodes := []\<rparr>"] by simp
qed

end
