(* ===== verification/Resource_Ports.thy ===== *)
theory Resource_Ports
  imports Node_Placement
begin

text \<open>
  Port arithmetic (\<open>internal/resource/ports.go\<close>) and the pool a network is allocated from
  (\<open>internal/resource/pool.go\<close>, validation). Ports are unbounded integers here;
  \<open>planned_ports_are_in_range\<close> shows that every value the plan computes is a port number, so the
  source's 64-bit arithmetic never wraps. Where the source ranges over a Go map of bands, the error
  does not say which band it met first.
\<close>

section \<open>Bands and plans\<close>

definition MaxListenPort :: int where "MaxListenPort = 65535"

record Band =
  Base :: int
  Step :: int

record Bands =
  bP2P :: Band
  bRPC :: Band
  bWS :: "Band option"
  bAuth :: "Band option"
  bMetrics :: "Band option"

datatype portError =
    BadIndex int
  | P2PStepTooSmall int int
  | RPCStepTooSmall int int
  | RPCStepZero int
  | BandOutOfRange int
  | WSStep int
  | AuthStep int
  | MetricsStep int
  | DerivedOutOfRange int
  | ClaimOutOfRange string int
  | PortUsedTwice int string string

text \<open>The condition the loop over the bands refuses.\<close>

definition bandOutOfRange :: "int \<Rightarrow> Band \<Rightarrow> bool" where
  "bandOutOfRange index band \<longleftrightarrow>
     Base band < 1 \<or> Base band > MaxListenPort \<or> Step band < 0
     \<or> (Step band > 0 \<and> index - 1 > (MaxListenPort - Base band) div Step band)"

definition bandAt :: "int \<Rightarrow> Band \<Rightarrow> int" where
  "bandAt index band = Base band + (index - 1) * Step band"

definition PlanBands :: "int \<Rightarrow> Bands \<Rightarrow> Reservation \<Rightarrow> portError + Endpoints" where
  "PlanBands index b res0 =
     (if index < 1 then Inl (BadIndex index)
      else
        let res = WithDefaults res0;
            derived = (bWS b = None \<or> bAuth b = None)
        in if Step (bP2P b) < P2PSpan res then Inl (P2PStepTooSmall (P2PSpan res) (Step (bP2P b)))
           else if derived \<and> Step (bRPC b) < RPCSpan res then Inl (RPCStepTooSmall (RPCSpan res) (Step (bRPC b)))
           else if \<not> derived \<and> Step (bRPC b) < 1 then Inl (RPCStepZero (Step (bRPC b)))
           else if list_ex (\<lambda>bo. case bo of None \<Rightarrow> False | Some band \<Rightarrow> bandOutOfRange index band)
                     [Some (bP2P b), Some (bRPC b), bWS b, bAuth b, bMetrics b]
             then Inl (BandOutOfRange index)
           else
             let p2p = bandAt index (bP2P b);
                 http = bandAt index (bRPC b)
             in case (case bWS b of
                        Some ws \<Rightarrow> if Step ws < 1 then Inl (WSStep (Step ws)) else Inr (bandAt index ws)
                      | None \<Rightarrow> Inr (http + 1)) of
                  Inl e \<Rightarrow> Inl e
                | Inr wsPort \<Rightarrow>
             (case (case bAuth b of
                        Some a \<Rightarrow> if Step a < 1 then Inl (AuthStep (Step a)) else Inr (bandAt index a)
                      | None \<Rightarrow> Inr (http + 2)) of
                  Inl e \<Rightarrow> Inl e
                | Inr authPort \<Rightarrow>
             (case (case bMetrics b of
                        Some mb \<Rightarrow> if Step mb < 0 then Inl (MetricsStep (Step mb)) else Inr (bandAt index mb)
                      | None \<Rightarrow> Inr (if Step (bRPC b) \<ge> 4 then http + 3 else 0)) of
                  Inl e \<Rightarrow> Inl e
                | Inr metricsPort \<Rightarrow>
             (let p = \<lparr>P2P = p2p, Etcd = (if P2PSpan res \<ge> 2 then p2p + 1 else 0),
                       EtcdClient = (if P2PSpan res \<ge> 3 then p2p + 2 else 0), HTTP = http,
                       WS = wsPort, Auth = authPort, Metrics = metricsPort\<rparr>
              in case find (\<lambda>port. port < 0 \<or> port > MaxListenPort) (portsOf p) of
                   Some port \<Rightarrow> Inl (DerivedOutOfRange port)
                 | None \<Rightarrow> Inr p))))"

definition Plan :: "int \<Rightarrow> int \<Rightarrow> int \<Rightarrow> int \<Rightarrow> int \<Rightarrow> Reservation \<Rightarrow> portError + Endpoints" where
  "Plan index p2pBase p2pStep rpcBase rpcStep res =
     PlanBands index \<lparr>bP2P = \<lparr>Base = p2pBase, Step = p2pStep\<rparr>, bRPC = \<lparr>Base = rpcBase, Step = rpcStep\<rparr>,
       bWS = None, bAuth = None, bMetrics = None\<rparr> res"

section \<open>Collisions\<close>

definition portClaims :: "nat \<Rightarrow> Endpoints \<Rightarrow> (int \<times> string) list" where
  "portClaims i n =
     (let who = (\<lambda>s. ''node'' @ itoa (int i + 1) @ s)
      in [(P2P n, who ''.p2p''), (Etcd n, who ''.etcd''), (EtcdClient n, who ''.etcdClient''),
          (HTTP n, who ''.http''), (WS n, who ''.ws''), (Auth n, who ''.auth''), (Metrics n, who ''.metrics'')])"

fun claimAll :: "(int \<rightharpoonup> string) \<Rightarrow> (int \<times> string) list \<Rightarrow> portError option" where
  "claimAll seen [] = None"
| "claimAll seen ((p, who) # cs) =
     (if p = 0 then claimAll seen cs
      else if p < 1 \<or> p > MaxListenPort then Some (ClaimOutOfRange who p)
      else case seen p of
        Some prev \<Rightarrow> Some (PortUsedTwice p prev who)
      | None \<Rightarrow> claimAll (seen(p \<mapsto> who)) cs)"

definition ValidatePorts :: "Endpoints list \<Rightarrow> portError option" where
  "ValidatePorts ports = claimAll Map.empty (concat (map (\<lambda>(i, n). portClaims i n) (enumerate 0 ports)))"

section \<open>The pool\<close>

record Host =
  h_name :: string
  h_addr :: string

record Pool =
  Hosts :: "Host list"
  Slots :: int
  Ports :: Bands
  reservation :: Reservation
  Origin :: string

datatype poolError =
    PoolNoHosts
  | HostNoAddress nat string
  | DuplicateIdentity string
  | DuplicateAddress string
  | PoolSlots int
  | PoolPorts portError
  | SlotsExceedBands int portError

definition hostKey :: "Host \<Rightarrow> string" where
  "hostKey h = (if h_name h \<noteq> '''' then h_name h else h_addr h)"

definition Cap :: "Pool \<Rightarrow> int" where
  "Cap p = int (length (Hosts p)) * Slots p"

text \<open>
  The ports of one slot: the plan of its index, and no metrics port after the first slot when the
  metrics band has step 0. The pool's validation and the placement both compute it this way.
\<close>

definition slotPorts :: "Pool \<Rightarrow> int \<Rightarrow> portError + Endpoints" where
  "slotPorts p slot =
     (case PlanBands slot (Ports p) (reservation p) of
        Inl e \<Rightarrow> Inl e
      | Inr e \<Rightarrow>
          Inr (if (case bMetrics (Ports p) of Some mb \<Rightarrow> Step mb = 0 | None \<Rightarrow> False) \<and> slot > 1
               then e\<lparr>Metrics := 0\<rparr> else e))"

fun checkHosts :: "nat \<Rightarrow> string set \<Rightarrow> string set \<Rightarrow> Host list \<Rightarrow> poolError option" where
  "checkHosts i names addresses [] = None"
| "checkHosts i names addresses (h # hs) =
     (if h_addr h = '''' then Some (HostNoAddress (i + 1) (h_name h))
      else if hostKey h \<in> names then Some (DuplicateIdentity (hostKey h))
      else if h_addr h \<in> addresses then Some (DuplicateAddress (h_addr h))
      else checkHosts (i + 1) (insert (hostKey h) names) (insert (h_addr h) addresses) hs)"

definition ValidatePool :: "Pool \<Rightarrow> poolError option" where
  "ValidatePool p =
     (if length (Hosts p) = 0 then Some PoolNoHosts
      else case checkHosts 0 {} {} (Hosts p) of
        Some e \<Rightarrow> Some e
      | None \<Rightarrow>
          if Slots p < 1 then Some (PoolSlots (Slots p))
          else (case traverse (slotPorts p) [1..Slots p] of
                  Inl e \<Rightarrow> Some (PoolPorts e)
                | Inr ports \<Rightarrow>
                    (case ValidatePorts ports of
                       Some e \<Rightarrow> Some (SlotsExceedBands (Slots p) e)
                     | None \<Rightarrow> None)))"

section \<open>What a plan promises\<close>

lemma bandAt_range:
  assumes "\<not> bandOutOfRange index band" "1 \<le> index"
  shows "1 \<le> bandAt index band" "bandAt index band \<le> MaxListenPort"
proof -
  have b: "1 \<le> Base band" "Base band \<le> MaxListenPort" "0 \<le> Step band"
    using assms(1) by (auto simp: bandOutOfRange_def)
  then have "0 \<le> (index - 1) * Step band" using assms(2) by simp
  then show "1 \<le> bandAt index band" using b by (simp add: bandAt_def)
  show "bandAt index band \<le> MaxListenPort"
  proof (cases "Step band = 0")
    case False
    then have s: "0 < Step band" using b by simp
    then have "index - 1 \<le> (MaxListenPort - Base band) div Step band"
      using assms(1) by (auto simp: bandOutOfRange_def)
    then have "(index - 1) * Step band \<le> (MaxListenPort - Base band) div Step band * Step band"
      using s by simp
    also have "\<dots> \<le> MaxListenPort - Base band"
      using s by (simp flip: minus_mod_eq_div_mult)
    finally show ?thesis by (simp add: bandAt_def)
  qed (use b in \<open>simp add: bandAt_def\<close>)
qed

lemma bind_Inr_iff: "(case x of Inl e \<Rightarrow> Inl e | Inr y \<Rightarrow> g y) = Inr z \<longleftrightarrow> (\<exists>y. x = Inr y \<and> g y = Inr z)"
  by (cases x) simp_all

lemma reject_Inr_iff: "(case x of None \<Rightarrow> Inr p | Some y \<Rightarrow> Inl (f y)) = Inr z \<longleftrightarrow> x = None \<and> z = p"
  by (cases x) auto

lemma PlanBands_Inr:
  assumes "PlanBands index b res = Inr e"
  shows "1 \<le> index" "P2PSpan (WithDefaults res) \<le> Step (bP2P b)"
    "\<not> bandOutOfRange index (bP2P b)" "\<not> bandOutOfRange index (bRPC b)"
    "\<And>w. bWS b = Some w \<Longrightarrow> \<not> bandOutOfRange index w \<and> WS e = bandAt index w"
    "\<And>a. bAuth b = Some a \<Longrightarrow> \<not> bandOutOfRange index a \<and> Auth e = bandAt index a"
    "bWS b = None \<Longrightarrow> WS e = HTTP e + 1" "bAuth b = None \<Longrightarrow> Auth e = HTTP e + 2"
    "P2P e = bandAt index (bP2P b)" "HTTP e = bandAt index (bRPC b)"
    "\<forall>x \<in> set (portsOf e). 0 \<le> x \<and> x \<le> MaxListenPort"
proof -
  let ?h = "bandAt index (bRPC b)"
  have c: "\<not> index < 1" "\<not> Step (bP2P b) < P2PSpan (WithDefaults res)"
    "\<not> list_ex (\<lambda>bo. case bo of None \<Rightarrow> False | Some band \<Rightarrow> bandOutOfRange index band)
       [Some (bP2P b), Some (bRPC b), bWS b, bAuth b, bMetrics b]"
    "\<not> ((bWS b = None \<or> bAuth b = None) \<and> Step (bRPC b) < RPCSpan (WithDefaults res))"
    "\<not> (\<not> (bWS b = None \<or> bAuth b = None) \<and> Step (bRPC b) < 1)"
    using assms by (simp_all only: PlanBands_def Let_def split: if_splits) simp_all
  obtain w a where w: "(case bWS b of Some ws \<Rightarrow> if Step ws < 1 then Inl (WSStep (Step ws)) else Inr (bandAt index ws)
        | None \<Rightarrow> Inr (?h + 1)) = Inr w"
    and a: "(case bAuth b of Some a \<Rightarrow> if Step a < 1 then Inl (AuthStep (Step a)) else Inr (bandAt index a)
        | None \<Rightarrow> Inr (?h + 2)) = Inr a"
    and e: "P2P e = bandAt index (bP2P b)" "HTTP e = ?h" "WS e = w" "Auth e = a"
    and r: "find (\<lambda>port. port < 0 \<or> port > MaxListenPort) (portsOf e) = None"
    using assms unfolding PlanBands_def Let_def if_not_P [OF c(1)] if_not_P [OF c(2)] if_not_P [OF c(3)]
      if_not_P [OF c(4)] if_not_P [OF c(5)] bind_Inr_iff reject_Inr_iff
    by (elim exE conjE) (rule that, assumption, assumption, simp_all)
  show "1 \<le> index" "P2PSpan (WithDefaults res) \<le> Step (bP2P b)" using c by simp_all
  show "\<not> bandOutOfRange index (bP2P b)" "\<not> bandOutOfRange index (bRPC b)" using c(3) by simp_all
  show "\<not> bandOutOfRange index x \<and> WS e = bandAt index x" if "bWS b = Some x" for x
    using c(3) w e that by (simp split: if_splits)
  show "\<not> bandOutOfRange index x \<and> Auth e = bandAt index x" if "bAuth b = Some x" for x
    using c(3) a e that by (simp split: if_splits)
  show "bWS b = None \<Longrightarrow> WS e = HTTP e + 1" "bAuth b = None \<Longrightarrow> Auth e = HTTP e + 2" using w a e by simp_all
  show "P2P e = bandAt index (bP2P b)" "HTTP e = ?h" using e by simp_all
  show "\<forall>x \<in> set (portsOf e). 0 \<le> x \<and> x \<le> MaxListenPort" using r by (auto simp: find_None_iff not_less)
qed

text \<open>
  Every port a plan hands out is a port number: between 0 and 65535, with 0 only for
  the ports a node may not have (etcd, etcd client, metrics); the p2p and http ports are where their
  bands put node \<open>index\<close>. No intermediate value leaves this range by more than three, so the
  source's machine integers cannot wrap.
\<close>

theorem planned_ports_are_in_range:
  assumes "PlanBands index b res = Inr e"
  shows "(\<forall>x \<in> set (portsOf e). 0 \<le> x \<and> x \<le> 65535) \<and> 1 \<le> P2P e \<and> 1 \<le> HTTP e \<and> 1 \<le> WS e \<and> 1 \<le> Auth e
     \<and> P2P e = Base (bP2P b) + (index - 1) * Step (bP2P b)
     \<and> HTTP e = Base (bRPC b) + (index - 1) * Step (bRPC b)"
proof -
  note p = PlanBands_Inr [OF assms]
  have r: "1 \<le> P2P e" "1 \<le> HTTP e" using bandAt_range p by simp_all
  have "1 \<le> WS e" using p(5,7) bandAt_range(1) p(1) r by (cases "bWS b") auto
  moreover have "1 \<le> Auth e" using p(6,8) bandAt_range(1) p(1) r by (cases "bAuth b") auto
  ultimately show ?thesis using p r by (simp add: MaxListenPort_def bandAt_def)
qed

definition sampleBands :: Bands where
  "sampleBands = \<lparr>bP2P = \<lparr>Base = 100, Step = 10\<rparr>, bRPC = \<lparr>Base = 300, Step = 10\<rparr>, bWS = None, bAuth = None, bMetrics = None\<rparr>"

theorem planned_ports_are_in_range_witness:
  "\<exists>e. PlanBands 3 sampleBands \<lparr>P2PSpan = 2, RPCSpan = 3\<rparr> = Inr e \<and> P2P e = 120 \<and> HTTP e = 320"
proof -
  have "\<not> isl (PlanBands 3 sampleBands \<lparr>P2PSpan = 2, RPCSpan = 3\<rparr>)" by code_simp
  then obtain e where e: "PlanBands 3 sampleBands \<lparr>P2PSpan = 2, RPCSpan = 3\<rparr> = Inr e"
    by (cases "PlanBands 3 sampleBands \<lparr>P2PSpan = 2, RPCSpan = 3\<rparr>") auto
  from planned_ports_are_in_range [OF e] show ?thesis using e by (simp add: sampleBands_def)
qed

section \<open>What ValidatePorts and ValidatePool accept\<close>

lemma claimAll_None_iff:
  "claimAll seen cs = None \<longleftrightarrow>
     (let ps = filter (\<lambda>p. p \<noteq> 0) (map fst cs)
      in (\<forall>p \<in> set ps. 1 \<le> p \<and> p \<le> MaxListenPort \<and> seen p = None) \<and> distinct ps)"
proof (induction cs arbitrary: seen)
  case (Cons c cs)
  obtain p who where c: "c = (p, who)" by fastforce
  let ?ps = "filter (\<lambda>p. p \<noteq> 0) (map fst cs)"
  show ?case
  proof (cases "p = 0 \<or> p < 1 \<or> p > MaxListenPort \<or> seen p \<noteq> None")
    case True
    then show ?thesis using Cons [of seen] unfolding c by auto
  next
    case False
    then have "claimAll seen (c # cs) = claimAll (seen(p \<mapsto> who)) cs" by (auto simp: c)
    also have "\<dots> = None \<longleftrightarrow> (\<forall>q \<in> set ?ps. 1 \<le> q \<and> q \<le> MaxListenPort \<and> seen q = None)
        \<and> p \<notin> set ?ps \<and> distinct ?ps"
      unfolding Cons [of "seen(p \<mapsto> who)"] Let_def by (auto simp del: set_filter set_map)
    finally show ?thesis using False unfolding c Let_def by auto
  qed
qed simp

lemma fst_portClaims: "map fst (portClaims i n) = portsOf n"
  by (simp add: portClaims_def portsOf_def Let_def)

definition usedPorts :: "Endpoints \<Rightarrow> int list" where
  "usedPorts e = filter (\<lambda>p. p \<noteq> 0) (portsOf e)"

lemma all_claims:
  "filter (\<lambda>p. p \<noteq> 0) (map fst (concat (map (\<lambda>(i, n). portClaims i n) (enumerate k ports))))
     = concat (map usedPorts ports)"
  by (induction ports arbitrary: k) (simp_all add: fst_portClaims usedPorts_def)

lemma ValidatePorts_None_iff:
  "ValidatePorts ports = None \<longleftrightarrow>
     (\<forall>e \<in> set ports. \<forall>p \<in> set (usedPorts e). 1 \<le> p \<and> p \<le> MaxListenPort) \<and> distinct (concat (map usedPorts ports))"
  unfolding ValidatePorts_def claimAll_None_iff all_claims Let_def by auto

lemma distinct_concat_nth:
  assumes "distinct (concat xss)" "i < length xss" "j < length xss" "i \<noteq> j"
  shows "set (xss ! i) \<inter> set (xss ! j) = {}"
  using assms
proof (induction xss arbitrary: i j)
  case (Cons xs xss)
  have "set xs \<inter> set (xss ! k) = {}" if "k < length xss" for k
  proof -
    have "set xs \<inter> set (concat xss) = {}" using Cons.prems(1) by simp
    then show ?thesis using nth_mem [OF that] by auto
  qed
  then show ?case using Cons by (cases i; cases j) (auto simp: Int_commute)
qed simp

lemma checkHosts_None_iff:
  "checkHosts i names addrs hs = None \<longleftrightarrow>
     (\<forall>h \<in> set hs. h_addr h \<noteq> '''' \<and> hostKey h \<notin> names \<and> h_addr h \<notin> addrs)
     \<and> distinct (map hostKey hs) \<and> distinct (map h_addr hs)"
proof (induction hs arbitrary: i names addrs)
  case (Cons h hs)
  have "(\<forall>k \<in> set hs. h_addr k \<noteq> '''' \<and> hostKey k \<notin> insert (hostKey h) names \<and> h_addr k \<notin> insert (h_addr h) addrs)
      \<longleftrightarrow> (\<forall>k \<in> set hs. h_addr k \<noteq> '''' \<and> hostKey k \<notin> names \<and> h_addr k \<notin> addrs)
        \<and> hostKey h \<notin> hostKey ` set hs \<and> h_addr h \<notin> h_addr ` set hs"
    unfolding image_iff by fastforce
  then show ?case using Cons by auto
qed simp

definition valid_pool :: "Pool \<Rightarrow> bool" where
  "valid_pool p \<longleftrightarrow> ValidatePool p = None"

lemma valid_pool_hosts:
  assumes "valid_pool p"
  shows "Hosts p \<noteq> []" "1 \<le> Slots p" "distinct (map hostKey (Hosts p))" "distinct (map h_addr (Hosts p))"
    "\<And>h. h \<in> set (Hosts p) \<Longrightarrow> h_addr h \<noteq> '''' \<and> hostKey h \<noteq> ''''"
proof -
  have c: "checkHosts 0 {} {} (Hosts p) = None" "Hosts p \<noteq> []" "1 \<le> Slots p"
    using assms by (auto simp: valid_pool_def ValidatePool_def split: if_splits option.splits)
  then show "Hosts p \<noteq> []" "1 \<le> Slots p" by simp_all
  show "distinct (map hostKey (Hosts p))" "distinct (map h_addr (Hosts p))"
    "\<And>h. h \<in> set (Hosts p) \<Longrightarrow> h_addr h \<noteq> '''' \<and> hostKey h \<noteq> ''''"
    using c(1) unfolding checkHosts_None_iff by (auto simp: hostKey_def)
qed

lemma valid_pool_ports:
  assumes "valid_pool p"
  obtains ports where "length ports = nat (Slots p)"
    "\<And>i. 1 \<le> i \<Longrightarrow> i \<le> Slots p \<Longrightarrow> slotPorts p i = Inr (ports ! nat (i - 1))"
    "ValidatePorts ports = None"
proof -
  obtain ports where t: "traverse (slotPorts p) [1..Slots p] = Inr ports" and v: "ValidatePorts ports = None"
    using assms by (auto simp: valid_pool_def ValidatePool_def split: if_splits option.splits sum.splits)
  have l: "list_all2 (\<lambda>x y. slotPorts p x = Inr y) [1..Slots p] ports"
    using t by (simp add: traverse_Inr_iff)
  have "slotPorts p i = Inr (ports ! nat (i - 1))" if "1 \<le> i" "i \<le> Slots p" for i
  proof -
    have "nat (i - 1) < length [1..Slots p]" using that by simp
    from list_all2_nthD [OF l this] show ?thesis using that by simp
  qed
  moreover have "length ports = nat (Slots p)" using length_traverse [OF t] by simp
  ultimately show ?thesis using that v by blast
qed

text \<open>
  Property C27. In a pool that passes validation every slot of a host has a plan, and the ports of
  two different slots never collide; nor do the ports of one slot.
\<close>

theorem valid_pool_slots_never_collide:
  assumes "ValidatePool p = None" and "1 \<le> i" "i \<le> Slots p" "1 \<le> j" "j \<le> Slots p"
  shows "\<exists>d e. slotPorts p i = Inr d \<and> slotPorts p j = Inr e \<and> distinct (usedPorts d)
     \<and> (i \<noteq> j \<longrightarrow> set (usedPorts d) \<inter> set (usedPorts e) = {})"
proof -
  obtain ports where l: "length ports = nat (Slots p)"
    and s: "\<And>i. 1 \<le> i \<Longrightarrow> i \<le> Slots p \<Longrightarrow> slotPorts p i = Inr (ports ! nat (i - 1))"
    and v: "ValidatePorts ports = None"
    using valid_pool_ports [of p] assms(1) by (metis valid_pool_def)
  have ij: "nat (i - 1) < length ports" "nat (j - 1) < length ports" using l assms by simp_all
  have d: "distinct (concat (map usedPorts ports))" using v by (simp add: ValidatePorts_None_iff)
  then have "distinct (usedPorts (ports ! nat (i - 1)))"
    using ij(1) by (metis distinct_concat_iff image_eqI list.set_map nth_mem)
  moreover have "i \<noteq> j \<longrightarrow> set (usedPorts (ports ! nat (i - 1))) \<inter> set (usedPorts (ports ! nat (j - 1))) = {}"
    using distinct_concat_nth [OF d] ij assms by auto
  ultimately show ?thesis using s assms by blast
qed

definition samplePool :: Pool where
  "samplePool = \<lparr>Hosts = [\<lparr>h_name = ''a'', h_addr = ''10.0.0.1''\<rparr>, \<lparr>h_name = '''', h_addr = ''10.0.0.2''\<rparr>],
     Slots = 2, Ports = sampleBands, reservation = \<lparr>P2PSpan = 2, RPCSpan = 3\<rparr>, Origin = ''''\<rparr>"

lemma sample_pool_valid: "ValidatePool samplePool = None"
  by code_simp

theorem valid_pool_slots_never_collide_witness:
  "\<exists>d e. slotPorts samplePool 1 = Inr d \<and> slotPorts samplePool 2 = Inr e
     \<and> set (usedPorts d) \<inter> set (usedPorts e) = {}"
proof -
  have "1 \<le> (1 :: int)" "1 \<le> Slots samplePool" "1 \<le> (2 :: int)" "2 \<le> Slots samplePool"
    by (simp_all add: samplePool_def)
  from valid_pool_slots_never_collide [OF sample_pool_valid this] show ?thesis by auto
qed

end
