(* ===== verification/Resource_Inventory.thy ===== *)
theory Resource_Inventory
  imports Resource_Ports Node_Placement "HOL-Library.List_Lexorder" "HOL-Library.Char_ord"
begin

text \<open>
  The live view of a server set (\<open>internal/resource/inventory.go\<close>) and the placement of a network on
  it (\<open>pool.go\<close>: \<open>Assign\<close>, \<open>place\<close>). The Go map of taken slots is a list of pairs without repeated
  keys, of which only the members matter.
\<close>

record Slot =
  s_host :: string
  s_index :: int

record Holder =
  ho_network :: string
  ho_node :: string

record Allocation =
  a_network :: string
  a_node :: string
  a_host :: string
  a_p2p :: int

record Inventory =
  i_pool :: Pool
  taken :: "(Slot \<times> Holder) list"

record Usage =
  u_cap :: int
  u_used :: int
  u_free :: int
  u_byNetwork :: "(string \<times> nat) list"

record Request =
  rq_role :: Role
  rq_server :: string
  rq_label :: Label

datatype invError =
    PoolInvalid poolError
  | TakeCount int
  | ErrFull int nat Usage
  | NoNodesRequested
  | UnknownServer nat string
  | ServerFull string nat Usage
  | PlaceRole nat nodeError
  | PlacePorts nat portError
  | PlaceMap placementError

section \<open>The inventory\<close>

definition NewInventory :: "Pool \<Rightarrow> invError + Inventory" where
  "NewInventory pool = (case ValidatePool pool of
      Some e \<Rightarrow> Inl (PoolInvalid e) | None \<Rightarrow> Inr \<lparr>i_pool = pool, taken = []\<rparr>)"

definition holderOf :: "Inventory \<Rightarrow> Slot \<Rightarrow> Holder option" where
  "holderOf i s = map_of (taken i) s"

text \<open>The assignment \<open>i.taken[s] = h\<close>.\<close>

definition hold :: "Inventory \<Rightarrow> Slot \<Rightarrow> Holder \<Rightarrow> Inventory" where
  "hold i s h = i\<lparr>taken := (s, h) # filter (\<lambda>x. fst x \<noteq> s) (taken i)\<rparr>"

definition slotOf :: "Inventory \<Rightarrow> Allocation \<Rightarrow> Slot option" where
  "slotOf i a =
     (case find (\<lambda>h. h_addr h = a_host a \<or> hostKey h = a_host a) (Hosts (i_pool i)) of
        None \<Rightarrow> None
      | Some h \<Rightarrow>
          if hostKey h = '''' then None
          else
            let band = bP2P (Ports (i_pool i))
            in if Step band < 1 \<or> a_p2p a < Base band \<or> (a_p2p a - Base band) mod Step band \<noteq> 0 then None
               else
                 let idx = (a_p2p a - Base band) div Step band + 1
                 in if idx > Slots (i_pool i) then None else Some \<lparr>s_host = hostKey h, s_index = idx\<rparr>)"

fun Adopt :: "Inventory \<Rightarrow> Allocation list \<Rightarrow> Inventory" where
  "Adopt i [] = i"
| "Adopt i (a # as) =
     (case slotOf i a of
        None \<Rightarrow> Adopt i as
      | Some slot \<Rightarrow>
          if holderOf i slot \<noteq> None then Adopt i as
          else Adopt (hold i slot \<lparr>ho_network = a_network a, ho_node = a_node a\<rparr>) as)"

definition free :: "Inventory \<Rightarrow> Slot list" where
  "free i = filter (\<lambda>s. holderOf i s = None)
     (concat (map (\<lambda>idx. map (\<lambda>h. \<lparr>s_host = hostKey h, s_index = idx\<rparr>) (Hosts (i_pool i))) [1..Slots (i_pool i)]))"

definition usage :: "Inventory \<Rightarrow> Usage" where
  "usage i =
     (let cap = Cap (i_pool i); used = int (length (taken i));
          nets = map (\<lambda>x. ho_network (snd x)) (taken i)
      in \<lparr>u_cap = cap, u_used = used, u_free = cap - used,
          u_byNetwork = map (\<lambda>n. (n, length (filter (\<lambda>m. m = n) nets))) (remdups nets)\<rparr>)"

definition Full :: "Usage \<Rightarrow> bool" where
  "Full u \<longleftrightarrow> u_free u = 0"

definition Holders :: "Usage \<Rightarrow> string" where
  "Holders u =
     join [CHR 0x0A] (map (\<lambda>n. ''  '' @ n @ '' holds '' @ itoa (int (the (map_of (u_byNetwork u) n))))
       (sort (map fst (u_byNetwork u))))"

text \<open>The loop of \<open>Take\<close> that records the holders, from the number of the next node.\<close>

fun holdAll :: "Inventory \<Rightarrow> string \<Rightarrow> nat \<Rightarrow> Slot list \<Rightarrow> Inventory" where
  "holdAll i network k [] = i"
| "holdAll i network k (s # ss) =
     holdAll (hold i s \<lparr>ho_network = network, ho_node = ''node'' @ itoa (int k + 1)\<rparr>) network (k + 1) ss"

definition Take :: "Inventory \<Rightarrow> int \<Rightarrow> string \<Rightarrow> Inventory \<times> (invError + Slot list)" where
  "Take i n network =
     (if n < 1 then (i, Inl (TakeCount n))
      else
        let fr = free i
        in if int (length fr) < n then (i, Inl (ErrFull n (length fr) (usage i)))
           else
             let out = take (nat n) fr
             in (if network \<noteq> '''' then holdAll i network 0 out else i, Inr out))"

definition Release :: "Inventory \<Rightarrow> string \<Rightarrow> Inventory \<times> nat" where
  "Release i network =
     (let kept = filter (\<lambda>x. ho_network (snd x) \<noteq> network) (taken i)
      in (i\<lparr>taken := kept\<rparr>, length (taken i) - length kept))"

section \<open>Placing a network\<close>

definition zeroSlot :: Slot where "zeroSlot = \<lparr>s_host = '''', s_index = 0\<rparr>"

text \<open>The first loop of \<open>Assign\<close>: pinned requests, from request number \<open>k\<close>.\<close>

fun pinLoop ::
  "Inventory \<Rightarrow> Slot list \<Rightarrow> nat \<Rightarrow> Request list \<Rightarrow> Slot list \<Rightarrow> Slot list \<Rightarrow> invError + Slot list \<times> Slot list"
where
  "pinLoop i fr k [] slots selected = Inr (slots, selected)"
| "pinLoop i fr k (r # rs) slots selected =
     (if rq_server r = '''' then pinLoop i fr (k + 1) rs slots selected
      else if rq_server r \<notin> set (map hostKey (Hosts (i_pool i))) then Inl (UnknownServer (k + 1) (rq_server r))
      else case find (\<lambda>s. s_host s = rq_server r \<and> s \<notin> set selected) fr of
        None \<Rightarrow> Inl (ServerFull (rq_server r) (k + 1) (usage i))
      | Some s \<Rightarrow> pinLoop i fr (k + 1) rs (slots[k := s]) (selected @ [s]))"

fun autoLoop ::
  "Slot list \<Rightarrow> nat \<Rightarrow> Request list \<Rightarrow> Slot list \<Rightarrow> Slot list \<Rightarrow> Slot list"
where
  "autoLoop fr k [] slots selected = slots"
| "autoLoop fr k (r # rs) slots selected =
     (if rq_server r \<noteq> '''' then autoLoop fr (k + 1) rs slots selected
      else case find (\<lambda>s. s \<notin> set selected) fr of
        None \<Rightarrow> autoLoop fr (k + 1) rs slots selected
      | Some s \<Rightarrow> autoLoop fr (k + 1) rs (slots[k := s]) (selected @ [s]))"

definition addrOf :: "Pool \<Rightarrow> string \<Rightarrow> string" where
  "addrOf pool key = (case find (\<lambda>h. hostKey h = key) (rev (Hosts pool)) of Some h \<Rightarrow> h_addr h | None \<Rightarrow> '''')"

fun placeLoop ::
  "Pool \<Rightarrow> Slot list \<Rightarrow> nat \<Rightarrow> (Role \<Rightarrow> int) \<Rightarrow> Request list \<Rightarrow> invError + Placement list"
where
  "placeLoop pool slots k ordinals [] = Inr []"
| "placeLoop pool slots k ordinals (r # rs) =
     (case NormalizeRole (rq_role r) of
        Inl e \<Rightarrow> Inl (PlaceRole (k + 1) e)
      | Inr role \<Rightarrow>
          (case slotPorts pool (s_index (slots ! k)) of
             Inl e \<Rightarrow> Inl (PlacePorts (k + 1) e)
           | Inr ports \<Rightarrow>
               (let ords = ordinals(role := ordinals role + 1)
                in case placeLoop pool slots (k + 1) ords rs of
                     Inl e \<Rightarrow> Inl e
                   | Inr ps \<Rightarrow>
                       Inr (\<lparr>pl_index = int k + 1,
                             pl_label = (if rq_label r = '''' then LabelFor (int k + 1) else rq_label r),
                             pl_role = role, pl_ord = ords role,
                             pl_host = addrOf pool (s_host (slots ! k)), pl_ports = ports,
                             pl_dataDir = ''''\<rparr> # ps))))"

definition place :: "Pool \<Rightarrow> Slot list \<Rightarrow> Request list \<Rightarrow> invError + Map" where
  "place pool slots reqs =
     (case placeLoop pool slots 0 (\<lambda>r. 0) reqs of
        Inl e \<Rightarrow> Inl e
      | Inr ps \<Rightarrow> (case NewMap ps of Inl e \<Rightarrow> Inl (PlaceMap e) | Inr m \<Rightarrow> Inr m))"

text \<open>The last loop of \<open>Assign\<close>: claims are committed once everything else has passed.\<close>

fun commitAll :: "Inventory \<Rightarrow> string \<Rightarrow> (Slot \<times> Placement) list \<Rightarrow> Inventory" where
  "commitAll i network [] = i"
| "commitAll i network ((s, pl) # xs) =
     commitAll (hold i s \<lparr>ho_network = network, ho_node = pl_label pl\<rparr>) network xs"

definition chooseSlots :: "Inventory \<Rightarrow> Request list \<Rightarrow> invError + Slot list" where
  "chooseSlots i reqs =
     (case pinLoop i (free i) 0 reqs (replicate (length reqs) zeroSlot) [] of
        Inl e \<Rightarrow> Inl e
      | Inr (slots, selected) \<Rightarrow> Inr (autoLoop (free i) 0 reqs slots selected))"

definition AssignInv :: "Inventory \<Rightarrow> Request list \<Rightarrow> string \<Rightarrow> Inventory \<times> (invError + Map)" where
  "AssignInv i reqs network =
     (if length reqs = 0 then (i, Inl NoNodesRequested)
      else if length (free i) < length reqs then
        (i, Inl (ErrFull (int (length reqs)) (length (free i)) (usage i)))
      else case chooseSlots i reqs of
        Inl e \<Rightarrow> (i, Inl e)
      | Inr slots \<Rightarrow>
          (case place (i_pool i) slots reqs of
             Inl e \<Rightarrow> (i, Inl e)
           | Inr placed \<Rightarrow>
               (if network \<noteq> '''' then commitAll i network (zip slots (Placements placed)) else i, Inr placed)))"

definition Assign :: "Pool \<Rightarrow> Request list \<Rightarrow> invError + Map" where
  "Assign pool reqs = (case NewInventory pool of Inl e \<Rightarrow> Inl e | Inr iv \<Rightarrow> snd (AssignInv iv reqs ''''))"

end
