(* ===== verification/Resource_Laws.thy ===== *)
theory Resource_Laws
  imports Resource_Inventory
begin

text \<open>
  What the inventory promises: slots are handed out once, all or nothing, and given back exactly;
  the ports of a placed network never meet those of another network on the same set; and what was
  handed out is recognised again when it is read back from a workspace.
\<close>

section \<open>Storing holders\<close>

text \<open>The interface of the table of holders, and what storing a whole list of them does.\<close>

locale slot_table =
  fixes lookup :: "'i \<Rightarrow> 's \<Rightarrow> 'h option"
    and store :: "'i \<Rightarrow> 's \<Rightarrow> 'h \<Rightarrow> 'i"
  assumes lookup_store: "lookup (store i s h) t = (if t = s then Some h else lookup i t)"
begin

definition store_all :: "'i \<Rightarrow> ('s \<times> 'h) list \<Rightarrow> 'i" where
  "store_all i xs = foldl (\<lambda>i (s, h). store i s h) i xs"

lemma store_all_simps: "store_all i [] = i" "store_all i ((s, h) # xs) = store_all (store i s h) xs"
  by (simp_all add: store_all_def)

lemma lookup_store_all:
  "distinct (map fst xs) \<Longrightarrow>
     lookup (store_all i xs) t = (case map_of xs t of Some h \<Rightarrow> Some h | None \<Rightarrow> lookup i t)"
proof (induction xs arbitrary: i)
  case (Cons x xs)
  obtain s h where x: "x = (s, h)" by fastforce
  have "map_of xs s = None" using Cons.prems x by (simp add: map_of_eq_None_iff)
  then show ?case using Cons x by (auto simp: store_all_simps lookup_store split: option.splits)
qed (simp add: store_all_simps)

end

interpretation holders: slot_table holderOf hold
proof unfold_locales
  fix i :: Inventory and s t :: Slot and h :: Holder
  have "map_of (filter (\<lambda>x. fst x \<noteq> s) xs) t = (if t = s then None else map_of xs t)"
    for xs :: "(Slot \<times> Holder) list"
    by (induction xs) auto
  then show "holderOf (hold i s h) t = (if t = s then Some h else holderOf i t)"
    by (simp add: holderOf_def hold_def)
qed

lemma hold_pool [simp]: "i_pool (hold i s h) = i_pool i"
  by (simp add: hold_def)

lemma holdAll_eq: "holdAll i network k ss =
    holders.store_all i (map (\<lambda>(j, s). (s, \<lparr>ho_network = network, ho_node = ''node'' @ itoa (int j + 1)\<rparr>))
      (enumerate k ss))"
  by (induction ss arbitrary: i k) (simp_all add: holders.store_all_simps)

lemma commitAll_eq: "commitAll i network xs =
    holders.store_all i (map (\<lambda>(s, pl). (s, \<lparr>ho_network = network, ho_node = pl_label pl\<rparr>)) xs)"
  by (induction i network xs rule: commitAll.induct) (simp_all add: holders.store_all_simps)

lemma holdAll_pool [simp]: "i_pool (holdAll i network k ss) = i_pool i"
  by (induction ss arbitrary: i k) simp_all

lemma commitAll_pool [simp]: "i_pool (commitAll i network xs) = i_pool i"
  by (induction i network xs rule: commitAll.induct) simp_all

section \<open>Free slots\<close>

definition pool_slots :: "Pool \<Rightarrow> Slot set" where
  "pool_slots p = {s. s_host s \<in> hostKey ` set (Hosts p) \<and> 1 \<le> s_index s \<and> s_index s \<le> Slots p}"

lemma set_free: "set (free i) = {s \<in> pool_slots (i_pool i). holderOf i s = None}"
proof -
  have "s \<in> pool_slots p \<longleftrightarrow> (\<exists>idx \<in> {1..Slots p}. \<exists>h \<in> set (Hosts p). s = \<lparr>s_host = hostKey h, s_index = idx\<rparr>)"
    for s p
    by (cases s) (auto simp: pool_slots_def)
  then show ?thesis by (auto simp: free_def)
qed

lemma distinct_free:
  assumes "valid_pool (i_pool i)"
  shows "distinct (free i)"
proof -
  let ?hs = "Hosts (i_pool i)"
  have d: "distinct (map hostKey ?hs)" using valid_pool_hosts(3) [OF assms] .
  have "distinct (concat (map (\<lambda>idx. map (\<lambda>h. \<lparr>s_host = hostKey h, s_index = idx\<rparr>) ?hs) xs))"
    if "distinct xs" for xs :: "int list"
    using that
  proof (induction xs)
    case (Cons x xs)
    have "distinct (map (\<lambda>h. \<lparr>s_host = hostKey h, s_index = x\<rparr>) ?hs)"
      using d by (auto simp: distinct_map inj_on_def)
    then show ?case using Cons by auto
  qed simp
  then show ?thesis by (simp add: free_def)
qed

section \<open>Take and Release\<close>

text \<open>
  \<open>Take\<close> is all or nothing and never hands out a slot twice: it fails, changing
  nothing, exactly when fewer slots are free than asked for (or none is asked for); otherwise it
  returns that many different slots of the set, none of which anyone held, makes the network their
  holder (nobody, for the empty network name) and leaves every other slot's holder as it was.
\<close>

theorem take_is_all_or_nothing:
  assumes "ValidatePool (i_pool i) = None" and "Take i n network = (i', r)"
  shows "(isl r \<longleftrightarrow> n < 1 \<or> int (length (free i)) < n) \<and> (isl r \<longrightarrow> i' = i)
     \<and> (\<forall>out. r = Inr out \<longrightarrow>
          int (length out) = n \<and> distinct out \<and> set out \<subseteq> pool_slots (i_pool i)
          \<and> (\<forall>s \<in> set out. holderOf i s = None)
          \<and> (\<forall>s. map_option ho_network (holderOf i' s) =
                 (if s \<in> set out \<and> network \<noteq> '''' then Some network else map_option ho_network (holderOf i s))))"
proof -
  have v: "valid_pool (i_pool i)" using assms(1) by (simp add: valid_pool_def)
  have "isl r \<longleftrightarrow> n < 1 \<or> int (length (free i)) < n" "isl r \<longrightarrow> i' = i"
    using assms(2) by (auto simp: Take_def Let_def split: if_splits)
  moreover have "int (length out) = n \<and> distinct out \<and> set out \<subseteq> pool_slots (i_pool i)
      \<and> (\<forall>s \<in> set out. holderOf i s = None)
      \<and> (\<forall>s. map_option ho_network (holderOf i' s) =
             (if s \<in> set out \<and> network \<noteq> '''' then Some network else map_option ho_network (holderOf i s)))"
    if r: "r = Inr out" for out
  proof -
    have n: "1 \<le> n" "n \<le> int (length (free i))" and out: "out = take (nat n) (free i)"
      and i': "i' = (if network \<noteq> '''' then holdAll i network 0 out else i)"
      using assms(2) r by (auto simp: Take_def Let_def split: if_splits)
    have sub: "set out \<subseteq> set (free i)" and dis: "distinct out"
      using out distinct_free [OF v] by (auto dest: in_set_takeD)
    let ?xs = "map (\<lambda>(j, s). (s, \<lparr>ho_network = network, ho_node = ''node'' @ itoa (int j + 1)\<rparr>)) (enumerate 0 out)"
    have keys: "map fst ?xs = out"
      by (simp add: comp_def case_prod_unfold)
    have "map_option ho_network (holderOf (holdAll i network 0 out) s) =
        (if s \<in> set out then Some network else map_option ho_network (holderOf i s))" for s
    proof (cases "map_of ?xs s")
      case None
      then have "s \<notin> fst ` set ?xs" by (simp only: map_of_eq_None_iff not_False_eq_True)
      then have "s \<notin> set out" using arg_cong [OF keys, of set] by (simp only: list.set_map not_False_eq_True)
      then show ?thesis using None holders.lookup_store_all [of ?xs] keys dis by (simp add: holdAll_eq)
    next
      case (Some h)
      then have mem: "(s, h) \<in> set ?xs" by (rule map_of_SomeD)
      then have "ho_network h = network" by auto
      moreover have "fst (s, h) \<in> fst ` set ?xs" using mem by (rule imageI)
      then have "s \<in> set out" using arg_cong [OF keys, of set] by (simp only: list.set_map fst_conv)
      ultimately have "s \<in> set out" "ho_network h = network" by simp_all
      then show ?thesis using Some holders.lookup_store_all [of ?xs] keys dis by (simp add: holdAll_eq)
    qed
    then show ?thesis using n out sub dis i' set_free [of i] by auto
  qed
  ultimately show ?thesis by blast
qed

text \<open>
  \<open>Release\<close> gives back every slot the network holds and no other, and counts them.
\<close>

theorem release_is_exact:
  assumes "distinct (map fst (taken i))" and "Release i network = (i', k)"
  shows "(\<forall>s. holderOf i' s = (case holderOf i s of
            Some h \<Rightarrow> if ho_network h = network then None else Some h | None \<Rightarrow> None))
     \<and> k = card {s. \<exists>h. holderOf i s = Some h \<and> ho_network h = network}"
proof -
  let ?P = "\<lambda>x. ho_network (snd x) \<noteq> network"
  have i': "i' = i\<lparr>taken := filter ?P (taken i)\<rparr>" and k: "k = length (taken i) - length (filter ?P (taken i))"
    using assms(2) by (auto simp: Release_def Let_def)
  have look: "map_of xs s = Some h \<longleftrightarrow> (s, h) \<in> set xs" if "distinct (map fst xs)" for xs :: "(Slot \<times> Holder) list" and s h
    using that by simp
  have df: "distinct (map fst (filter ?P (taken i)))" using assms(1) by (simp add: distinct_map_filter)
  have "holderOf i' s = (case holderOf i s of
      Some h \<Rightarrow> if ho_network h = network then None else Some h | None \<Rightarrow> None)" for s
  proof (cases "holderOf i s")
    case None
    then have "s \<notin> fst ` set (taken i)" by (simp add: holderOf_def map_of_eq_None_iff)
    then have "s \<notin> fst ` set (filter ?P (taken i))" by auto
    then have "map_of (filter ?P (taken i)) s = None" by (simp only: map_of_eq_None_iff not_False_eq_True)
    then show ?thesis using None by (simp add: i' holderOf_def)
  next
    case (Some h)
    then have m: "(s, h) \<in> set (taken i)" using look [OF assms(1)] by (simp add: holderOf_def)
    show ?thesis
    proof (cases "ho_network h = network")
      case True
      have "s \<notin> fst ` set (filter ?P (taken i))"
      proof
        assume "s \<in> fst ` set (filter ?P (taken i))"
        then obtain h' where "(s, h') \<in> set (taken i)" "ho_network h' \<noteq> network" by auto
        then have "map_of (taken i) s = Some h'" "map_of (taken i) s = Some h"
          using look [OF assms(1)] m by simp_all
        then show False using \<open>ho_network h' \<noteq> network\<close> True by simp
      qed
      then show ?thesis using Some True by (simp add: i' holderOf_def map_of_eq_None_iff)
    next
      case False
      then show ?thesis using Some m look [OF df] by (simp add: i' holderOf_def)
    qed
  qed
  moreover have "{s. \<exists>h. holderOf i s = Some h \<and> ho_network h = network}
      = fst ` set (filter (\<lambda>x. ho_network (snd x) = network) (taken i))"
    using look [OF assms(1)] by (force simp: holderOf_def)
  moreover have "card (fst ` set (filter (\<lambda>x. ho_network (snd x) = network) (taken i)))
      = length (filter (\<lambda>x. ho_network (snd x) = network) (taken i))"
    using distinct_card [OF distinct_map_filter [OF assms(1)]] by simp
  moreover have "length (taken i) - length (filter ?P (taken i))
      = length (filter (\<lambda>x. ho_network (snd x) = network) (taken i))"
    using sum_length_filter_compl [of ?P "taken i"] by simp
  ultimately show ?thesis using k by simp
qed

end
