(* ===== verification/Resource_Assign.thy ===== *)
theory Resource_Assign
  imports Resource_Laws
begin

text \<open>
  The placement of a network on a server set (\<open>internal/resource/inventory.go\<close> \<open>Assign\<close>,
  \<open>pool.go\<close> \<open>place\<close>): which slots it chooses, what it commits, and how an allocation is read back.
\<close>

section \<open>Assign\<close>

text \<open>
  While \<open>Assign\<close> chooses slots: the positions in \<open>D\<close> have been given slots, all different and all
  free, and those are the selected ones.
\<close>

definition chosen :: "Slot list \<Rightarrow> Slot list \<Rightarrow> Slot list \<Rightarrow> nat set \<Rightarrow> bool" where
  "chosen fr slots selected D \<longleftrightarrow>
     D \<subseteq> {..<length slots} \<and> bij_betw (nth slots) D (set selected) \<and> set selected \<subseteq> set fr"

lemma chosen_start: "chosen fr slots [] {}"
  by (simp add: chosen_def bij_betw_def)

lemma chosen_pick:
  assumes "chosen fr slots selected D" "k < length slots" "k \<notin> D" "s \<in> set fr" "s \<notin> set selected"
  shows "chosen fr (slots[k := s]) (selected @ [s]) (insert k D)"
proof -
  have "slots[k := s] ! x = slots ! x" if "x \<in> D" for x using that assms(3) by (metis nth_list_update_neq)
  then have "bij_betw (nth (slots[k := s])) D (set selected) = bij_betw (nth slots) D (set selected)"
    by (rule bij_betw_cong)
  then have old: "bij_betw (nth (slots[k := s])) D (set selected)" using assms(1) by (simp add: chosen_def)
  have at: "slots[k := s] ! k = s" using assms(2) by simp
  have "bij_betw (nth (slots[k := s])) (D \<union> {k}) (set selected \<union> {slots[k := s] ! k})"
    by (rule notIn_Un_bij_betw) (use assms(3,5) at old in simp_all)
  then have "bij_betw (nth (slots[k := s])) (insert k D) (insert s (set selected))" by (simp add: at)
  then show ?thesis using assms by (simp add: chosen_def)
qed

definition pinned :: "Request list \<Rightarrow> nat \<Rightarrow> nat set" where
  "pinned rs k = {k + j | j. j < length rs \<and> rq_server (rs ! j) \<noteq> ''''}"

definition unpinned :: "Request list \<Rightarrow> nat \<Rightarrow> nat set" where
  "unpinned rs k = {k + j | j. j < length rs \<and> rq_server (rs ! j) = ''''}"

lemma pinned_Cons: "pinned (r # rs) k = (if rq_server r \<noteq> '''' then {k} else {}) \<union> pinned rs (Suc k)"
  and unpinned_Cons: "unpinned (r # rs) k = (if rq_server r = '''' then {k} else {}) \<union> unpinned rs (Suc k)"
proof -
  have all: "{k + j | j. j < length (r # rs) \<and> P ((r # rs) ! j)} = (if P r then {k} else {}) \<union> {Suc k + j | j. j < length rs \<and> P (rs ! j)}"
    for P
  proof (intro set_eqI iffI)
    fix x assume "x \<in> {k + j | j. j < length (r # rs) \<and> P ((r # rs) ! j)}"
    then obtain j where "x = k + j" "j < length (r # rs)" "P ((r # rs) ! j)" by blast
    then show "x \<in> (if P r then {k} else {}) \<union> {Suc k + j | j. j < length rs \<and> P (rs ! j)}"
      by (cases j) auto
  next
    fix x assume "x \<in> (if P r then {k} else {}) \<union> {Suc k + j | j. j < length rs \<and> P (rs ! j)}"
    then consider "x = k" "P r" | j where "x = Suc k + j" "j < length rs" "P (rs ! j)"
      by (auto split: if_splits)
    then show "x \<in> {k + j | j. j < length (r # rs) \<and> P ((r # rs) ! j)}"
      by cases (force, metis (mono_tags, lifting) Suc_less_eq add_Suc_shift length_Cons mem_Collect_eq nth_Cons_Suc)
  qed
  show "pinned (r # rs) k = (if rq_server r \<noteq> '''' then {k} else {}) \<union> pinned rs (Suc k)"
    unfolding pinned_def by (rule all)
  show "unpinned (r # rs) k = (if rq_server r = '''' then {k} else {}) \<union> unpinned rs (Suc k)"
    unfolding unpinned_def by (rule all)
qed

lemma pinned_ge: "x \<in> pinned rs k \<Longrightarrow> k \<le> x" and unpinned_ge: "x \<in> unpinned rs k \<Longrightarrow> k \<le> x"
  by (auto simp: pinned_def unpinned_def)

text \<open>The server a request at position \<open>j\<close> is pinned to got a slot there.\<close>

definition onServer :: "Request list \<Rightarrow> nat \<Rightarrow> Slot list \<Rightarrow> bool" where
  "onServer rs k slots \<longleftrightarrow>
     (\<forall>j < length rs. rq_server (rs ! j) \<noteq> '''' \<longrightarrow> s_host (slots ! (k + j)) = rq_server (rs ! j))"

lemma onServer_Cons:
  "onServer (r # rs) k slots \<longleftrightarrow>
     (rq_server r \<noteq> '''' \<longrightarrow> s_host (slots ! k) = rq_server r) \<and> onServer rs (Suc k) slots"
  by (auto simp: onServer_def less_Suc_eq_0_disj)

lemma pinLoop_spec:
  assumes "pinLoop i fr k rs slots selected = Inr (slots', selected')" "chosen fr slots selected D"
    "\<forall>x \<in> D. x < k" "k + length rs \<le> length slots"
  shows "length slots' = length slots \<and> chosen fr slots' selected' (D \<union> pinned rs k) \<and> onServer rs k slots'
     \<and> (\<forall>j < k. slots' ! j = slots ! j)"
  using assms
proof (induction rs arbitrary: k slots selected D)
  case Nil
  then show ?case by (simp add: pinned_def onServer_def)
next
  case (Cons r rs)
  show ?case
  proof (cases "rq_server r = ''''")
    case True
    then show ?thesis
      using Cons.IH [of "Suc k" slots selected D] Cons.prems
      by (auto simp: pinned_Cons onServer_Cons less_Suc_eq)
  next
    case False
    then obtain s where s: "find (\<lambda>s. s_host s = rq_server r \<and> s \<notin> set selected) fr = Some s"
      and rest: "pinLoop i fr (Suc k) rs (slots[k := s]) (selected @ [s]) = Inr (slots', selected')"
      using Cons.prems(1) by (auto split: if_splits option.splits)
    have f: "s \<in> set fr" "s_host s = rq_server r" "s \<notin> set selected" using s by (auto simp: find_Some_iff)
    have k: "k < length slots" "k \<notin> D" using Cons.prems(3,4) by auto
    have "length slots' = length (slots[k := s])
        \<and> chosen fr slots' selected' (insert k D \<union> pinned rs (Suc k)) \<and> onServer rs (Suc k) slots'
        \<and> (\<forall>j < Suc k. slots' ! j = slots[k := s] ! j)"
      by (rule Cons.IH [OF rest chosen_pick [OF Cons.prems(2) k f(1,3)]]) (use Cons.prems(3,4) in auto)
    moreover from this have "slots' ! k = s" using k(1) by simp
    ultimately show ?thesis using False f(2) by (simp add: pinned_Cons onServer_Cons)
  qed
qed

lemma chosen_room:
  assumes "chosen fr slots selected D" "distinct fr" "length slots \<le> length fr" "k < length slots" "k \<notin> D"
  shows "\<exists>s. find (\<lambda>s. s \<notin> set selected) fr = Some s"
proof -
  have "card (set selected) = card D" using assms(1) by (auto simp: chosen_def dest: bij_betw_same_card)
  moreover have "D \<subset> {..<length slots}" using assms(1,4,5) by (auto simp: chosen_def)
  then have "card D < length slots" using psubset_card_mono [of "{..<length slots}" D] by simp
  ultimately have "card (set selected) < card (set fr)" using assms(2,3) by (simp add: distinct_card)
  then have "\<not> set fr \<subseteq> set selected" by (metis card_mono List.finite_set not_less)
  then have "find (\<lambda>s. s \<notin> set selected) fr \<noteq> None" by (auto simp: find_None_iff)
  then show ?thesis by blast
qed

lemma autoLoop_spec:
  assumes "chosen fr slots selected D" "D \<inter> unpinned rs k = {}" "k + length rs \<le> length slots"
    "distinct fr" "length slots \<le> length fr"
  shows "length (autoLoop fr k rs slots selected) = length slots
     \<and> (\<exists>sel. chosen fr (autoLoop fr k rs slots selected) sel (D \<union> unpinned rs k))
     \<and> (\<forall>j. j \<notin> unpinned rs k \<longrightarrow> autoLoop fr k rs slots selected ! j = slots ! j)"
  using assms
proof (induction rs arbitrary: k slots selected D)
  case Nil
  then show ?case by (auto simp: unpinned_def)
next
  case (Cons r rs)
  show ?case
  proof (cases "rq_server r = ''''")
    case False
    then show ?thesis using Cons.IH [of slots selected D "Suc k"] Cons.prems by (simp add: unpinned_Cons)
  next
    case True
    then have k: "k < length slots" "k \<notin> D" using Cons.prems by (auto simp: unpinned_Cons)
    obtain s where s: "find (\<lambda>s. s \<notin> set selected) fr = Some s"
      using chosen_room [OF Cons.prems(1,4,5) k] by blast
    then have f: "s \<in> set fr" "s \<notin> set selected" by (auto simp: find_Some_iff)
    have "k \<notin> unpinned rs (Suc k)" using unpinned_ge by fastforce
    then have "insert k D \<inter> unpinned rs (Suc k) = {}" using Cons.prems(2) True by (auto simp: unpinned_Cons)
    with Cons.IH [OF chosen_pick [OF Cons.prems(1) k f], of "Suc k"] Cons.prems s True
    show ?thesis by (auto simp: unpinned_Cons)
  qed
qed

lemma chooseSlots_spec:
  assumes v: "valid_pool (i_pool i)" and l: "length reqs \<le> length (free i)" and c: "chooseSlots i reqs = Inr slots"
  shows "length slots = length reqs \<and> distinct slots \<and> set slots \<subseteq> set (free i) \<and> onServer reqs 0 slots"
proof -
  let ?z = "replicate (length reqs) zeroSlot" and ?n = "length reqs"
  obtain s1 sel1 where p: "pinLoop i (free i) 0 reqs ?z [] = Inr (s1, sel1)"
    and s: "slots = autoLoop (free i) 0 reqs s1 sel1"
    using c by (auto simp: chooseSlots_def split: sum.splits)
  have one: "length s1 = ?n" "chosen (free i) s1 sel1 (pinned reqs 0)" "onServer reqs 0 s1"
    using pinLoop_spec [OF p chosen_start] by simp_all
  have dis: "pinned reqs 0 \<inter> unpinned reqs 0 = {}" and all: "pinned reqs 0 \<union> unpinned reqs 0 = {..<?n}"
    by (auto simp: pinned_def unpinned_def)
  have "length slots = ?n \<and> (\<exists>sel. chosen (free i) slots sel (pinned reqs 0 \<union> unpinned reqs 0))
      \<and> (\<forall>j. j \<notin> unpinned reqs 0 \<longrightarrow> slots ! j = s1 ! j)"
    unfolding s using autoLoop_spec [OF one(2) dis _ distinct_free [OF v]] one(1) l by simp
  then obtain sel where two: "length slots = ?n" "chosen (free i) slots sel {..<?n}"
    "\<forall>j. j \<notin> unpinned reqs 0 \<longrightarrow> slots ! j = s1 ! j"
    unfolding all by blast
  have "inj_on (nth slots) {..<?n}" and im: "nth slots ` {..<?n} = set sel" "set sel \<subseteq> set (free i)"
    using two(2) by (auto simp: chosen_def bij_betw_def)
  then have "distinct slots" using two(1) by (auto simp: distinct_conv_nth inj_on_def)
  moreover have "set slots \<subseteq> set (free i)"
    using im two(1) by (auto simp: set_conv_nth)
  moreover have "onServer reqs 0 slots"
    using one(3) two(3) by (auto simp: onServer_def unpinned_def)
  ultimately show ?thesis using two(1) by simp
qed

section \<open>What is committed\<close>

lemma commit_keys: "length slots = length ps \<Longrightarrow>
    map fst (map (\<lambda>(s, pl). (s, \<lparr>ho_network = network, ho_node = pl_label pl\<rparr>)) (zip slots ps)) = slots"
  by (simp add: comp_def case_prod_unfold)

lemma commit_holder:
  assumes "length slots = length ps" "distinct slots" "j < length slots"
  shows "holderOf (commitAll i network (zip slots ps)) (slots ! j)
    = Some \<lparr>ho_network = network, ho_node = pl_label (ps ! j)\<rparr>"
proof -
  let ?xs = "map (\<lambda>(s, pl). (s, \<lparr>ho_network = network, ho_node = pl_label pl\<rparr>)) (zip slots ps)"
  have d: "distinct (map fst ?xs)" using assms(2) by (simp only: commit_keys [OF assms(1)])
  have "?xs ! j = (slots ! j, \<lparr>ho_network = network, ho_node = pl_label (ps ! j)\<rparr>)"
    using assms(1,3) by simp
  moreover have "?xs ! j \<in> set ?xs" by (rule nth_mem) (use assms(1,3) in simp)
  ultimately have "map_of ?xs (slots ! j) = Some \<lparr>ho_network = network, ho_node = pl_label (ps ! j)\<rparr>"
    using map_of_is_SomeI [OF d] by metis
  then show ?thesis by (simp add: commitAll_eq holders.lookup_store_all [OF d])
qed

lemma commit_others:
  assumes "length slots = length ps" "distinct slots" "x \<notin> set slots"
  shows "holderOf (commitAll i network (zip slots ps)) x = holderOf i x"
proof -
  let ?xs = "map (\<lambda>(s, pl). (s, \<lparr>ho_network = network, ho_node = pl_label pl\<rparr>)) (zip slots ps)"
  have d: "distinct (map fst ?xs)" using assms(2) by (simp only: commit_keys [OF assms(1)])
  have "x \<notin> set (map fst ?xs)" using assms(3) by (simp only: commit_keys [OF assms(1)] not_False_eq_True)
  then have "map_of ?xs x = None" by (simp only: map_of_eq_None_iff list.set_map not_False_eq_True)
  then show ?thesis by (simp add: commitAll_eq holders.lookup_store_all [OF d])
qed

lemma placeLoop_spec:
  assumes "placeLoop pool slots k ords rs = Inr ps"
  shows "length ps = length rs"
    and "\<And>j. j < length rs \<Longrightarrow> pl_host (ps ! j) = addrOf pool (s_host (slots ! (k + j)))
           \<and> slotPorts pool (s_index (slots ! (k + j))) = Inr (pl_ports (ps ! j))"
proof -
  have "length ps = length rs \<and> (\<forall>j < length rs. pl_host (ps ! j) = addrOf pool (s_host (slots ! (k + j)))
           \<and> slotPorts pool (s_index (slots ! (k + j))) = Inr (pl_ports (ps ! j)))"
    using assms
  proof (induction rs arbitrary: k ords ps)
    case (Cons r rs)
    then obtain role ports ps1 where n: "NormalizeRole (rq_role r) = Inr role"
      "slotPorts pool (s_index (slots ! k)) = Inr ports"
      "placeLoop pool slots (k + 1) (ords(role := ords role + 1)) rs = Inr ps1"
      and ps: "tl ps = ps1" "ps \<noteq> []" "pl_host (hd ps) = addrOf pool (s_host (slots ! k))" "pl_ports (hd ps) = ports"
      by (auto simp: Let_def split: sum.splits)
    from Cons.IH [OF n(3)] n(2) ps show ?case
      by (cases ps) (auto simp: nth_Cons less_Suc_eq_0_disj)
  qed simp
  then show "length ps = length rs"
    and "\<And>j. j < length rs \<Longrightarrow> pl_host (ps ! j) = addrOf pool (s_host (slots ! (k + j)))
           \<and> slotPorts pool (s_index (slots ! (k + j))) = Inr (pl_ports (ps ! j))"
    by simp_all
qed

lemma place_Placements:
  assumes "place pool slots reqs = Inr m"
  shows "placeLoop pool slots 0 (\<lambda>r. 0) reqs = Inr (Placements m)"
  using assms NewMap_Placements by (auto simp: place_def split: sum.splits)

text \<open>What a successful \<open>Assign\<close> went through.\<close>

lemma AssignInv_Inr:
  assumes v: "valid_pool (i_pool i)" and a: "AssignInv i reqs network = (i', Inr m)"
  obtains slots where "length slots = length reqs" "length (Placements m) = length reqs" "distinct slots"
    "set slots \<subseteq> set (free i)" "onServer reqs 0 slots"
    "\<And>j. j < length reqs \<Longrightarrow> pl_host (Placements m ! j) = addrOf (i_pool i) (s_host (slots ! j))
       \<and> slotPorts (i_pool i) (s_index (slots ! j)) = Inr (pl_ports (Placements m ! j))"
    "i' = (if network \<noteq> '''' then commitAll i network (zip slots (Placements m)) else i)"
proof -
  obtain slots where l: "length reqs \<le> length (free i)" and c: "chooseSlots i reqs = Inr slots"
    and p: "place (i_pool i) slots reqs = Inr m"
    and i': "i' = (if network \<noteq> '''' then commitAll i network (zip slots (Placements m)) else i)"
    using a by (auto simp: AssignInv_def split: if_splits sum.splits)
  note pl = placeLoop_spec [OF place_Placements [OF p]]
  show ?thesis
    using that [of slots] chooseSlots_spec [OF v l c] pl i' by simp
qed

text \<open>
  Property C23. \<open>Assign\<close> is all or nothing. When it fails, the inventory is what it was. When it
  succeeds there is one slot per request, all different, all slots of the set that nobody held; a
  pinned request got one on its server; every node is at its slot's address with its slot's ports;
  and the holders recorded are exactly these, under the node's label (none, for a plan).
\<close>

theorem assign_takes_free_slots:
  assumes "ValidatePool (i_pool i) = None" and "AssignInv i reqs network = (i', r)"
  shows "(isl r \<longrightarrow> i' = i)
     \<and> (\<forall>m. r = Inr m \<longrightarrow> (\<exists>slots. length slots = length reqs \<and> length (Placements m) = length reqs
          \<and> distinct slots \<and> set slots \<subseteq> pool_slots (i_pool i) \<and> (\<forall>s \<in> set slots. holderOf i s = None)
          \<and> (\<forall>j < length reqs. (rq_server (reqs ! j) \<noteq> '''' \<longrightarrow> s_host (slots ! j) = rq_server (reqs ! j))
               \<and> pl_host (Placements m ! j) = addrOf (i_pool i) (s_host (slots ! j))
               \<and> slotPorts (i_pool i) (s_index (slots ! j)) = Inr (pl_ports (Placements m ! j))
               \<and> holderOf i' (slots ! j) =
                   (if network = '''' then None
                    else Some \<lparr>ho_network = network, ho_node = pl_label (Placements m ! j)\<rparr>))
          \<and> (\<forall>s. s \<notin> set slots \<longrightarrow> holderOf i' s = holderOf i s)))"
proof -
  have v: "valid_pool (i_pool i)" using assms(1) by (simp add: valid_pool_def)
  have "isl r \<longrightarrow> i' = i"
    using assms(2) by (cases r) (auto simp: AssignInv_def split: if_splits sum.splits)
  moreover have "\<exists>slots. length slots = length reqs \<and> length (Placements m) = length reqs
          \<and> distinct slots \<and> set slots \<subseteq> pool_slots (i_pool i) \<and> (\<forall>s \<in> set slots. holderOf i s = None)
          \<and> (\<forall>j < length reqs. (rq_server (reqs ! j) \<noteq> '''' \<longrightarrow> s_host (slots ! j) = rq_server (reqs ! j))
               \<and> pl_host (Placements m ! j) = addrOf (i_pool i) (s_host (slots ! j))
               \<and> slotPorts (i_pool i) (s_index (slots ! j)) = Inr (pl_ports (Placements m ! j))
               \<and> holderOf i' (slots ! j) =
                   (if network = '''' then None
                    else Some \<lparr>ho_network = network, ho_node = pl_label (Placements m ! j)\<rparr>))
          \<and> (\<forall>s. s \<notin> set slots \<longrightarrow> holderOf i' s = holderOf i s)"
    if r: "r = Inr m" for m
  proof -
    from assms(2) r have "AssignInv i reqs network = (i', Inr m)" by simp
    from v this obtain slots where s: "length slots = length reqs" "length (Placements m) = length reqs" "distinct slots"
      "set slots \<subseteq> set (free i)" "onServer reqs 0 slots"
      and at: "\<And>j. j < length reqs \<Longrightarrow> pl_host (Placements m ! j) = addrOf (i_pool i) (s_host (slots ! j))
       \<and> slotPorts (i_pool i) (s_index (slots ! j)) = Inr (pl_ports (Placements m ! j))"
      and i': "i' = (if network \<noteq> '''' then commitAll i network (zip slots (Placements m)) else i)"
      by (rule AssignInv_Inr) blast
    have fr: "set slots \<subseteq> pool_slots (i_pool i)" "\<And>s. s \<in> set slots \<Longrightarrow> holderOf i s = None"
      using s(4) set_free [of i] by auto
    have hold: "holderOf i' (slots ! j) = (if network = '''' then None
          else Some \<lparr>ho_network = network, ho_node = pl_label (Placements m ! j)\<rparr>)" if "j < length reqs" for j
      using commit_holder [of slots "Placements m" j i network] s that fr(2) i' by simp
    have rest: "holderOf i' x = holderOf i x" if "x \<notin> set slots" for x
      using commit_others [of slots "Placements m" x i network] s that i' by simp
    have "rq_server (reqs ! j) \<noteq> '''' \<longrightarrow> s_host (slots ! j) = rq_server (reqs ! j)" if "j < length reqs" for j
      using s(5) that by (simp add: onServer_def)
    then show ?thesis using s(1-3) fr at hold rest by blast
  qed
  ultimately show ?thesis by blast
qed

section \<open>Reading claims back\<close>

text \<open>What a workspace records of a placed network, as \<open>Adopt\<close> reads it.\<close>

definition allocationsOf :: "string \<Rightarrow> Map \<Rightarrow> Allocation list" where
  "allocationsOf network m =
     map (\<lambda>p. \<lparr>a_network = network, a_node = pl_label p, a_host = pl_host p, a_p2p = P2P (pl_ports p)\<rparr>) (Placements m)"

text \<open>No entry of the set is named like the address of another.\<close>

definition noAlias :: "Pool \<Rightarrow> bool" where
  "noAlias p \<longleftrightarrow> (\<forall>h \<in> set (Hosts p). \<forall>g \<in> set (Hosts p). hostKey g = h_addr h \<longrightarrow> g = h)"

lemma find_unique:
  assumes "x \<in> set xs" "P x" "\<And>y. y \<in> set xs \<Longrightarrow> P y \<Longrightarrow> y = x"
  shows "find P xs = Some x"
proof (cases "find P xs")
  case None
  then show ?thesis using assms(1,2) by (auto simp: find_None_iff)
next
  case (Some y)
  then have "P y" "y \<in> set xs" by (auto simp: find_Some_iff)
  then show ?thesis using Some assms(3) by simp
qed

lemma addrOf_host:
  assumes "valid_pool p" "h \<in> set (Hosts p)"
  shows "addrOf p (hostKey h) = h_addr h"
proof -
  have "find (\<lambda>g. hostKey g = hostKey h) (rev (Hosts p)) = Some h"
    using valid_pool_hosts(3) [OF assms(1)] assms(2) by (intro find_unique) (auto simp: distinct_map inj_on_def)
  then show ?thesis by (simp add: addrOf_def)
qed

lemma slotPorts_p2p:
  assumes "slotPorts p idx = Inr e"
  shows "P2P e = Base (bP2P (Ports p)) + (idx - 1) * Step (bP2P (Ports p))" "1 \<le> Step (bP2P (Ports p))" "1 \<le> idx"
proof -
  obtain e0 where e0: "PlanBands idx (Ports p) (reservation p) = Inr e0" and e: "P2P e = P2P e0"
    using assms by (auto simp: slotPorts_def split: sum.splits)
  note P = PlanBands_Inr [OF e0]
  show "P2P e = Base (bP2P (Ports p)) + (idx - 1) * Step (bP2P (Ports p))" using P(9) e by (simp add: bandAt_def)
  show "1 \<le> Step (bP2P (Ports p))" using P(2) WithDefaults_positive(1) [of "reservation p"] by linarith
  show "1 \<le> idx" using P(1) .
qed

lemma slotOf_placed:
  assumes v: "valid_pool (i_pool i)" and na: "noAlias (i_pool i)" and s: "s \<in> pool_slots (i_pool i)"
    and e: "slotPorts (i_pool i) (s_index s) = Inr e"
    and a: "a_host a = addrOf (i_pool i) (s_host s)" "a_p2p a = P2P e"
  shows "slotOf i a = Some s"
proof -
  obtain h where h: "h \<in> set (Hosts (i_pool i))" "hostKey h = s_host s" using s by (auto simp: pool_slots_def)
  have addr: "a_host a = h_addr h" using a(1) addrOf_host [OF v h(1)] h(2) by simp
  have "g = h" if "g \<in> set (Hosts (i_pool i))" "h_addr g = h_addr h \<or> hostKey g = h_addr h" for g
    using that na h(1) valid_pool_hosts(4) [OF v] by (auto simp: noAlias_def distinct_map inj_on_def)
  then have f: "find (\<lambda>g. h_addr g = a_host a \<or> hostKey g = a_host a) (Hosts (i_pool i)) = Some h"
    using h(1) addr by (intro find_unique) auto
  have "hostKey h \<noteq> ''''" using valid_pool_hosts(5) [OF v h(1)] by simp
  moreover have "s_index s \<le> Slots (i_pool i)" using s by (simp add: pool_slots_def)
  moreover have "0 \<le> (s_index s - 1) * Step (bP2P (Ports (i_pool i)))"
    by (rule mult_nonneg_nonneg) (use slotPorts_p2p [OF e] in simp_all)
  then have "\<not> (s_index s - 1) * Step (bP2P (Ports (i_pool i))) < 0" by linarith
  ultimately show ?thesis
    using f slotPorts_p2p(2) [OF e] h(2) by (simp add: slotOf_def Let_def a(2) slotPorts_p2p(1) [OF e])
qed

lemma slotOf_hold [simp]: "slotOf (hold i s h) a = slotOf i a"
  unfolding slotOf_def hold_pool by (rule refl)

lemma Adopt_commitAll:
  assumes "length as = length ss" "length ps = length ss" "distinct ss"
    "\<And>j. j < length ss \<Longrightarrow> slotOf i (as ! j) = Some (ss ! j) \<and> holderOf i (ss ! j) = None
        \<and> a_network (as ! j) = network \<and> a_node (as ! j) = pl_label (ps ! j)"
  shows "Adopt i as = commitAll i network (zip ss ps)"
  using assms
proof (induction ss arbitrary: i as ps)
  case (Cons s ss)
  obtain a as' p ps' where eq: "as = a # as'" "ps = p # ps'" using Cons.prems(1,2) by (metis length_Suc_conv)
  let ?i = "hold i s \<lparr>ho_network = network, ho_node = pl_label p\<rparr>"
  have "slotOf i a = Some s" "holderOf i s = None" "a_network a = network" "a_node a = pl_label p"
    using Cons.prems(4) [of 0] eq by simp_all
  moreover have "Adopt ?i as' = commitAll ?i network (zip ss ps')"
  proof (rule Cons.IH)
    fix j assume j: "j < length ss"
    have "ss ! j \<noteq> s" using Cons.prems(3) j by auto
    then show "slotOf ?i (as' ! j) = Some (ss ! j) \<and> holderOf ?i (ss ! j) = None
        \<and> a_network (as' ! j) = network \<and> a_node (as' ! j) = pl_label (ps' ! j)"
      using Cons.prems(4) [of "Suc j"] j eq by (simp add: holders.lookup_store)
  qed (use Cons.prems eq in simp_all)
  ultimately show ?case using eq by simp
qed simp

text \<open>
  Property C24. The inventory is recovered from what workspaces record. Adopting the allocations of a
  network (host and p2p port of each node) gives the very inventory that placing it left, slot by slot
  and label by label; so a fresh process sees the claims the previous one made. The set must not name
  one server like the address of another.
\<close>

theorem adopt_recovers_assign:
  assumes "ValidatePool (i_pool i) = None" and "noAlias (i_pool i)"
    and "AssignInv i reqs network = (i', Inr m)" and "network \<noteq> ''''"
  shows "Adopt i (allocationsOf network m) = i'"
proof -
  have v: "valid_pool (i_pool i)" using assms(1) by (simp add: valid_pool_def)
  from v assms(3) obtain slots where s: "length slots = length reqs" "length (Placements m) = length reqs"
    "distinct slots" "set slots \<subseteq> set (free i)"
    and at: "\<And>j. j < length reqs \<Longrightarrow> pl_host (Placements m ! j) = addrOf (i_pool i) (s_host (slots ! j))
       \<and> slotPorts (i_pool i) (s_index (slots ! j)) = Inr (pl_ports (Placements m ! j))"
    and i': "i' = (if network \<noteq> '''' then commitAll i network (zip slots (Placements m)) else i)"
    by (rule AssignInv_Inr) blast
  have "Adopt i (allocationsOf network m) = commitAll i network (zip slots (Placements m))"
  proof (rule Adopt_commitAll)
    fix j assume "j < length slots"
    then have j: "j < length reqs" "j < length (Placements m)" using s by simp_all
    then have mem: "slots ! j \<in> set (free i)" using s by auto
    let ?a = "allocationsOf network m ! j"
    have a: "?a = \<lparr>a_network = network, a_node = pl_label (Placements m ! j), a_host = pl_host (Placements m ! j),
        a_p2p = P2P (pl_ports (Placements m ! j))\<rparr>"
      using j by (simp add: allocationsOf_def)
    have "slotOf i ?a = Some (slots ! j)"
      by (rule slotOf_placed [OF v assms(2), where e = "pl_ports (Placements m ! j)"])
        (use mem set_free [of i] at [OF j(1)] a in auto)
    then show "slotOf i ?a = Some (slots ! j) \<and> holderOf i (slots ! j) = None
        \<and> a_network ?a = network \<and> a_node ?a = pl_label (Placements m ! j)"
      using a mem set_free [of i] by simp
  qed (use s in \<open>simp_all add: allocationsOf_def\<close>)
  then show ?thesis using i' assms(4) by simp
qed


definition aliasPool :: Pool where
  "aliasPool = samplePool\<lparr>Hosts := [\<lparr>h_name = ''c'', h_addr = ''x''\<rparr>, \<lparr>h_name = ''b'', h_addr = ''c''\<rparr>]\<rparr>"

text \<open>
  Without that condition the recovery fails, and validation does not ask for it: in a
  set that names one server like the address of another, the claim of a network on the second server
  is adopted as a claim on the first, and the second server's slot is free again.
\<close>

theorem aliased_set_loses_claims:
  "ValidatePool aliasPool = None
   \<and> (let i = \<lparr>i_pool = aliasPool, taken = []\<rparr>;
          b = \<lparr>s_host = ''b'', s_index = 1\<rparr>; c = \<lparr>s_host = ''c'', s_index = 1\<rparr>
      in case AssignInv i [\<lparr>rq_role = ''bp'', rq_server = ''b'', rq_label = ''''\<rparr>] ''net'' of
           (i', Inl e) \<Rightarrow> False
         | (i', Inr m) \<Rightarrow>
             let j = Adopt i (allocationsOf ''net'' m)
             in holderOf i' b \<noteq> None \<and> holderOf i' c = None \<and> holderOf j b = None \<and> holderOf j c \<noteq> None)"
  by code_simp

section \<open>Witnesses\<close>

text \<open>A network of two nodes, one pinned, placed on the sample set.\<close>

definition sampleInventory :: Inventory where
  "sampleInventory = \<lparr>i_pool = samplePool, taken = [(\<lparr>s_host = ''a'', s_index = 1\<rparr>, \<lparr>ho_network = ''old'', ho_node = ''node1''\<rparr>)]\<rparr>"

definition sampleRequests :: "Request list" where
  "sampleRequests = [\<lparr>rq_role = ''bp'', rq_server = '''', rq_label = ''''\<rparr>,
     \<lparr>rq_role = ''en'', rq_server = ''10.0.0.2'', rq_label = ''''\<rparr>]"

lemma sample_inventory:
  "ValidatePool (i_pool sampleInventory) = None" "noAlias (i_pool sampleInventory)"
  "distinct (map fst (taken sampleInventory))"
  by code_simp+

lemma sample_assigned:
  "\<exists>i' m. AssignInv sampleInventory sampleRequests ''net'' = (i', Inr m) \<and> length (taken i') = 3"
proof -
  have "case AssignInv sampleInventory sampleRequests ''net'' of (i', r) \<Rightarrow> \<not> isl r \<and> length (taken i') = 3"
    by code_simp
  then show ?thesis
    by (cases "AssignInv sampleInventory sampleRequests ''net''"; cases "snd (AssignInv sampleInventory sampleRequests ''net'')") auto
qed

theorem take_is_all_or_nothing_witness:
  "\<exists>i' out. Take sampleInventory 3 ''net'' = (i', Inr out) \<and> distinct out \<and> length out = 3
     \<and> holderOf sampleInventory (out ! 0) = None"
proof -
  obtain i' r where t: "Take sampleInventory 3 ''net'' = (i', r)" by fastforce
  have "\<not> isl (snd (Take sampleInventory 3 ''net''))" by code_simp
  then obtain out where "r = Inr out" using t by (cases r) auto
  with take_is_all_or_nothing [OF sample_inventory(1) t] have out: "length out = 3" "distinct out"
    "\<forall>s \<in> set out. holderOf sampleInventory s = None" by auto
  moreover have "out ! 0 \<in> set out" by (rule nth_mem) (simp add: out(1))
  ultimately show ?thesis using t \<open>r = Inr out\<close> by blast
qed

theorem release_is_exact_witness:
  "\<exists>i' k. Release sampleInventory ''old'' = (i', k) \<and> holderOf i' \<lparr>s_host = ''a'', s_index = 1\<rparr> = None"
proof -
  obtain i' k where t: "Release sampleInventory ''old'' = (i', k)" by fastforce
  have h: "holderOf sampleInventory \<lparr>s_host = ''a'', s_index = 1\<rparr> = Some \<lparr>ho_network = ''old'', ho_node = ''node1''\<rparr>"
    by code_simp
  from release_is_exact [OF sample_inventory(3) t]
  have "holderOf i' \<lparr>s_host = ''a'', s_index = 1\<rparr> = None" by (simp add: h)
  then show ?thesis using t by blast
qed

theorem assign_takes_free_slots_witness:
  "\<exists>i' m slots. AssignInv sampleInventory sampleRequests ''net'' = (i', Inr m)
     \<and> length slots = 2 \<and> distinct slots \<and> holderOf sampleInventory (slots ! 0) = None
     \<and> s_host (slots ! 1) = ''10.0.0.2''"
proof -
  obtain i' m where a: "AssignInv sampleInventory sampleRequests ''net'' = (i', Inr m)" using sample_assigned by blast
  have r: "length sampleRequests = 2" "rq_server (sampleRequests ! 1) = ''10.0.0.2''" by (simp_all add: sampleRequests_def)
  from assign_takes_free_slots [OF sample_inventory(1) a] obtain slots
    where s: "length slots = length sampleRequests" "distinct slots" "\<forall>s \<in> set slots. holderOf sampleInventory s = None"
      "\<forall>j < length sampleRequests. rq_server (sampleRequests ! j) \<noteq> '''' \<longrightarrow> s_host (slots ! j) = rq_server (sampleRequests ! j)"
    by blast
  have "slots ! 0 \<in> set slots" by (rule nth_mem) (simp add: s(1) r)
  moreover have "s_host (slots ! 1) = ''10.0.0.2''" using s(4) r by simp
  ultimately show ?thesis using a s(1-3) r(1) by metis
qed

theorem adopt_recovers_assign_witness:
  "\<exists>i' m. AssignInv sampleInventory sampleRequests ''net'' = (i', Inr m)
     \<and> length (taken i') = 3 \<and> Adopt sampleInventory (allocationsOf ''net'' m) = i'"
proof -
  obtain i' m where a: "AssignInv sampleInventory sampleRequests ''net'' = (i', Inr m)" "length (taken i') = 3"
    using sample_assigned by blast
  have "''net'' \<noteq> ''''" by simp
  from adopt_recovers_assign [OF sample_inventory(1,2) a(1) this] a show ?thesis by blast
qed

end
