(* ===== verification/Go_Loop.thy ===== *)
theory Go_Loop
  imports Main
begin

text \<open>
  Go loops without a bound, \<open>for { ... }\<close>: an iteration changes the state and either goes on or leaves
  the loop with a result. A loop that never leaves has the value \<open>None\<close>. The two rules the components
  use: an invariant holds of what the loop leaves with, and a loop whose iterations lower a rank leaves.
\<close>

partial_function (option) go_loop :: "('s \<Rightarrow> 's \<times> 'r option) \<Rightarrow> 's \<Rightarrow> ('r \<times> 's) option" where
  "go_loop iter s = (case iter s of (s', Some r) \<Rightarrow> Some (r, s') | (s', None) \<Rightarrow> go_loop iter s')"

declare go_loop.simps [code]

lemma go_loop_leave: "iter s = (s', Some r) \<Longrightarrow> go_loop iter s = Some (r, s')"
  by (subst go_loop.simps) simp

lemma go_loop_again: "iter s = (s', None) \<Longrightarrow> go_loop iter s = go_loop iter s'"
  by (subst go_loop.simps) simp

text \<open>
  The contract of an iteration: it keeps \<open>I\<close>, leaves only with what \<open>Q\<close> allows, and lowers \<open>rank\<close>
  when it goes on.
\<close>

locale loop_invariant =
  fixes iter :: "'s \<Rightarrow> 's \<times> 'r option" and I :: "'s \<Rightarrow> bool" and Q :: "'r \<Rightarrow> 's \<Rightarrow> bool"
  assumes goes_on: "I s \<Longrightarrow> iter s = (s', None) \<Longrightarrow> I s'"
    and leaves: "I s \<Longrightarrow> iter s = (s', Some r) \<Longrightarrow> Q r s'"
begin

lemma loop_result:
  assumes "go_loop iter s = Some (r, s')" "I s"
  shows "Q r s'"
proof -
  have "iter' = iter \<longrightarrow> I s \<longrightarrow> Q (fst y) (snd y)" if "go_loop iter' s = Some y" for iter' s y
  proof (rule go_loop.raw_induct [OF _ that])
    fix g :: "('s \<Rightarrow> 's \<times> 'r option) \<Rightarrow> 's \<Rightarrow> ('r \<times> 's) option" and it s y
    assume IH: "\<And>it s y. g it s = Some y \<Longrightarrow> it = iter \<longrightarrow> I s \<longrightarrow> Q (fst y) (snd y)"
      and body: "(case it s of (s', Some r) \<Rightarrow> Some (r, s') | (s', None) \<Rightarrow> g it s') = Some y"
    show "it = iter \<longrightarrow> I s \<longrightarrow> Q (fst y) (snd y)"
    proof (intro impI)
      assume it: "it = iter" and "I s"
      then show "Q (fst y) (snd y)"
        using body IH [of it] by (auto split: prod.splits option.splits intro: leaves dest: goes_on)
    qed
  qed
  from this [OF assms(1)] assms(2) show ?thesis by simp
qed

end

locale ranked_loop = loop_invariant iter I Q
  for iter :: "'s \<Rightarrow> 's \<times> 'r option" and I Q +
  fixes rank :: "'s \<Rightarrow> nat"
  assumes ranked: "I s \<Longrightarrow> iter s = (s', None) \<Longrightarrow> rank s' < rank s"
begin

lemma loop_returns: "I s \<Longrightarrow> \<exists>r s'. go_loop iter s = Some (r, s')"
proof (induction "rank s" arbitrary: s rule: less_induct)
  case less
  obtain s' q where it: "iter s = (s', q)" by fastforce
  show ?case
  proof (cases q)
    case None
    then have "I s'" "rank s' < rank s" using it less.prems goes_on ranked by blast+
    then show ?thesis using less.hyps it None go_loop_again by fastforce
  qed (use it go_loop_leave in fastforce)
qed

end

end
