(* ===== verification/Node_Monitor.thy ===== *)
theory Node_Monitor
  imports Go_Base Go_Loop "HOL-Library.Word"
begin

text \<open>
  The readiness gate (\<open>internal/nodemonitor\<close>): the verdict on one node's observed facts, and the loop
  that observes, restarts and waits until every node is ready or the limits are reached. The observer,
  the restarter, the clock and the two contexts are parameters over a world \<open>'w\<close>; what the evidence
  sink is told is kept as a list, oldest first. Durations are nanoseconds.
\<close>

section \<open>Verdicts (verdict.go)\<close>

datatype FailureMode =
  UnknownFailure | EtcdJoinFailed | EtcdStale | ForkNotCrossed | QuorumLost | RPCUnready

datatype Verdict = Ready | Waitable | Restartable | Fatal

fun verdictString :: "Verdict \<Rightarrow> string" where
  "verdictString Ready = ''READY''"
| "verdictString Waitable = ''WAITABLE''"
| "verdictString Restartable = ''RESTARTABLE''"
| "verdictString Fatal = ''FATAL''"

section \<open>Classifying a node (classify.go)\<close>

record Facts =
  f_node :: int
  f_label :: string
  Wanted :: bool
  Retired :: bool
  WantChainID :: "64 word"
  WantPeers :: int
  WantParticipate :: bool
  WantHeight :: "64 word"
  WantMinHeight :: "64 word"
  PIDAlive :: bool
  RPCUp :: bool
  ChainID :: "64 word"
  Height :: "64 word"
  Advancing :: bool
  Syncing :: bool
  PeersSeen :: int
  Participating :: bool
  Forked :: bool
  Failure :: FailureMode

record NodeReport =
  r_node :: int
  r_label :: string
  r_verdict :: Verdict
  r_reasons :: "string list"

definition heightLagTolerance :: "64 word" where "heightLagTolerance = 2"

text \<open>The closure \<open>reason\<close>: the verdict is set and a reason added to those so far.\<close>

definition reason :: "NodeReport \<Rightarrow> Verdict \<Rightarrow> string \<Rightarrow> NodeReport" where
  "reason r v s = r\<lparr>r_verdict := v, r_reasons := r_reasons r @ [s]\<rparr>"

definition utoa :: "64 word \<Rightarrow> string" where
  "utoa w = itoa (uint w)"

text \<open>The checks at the end of \<open>Classify\<close> that add a reason each, in order.\<close>

definition waitReasons :: "Facts \<Rightarrow> NodeReport \<Rightarrow> NodeReport" where
  "waitReasons f r =
     (let r = (if Syncing f then reason r Waitable ''still syncing'' else r);
          r = (if \<not> Advancing f then reason r Waitable ''block height not advancing yet'' else r);
          r = (if Height f < WantMinHeight f
               then reason r Waitable (''below required height: height '' @ utoa (Height f) @ '', need '' @ utoa (WantMinHeight f))
               else r);
          r = (if WantHeight f > Height f + heightLagTolerance
               then reason r Waitable (''behind the network: height '' @ utoa (Height f) @ '', network at '' @ utoa (WantHeight f))
               else r);
          r = (if WantPeers f > 0 \<and> PeersSeen f < WantPeers f
               then reason r Waitable (''peers '' @ itoa (PeersSeen f) @ '' < wanted '' @ itoa (WantPeers f))
               else r)
      in if WantParticipate f \<and> \<not> Participating f
         then reason r Waitable ''not yet participating in consensus'' else r)"

definition Classify :: "Facts \<Rightarrow> NodeReport" where
  "Classify f =
     (let r = \<lparr>r_node = f_node f, r_label = f_label f, r_verdict = Ready, r_reasons = []\<rparr>
      in if \<not> Wanted f then reason r Ready ''not part of the target topology''
         else if Retired f then reason r Ready ''retired: no longer expected to follow the network''
         else if RPCUp f \<and> WantChainID f \<noteq> 0 \<and> ChainID f \<noteq> WantChainID f then
           reason r Fatal (''chain id '' @ utoa (ChainID f) @ '' != wanted '' @ utoa (WantChainID f) @ '': wrong genesis'')
         else if Forked f then reason r Fatal ''chain diverged; needs rewind''
         else if Failure f = EtcdStale then reason r Fatal ''stale etcd datadir; needs data removal''
         else if Failure f = QuorumLost then reason r Fatal ''validator set fell below quorum''
         else if \<not> PIDAlive f then reason r Restartable ''process not alive''
         else if Failure f = EtcdJoinFailed then reason r Restartable ''etcd join failed''
         else if Failure f = ForkNotCrossed then reason r Restartable ''fork not crossed''
         else if \<not> RPCUp f \<or> Failure f = RPCUnready then reason r Waitable ''rpc not ready yet''
         else
           let w = waitReasons f r
           in if r_verdict w = Waitable then w else reason w Ready ''alive, rpc ready, advancing'')"

section \<open>The gate (gate.go)\<close>

record Options =
  MaxNodeMonitorTimeout :: int
  WaitInterval :: int
  MaxRestarts :: int

definition DefaultMaxNodeMonitorTimeout :: int where "DefaultMaxNodeMonitorTimeout = 90 * 1000000000"
definition DefaultWaitInterval :: int where "DefaultWaitInterval = 3 * 1000000000"
definition DefaultMaxRestarts :: int where "DefaultMaxRestarts = 1"

definition withDefaults :: "Options \<Rightarrow> Options" where
  "withDefaults opts =
     \<lparr>MaxNodeMonitorTimeout =
        (if MaxNodeMonitorTimeout opts \<le> 0 then DefaultMaxNodeMonitorTimeout else MaxNodeMonitorTimeout opts),
      WaitInterval = (if WaitInterval opts \<le> 0 then DefaultWaitInterval else WaitInterval opts),
      MaxRestarts = (if MaxRestarts opts \<le> 0 then DefaultMaxRestarts else MaxRestarts opts)\<rparr>"

definition reasons :: "NodeReport \<Rightarrow> string" where
  "reasons r = (if r_reasons r = [] then verdictString (r_verdict r) else join ''; '' (r_reasons r))"

text \<open>Why the caller must tear the network down: the messages of the source, with what they print.\<close>

datatype 'e terminate =
    NodeFatal int string
  | Exhausted int int string
  | RestartFailed int 'e
  | StillNotReady nat int
  | DeadlineReached int

record 'e Result =
  OK :: bool
  Reports :: "NodeReport list"
  Terminate :: "'e terminate option"

datatype 'e gateError = CtxEnded 'e | ObserveFailed 'e | SleepFailed 'e

datatype 'e evidence = EvVerdict nat NodeReport | EvRecovery int nat "'e option"

record ('w, 'e) gateEnv =
  ctxErr :: "'w \<Rightarrow> 'e option"
  gateCtxErr :: "'w \<Rightarrow> 'e option"
  Observe :: "'w \<Rightarrow> 'w \<times> ('e + Facts list)"
  Restart :: "int \<Rightarrow> 'w \<Rightarrow> 'w \<times> 'e option"
  Sleep :: "int \<Rightarrow> 'w \<Rightarrow> 'w \<times> 'e option"

text \<open>What the loop keeps from round to round.\<close>

record ('w, 'e) gateState =
  g_world :: 'w
  g_round :: nat
  g_restarts :: "int \<Rightarrow> nat"
  g_remaining :: int
  g_last :: "NodeReport list"
  g_evidence :: "'e evidence list"

definition finishError ::
  "('w, 'e) gateEnv \<Rightarrow> Options \<Rightarrow> ('w, 'e) gateState \<Rightarrow> 'e gateError \<Rightarrow> 'e gateError + 'e Result"
where
  "finishError E opts g err =
     (case ctxErr E (g_world g) of
        Some e \<Rightarrow> Inl (CtxEnded e)
      | None \<Rightarrow>
          (if gateCtxErr E (g_world g) \<noteq> None
           then Inr \<lparr>OK = False, Reports = g_last g, Terminate = Some (DeadlineReached (MaxNodeMonitorTimeout opts))\<rparr>
           else Inl err))"

definition stopWith :: "NodeReport list \<Rightarrow> 'e terminate \<Rightarrow> 'e gateError + 'e Result" where
  "stopWith reports t = Inr \<lparr>OK = False, Reports = reports, Terminate = Some t\<rparr>"

text \<open>The loop over the restartable nodes; \<open>None\<close> when all of them were restarted.\<close>

fun restartLoop ::
  "('w, 'e) gateEnv \<Rightarrow> Options \<Rightarrow> NodeReport list \<Rightarrow> ('w, 'e) gateState \<Rightarrow> NodeReport list
     \<Rightarrow> ('w, 'e) gateState \<times> ('e gateError + 'e Result) option"
where
  "restartLoop E opts reports g [] = (g, None)"
| "restartLoop E opts reports g (r # rs) =
     (let n = r_node r
      in if int (g_restarts g n) \<ge> MaxRestarts opts then
           (g, Some (stopWith reports (Exhausted n (MaxRestarts opts) (reasons r))))
         else
           let k = g_restarts g n + 1;
               (w, rerr) = Restart E n (g_world g);
               g1 = g\<lparr>g_world := w, g_restarts := (g_restarts g)(n := k),
                       g_evidence := g_evidence g @ [EvRecovery n k rerr]\<rparr>
           in case gateCtxErr E w of
                Some e \<Rightarrow> (g1, Some (finishError E opts g1 (CtxEnded e)))
              | None \<Rightarrow>
                  (case rerr of
                     Some e \<Rightarrow> (g1, Some (stopWith reports (RestartFailed n e)))
                   | None \<Rightarrow> restartLoop E opts reports g1 rs))"

text \<open>One round of the loop of \<open>Gate\<close>.\<close>

definition gateRound ::
  "('w, 'e) gateEnv \<Rightarrow> Options \<Rightarrow> ('w, 'e) gateState
     \<Rightarrow> ('w, 'e) gateState \<times> ('e gateError + 'e Result) option"
where
  "gateRound E opts g =
     (case gateCtxErr E (g_world g) of
        Some e \<Rightarrow> (g, Some (finishError E opts g (CtxEnded e)))
      | None \<Rightarrow>
     (let (w, obs) = Observe E (g_world g); g1 = g\<lparr>g_world := w\<rparr>
      in case obs of
           Inl e \<Rightarrow> (g1, Some (finishError E opts g1 (ObserveFailed e)))
         | Inr facts \<Rightarrow>
     (case gateCtxErr E w of
        Some e \<Rightarrow> (g1, Some (finishError E opts g1 (CtxEnded e)))
      | None \<Rightarrow>
     (let reports = map Classify facts;
          g2 = g1\<lparr>g_last := reports, g_evidence := g_evidence g @ map (EvVerdict (g_round g)) reports\<rparr>;
          restartable = filter (\<lambda>r. r_verdict r = Restartable) reports;
          waitable = filter (\<lambda>r. r_verdict r = Waitable) reports
      in case find (\<lambda>r. r_verdict r = Fatal) reports of
           Some r \<Rightarrow> (g2, Some (stopWith reports (NodeFatal (r_node r) (reasons r))))
         | None \<Rightarrow>
             if restartable = [] \<and> waitable = [] then
               (g2, Some (Inr \<lparr>OK = True, Reports = reports, Terminate = None\<rparr>))
             else if restartable \<noteq> [] then
               (case restartLoop E opts reports g2 restartable of
                  (g3, Some r) \<Rightarrow> (g3, Some r)
                | (g3, None) \<Rightarrow> (g3\<lparr>g_round := g_round g + 1\<rparr>, None))
             else if g_remaining g < WaitInterval opts then
               (g2, Some (stopWith reports (StillNotReady (length waitable) (MaxNodeMonitorTimeout opts))))
             else
               (let (w4, serr) = Sleep E (WaitInterval opts) w; g4 = g2\<lparr>g_world := w4\<rparr>
                in case serr of
                     Some e \<Rightarrow> (g4, Some (finishError E opts g4 (SleepFailed e)))
                   | None \<Rightarrow>
                       (g4\<lparr>g_remaining := g_remaining g - WaitInterval opts, g_round := g_round g + 1\<rparr>, None))))))"

definition startGate :: "Options \<Rightarrow> 'w \<Rightarrow> ('w, 'e) gateState" where
  "startGate opts w =
     \<lparr>g_world = w, g_round = 1, g_restarts = (\<lambda>n. 0), g_remaining = MaxNodeMonitorTimeout opts,
      g_last = [], g_evidence = []\<rparr>"

definition Gate ::
  "('w, 'e) gateEnv \<Rightarrow> Options \<Rightarrow> 'w \<Rightarrow> (('e gateError + 'e Result) \<times> ('w, 'e) gateState) option"
where
  "Gate E opts0 w = (let opts = withDefaults opts0 in go_loop (gateRound E opts) (startGate opts w))"

end
