(* ===== verification/Monitor_Laws.thy ===== *)
theory Monitor_Laws
  imports Node_Monitor
begin

text \<open>
  What the readiness gate promises: the verdict on a node is exactly the documented policy, the gate
  returns, it says OK only for a network whose every node is ready, and it restarts within its limits
  and never a network with a fatal node.
\<close>

section \<open>The verdict\<close>

text \<open>The policy in one line each: what would need a destructive remedy, what a restart may clear,
  and what a ready node is.\<close>

definition needsRemedy :: "Facts \<Rightarrow> bool" where
  "needsRemedy f \<longleftrightarrow>
     (RPCUp f \<and> WantChainID f \<noteq> 0 \<and> ChainID f \<noteq> WantChainID f) \<or> Forked f \<or> Failure f \<in> {EtcdStale, QuorumLost}"

definition needsRestart :: "Facts \<Rightarrow> bool" where
  "needsRestart f \<longleftrightarrow> \<not> PIDAlive f \<or> Failure f \<in> {EtcdJoinFailed, ForkNotCrossed}"

definition isThere :: "Facts \<Rightarrow> bool" where
  "isThere f \<longleftrightarrow> RPCUp f \<and> Failure f \<noteq> RPCUnready \<and> \<not> Syncing f \<and> Advancing f
     \<and> WantMinHeight f \<le> Height f \<and> WantHeight f \<le> Height f + heightLagTolerance
     \<and> (WantPeers f \<le> 0 \<or> WantPeers f \<le> PeersSeen f) \<and> (Participating f \<or> \<not> WantParticipate f)"

lemma reason_simps [simp]:
  "r_verdict (reason r v s) = v" "r_reasons (reason r v s) = r_reasons r @ [s]"
  "r_node (reason r v s) = r_node r" "r_label (reason r v s) = r_label r"
  by (simp_all add: reason_def)

lemma waitReasons_node [simp]: "r_node (waitReasons f r) = r_node r" "r_label (waitReasons f r) = r_label r"
  by (simp_all add: waitReasons_def Let_def)

lemma waitReasons_verdict:
  assumes "r_verdict r = Ready" "RPCUp f" "Failure f \<noteq> RPCUnready"
  shows "r_verdict (waitReasons f r) = (if isThere f then Ready else Waitable)"
  using assms by (auto simp: waitReasons_def isThere_def Let_def not_le not_less)

lemma Classify_verdict:
  "r_verdict (Classify f) =
     (if \<not> Wanted f \<or> Retired f then Ready
      else if needsRemedy f then Fatal
      else if needsRestart f then Restartable
      else if isThere f then Ready else Waitable)"
  "r_node (Classify f) = f_node f" "r_reasons (Classify f) \<noteq> []"
proof -
  let ?r = "\<lparr>r_node = f_node f, r_label = f_label f, r_verdict = Ready, r_reasons = []\<rparr>"
  have w: "RPCUp f \<Longrightarrow> Failure f \<noteq> RPCUnready \<Longrightarrow> r_verdict (waitReasons f ?r) = (if isThere f then Ready else Waitable)"
    by (rule waitReasons_verdict) simp_all
  show "r_verdict (Classify f) =
     (if \<not> Wanted f \<or> Retired f then Ready
      else if needsRemedy f then Fatal
      else if needsRestart f then Restartable
      else if isThere f then Ready else Waitable)"
    using w by (auto simp: Classify_def Let_def needsRemedy_def needsRestart_def isThere_def)
  show "r_node (Classify f) = f_node f" by (simp add: Classify_def Let_def)
  have "r_verdict (waitReasons f ?r) = Waitable \<Longrightarrow> r_reasons (waitReasons f ?r) \<noteq> []"
    by (auto simp: waitReasons_def Let_def split: if_splits)
  then show "r_reasons (Classify f) \<noteq> []" by (simp add: Classify_def Let_def)
qed


section \<open>One round\<close>

definition notOK :: "('e gateError + 'e Result) \<Rightarrow> bool" where
  "notOK r \<longleftrightarrow> (case r of Inl e \<Rightarrow> True | Inr R \<Rightarrow> \<not> OK R)"

definition sameCounters :: "('w, 'e) gateState \<Rightarrow> ('w, 'e) gateState \<Rightarrow> bool" where
  "sameCounters g g' \<longleftrightarrow> g_restarts g' = g_restarts g \<and> g_round g' = g_round g \<and> g_remaining g' = g_remaining g"

lemma notOK_simps [simp]: "notOK (finishError E opts g err)" "notOK (stopWith reports t)"
  by (simp_all add: notOK_def finishError_def stopWith_def split: option.splits)

definition noFatal :: "NodeReport list \<Rightarrow> bool" where
  "noFatal reports \<longleftrightarrow> (\<forall>r \<in> set reports. r_verdict r \<noteq> Fatal)"

definition allReady :: "NodeReport list \<Rightarrow> bool" where
  "allReady reports \<longleftrightarrow> (\<forall>r \<in> set reports. r_verdict r = Ready)"

lemma gateRound_cases:
  assumes "gateRound E opts g = (g', out)"
  obtains
    (unjudged) r where "out = Some r" "notOK r" "sameCounters g g'" "g_evidence g' = g_evidence g"
  | (stopped) facts r where "out = Some r" "snd (Observe E (g_world g)) = Inr facts" "sameCounters g g'"
      "g_evidence g' = g_evidence g @ map (EvVerdict (g_round g)) (map Classify facts)"
      "notOK r \<or> (allReady (map Classify facts) \<and> r = Inr \<lparr>OK = True, Reports = map Classify facts, Terminate = None\<rparr>)"
  | (restarted) facts g2 g3 where "snd (Observe E (g_world g)) = Inr facts" "noFatal (map Classify facts)"
      "sameCounters g g2" "g_evidence g2 = g_evidence g @ map (EvVerdict (g_round g)) (map Classify facts)"
      "filter (\<lambda>r. r_verdict r = Restartable) (map Classify facts) \<noteq> []"
      "restartLoop E opts (map Classify facts) g2 (filter (\<lambda>r. r_verdict r = Restartable) (map Classify facts)) = (g3, out)"
      "g' = (if out = None then g3\<lparr>g_round := g_round g + 1\<rparr> else g3)"
  | (waited) facts where "out = None" "snd (Observe E (g_world g)) = Inr facts" "noFatal (map Classify facts)"
      "g_evidence g' = g_evidence g @ map (EvVerdict (g_round g)) (map Classify facts)"
      "g_restarts g' = g_restarts g" "WaitInterval opts \<le> g_remaining g"
      "g_remaining g' = g_remaining g - WaitInterval opts" "g_round g' = g_round g + 1"
proof (cases "gateCtxErr E (g_world g)")
  case (Some e)
  then show ?thesis using assms unjudged [of "finishError E opts g (CtxEnded e)"]
    by (auto simp: gateRound_def sameCounters_def)
next
  case ctx: None
  obtain w ob where o: "Observe E (g_world g) = (w, ob)" by fastforce
  show ?thesis
  proof (cases ob)
    case (Inl e)
    then have "g' = g\<lparr>g_world := w\<rparr>" "out = Some (finishError E opts (g\<lparr>g_world := w\<rparr>) (ObserveFailed e))"
      using assms ctx o by (auto simp: gateRound_def Let_def)
    then show ?thesis using unjudged by (simp add: sameCounters_def)
  next
    case (Inr facts)
    show ?thesis
    proof (cases "gateCtxErr E w")
      case (Some e)
      then have "g' = g\<lparr>g_world := w\<rparr>" "out = Some (finishError E opts (g\<lparr>g_world := w\<rparr>) (CtxEnded e))"
        using assms ctx o Inr by (auto simp: gateRound_def Let_def)
      then show ?thesis using unjudged by (simp add: sameCounters_def)
    next
      case ctx2: None
      define reports where "reports = map Classify facts"
      define g2 where "g2 = g\<lparr>g_world := w, g_last := reports,
        g_evidence := g_evidence g @ map (EvVerdict (g_round g)) reports\<rparr>"
      let ?rs = "filter (\<lambda>r. r_verdict r = Restartable) reports"
      let ?ws = "filter (\<lambda>r. r_verdict r = Waitable) reports"
      have step: "(g', out) =
         (case find (\<lambda>r. r_verdict r = Fatal) reports of
           Some r \<Rightarrow> (g2, Some (stopWith reports (NodeFatal (r_node r) (reasons r))))
         | None \<Rightarrow>
             if ?rs = [] \<and> ?ws = [] then (g2, Some (Inr \<lparr>OK = True, Reports = reports, Terminate = None\<rparr>))
             else if ?rs \<noteq> [] then
               (case restartLoop E opts reports g2 ?rs of
                  (g3, Some r) \<Rightarrow> (g3, Some r)
                | (g3, None) \<Rightarrow> (g3\<lparr>g_round := g_round g + 1\<rparr>, None))
             else if g_remaining g < WaitInterval opts then
               (g2, Some (stopWith reports (StillNotReady (length ?ws) (MaxNodeMonitorTimeout opts))))
             else
               (let (w4, serr) = Sleep E (WaitInterval opts) w; g4 = g2\<lparr>g_world := w4\<rparr>
                in case serr of
                     Some e \<Rightarrow> (g4, Some (finishError E opts g4 (SleepFailed e)))
                   | None \<Rightarrow>
                       (g4\<lparr>g_remaining := g_remaining g - WaitInterval opts, g_round := g_round g + 1\<rparr>, None)))"
        unfolding assms [symmetric]
        by (simp only: gateRound_def ctx o Inr ctx2 Let_def prod.case option.case sum.case reports_def g2_def)
      have g2: "sameCounters g g2" "g_evidence g2 = g_evidence g @ map (EvVerdict (g_round g)) reports"
        by (simp_all add: g2_def sameCounters_def)
      have obs: "snd (Observe E (g_world g)) = Inr facts" using o Inr by simp
      show ?thesis
      proof (cases "find (\<lambda>r. r_verdict r = Fatal) reports")
        case (Some r)
        then show ?thesis using step g2 obs stopped unfolding reports_def by simp
      next
        case None
        then have nf: "noFatal reports" by (simp add: noFatal_def find_None_iff)
        consider "?rs = []" "?ws = []" | "?rs \<noteq> []" | "?rs = []" "?ws \<noteq> []" "g_remaining g < WaitInterval opts"
          | "?rs = []" "?ws \<noteq> []" "\<not> g_remaining g < WaitInterval opts" by blast
        then show ?thesis
        proof cases
          case 1
          then have "allReady reports"
            using nf by (auto simp: allReady_def noFatal_def filter_empty_conv) (metis Verdict.exhaust)
          then show ?thesis using step None 1 g2 obs stopped unfolding reports_def by simp
        next
          case 2
          then show ?thesis
            using step None g2 obs nf restarted [of facts g2]
            unfolding reports_def by (auto split: prod.splits option.splits)
        next
          case 3
          then show ?thesis using step None g2 obs stopped unfolding reports_def by simp
        next
          case 4
          obtain w4 serr where sl: "Sleep E (WaitInterval opts) w = (w4, serr)" by fastforce
          show ?thesis
          proof (cases serr)
            case None
            then have "(g', out) = (g2\<lparr>g_world := w4, g_remaining := g_remaining g - WaitInterval opts,
                g_round := g_round g + 1\<rparr>, None)"
              using step \<open>find (\<lambda>r. r_verdict r = Fatal) reports = None\<close> 4 sl by (simp add: Let_def)
            then show ?thesis using 4 g2 obs nf waited [of facts] unfolding reports_def
              by (simp add: sameCounters_def)
          next
            case (Some e)
            then have "(g', out) = (g2\<lparr>g_world := w4\<rparr>, Some (finishError E opts (g2\<lparr>g_world := w4\<rparr>) (SleepFailed e)))"
              using step \<open>find (\<lambda>r. r_verdict r = Fatal) reports = None\<close> 4 sl by (simp add: Let_def)
            then show ?thesis using g2 obs stopped unfolding reports_def by (simp add: sameCounters_def)
          qed
        qed
      qed
    qed
  qed
qed

section \<open>Restarting\<close>

fun isRecovery :: "int \<Rightarrow> 'e evidence \<Rightarrow> bool" where
  "isRecovery n (EvRecovery m k e) \<longleftrightarrow> m = n"
| "isRecovery n (EvVerdict k r) \<longleftrightarrow> False"

definition recoveries :: "int \<Rightarrow> 'e evidence list \<Rightarrow> nat" where
  "recoveries n ev = length (filter (isRecovery n) ev)"

lemma recoveries_append [simp]: "recoveries n (xs @ ys) = recoveries n xs + recoveries n ys"
  and recoveries_verdicts [simp]: "recoveries n (map (EvVerdict k) rs) = 0"
  and recoveries_simps [simp]: "recoveries n [] = 0" "recoveries n (EvRecovery m k e # xs) = (if m = n then 1 else 0) + recoveries n xs"
  by (simp_all add: recoveries_def filter_empty_conv)

lemma restartLoop_spec:
  assumes "restartLoop E opts reports g rs = (g', out)" "\<And>n. int (g_restarts g n) \<le> MaxRestarts opts"
  shows "\<exists>recs. g_evidence g' = g_evidence g @ recs
      \<and> (\<forall>x \<in> set recs. \<exists>r \<in> set rs. \<exists>k e. x = EvRecovery (r_node r) k e)
      \<and> (\<forall>n. g_restarts g' n = g_restarts g n + recoveries n recs)
      \<and> (\<forall>n. int (g_restarts g' n) \<le> MaxRestarts opts)
      \<and> g_remaining g' = g_remaining g \<and> g_round g' = g_round g
      \<and> (case out of None \<Rightarrow> \<forall>r \<in> set rs. g_restarts g (r_node r) < g_restarts g' (r_node r) | Some r \<Rightarrow> notOK r)"
  using assms
proof (induction rs arbitrary: g)
  case (Cons r rs)
  let ?n = "r_node r" and ?k = "g_restarts g (r_node r) + 1"
  show ?case
  proof (cases "int (g_restarts g ?n) \<ge> MaxRestarts opts")
    case True
    then show ?thesis using Cons.prems by (auto simp: Let_def)
  next
    case False
    obtain w rerr where w: "Restart E ?n (g_world g) = (w, rerr)" by fastforce
    define g1 where "g1 = g\<lparr>g_world := w, g_restarts := (g_restarts g)(?n := ?k),
        g_evidence := g_evidence g @ [EvRecovery ?n ?k rerr]\<rparr>"
    have g1: "g_evidence g1 = g_evidence g @ [EvRecovery ?n ?k rerr]" "g_restarts g1 = (g_restarts g)(?n := ?k)"
      "g_remaining g1 = g_remaining g" "g_round g1 = g_round g" by (simp_all add: g1_def)
    have bound: "int (g_restarts g1 n) \<le> MaxRestarts opts" for n
      using Cons.prems(2) [of n] False by (simp add: g1)
    show ?thesis
    proof (cases "gateCtxErr E w = None \<and> rerr = None")
      case True
      then have "restartLoop E opts reports g1 rs = (g', out)"
        using Cons.prems(1) False w by (simp add: Let_def g1_def)
      from Cons.IH [OF this bound] obtain recs where IH: "g_evidence g' = g_evidence g1 @ recs"
        "\<forall>x \<in> set recs. \<exists>r \<in> set rs. \<exists>k e. x = EvRecovery (r_node r) k e"
        "\<forall>n. g_restarts g' n = g_restarts g1 n + recoveries n recs"
        "\<forall>n. int (g_restarts g' n) \<le> MaxRestarts opts"
        "g_remaining g' = g_remaining g1 \<and> g_round g' = g_round g1"
        "case out of None \<Rightarrow> \<forall>r \<in> set rs. g_restarts g1 (r_node r) < g_restarts g' (r_node r) | Some r \<Rightarrow> notOK r"
        by blast
      have "g_restarts g n \<le> g_restarts g1 n" for n by (simp add: g1)
      then have up: "case out of None \<Rightarrow> \<forall>r \<in> set rs. g_restarts g (r_node r) < g_restarts g' (r_node r) | Some r \<Rightarrow> notOK r"
        using IH(6) by (auto split: option.splits intro: le_less_trans)
      show ?thesis
        by (rule exI [where x = "EvRecovery ?n ?k rerr # recs"])
          (use IH up in \<open>auto simp: g1 split: option.splits\<close>)
    next
      case False2: False
      then obtain r' where "out = Some r'" "notOK r'" "g' = g1"
        using Cons.prems(1) False w by (fastforce simp: Let_def g1_def split: option.splits)
      then show ?thesis using bound g1
        by (intro exI [where x = "[EvRecovery ?n ?k rerr]"]) auto
    qed
  qed
qed auto

section \<open>Restraint\<close>

text \<open>
  What the evidence of a gate may look like: recoveries are counted and within the cap, each is of a
  node last judged restartable, and nothing is restarted once a fatal node was seen.
\<close>

definition restrained :: "Options \<Rightarrow> 'e evidence list \<Rightarrow> bool" where
  "restrained opts ev \<longleftrightarrow>
     (\<forall>n. int (recoveries n ev) \<le> MaxRestarts opts)
     \<and> (\<forall>n k e. EvRecovery n k e \<in> set ev \<longrightarrow>
          (\<exists>j r. EvVerdict j r \<in> set ev \<and> r_node r = n \<and> r_verdict r = Restartable))
     \<and> (\<forall>xs ys j r. ev = xs @ EvVerdict j r # ys \<and> r_verdict r = Fatal \<longrightarrow> (\<forall>n k e. EvRecovery n k e \<notin> set ys))"

definition fatalFree :: "'e evidence list \<Rightarrow> bool" where
  "fatalFree ev \<longleftrightarrow> (\<forall>j r. EvVerdict j r \<in> set ev \<longrightarrow> r_verdict r \<noteq> Fatal)"

definition gateInv :: "Options \<Rightarrow> ('w, 'e) gateState \<Rightarrow> bool" where
  "gateInv opts g \<longleftrightarrow> restrained opts (g_evidence g) \<and> fatalFree (g_evidence g)
     \<and> (\<forall>n. g_restarts g n = recoveries n (g_evidence g))"

definition gateEnd :: "Options \<Rightarrow> ('e gateError + 'e Result) \<Rightarrow> ('w, 'e) gateState \<Rightarrow> bool" where
  "gateEnd opts r g \<longleftrightarrow> restrained opts (g_evidence g)
     \<and> (case r of Inl e \<Rightarrow> True
        | Inr R \<Rightarrow> OK R \<longrightarrow> allReady (Reports R) \<and> Terminate R = None \<and> fatalFree (g_evidence g))"

lemma gateEnd_notOK: "notOK r \<Longrightarrow> restrained opts (g_evidence g) \<Longrightarrow> gateEnd opts r g"
  by (auto simp: gateEnd_def notOK_def split: sum.splits)

lemma restrained_verdicts:
  assumes "restrained opts ev" "fatalFree ev"
  shows "restrained opts (ev @ map (EvVerdict k) rs)"
proof -
  have "EvRecovery n m e \<notin> set ys"
    if eq: "ev @ map (EvVerdict k) rs = xs @ EvVerdict j r # ys" and f: "r_verdict r = Fatal" for xs ys j r n m e
  proof -
    have "length ev \<le> length xs"
    proof (rule ccontr)
      assume "\<not> length ev \<le> length xs"
      then have "EvVerdict j r \<in> set ev" using eq by (auto simp: append_eq_append_conv2 append_eq_Cons_conv Cons_eq_append_conv)
      then show False using assms(2) f by (auto simp: fatalFree_def)
    qed
    then obtain us where "map (EvVerdict k) rs = us @ EvVerdict j r # ys"
      using eq by (auto simp: append_eq_append_conv2)
    then have "set ys \<subseteq> set (map (EvVerdict k) rs)" by (metis set_append set_subset_Cons subset_trans sup_ge2)
    then show ?thesis by auto
  qed
  then show ?thesis using assms(1) by (fastforce simp: restrained_def)
qed

lemma restrained_recoveries:
  assumes "restrained opts ev" "fatalFree ev"
    and recs: "\<And>x. x \<in> set recs \<Longrightarrow> \<exists>n k e j r. x = EvRecovery n k e \<and> EvVerdict j r \<in> set ev \<and> r_node r = n \<and> r_verdict r = Restartable"
    and bound: "\<And>n. int (recoveries n (ev @ recs)) \<le> MaxRestarts opts"
  shows "restrained opts (ev @ recs)" "fatalFree (ev @ recs)"
proof -
  have ff: "fatalFree (ev @ recs)" using assms(2) recs by (fastforce simp: fatalFree_def)
  then show "fatalFree (ev @ recs)" .
  have "\<not> (\<exists>xs ys j r. ev @ recs = xs @ EvVerdict j r # ys \<and> r_verdict r = Fatal)"
  proof
    assume "\<exists>xs ys j r. ev @ recs = xs @ EvVerdict j r # ys \<and> r_verdict r = Fatal"
    then obtain xs ys j r where "ev @ recs = xs @ EvVerdict j r # ys" "r_verdict r = Fatal" by blast
    then have "EvVerdict j r \<in> set (ev @ recs)" by simp
    then show False using ff \<open>r_verdict r = Fatal\<close> unfolding fatalFree_def by blast
  qed
  moreover have "\<exists>j r. EvVerdict j r \<in> set (ev @ recs) \<and> r_node r = n \<and> r_verdict r = Restartable"
    if "EvRecovery n k e \<in> set (ev @ recs)" for n k e
  proof (cases "EvRecovery n k e \<in> set ev")
    case True
    then show ?thesis using assms(1) unfolding restrained_def by (metis Un_iff set_append)
  next
    case False
    then have "EvRecovery n k e \<in> set recs" using that by simp
    from recs [OF this] show ?thesis by auto
  qed
  ultimately show "restrained opts (ev @ recs)" using bound unfolding restrained_def by blast
qed

lemma fatalFree_verdicts: "fatalFree ev \<Longrightarrow> noFatal rs \<Longrightarrow> fatalFree (ev @ map (EvVerdict k) rs)"
  by (auto simp: fatalFree_def noFatal_def)

lemma restart_round:
  assumes inv0: "gateInv opts g" and nf: "noFatal reports" and same: "sameCounters g g2"
    and ev: "g_evidence g2 = g_evidence g @ map (EvVerdict k) reports"
    and loop: "restartLoop E opts reports g2 (filter (\<lambda>r. r_verdict r = Restartable) reports) = (g3, out)"
  shows "gateInv opts g3"
proof -
  have r2: "\<And>n. g_restarts g2 n = recoveries n (g_evidence g2)"
    using inv0 same ev by (simp add: gateInv_def sameCounters_def)
  have re2: "restrained opts (g_evidence g2)" "fatalFree (g_evidence g2)"
    unfolding ev using inv0 restrained_verdicts fatalFree_verdicts [OF _ nf] by (auto simp: gateInv_def)
  have b2: "\<And>n. int (g_restarts g2 n) \<le> MaxRestarts opts"
    using re2(1) r2 unfolding restrained_def by simp
  from restartLoop_spec [OF loop b2] obtain recs where recs: "g_evidence g3 = g_evidence g2 @ recs"
      "\<forall>x \<in> set recs. \<exists>r \<in> set (filter (\<lambda>r. r_verdict r = Restartable) reports). \<exists>k e. x = EvRecovery (r_node r) k e"
      "\<forall>n. g_restarts g3 n = g_restarts g2 n + recoveries n recs"
      "\<forall>n. int (g_restarts g3 n) \<le> MaxRestarts opts" by blast
  have cnt: "g_restarts g3 n = recoveries n (g_evidence g3)" for n using recs(1,3) r2 by simp
  have "restrained opts (g_evidence g2 @ recs)" "fatalFree (g_evidence g2 @ recs)"
  proof -
    have x: "\<exists>n k e j r. x = EvRecovery n k e \<and> EvVerdict j r \<in> set (g_evidence g2) \<and> r_node r = n \<and> r_verdict r = Restartable"
      if "x \<in> set recs" for x
    proof -
      from recs(2) that obtain r m e where "r \<in> set reports" "r_verdict r = Restartable" "x = EvRecovery (r_node r) m e"
        by auto
      moreover from this have "EvVerdict k r \<in> set (g_evidence g2)" by (simp add: ev)
      ultimately show ?thesis by blast
    qed
    have b: "int (recoveries n (g_evidence g2 @ recs)) \<le> MaxRestarts opts" for n
      using recs(1,4) cnt by metis
    show "restrained opts (g_evidence g2 @ recs)" "fatalFree (g_evidence g2 @ recs)"
      using restrained_recoveries [OF re2 x b] by blast+
  qed
  then show ?thesis using cnt recs(1) by (simp add: gateInv_def)
qed

interpretation restraint: loop_invariant "gateRound E opts" "gateInv opts" "gateEnd opts"
  for E :: "('w, 'e) gateEnv" and opts
proof unfold_locales
  fix g g' :: "('w, 'e) gateState" and r
  assume inv0: "gateInv opts g"
  then have R: "restrained opts (g_evidence g)" "fatalFree (g_evidence g)" by (simp_all add: gateInv_def)
  show "gateInv opts g'" if "gateRound E opts g = (g', None)"
    using that
  proof (cases rule: gateRound_cases)
    case (restarted facts g2 g3)
    from restart_round [OF inv0 restarted(2-4,6)] show ?thesis using restarted(7) by (simp add: gateInv_def)
  next
    case (waited facts)
    then show ?thesis
      using inv0 restrained_verdicts [OF R] fatalFree_verdicts [OF R(2) waited(3)]
      by (simp add: gateInv_def del: map_map)
  qed simp_all
  show "gateEnd opts r g'" if "gateRound E opts g = (g', Some r)"
    using that
  proof (cases rule: gateRound_cases)
    case (unjudged r')
    then show ?thesis using R by (simp add: gateEnd_notOK)
  next
    case (stopped facts r')
    have res: "restrained opts (g_evidence g')" using stopped(4) restrained_verdicts [OF R] by (simp del: map_map)
    from stopped(5) show ?thesis
    proof
      assume "allReady (map Classify facts) \<and> r' = Inr \<lparr>OK = True, Reports = map Classify facts, Terminate = None\<rparr>"
      moreover from this have "noFatal (map Classify facts)" by (auto simp: allReady_def noFatal_def)
      ultimately show ?thesis
        using res stopped(1,4) fatalFree_verdicts [OF R(2)] by (simp add: gateEnd_def del: map_map)
    qed (use res stopped(1) in \<open>simp add: gateEnd_notOK\<close>)
  next
    case (restarted facts g2 g3)
    have "gateInv opts g'" using restart_round [OF inv0 restarted(2-4,6)] restarted(7) by simp
    moreover have "notOK r"
    proof -
      have b2: "\<And>n. int (g_restarts g2 n) \<le> MaxRestarts opts"
        using inv0 restarted(3) by (simp add: gateInv_def sameCounters_def restrained_def)
      from restartLoop_spec [OF restarted(6) b2] show ?thesis by auto
    qed
    ultimately show ?thesis by (simp add: gateEnd_notOK gateInv_def)
  qed simp
qed

section \<open>The gate returns\<close>

text \<open>
  What is left: the restarts each node of \<open>N\<close> may still have, and the waits the budget allows. The
  condition on the observer is that it reports nodes of one finite network.
\<close>

definition gateRank :: "Options \<Rightarrow> int set \<Rightarrow> ('w, 'e) gateState \<Rightarrow> nat" where
  "gateRank opts N g =
     (\<Sum>n \<in> N. nat (MaxRestarts opts - int (g_restarts g n))) + nat (g_remaining g div WaitInterval opts)"

definition observesOnly :: "('w, 'e) gateEnv \<Rightarrow> int set \<Rightarrow> bool" where
  "observesOnly E N \<longleftrightarrow> finite N \<and> (\<forall>w facts. snd (Observe E w) = Inr facts \<longrightarrow> f_node ` set facts \<subseteq> N)"

definition budgetInv :: "('w, 'e) gateEnv \<Rightarrow> Options \<Rightarrow> int set \<Rightarrow> nat \<Rightarrow> ('w, 'e) gateState \<Rightarrow> bool" where
  "budgetInv E opts N B g \<longleftrightarrow> observesOnly E N \<and> 0 < WaitInterval opts
     \<and> (\<forall>n. int (g_restarts g n) \<le> MaxRestarts opts) \<and> g_round g + gateRank opts N g \<le> B"

lemma rank_restart:
  assumes "finite N" "m \<in> N" "\<And>n. g_restarts g n \<le> g_restarts g' n" "g_restarts g m < g_restarts g' m"
    "\<And>n. int (g_restarts g' n) \<le> MaxRestarts opts" "g_remaining g' = g_remaining g"
  shows "gateRank opts N g' < gateRank opts N g"
proof -
  have "(\<Sum>n \<in> N. nat (MaxRestarts opts - int (g_restarts g' n))) < (\<Sum>n \<in> N. nat (MaxRestarts opts - int (g_restarts g n)))"
  proof (rule sum_strict_mono_ex1 [OF assms(1)])
    show "\<forall>n \<in> N. nat (MaxRestarts opts - int (g_restarts g' n)) \<le> nat (MaxRestarts opts - int (g_restarts g n))"
      using assms(3) by (simp add: nat_mono)
    have "nat (MaxRestarts opts - int (g_restarts g' m)) < nat (MaxRestarts opts - int (g_restarts g m))"
      using assms(4) assms(5) [of m] by linarith
    then show "\<exists>n \<in> N. nat (MaxRestarts opts - int (g_restarts g' n)) < nat (MaxRestarts opts - int (g_restarts g n))"
      using assms(2) by blast
  qed
  then show ?thesis using assms(6) by (simp add: gateRank_def)
qed

lemma rank_wait:
  assumes "0 < WaitInterval opts" "WaitInterval opts \<le> g_remaining g" "g_restarts g' = g_restarts g"
    "g_remaining g' = g_remaining g - WaitInterval opts"
  shows "gateRank opts N g' < gateRank opts N g"
proof -
  have "(g_remaining g - WaitInterval opts) div WaitInterval opts = g_remaining g div WaitInterval opts - 1"
    using assms(1) div_add_self1 [of "WaitInterval opts" "g_remaining g - WaitInterval opts"] by simp
  moreover have "1 \<le> g_remaining g div WaitInterval opts"
    using assms(1,2) by (metis div_self order_less_irrefl zdiv_mono1)
  ultimately show ?thesis using assms(3,4) by (simp add: gateRank_def)
qed

lemma gateRound_again:
  assumes b: "budgetInv E opts N B g" and it: "gateRound E opts g = (g', None)"
  shows "gateRank opts N g' < gateRank opts N g" "g_round g' = g_round g + 1"
    "\<forall>n. int (g_restarts g' n) \<le> MaxRestarts opts"
proof -
  have bound: "\<And>n. int (g_restarts g n) \<le> MaxRestarts opts" and obs: "observesOnly E N" and i: "0 < WaitInterval opts"
    using b by (auto simp: budgetInv_def)
  have "gateRank opts N g' < gateRank opts N g \<and> g_round g' = g_round g + 1 \<and> (\<forall>n. int (g_restarts g' n) \<le> MaxRestarts opts)"
    using it
  proof (cases rule: gateRound_cases)
    case (restarted facts g2 g3)
    have b2: "\<And>n. int (g_restarts g2 n) \<le> MaxRestarts opts" using bound restarted(3) by (simp add: sameCounters_def)
    from restartLoop_spec [OF restarted(6) b2] have s:
      "\<forall>n. g_restarts g2 n \<le> g_restarts g3 n" "\<forall>n. int (g_restarts g3 n) \<le> MaxRestarts opts"
      "g_remaining g3 = g_remaining g2" "g_round g3 = g_round g2"
      "\<forall>r \<in> set (filter (\<lambda>r. r_verdict r = Restartable) (map Classify facts)). g_restarts g2 (r_node r) < g_restarts g3 (r_node r)"
      by auto
    obtain r where r: "r \<in> set (filter (\<lambda>r. r_verdict r = Restartable) (map Classify facts))"
      using restarted(5) by (metis list.set_sel(1))
    then obtain x where "x \<in> set facts" "r = Classify x" by auto
    moreover have "f_node ` set facts \<subseteq> N" using obs restarted(1) by (simp add: observesOnly_def)
    ultimately have "r_node r \<in> N" by (auto simp: Classify_verdict(2))
    moreover have "g_restarts g (r_node r) < g_restarts g3 (r_node r)"
      using s(5) r restarted(3) unfolding sameCounters_def by metis
    ultimately have "gateRank opts N g3 < gateRank opts N g"
      using s(1-3) restarted(3) obs unfolding sameCounters_def observesOnly_def
      by (intro rank_restart [where m = "r_node r"]) auto
    then show ?thesis using restarted(3,7) s(2,4) by (auto simp: gateRank_def sameCounters_def)
  next
    case (waited facts)
    then show ?thesis using rank_wait [OF i waited(6,5,7)] bound by simp
  qed simp_all
  then show "gateRank opts N g' < gateRank opts N g" "g_round g' = g_round g + 1"
    "\<forall>n. int (g_restarts g' n) \<le> MaxRestarts opts" by blast+
qed

interpretation budget: ranked_loop "gateRound E opts" "budgetInv E opts N B" "\<lambda>r g. g_round g \<le> B" "gateRank opts N"
  for E :: "('w, 'e) gateEnv" and opts N B
proof unfold_locales
  fix g g' :: "('w, 'e) gateState" and r
  assume b: "budgetInv E opts N B g"
  show "gateRank opts N g' < gateRank opts N g" if "gateRound E opts g = (g', None)"
    using gateRound_again [OF b that] by simp
  show "budgetInv E opts N B g'" if "gateRound E opts g = (g', None)"
    using gateRound_again [OF b that] b by (simp add: budgetInv_def)
  show "g_round g' \<le> B" if "gateRound E opts g = (g', Some r)"
    using that
  proof (cases rule: gateRound_cases)
    case (restarted facts g2 g3)
    have b2: "\<And>n. int (g_restarts g2 n) \<le> MaxRestarts opts"
      using b restarted(3) by (simp add: sameCounters_def budgetInv_def)
    from restartLoop_spec [OF restarted(6) b2] have "g_round g3 = g_round g2" by auto
    then show ?thesis using b restarted(3,7) by (simp add: sameCounters_def budgetInv_def)
  qed (use b in \<open>simp_all add: sameCounters_def budgetInv_def\<close>)
qed

lemma withDefaults_positive:
  "0 < MaxNodeMonitorTimeout (withDefaults opts)" "0 < WaitInterval (withDefaults opts)" "0 < MaxRestarts (withDefaults opts)"
  by (auto simp: withDefaults_def DefaultMaxNodeMonitorTimeout_def DefaultWaitInterval_def DefaultMaxRestarts_def)

text \<open>
  Property C25. The gate returns, whatever the nodes do: if it is shown a network of finitely many nodes
  \<open>N\<close>, it ends after at most one round per restart the nodes of \<open>N\<close> are allowed together, one per wait
  the timeout has room for, and one more.
\<close>

theorem gate_returns:
  assumes "finite N" and "\<forall>w facts. snd (Observe E w) = Inr facts \<longrightarrow> f_node ` set facts \<subseteq> N"
  shows "\<exists>r g. Gate E opts w = Some (r, g)
     \<and> int (g_round g) \<le> 1 + int (card N) * MaxRestarts (withDefaults opts)
         + MaxNodeMonitorTimeout (withDefaults opts) div WaitInterval (withDefaults opts)"
proof -
  let ?o = "withDefaults opts"
  let ?s = "startGate ?o w :: ('a, 'b) gateState"
  let ?B = "1 + gateRank ?o N ?s"
  have b: "budgetInv E ?o N ?B ?s"
    using assms withDefaults_positive [of opts] by (simp add: budgetInv_def observesOnly_def startGate_def)
  obtain r g where g: "Gate E opts w = Some (r, g)"
    using budget.loop_returns [OF b] by (auto simp: Gate_def Let_def)
  then have "g_round g \<le> ?B"
    using budget.loop_result [OF _ b] by (simp add: Gate_def Let_def)
  moreover have "int (gateRank ?o N ?s) = int (card N) * MaxRestarts ?o + MaxNodeMonitorTimeout ?o div WaitInterval ?o"
    using withDefaults_positive [of opts] by (simp add: gateRank_def startGate_def pos_imp_zdiv_nonneg_iff)
  ultimately show ?thesis using g by auto
qed

text \<open>
  Property C26. The gate is honest and restrained. It says OK only with a report of the last observation
  in which every node is \<open>Ready\<close>, and never after a node was \<open>Fatal\<close>; over the whole run no node is
  restarted more often than the cap, only nodes judged \<open>Restartable\<close> are restarted, and none once a
  \<open>Fatal\<close> node was seen.
\<close>

theorem gate_is_restrained:
  assumes "Gate E opts w = Some (r, g)"
  shows "(\<forall>R. r = Inr R \<and> OK R \<longrightarrow> allReady (Reports R) \<and> Terminate R = None \<and> fatalFree (g_evidence g))
     \<and> (\<forall>n. int (recoveries n (g_evidence g)) \<le> MaxRestarts (withDefaults opts))
     \<and> (\<forall>n k e. EvRecovery n k e \<in> set (g_evidence g) \<longrightarrow>
          (\<exists>j rep. EvVerdict j rep \<in> set (g_evidence g) \<and> r_node rep = n \<and> r_verdict rep = Restartable))
     \<and> (\<forall>xs ys j rep. g_evidence g = xs @ EvVerdict j rep # ys \<and> r_verdict rep = Fatal
          \<longrightarrow> (\<forall>n k e. EvRecovery n k e \<notin> set ys))"
proof -
  let ?o = "withDefaults opts"
  have "gateInv ?o (startGate ?o w :: ('b, 'a) gateState)"
    using withDefaults_positive(3) [of opts] by (simp add: gateInv_def startGate_def restrained_def fatalFree_def)
  from restraint.loop_result [OF _ this] assms have "gateEnd ?o r g" by (simp add: Gate_def Let_def)
  then show ?thesis by (auto simp: gateEnd_def restrained_def)
qed

section \<open>Witnesses\<close>

text \<open>
  A node that is down, comes back when it is restarted, and is ready once it was waited for: the world
  counts the restarts and waits so far.
\<close>

definition sampleFacts :: "bool \<Rightarrow> bool \<Rightarrow> Facts" where
  "sampleFacts alive up =
     \<lparr>f_node = 1, f_label = ''node1'', Wanted = True, Retired = False, WantChainID = 7, WantPeers = 0,
      WantParticipate = False, WantHeight = 3, WantMinHeight = 0, PIDAlive = alive, RPCUp = up, ChainID = 7,
      Height = 2, Advancing = True, Syncing = False, PeersSeen = 0, Participating = False, Forked = False,
      Failure = UnknownFailure\<rparr>"

definition sampleEnv :: "(nat \<times> nat, unit) gateEnv" where
  "sampleEnv = \<lparr>ctxErr = (\<lambda>w. None), gateCtxErr = (\<lambda>w. None),
     Observe = (\<lambda>w. (w, Inr [sampleFacts (fst w \<ge> 1) (snd w \<ge> 1)])),
     Restart = (\<lambda>n w. ((fst w + 1, snd w), None)), Sleep = (\<lambda>d w. ((fst w, snd w + 1), None))\<rparr>"

definition sampleOptions :: Options where
  "sampleOptions = \<lparr>MaxNodeMonitorTimeout = 10, WaitInterval = 3, MaxRestarts = 0\<rparr>"

lemma sample_verdicts:
  "r_verdict (Classify (sampleFacts False u)) = Restartable" "r_verdict (Classify (sampleFacts True False)) = Waitable"
  "r_verdict (Classify (sampleFacts True True)) = Ready" "r_node (Classify (sampleFacts a u)) = 1"
  by (simp_all add: Classify_verdict needsRemedy_def needsRestart_def isThere_def sampleFacts_def heightLagTolerance_def)

lemma sample_options: "withDefaults sampleOptions = \<lparr>MaxNodeMonitorTimeout = 10, WaitInterval = 3, MaxRestarts = 1\<rparr>"
  by (simp add: sampleOptions_def withDefaults_def DefaultMaxRestarts_def)

lemma sample_gate:
  "\<exists>g. Gate sampleEnv sampleOptions (0, 0)
     = Some (Inr \<lparr>OK = True, Reports = [Classify (sampleFacts True True)], Terminate = None\<rparr>, g)
     \<and> recoveries 1 (g_evidence g) = 1"
proof -
  let ?f = "gateRound sampleEnv (withDefaults sampleOptions)"
  note run = gateRound_def sampleEnv_def sample_options sample_verdicts Let_def startGate_def
  obtain g1 where g1: "?f (startGate (withDefaults sampleOptions) (0, 0)) = (g1, None)" "g_world g1 = (1, 0)"
    "g_remaining g1 = 10" "recoveries 1 (g_evidence g1) = 1"
    by (simp add: run recoveries_def)
  obtain g2 where g2: "?f g1 = (g2, None)" "g_world g2 = (1, 1)" "recoveries 1 (g_evidence g2) = 1"
    using g1(2-4) by (simp add: run recoveries_def)
  obtain g3 where g3: "?f g2 = (g3, Some (Inr \<lparr>OK = True, Reports = [Classify (sampleFacts True True)], Terminate = None\<rparr>))"
    "recoveries 1 (g_evidence g3) = 1"
    using g2(2,3) by (simp add: run recoveries_def)
  show ?thesis
    using go_loop_again [of ?f, OF g1(1)] go_loop_again [of ?f, OF g2(1)] go_loop_leave [of ?f, OF g3(1)] g3(2)
    by (simp add: Gate_def Let_def)
qed


theorem gate_returns_witness:
  "\<exists>r g. Gate sampleEnv sampleOptions (0, 0) = Some (r, g) \<and> int (g_round g) \<le> 5"
proof -
  have "\<forall>w facts. snd (Observe sampleEnv w) = Inr facts \<longrightarrow> f_node ` set facts \<subseteq> {1}"
    by (auto simp: sampleEnv_def sampleFacts_def)
  from gate_returns [OF _ this, of sampleOptions "(0, 0)"] show ?thesis
    by (simp add: sampleOptions_def withDefaults_def DefaultMaxRestarts_def)
qed

theorem gate_is_restrained_witness:
  "\<exists>R g. Gate sampleEnv sampleOptions (0, 0) = Some (Inr R, g) \<and> OK R \<and> allReady (Reports R)
     \<and> recoveries 1 (g_evidence g) = 1 \<and> int (recoveries 1 (g_evidence g)) \<le> MaxRestarts (withDefaults sampleOptions)"
proof -
  from sample_gate obtain R g where g: "Gate sampleEnv sampleOptions (0, 0) = Some (Inr R, g)" "OK R"
    "recoveries 1 (g_evidence g) = 1" by force
  with gate_is_restrained [OF g(1)] show ?thesis by blast
qed

end
