(* ===== verification/Net_Health.thy ===== *)
theory Net_Health
  imports Node_Placement Go_Loop "HOL-Library.Word" "HOL-Library.List_Lexorder" "HOL-Library.Char_ord"
begin

text \<open>
  The inspection of a running network (\<open>internal/core/health\<close>): whether the primary node's height
  advances, the state of each node, whether the nodes agree on one chain, and which validators seal.
  What nodes answer over RPC is a parameter: the answers of a repeated question are numbered by the
  call. The event bus is left out.
\<close>

type_synonym uint64 = "64 word"

definition fmt_uint :: "uint64 \<Rightarrow> string" where
  "fmt_uint w = itoa (uint w)"

definition fmt_ints :: "int list \<Rightarrow> string" where
  "fmt_ints xs = ''['' @ join '' '' (map itoa xs) @ '']''"

section \<open>Reports (health.go)\<close>

record Agreement =
  Checked :: bool
  Agreed :: bool
  ag_height :: uint64
  Detail :: string

record NodeInfo =
  i_index :: int
  i_rpcURL :: string
  i_chainID :: uint64
  BlockNumber :: uint64
  PeerCount :: uint64
  i_syncing :: bool
  i_ok :: bool
  i_err :: string

record HealthReport =
  rep_network :: string
  Producing :: bool
  rep_agreement :: Agreement
  rep_nodes :: "NodeInfo list"

text \<open>
  The answers of the nodes. \<open>polled\<close>: the block number the primary gives at each poll, and whether
  the context has ended by then; the others are asked once for each node, by its position.
\<close>

record 'e answers =
  polled :: "nat \<Rightarrow> 'e + uint64"
  ended :: "nat \<Rightarrow> bool"
  chainIDOf :: "nat \<Rightarrow> 'e + uint64"
  blockNumberOf :: "nat \<Rightarrow> 'e + uint64"
  peerCountOf :: "nat \<Rightarrow> 'e + uint64"
  syncingOf :: "nat \<Rightarrow> 'e + bool"
  isHasher :: "nat \<Rightarrow> bool"
  blockHashAt :: "nat \<Rightarrow> uint64 \<Rightarrow> 'e + string"
  errText :: "'e \<Rightarrow> string"

section \<open>Producing\<close>

text \<open>The state of the polling loop: polls made, time waited, the baseline once there is one.\<close>

record pollState =
  p_polls :: nat
  p_waited :: int
  p_baseline :: "uint64 option"

definition pollRound :: "'e answers \<Rightarrow> int \<Rightarrow> int \<Rightarrow> pollState \<Rightarrow> pollState \<times> bool option" where
  "pollRound A delay timeout s =
     (if \<not> p_waited s < timeout then (s, Some False)
      else if ended A (p_polls s) then (s, Some False)
      else
        let next = s\<lparr>p_polls := p_polls s + 1, p_waited := p_waited s + delay\<rparr>
        in case polled A (p_polls s) of
             Inl e \<Rightarrow> (next, None)
           | Inr cur \<Rightarrow>
               (case p_baseline s of
                  None \<Rightarrow> (next\<lparr>p_baseline := Some cur\<rparr>, None)
                | Some b \<Rightarrow> if cur > b then (s, Some True) else (next, None)))"

definition detectProducing :: "'e answers \<Rightarrow> NodeSet \<Rightarrow> int \<Rightarrow> int \<Rightarrow> bool option" where
  "detectProducing A ns delay timeout =
     (case Primary ns of
        None \<Rightarrow> Some False
      | Some primary \<Rightarrow>
          if timeout \<le> 0 then
            (case polled A 0 of
               Inl e \<Rightarrow> Some False
             | Inr baseline \<Rightarrow>
                 (case polled A 1 of Inl e \<Rightarrow> Some False | Inr second \<Rightarrow> Some (second > baseline)))
          else
            map_option fst (go_loop (pollRound A delay timeout) \<lparr>p_polls = 0, p_waited = 0, p_baseline = None\<rparr>))"

section \<open>Agreement\<close>

definition short :: "string \<Rightarrow> string" where
  "short hash = (if length hash > 12 then take 12 hash @ [CHR 0xE2, CHR 0x80, CHR 0xA6] else hash)"

text \<open>The answering nodes with their positions, and the lowest head among them.\<close>

definition liveNodes :: "NodeInfo list \<Rightarrow> (nat \<times> NodeInfo) list" where
  "liveNodes infos = filter (\<lambda>(i, info). i_ok info) (enumerate 0 infos)"

definition commonHeight :: "(nat \<times> NodeInfo) list \<Rightarrow> uint64" where
  "commonHeight live =
     foldl (\<lambda>common (i, info). if BlockNumber info < common then BlockNumber info else common) (- 1) live"

text \<open>\<open>byHash[hash] = append(byHash[hash], index)\<close>, the groups in the order the hashes appeared.\<close>

fun addHash :: "(string \<times> int list) list \<Rightarrow> string \<Rightarrow> int \<Rightarrow> (string \<times> int list) list" where
  "addHash [] h i = [(h, [i])]"
| "addHash ((h', is) # gs) h i = (if h' = h then (h', is @ [i]) # gs else (h', is) # addHash gs h i)"

datatype hashStop = NoHasher | NoHash int

fun hashLoop ::
  "'e answers \<Rightarrow> uint64 \<Rightarrow> (nat \<times> NodeInfo) list \<Rightarrow> (string \<times> int list) list \<Rightarrow> hashStop + (string \<times> int list) list"
where
  "hashLoop A common [] byHash = Inr byHash"
| "hashLoop A common ((i, info) # live) byHash =
     (if \<not> isHasher A i then Inl NoHasher
      else case blockHashAt A i common of
        Inl e \<Rightarrow> Inl (NoHash (i_index info))
      | Inr hash \<Rightarrow>
          if hash = '''' then Inl (NoHash (i_index info))
          else hashLoop A common live (addHash byHash hash (i_index info)))"

definition notCompared :: "string \<Rightarrow> Agreement" where
  "notCompared d = \<lparr>Checked = False, Agreed = False, ag_height = 0, Detail = d\<rparr>"

definition checkAgreement :: "'e answers \<Rightarrow> NodeInfo list \<Rightarrow> Agreement" where
  "checkAgreement A infos =
     (let live = liveNodes infos; common = commonHeight live
      in if length live < 2 then
           notCompared (''only '' @ itoa (int (length live)) @ '' node(s) answered; agreement needs at least two'')
         else if common = 0 then
           notCompared ''the lowest node is still at genesis; nothing produced to compare yet''
         else case hashLoop A common live [] of
           Inl NoHasher \<Rightarrow> notCompared ''this prober cannot read a block hash, so agreement was not checked''
         | Inl (NoHash n) \<Rightarrow>
             notCompared (''node'' @ itoa n @ '' could not report its hash at block '' @ fmt_uint common
               @ '', so agreement was not checked'')
         | Inr byHash \<Rightarrow>
             if length byHash = 1 then
               \<lparr>Checked = True, Agreed = True, ag_height = common,
                Detail = ''all '' @ itoa (int (length live)) @ '' node(s) report the same hash at block '' @ fmt_uint common\<rparr>
             else
               \<lparr>Checked = True, Agreed = False, ag_height = common,
                Detail = ''block '' @ fmt_uint common @ '' has '' @ itoa (int (length byHash)) @ '' different hashes ''
                  @ [CHR 0xE2, CHR 0x80, CHR 0x94] @ '' ''
                  @ join ''; '' (sort (map (\<lambda>(h, nodes). short h @ '': '' @ fmt_ints (sort nodes)) byHash))\<rparr>)"

section \<open>The whole inspection\<close>

text \<open>\<open>fill\<close>: the four questions in order, stopping at the first that fails.\<close>

definition fill :: "'e answers \<Rightarrow> nat \<Rightarrow> NodeInfo \<Rightarrow> NodeInfo \<times> 'e option" where
  "fill A k info =
     (case chainIDOf A k of Inl e \<Rightarrow> (info\<lparr>i_chainID := 0\<rparr>, Some e) | Inr c \<Rightarrow>
      let info = info\<lparr>i_chainID := c\<rparr>
      in case blockNumberOf A k of Inl e \<Rightarrow> (info\<lparr>BlockNumber := 0\<rparr>, Some e) | Inr b \<Rightarrow>
      let info = info\<lparr>BlockNumber := b\<rparr>
      in case peerCountOf A k of Inl e \<Rightarrow> (info\<lparr>PeerCount := 0\<rparr>, Some e) | Inr p \<Rightarrow>
      let info = info\<lparr>PeerCount := p\<rparr>
      in case syncingOf A k of Inl e \<Rightarrow> (info\<lparr>i_syncing := False\<rparr>, Some e) | Inr s \<Rightarrow>
         (info\<lparr>i_syncing := s\<rparr>, None))"

definition nodeInfo :: "'e answers \<Rightarrow> nat \<Rightarrow> Node \<Rightarrow> NodeInfo" where
  "nodeInfo A k n =
     (let info = \<lparr>i_index = n_index n, i_rpcURL = n_rpcURL n, i_chainID = 0, BlockNumber = 0, PeerCount = 0,
                   i_syncing = False, i_ok = False, i_err = ''''\<rparr>
      in case fill A k info of
           (info', Some e) \<Rightarrow> info'\<lparr>i_ok := False, i_err := errText A e\<rparr>
         | (info', None) \<Rightarrow> info'\<lparr>i_ok := True\<rparr>)"

definition RunHealth :: "'e answers \<Rightarrow> NodeSet \<Rightarrow> int \<Rightarrow> int \<Rightarrow> HealthReport option" where
  "RunHealth A ns progressDelay readyTimeout =
     (let delay = (if progressDelay = 0 then 2 * 1000000000 else progressDelay)
      in case detectProducing A ns delay readyTimeout of
           None \<Rightarrow> None
         | Some producing \<Rightarrow>
             (let infos = map (\<lambda>(k, n). nodeInfo A k n) (enumerate 0 (ns_nodes ns))
              in Some \<lparr>rep_network = ns_network ns, Producing = producing,
                   rep_agreement = checkAgreement A infos, rep_nodes = infos\<rparr>))"

section \<open>Participation (participation.go)\<close>

definition lower_char :: "char \<Rightarrow> char" where
  "lower_char c = (if CHR ''A'' \<le> c \<and> c \<le> CHR ''Z'' then char_of (of_char c + 32 :: nat) else c)"

text \<open>\<open>strings.ToLower\<close> on the ASCII characters addresses are written in.\<close>

definition lower :: "string \<Rightarrow> string" where
  "lower s = map lower_char s"

record Participation =
  Window :: int
  Sealed :: "(string \<times> nat) list"
  Silent :: "string list"
  Known :: bool

definition Formed :: "Participation \<Rightarrow> bool" where
  "Formed p \<longleftrightarrow> \<not> Known p \<or> length (Silent p) = 0"

definition Describe :: "Participation \<Rightarrow> string" where
  "Describe p =
     (if \<not> Known p then ''sealer participation unknown (this chain does not name a sealer per block)''
      else if length (Silent p) = 0 then ''every validator sealed within the last '' @ itoa (Window p) @ '' blocks''
      else itoa (int (length (Silent p))) @ '' of '' @ itoa (int (length (Sealed p) + length (Silent p)))
        @ '' validators sealed nothing in the last '' @ itoa (Window p) @ '' blocks: '' @ join '', '' (Silent p))"

text \<open>\<open>p.Sealed[a]++\<close>.\<close>

fun incr :: "(string \<times> nat) list \<Rightarrow> string \<Rightarrow> (string \<times> nat) list" where
  "incr [] a = [(a, 1)]"
| "incr ((b, n) # m) a = (if b = a then (b, n + 1) # m else (b, n) # incr m a)"

definition countSealer :: "string set \<Rightarrow> (string \<times> nat) list \<Rightarrow> string \<Rightarrow> (string \<times> nat) list" where
  "countSealer want sealed addr = (if lower addr \<in> want then incr sealed (lower addr) else sealed)"

text \<open>The loop over the blocks below the head, from distance \<open>i\<close>; the window and the counts.\<close>

function sealLoop ::
  "(uint64 \<Rightarrow> 'e + string) \<Rightarrow> string set \<Rightarrow> uint64 \<Rightarrow> int \<Rightarrow> int \<Rightarrow> (string \<times> nat) list \<Rightarrow> int \<times> (string \<times> nat) list"
where
  "sealLoop blockMiner want head window i sealed =
     (if i < window \<and> word_of_int i \<le> head then
        (case blockMiner (head - word_of_int i) of
           Inl e \<Rightarrow> (i, sealed)
         | Inr m \<Rightarrow> sealLoop blockMiner want head window (i + 1) (countSealer want sealed m))
      else (window, sealed))"
  by pat_completeness auto
termination by (relation "measure (\<lambda>(b, want, head, window, i, s). nat (window - i))") auto

definition Participants ::
  "('e + uint64 \<times> string) \<Rightarrow> (uint64 \<Rightarrow> 'e + string) \<Rightarrow> string list \<Rightarrow> int \<Rightarrow> Participation \<times> 'e option"
where
  "Participants headBlock blockMiner validators window =
     (let p = \<lparr>Window = window, Sealed = [], Silent = [], Known = False\<rparr>
      in if validators = [] \<or> window \<le> 0 then (p, None)
         else case headBlock of
           Inl e \<Rightarrow> (p, Some e)
         | Inr (head, miner) \<Rightarrow>
             if miner = '''' then (p, None)
             else
               (let want = set (map lower validators);
                    (w, sealed) = sealLoop blockMiner want head window 1 (countSealer want [] miner)
                in (\<lparr>Window = w, Sealed = sealed,
                     Silent = sort (filter (\<lambda>a. a \<notin> fst ` set sealed) (remdups (map lower validators))),
                     Known = True\<rparr>, None)))"

definition WindowFor :: "int \<Rightarrow> int" where
  "WindowFor n = (if n < 1 then 0 else 2 * n)"

end
