(* ===== verification/Health_Laws.thy ===== *)
theory Health_Laws
  imports Net_Health
begin

text \<open>
  What the inspection of a network says is true: it reports production exactly when a height was seen to
  rise, agreement only after comparing every answering node at a block all of them have, and silent
  validators exactly.
\<close>

section \<open>Producing\<close>

text \<open>The first height answered before poll \<open>n\<close>, and whether poll \<open>n\<close> is above it.\<close>

definition baseline :: "'e answers \<Rightarrow> nat \<Rightarrow> uint64 option" where
  "baseline A n = map_option (\<lambda>k. projr (polled A k)) (find (\<lambda>k. \<not> isl (polled A k)) [0..<n])"

definition risesAt :: "'e answers \<Rightarrow> nat \<Rightarrow> bool" where
  "risesAt A n \<longleftrightarrow> (\<exists>b c. baseline A n = Some b \<and> polled A n = Inr c \<and> b < c)"

text \<open>Poll \<open>n\<close> is made: the window is still open then and the context did not end before it.\<close>

definition pollMade :: "'e answers \<Rightarrow> int \<Rightarrow> int \<Rightarrow> nat \<Rightarrow> bool" where
  "pollMade A delay timeout n \<longleftrightarrow> int n * delay < timeout \<and> (\<forall>k \<le> n. \<not> ended A k)"

definition seenRising :: "'e answers \<Rightarrow> int \<Rightarrow> int \<Rightarrow> bool" where
  "seenRising A delay timeout \<longleftrightarrow> (\<exists>n. pollMade A delay timeout n \<and> risesAt A n)"

lemma find_append: "find P (xs @ ys) = (case find P xs of None \<Rightarrow> find P ys | Some x \<Rightarrow> Some x)"
  by (induction xs) auto

lemma baseline_simps:
  "baseline A 0 = None"
  "baseline A (Suc n) = (case baseline A n of Some b \<Rightarrow> Some b
     | None \<Rightarrow> (case polled A n of Inl e \<Rightarrow> None | Inr c \<Rightarrow> Some c))"
  by (auto simp: baseline_def find_append split: option.splits sum.splits)

definition pollInv :: "'e answers \<Rightarrow> int \<Rightarrow> int \<Rightarrow> pollState \<Rightarrow> bool" where
  "pollInv A delay timeout s \<longleftrightarrow> 0 < delay \<and> p_waited s = int (p_polls s) * delay
     \<and> p_baseline s = baseline A (p_polls s)
     \<and> (\<forall>k < p_polls s. \<not> ended A k \<and> \<not> risesAt A k)"

lemma poll_over:
  assumes "0 < delay" "\<forall>k < n. \<not> risesAt A k" "\<not> int n * delay < timeout \<or> ended A n"
  shows "\<not> seenRising A delay timeout"
proof
  assume "seenRising A delay timeout"
  then obtain m where m: "int m * delay < timeout" "\<forall>k \<le> m. \<not> ended A k" "risesAt A m"
    by (auto simp: seenRising_def pollMade_def)
  then have "n \<le> m" using assms(2) by (meson not_le)
  then have "int n * delay \<le> int m * delay" using assms(1) by simp
  then show False using assms(3) m \<open>n \<le> m\<close> by auto
qed

interpretation poll: ranked_loop "pollRound A delay timeout" "pollInv A delay timeout"
    "\<lambda>r s. r \<longleftrightarrow> seenRising A delay timeout" "\<lambda>s. nat (timeout - p_waited s)"
  for A :: "'e answers" and delay timeout
proof unfold_locales
  fix s s' r
  assume i: "pollInv A delay timeout s"
  then have d: "0 < delay" "p_waited s = int (p_polls s) * delay" "p_baseline s = baseline A (p_polls s)"
    "\<forall>k < p_polls s. \<not> ended A k \<and> \<not> risesAt A k" by (auto simp: pollInv_def)
  show "pollInv A delay timeout s'" if it: "pollRound A delay timeout s = (s', None)"
  proof -
    have "\<not> ended A (p_polls s)" "p_waited s' = p_waited s + delay" "p_polls s' = p_polls s + 1"
      using it by (auto simp: pollRound_def Let_def split: if_splits sum.splits option.splits)
    moreover have "\<not> risesAt A (p_polls s)" "p_baseline s' = baseline A (Suc (p_polls s))"
      using it d(3) by (auto simp: pollRound_def Let_def risesAt_def baseline_simps(2) split: if_splits sum.splits option.splits)
    ultimately show ?thesis using d by (auto simp: pollInv_def less_Suc_eq algebra_simps)
  qed
  show "nat (timeout - p_waited s') < nat (timeout - p_waited s)" if it: "pollRound A delay timeout s = (s', None)"
  proof -
    have "p_waited s < timeout" "p_waited s' = p_waited s + delay"
      using it by (auto simp: pollRound_def Let_def split: if_splits sum.splits option.splits)
    then show ?thesis using d(1) by simp
  qed
  show "r \<longleftrightarrow> seenRising A delay timeout" if it: "pollRound A delay timeout s = (s', Some r)"
  proof (cases "\<not> int (p_polls s) * delay < timeout \<or> ended A (p_polls s)")
    case True
    then have "\<not> r" using it d(2) by (auto simp: pollRound_def split: if_splits)
    then show ?thesis using poll_over [OF d(1) _ True] d(4) by blast
  next
    case False
    then have "r \<and> risesAt A (p_polls s)"
      using it d(2,3) by (auto simp: pollRound_def Let_def risesAt_def split: if_splits sum.splits option.splits)
    moreover have "pollMade A delay timeout (p_polls s)" using False d(4) by (auto simp: pollMade_def le_less)
    ultimately show ?thesis unfolding seenRising_def by blast
  qed
qed

text \<open>
  With a readiness window, production is reported exactly when it was seen: a poll made
  while the window was open and the context alive answered a height above the first height answered.
  The loop ends, whatever the node answers.
\<close>

theorem producing_iff_height_rose:
  assumes "ns_nodes ns \<noteq> []" and "0 < delay" and "0 < timeout"
  shows "detectProducing A ns delay timeout = Some (seenRising A delay timeout)"
proof -
  let ?s = "\<lparr>p_polls = 0, p_waited = 0, p_baseline = None\<rparr>"
  have i: "pollInv A delay timeout ?s" using assms(2) by (simp add: pollInv_def baseline_simps)
  obtain r s where g: "go_loop (pollRound A delay timeout) ?s = Some (r, s)" using poll.loop_returns [OF i] by blast
  have "r \<longleftrightarrow> seenRising A delay timeout" by (rule poll.loop_result [OF g i])
  moreover have "Primary ns \<noteq> None" using assms(1) by (auto simp: Primary_def split: list.splits)
  ultimately show ?thesis using g assms(3) by (auto simp: detectProducing_def)
qed

section \<open>Agreement\<close>

lemma commonHeight_spec:
  assumes "live \<noteq> []"
  shows "\<forall>x \<in> set live. commonHeight live \<le> BlockNumber (snd x)" "\<exists>x \<in> set live. commonHeight live = BlockNumber (snd x)"
proof -
  let ?f = "\<lambda>(common :: uint64) (i :: nat, info). if BlockNumber info < common then BlockNumber info else common"
  have low: "foldl ?f c xs \<le> c \<and> (\<forall>x \<in> set xs. foldl ?f c xs \<le> BlockNumber (snd x))" for c xs
  proof (induction xs arbitrary: c)
    case (Cons x xs)
    obtain i info where x: "x = (i, info)" by fastforce
    let ?c = "if BlockNumber info < c then BlockNumber info else c"
    have "?c \<le> c" "?c \<le> BlockNumber info" by auto
    moreover have "foldl ?f ?c xs \<le> ?c \<and> (\<forall>x \<in> set xs. foldl ?f ?c xs \<le> BlockNumber (snd x))" by (rule Cons.IH)
    ultimately show ?case using x by (auto intro: order_trans)
  qed simp
  have hit: "foldl ?f c xs = c \<or> (\<exists>x \<in> set xs. foldl ?f c xs = BlockNumber (snd x))" for c xs
  proof (induction xs arbitrary: c)
    case (Cons x xs)
    obtain i info where x: "x = (i, info)" by fastforce
    let ?c = "if BlockNumber info < c then BlockNumber info else c"
    have "foldl ?f c (x # xs) = foldl ?f ?c xs" using x by simp
    moreover have "?c = c \<or> ?c = BlockNumber (snd x)" using x by simp
    ultimately show ?case using Cons.IH [of ?c] by (simp only: list.set bex_simps) (elim disjE; simp)
  qed simp
  show all: "\<forall>x \<in> set live. commonHeight live \<le> BlockNumber (snd x)"
    using low [of "- 1" live] unfolding commonHeight_def by blast
  have top: "- 1 \<le> b \<Longrightarrow> b = - 1" for b :: uint64 using word_n1_ge [of b] by (rule order.antisym)
  show "\<exists>x \<in> set live. commonHeight live = BlockNumber (snd x)"
  proof (cases "commonHeight live = - 1")
    case True
    obtain x where "x \<in> set live" using assms by (cases live) auto
    then show ?thesis using all top True by metis
  next
    case False
    then show ?thesis using hit [of "- 1" live] unfolding commonHeight_def by blast
  qed
qed

lemma addHash_keys: "fst ` set (addHash g h i) = insert h (fst ` set g)"
  by (induction g h i rule: addHash.induct) auto

lemma addHash_distinct: "distinct (map fst g) \<Longrightarrow> distinct (map fst (addHash g h i))"
  by (induction g h i rule: addHash.induct) (use addHash_keys in auto)

lemma hashLoop_Inr:
  assumes "hashLoop A c live g = Inr g'"
  shows "\<forall>x \<in> set live. \<exists>h. blockHashAt A (fst x) c = Inr h \<and> h \<noteq> ''''"
    "fst ` set g' = fst ` set g \<union> {h. \<exists>x \<in> set live. blockHashAt A (fst x) c = Inr h}"
    "distinct (map fst g) \<Longrightarrow> distinct (map fst g')"
  using assms
proof (induction A c live g rule: hashLoop.induct)
  case (2 A c i info live g)
  { case 1 then show ?case using 2 by (auto split: if_splits sum.splits)
  next
    case 2 then show ?case using "2.IH"(2) by (auto simp: addHash_keys split: if_splits sum.splits)
  next
    case 3 then show ?case using "2.IH"(3) by (auto simp: addHash_distinct split: if_splits sum.splits) }
qed auto

lemma checkAgreement_Checked:
  assumes "Checked (checkAgreement A infos)"
  obtains g where "2 \<le> length (liveNodes infos)" "commonHeight (liveNodes infos) \<noteq> 0"
    "hashLoop A (commonHeight (liveNodes infos)) (liveNodes infos) [] = Inr g"
    "ag_height (checkAgreement A infos) = commonHeight (liveNodes infos)"
    "Agreed (checkAgreement A infos) \<longleftrightarrow> length g = 1"
proof -
  let ?l = "liveNodes infos" and ?c = "commonHeight (liveNodes infos)"
  have 1: "2 \<le> length ?l" "?c \<noteq> 0"
    using assms by (auto simp: checkAgreement_def Let_def notCompared_def split: if_splits)
  show ?thesis
  proof (cases "hashLoop A ?c ?l []")
    case (Inl e)
    then have "\<not> Checked (checkAgreement A infos)" using 1 by (cases e) (simp_all add: checkAgreement_def Let_def notCompared_def)
    then show ?thesis using assms by simp
  next
    case (Inr g)
    then show ?thesis using 1 that [of g] by (cases "length g = 1") (simp_all add: checkAgreement_def Let_def)
  qed
qed

text \<open>
  Property C34. An agreement that says it was checked was: at least two nodes answered, the block compared
  is the lowest head among them and not the genesis, and every one of them gave a hash for it. It says the
  nodes agreed exactly when those hashes are all the same; and never that they agreed without checking.
\<close>

theorem agreement_is_honest:
  "let a = checkAgreement A infos; live = liveNodes infos
   in (Checked a \<longrightarrow> 2 \<le> length live \<and> 0 < ag_height a
         \<and> (\<forall>x \<in> set live. ag_height a \<le> BlockNumber (snd x)) \<and> (\<exists>x \<in> set live. ag_height a = BlockNumber (snd x))
         \<and> (\<forall>x \<in> set live. \<exists>h. blockHashAt A (fst x) (ag_height a) = Inr h \<and> h \<noteq> '''')
         \<and> (Agreed a \<longleftrightarrow> (\<exists>h. \<forall>x \<in> set live. blockHashAt A (fst x) (ag_height a) = Inr h)))
      \<and> (\<not> Checked a \<longrightarrow> \<not> Agreed a)"
proof -
  let ?a = "checkAgreement A infos" and ?l = "liveNodes infos"
  have "2 \<le> length ?l \<and> 0 < ag_height ?a
         \<and> (\<forall>x \<in> set ?l. ag_height ?a \<le> BlockNumber (snd x)) \<and> (\<exists>x \<in> set ?l. ag_height ?a = BlockNumber (snd x))
         \<and> (\<forall>x \<in> set ?l. \<exists>h. blockHashAt A (fst x) (ag_height ?a) = Inr h \<and> h \<noteq> '''')
         \<and> (Agreed ?a \<longleftrightarrow> (\<exists>h. \<forall>x \<in> set ?l. blockHashAt A (fst x) (ag_height ?a) = Inr h))"
    if "Checked ?a"
    using that
  proof (cases rule: checkAgreement_Checked)
    case (1 g)
    note ag = \<open>ag_height ?a = commonHeight ?l\<close>
    have ne: "?l \<noteq> []" using 1(1) by auto
    note h = hashLoop_Inr [OF 1(3)]
    have keys: "fst ` set g = {h. \<exists>x \<in> set ?l. blockHashAt A (fst x) (ag_height ?a) = Inr h}" using h(2) ag by simp
    have "card (fst ` set g) = length g" using h(3) by (metis distinct_card distinct_map list.map(1) list.set_map map_map length_map distinct.simps(1))
    then have "Agreed ?a \<longleftrightarrow> (\<exists>k. fst ` set g = {k})" using 1(5) by (auto simp: card_1_singleton_iff)
    also have "\<dots> \<longleftrightarrow> (\<exists>h. \<forall>x \<in> set ?l. blockHashAt A (fst x) (ag_height ?a) = Inr h)"
    proof
      assume "\<exists>k. fst ` set g = {k}"
      then obtain k where k: "fst ` set g = {k}" ..
      have "blockHashAt A (fst x) (ag_height ?a) = Inr k" if "x \<in> set ?l" for x
        using h(1) that k keys ag by fastforce
      then show "\<exists>h. \<forall>x \<in> set ?l. blockHashAt A (fst x) (ag_height ?a) = Inr h" by blast
    next
      assume "\<exists>h. \<forall>x \<in> set ?l. blockHashAt A (fst x) (ag_height ?a) = Inr h"
      then obtain k where "\<forall>x \<in> set ?l. blockHashAt A (fst x) (ag_height ?a) = Inr k" ..
      moreover obtain x0 where "x0 \<in> set ?l" using ne by (cases ?l) auto
      ultimately have "fst ` set g = {k}" unfolding keys by fastforce
      then show "\<exists>k. fst ` set g = {k}" ..
    qed
    finally show ?thesis
      using 1(1,2) ag h(1) commonHeight_spec [OF ne] by (simp add: word_gt_0)
  qed
  moreover have "\<not> Checked ?a \<longrightarrow> \<not> Agreed ?a"
    by (auto simp: checkAgreement_def Let_def notCompared_def split: sum.splits hashStop.splits)
  ultimately show ?thesis unfolding Let_def by blast
qed

section \<open>Participation\<close>

declare sealLoop.simps [simp del]

text \<open>The sealers of the blocks below the head that the loop reads, newest first: at most the window
  less one, none below the genesis, and none past the first block that cannot be read.\<close>

definition sealersBelow :: "(uint64 \<Rightarrow> 'e + string) \<Rightarrow> uint64 \<Rightarrow> int \<Rightarrow> int \<Rightarrow> string list" where
  "sealersBelow bm head window i =
     map projr (takeWhile (\<lambda>x. \<not> isl x) (map (\<lambda>k. bm (head - word_of_int k)) [i..min (window - 1) (uint head)]))"

lemma word_of_int_le_iff:
  assumes "0 \<le> i" "i < 2 ^ 63"
  shows "word_of_int i \<le> (head :: uint64) \<longleftrightarrow> i \<le> uint head"
  using assms by (simp add: word_le_def uint_word_of_int take_bit_int_eq_self)

lemma sealLoop_sealers:
  assumes "1 \<le> i" "window \<le> 2 ^ 63"
  shows "snd (sealLoop bm want head window i sealed) = foldl (countSealer want) sealed (sealersBelow bm head window i)"
  using assms
proof (induction bm want head window i sealed rule: sealLoop.induct)
  case (1 bm want head window i sealed)
  show ?case
  proof (cases "i < window \<and> word_of_int i \<le> head")
    case False
    then have "\<not> i \<le> min (window - 1) (uint head)" using "1.prems" word_of_int_le_iff [of i head] by auto
    then have "[i..min (window - 1) (uint head)] = []" by (intro upto_empty) linarith
    then have "sealersBelow bm head window i = []" by (simp only: sealersBelow_def list.map takeWhile.simps)
    moreover have "sealLoop bm want head window i sealed = (window, sealed)"
      by (subst sealLoop.simps) (rule if_not_P [OF False])
    ultimately show ?thesis by simp
  next
    case True
    then have "i \<le> min (window - 1) (uint head)" using "1.prems" word_of_int_le_iff [of i head] by auto
    then have "[i..min (window - 1) (uint head)] = i # [i + 1..min (window - 1) (uint head)]" by (simp add: upto_rec1)
    then have l: "sealersBelow bm head window i =
        (case bm (head - word_of_int i) of Inl e \<Rightarrow> [] | Inr m \<Rightarrow> m # sealersBelow bm head window (i + 1))"
      by (simp add: sealersBelow_def split: sum.splits)
    show ?thesis
    proof (cases "bm (head - word_of_int i)")
      case (Inl e)
      then show ?thesis using True l by (simp add: sealLoop.simps [of bm want head window i])
    next
      case (Inr m)
      then show ?thesis using True l "1.IH" [OF True Inr] "1.prems" by (simp add: sealLoop.simps [of bm want head window i])
    qed
  qed
qed

definition plus_count :: "nat option \<Rightarrow> nat \<Rightarrow> nat option" where
  "plus_count x n = (if n = 0 then x else Some (n + (case x of None \<Rightarrow> 0 | Some k \<Rightarrow> k)))"

lemma map_of_incr: "map_of (incr m a) b = (if b = a then plus_count (map_of m a) 1 else map_of m b)"
  by (induction m a rule: incr.induct) (auto simp: plus_count_def)

lemma map_of_count:
  "map_of (foldl (countSealer want) sealed ms) a =
     (if a \<in> want then plus_count (map_of sealed a) (length (filter (\<lambda>m. lower m = a) ms)) else map_of sealed a)"
proof (induction ms arbitrary: sealed)
  case (Cons m ms)
  have "plus_count (plus_count x 1) n = plus_count x (Suc n)" for x n by (simp add: plus_count_def split: option.splits)
  moreover have "map_of (countSealer want sealed m) a
      = (if a \<in> want \<and> lower m = a then plus_count (map_of sealed a) 1 else map_of sealed a)"
    by (auto simp: countSealer_def map_of_incr)
  ultimately show ?case by (simp add: Cons.IH)
qed (simp add: plus_count_def)

text \<open>
  The participation report is exact. On a chain that names its sealers, a validator is
  called silent exactly when it sealed none of the blocks read, and counted with as many as it sealed,
  whatever the casing of its address; the network is formed exactly when every validator sealed one.
\<close>

theorem participation_is_exact:
  assumes "validators \<noteq> []" and "0 < window" and "window \<le> 2 ^ 63" and "miner \<noteq> ''''"
  shows "\<exists>p. Participants (Inr (head, miner)) bm validators window = (p, None) \<and> Known p
     \<and> (let sealers = map lower (miner # sealersBelow bm head window 1)
        in set (Silent p) = lower ` set validators - set sealers \<and> sorted (Silent p) \<and> distinct (Silent p)
           \<and> (\<forall>a. map_of (Sealed p) a =
                (if a \<in> lower ` set validators \<and> a \<in> set sealers then Some (length (filter (\<lambda>s. s = a) sealers)) else None))
           \<and> (Formed p \<longleftrightarrow> lower ` set validators \<subseteq> set sealers))"
proof -
  let ?want = "set (map lower validators)"
  let ?all = "miner # sealersBelow bm head window 1"
  define sealed where "sealed = foldl (countSealer ?want) [] ?all"
  obtain w where loop: "sealLoop bm ?want head window 1 (countSealer ?want [] miner) = (w, sealed)"
    using sealLoop_sealers [of 1 window bm ?want head "countSealer ?want [] miner"] assms(3)
    by (cases "sealLoop bm ?want head window 1 (countSealer ?want [] miner)") (simp add: sealed_def)
  let ?p = "\<lparr>Window = w, Sealed = sealed,
      Silent = sort (filter (\<lambda>a. a \<notin> fst ` set sealed) (remdups (map lower validators))), Known = True\<rparr>"
  have p: "Participants (Inr (head, miner)) bm validators window = (?p, None)"
    using assms loop by (simp add: Participants_def Let_def)
  have count: "map_of sealed a = (if a \<in> ?want \<and> a \<in> lower ` set ?all
      then Some (length (filter (\<lambda>m. lower m = a) ?all)) else None)" for a
  proof -
    have "length (filter (\<lambda>m. lower m = a) ?all) = 0 \<longleftrightarrow> a \<notin> lower ` set ?all"
      by (auto simp: filter_empty_conv)
    then show ?thesis unfolding sealed_def map_of_count by (simp add: plus_count_def del: filter.simps list.set(2))
  qed
  have keys: "fst ` set sealed = ?want \<inter> lower ` set ?all"
  proof -
    have "a \<in> dom (map_of sealed) \<longleftrightarrow> a \<in> ?want \<inter> lower ` set ?all" for a
      unfolding dom_def mem_Collect_eq count [of a] by simp
    then show ?thesis by (simp only: dom_map_of_conv_image_fst [symmetric]) blast
  qed
  have len: "length (filter (\<lambda>s. s = a) (map lower ?all)) = length (filter (\<lambda>m. lower m = a) ?all)" for a
    by (simp add: filter_map comp_def)
  have silent: "set (Silent ?p) = lower ` set validators - set (map lower ?all)"
  proof -
    have "set (Silent ?p) = {a \<in> ?want. a \<notin> fst ` set sealed}" by (simp only: Participation.simps set_sort set_filter set_remdups)
    also have "\<dots> = lower ` set validators - set (map lower ?all)" unfolding keys by (simp only: list.set_map) blast
    finally show ?thesis .
  qed
  moreover have "Formed ?p \<longleftrightarrow> lower ` set validators \<subseteq> set (map lower ?all)"
    using silent by (simp add: Formed_def del: list.set(2) flip: set_empty)
  ultimately show ?thesis
    using p count len by (intro exI [of _ ?p]) (simp add: Let_def del: list.set(2) filter.simps list.map(2))
qed

section \<open>Witnesses\<close>

definition sampleAnswers :: "string answers" where
  "sampleAnswers = \<lparr>polled = (\<lambda>k. if k = 0 then Inl ''refused'' else Inr (of_nat k)), ended = (\<lambda>k. False),
     chainIDOf = (\<lambda>k. Inr 7), blockNumberOf = (\<lambda>k. Inr (of_nat k + 3)), peerCountOf = (\<lambda>k. Inr 1),
     syncingOf = (\<lambda>k. Inr False), isHasher = (\<lambda>k. True), blockHashAt = (\<lambda>k n. Inr ''0xab''), errText = (\<lambda>e. e)\<rparr>"

definition sampleNode :: "int \<Rightarrow> Node" where
  "sampleNode i = \<lparr>n_chain = '''', n_index = i, n_role = ''bp'', n_host = ''h'', n_rpcURL = '''', n_metricsURL = '''',
     n_wsURL = '''', n_ports = \<lparr>P2P = 0, Etcd = 0, EtcdClient = 0, HTTP = 0, WS = 0, Auth = 0, Metrics = 0\<rparr>,
     n_pid = 0, n_apis = []\<rparr>"

definition sampleNet :: NodeSet where
  "sampleNet = \<lparr>ns_chain = ''c'', ns_network = ''n'', ns_nodes = [sampleNode 1, sampleNode 2], ns_capabilities = []\<rparr>"

theorem producing_iff_height_rose_witness:
  "detectProducing sampleAnswers sampleNet 2 5 = Some True \<and> detectProducing sampleAnswers sampleNet 2 4 = Some False"
proof -
  have ns: "ns_nodes sampleNet \<noteq> []" by (simp add: sampleNet_def)
  have b: "baseline sampleAnswers 0 = None" "baseline sampleAnswers 1 = None" "baseline sampleAnswers 2 = Some 1"
    by (simp_all add: baseline_def sampleAnswers_def upt_rec)
  have r: "risesAt sampleAnswers 2" "\<not> risesAt sampleAnswers 0" "\<not> risesAt sampleAnswers 1"
    unfolding risesAt_def b by (simp_all add: sampleAnswers_def)
  have "seenRising sampleAnswers 2 5"
    unfolding seenRising_def pollMade_def using r(1) by (intro exI [of _ 2]) (simp add: sampleAnswers_def)
  moreover have "n = 0 \<or> n = 1" if "int n * 2 < 4" for n using that by linarith
  then have "\<not> seenRising sampleAnswers 2 4" unfolding seenRising_def pollMade_def using r(2,3) by blast
  ultimately show ?thesis
    using producing_iff_height_rose [OF ns, of 2 5 sampleAnswers] producing_iff_height_rose [OF ns, of 2 4 sampleAnswers]
    by simp
qed

theorem agreement_is_honest_witness:
  "let a = checkAgreement sampleAnswers (map (\<lambda>(k, n). nodeInfo sampleAnswers k n) (enumerate 0 (ns_nodes sampleNet)))
   in Checked a \<and> Agreed a \<and> ag_height a = 3 \<and> 0 < ag_height a"
proof -
  let ?is = "map (\<lambda>(k, n). nodeInfo sampleAnswers k n) (enumerate 0 (ns_nodes sampleNet))"
  have "Checked (checkAgreement sampleAnswers ?is) \<and> ag_height (checkAgreement sampleAnswers ?is) = 3"
    by code_simp
  then show ?thesis using agreement_is_honest [of sampleAnswers ?is] unfolding Let_def
    by (auto simp: sampleAnswers_def)
qed

theorem participation_is_exact_witness:
  "\<exists>p. Participants (Inr (5, ''0xA'')) (\<lambda>h. if h = 4 then Inr ''0xb'' else Inl ''gone'') [''0xa'', ''0xB'', ''0xc''] 6 = (p, None)
     \<and> set (Silent p) = {''0xc''} \<and> \<not> Formed p"
proof -
  let ?bm = "\<lambda>h :: uint64. if h = 4 then Inr ''0xb'' else Inl ''gone''"
  have l: "sealersBelow ?bm 5 6 1 = [''0xb'']" by (simp add: sealersBelow_def upto.simps)
  have low: "lower ''0xA'' = ''0xa''" "lower ''0xa'' = ''0xa''" "lower ''0xB'' = ''0xb''" "lower ''0xb'' = ''0xb''" "lower ''0xc'' = ''0xc''"
    by code_simp+
  from participation_is_exact [of "[''0xa'', ''0xB'', ''0xc'']" 6 "''0xA''" 5 ?bm] show ?thesis
    by (auto simp: Let_def l low)
qed

end
