(* ===== verification/Process_Owner.thy ===== *)
theory Process_Owner
  imports Node_Placement
begin

text \<open>
  Whose process a recorded pid is (\<open>internal/core/process/ownership.go\<close>), the launch description of a
  node and the node it becomes (\<open>driver.go\<close>), and the paths the package compares (Go's \<open>filepath\<close>).
  The machine's process table is a parameter over a world \<open>'w\<close>: every read may see a different one.
\<close>

section \<open>Paths\<close>

text \<open>\<open>filepath.Clean\<close> on Unix: one pass over the elements with the stack of those kept, last first.\<close>

fun cleanElems :: "bool \<Rightarrow> string list \<Rightarrow> string list \<Rightarrow> string list" where
  "cleanElems rooted stack [] = rev stack"
| "cleanElems rooted stack (e # es) =
     (if e = '''' \<or> e = ''.'' then cleanElems rooted stack es
      else if e = ''..'' then
        (case stack of
           [] \<Rightarrow> if rooted then cleanElems rooted [] es else cleanElems rooted [''..''] es
         | t # rest \<Rightarrow>
             if t = ''..'' then cleanElems rooted (''..'' # stack) es else cleanElems rooted rest es)
      else cleanElems rooted (e # stack) es)"

definition Clean :: "string \<Rightarrow> string" where
  "Clean path =
     (let rooted = (path \<noteq> '''' \<and> hd path = CHR ''/'');
          out = (if rooted then ''/'' else '''') @ join ''/'' (cleanElems rooted [] (split_on CHR ''/'' path))
      in if out = '''' then ''.'' else out)"

definition JoinPath :: "string list \<Rightarrow> string" where
  "JoinPath elems =
     (let es = filter (\<lambda>e. e \<noteq> '''') elems in if es = [] then '''' else Clean (join ''/'' es))"

definition BasePath :: "string \<Rightarrow> string" where
  "BasePath path =
     (if path = '''' then ''.''
      else
        let stripped = rev (dropWhile (\<lambda>c. c = CHR ''/'') (rev path));
            base = rev (takeWhile (\<lambda>c. c \<noteq> CHR ''/'') (rev stripped))
        in if base = '''' then ''/'' else base)"

section \<open>Launches (driver.go)\<close>

record NodeSpec =
  sp_index :: int
  sp_role :: Role
  sp_host :: string
  sp_rpcURL :: string
  sp_binary :: string
  sp_dataDir :: string
  sp_configPath :: string
  sp_config :: string
  sp_logPath :: string
  sp_args :: "string list"
  sp_ports :: Endpoints
  sp_syncMode :: string

definition NodeOf :: "NodeSpec \<Rightarrow> int \<Rightarrow> Node" where
  "NodeOf spec pid =
     \<lparr>n_chain = '''', n_index = sp_index spec, n_role = sp_role spec, n_host = sp_host spec,
      n_rpcURL = (if sp_rpcURL spec = '''' then ''http://'' @ sp_host spec @ '':'' @ itoa (HTTP (sp_ports spec)) else sp_rpcURL spec),
      n_metricsURL = '''', n_wsURL = '''', n_ports = sp_ports spec, n_pid = pid, n_apis = []\<rparr>"

section \<open>Ownership (ownership.go)\<close>

datatype Ownership = OwnedRunning | OwnedMissing | OwnedMismatch | OwnedUnknown | OwnedStopped | OwnedUnrecorded

record LaunchVerdict =
  v_state :: Ownership
  v_pid :: int
  v_reason :: string

text \<open>A machine whose process table can be read; \<open>tableEnded\<close> is \<open>ctx.Err() != nil\<close>.\<close>

record ('w, 'e) processTable =
  tableEnded :: "'w \<Rightarrow> bool"
  pidAlive :: "int \<Rightarrow> 'w \<Rightarrow> 'w \<times> ('e + bool)"
  cmdline :: "int \<Rightarrow> 'w \<Rightarrow> 'w \<times> ('e + string list)"
  findBinary :: "string \<Rightarrow> 'w \<Rightarrow> 'w \<times> ('e + int list)"

definition verdict :: "Ownership \<Rightarrow> int \<Rightarrow> string \<Rightarrow> LaunchVerdict" where
  "verdict s p r = \<lparr>v_state = s, v_pid = p, v_reason = r\<rparr>"

definition sameLaunch :: "string list \<Rightarrow> string \<Rightarrow> string list \<Rightarrow> bool" where
  "sameLaunch argv binary args \<longleftrightarrow> argv \<noteq> [] \<and> Clean (hd argv) = Clean binary \<and> tl argv = args"

definition ObserveLaunch ::
  "('w, 'e) processTable option \<Rightarrow> int \<Rightarrow> string \<Rightarrow> string list \<Rightarrow> 'w \<Rightarrow> 'w \<times> LaunchVerdict"
where
  "ObserveLaunch tab pid binary args w =
     (let unknown = verdict OwnedUnknown 0 ''probe_unavailable'';
          missing = verdict OwnedMissing 0 ''recorded_pid_absent''
      in if pid \<le> 0 then (w, verdict OwnedUnknown 0 ''no_recorded_pid'')
         else case tab of None \<Rightarrow> (w, unknown) | Some t \<Rightarrow>
         if tableEnded t w \<or> binary = '''' \<or> args = [] then (w, unknown)
         else case pidAlive t pid w of
           (w1, Inl e) \<Rightarrow> (w1, unknown)
         | (w1, Inr False) \<Rightarrow> (w1, missing)
         | (w1, Inr True) \<Rightarrow>
             (case cmdline t pid w1 of
                (w2, Inl e) \<Rightarrow> (w2, unknown)
              | (w2, Inr argv) \<Rightarrow>
                  if tableEnded t w2 then (w2, unknown)
                  else if \<not> sameLaunch argv binary args then (w2, verdict OwnedMismatch 0 ''argv_mismatch'')
                  else case pidAlive t pid w2 of
                    (w3, Inl e) \<Rightarrow> (w3, unknown)
                  | (w3, Inr alive) \<Rightarrow>
                      if tableEnded t w3 then (w3, unknown)
                      else if \<not> alive then (w3, missing)
                      else (w3, verdict OwnedRunning pid '''')))"

text \<open>Whether an argument names the node's data directory or config, alone or after an \<open>=\<close>.\<close>

definition argValue :: "string \<Rightarrow> string" where
  "argValue arg = (if CHR ''='' \<in> set arg then tl (dropWhile (\<lambda>c. c \<noteq> CHR ''='') arg) else arg)"

definition namesNode :: "string list \<Rightarrow> string \<Rightarrow> string \<Rightarrow> bool" where
  "namesNode args dataDir configPath \<longleftrightarrow>
     list_ex (\<lambda>arg. argValue arg \<noteq> '''' \<and> (argValue arg = dataDir \<or> argValue arg = configPath)) args"

text \<open>The loop of \<open>ObserveVacancy\<close> over the candidate pids; \<open>None\<close> when none of them decided.\<close>

fun vacancyLoop ::
  "('w, 'e) processTable \<Rightarrow> string \<Rightarrow> string list \<Rightarrow> string \<Rightarrow> string \<Rightarrow> int list \<Rightarrow> 'w \<Rightarrow> 'w \<times> LaunchVerdict option"
where
  "vacancyLoop t binary args dataDir configPath [] w = (w, None)"
| "vacancyLoop t binary args dataDir configPath (pid # pids) w =
     (let unknown = verdict OwnedUnknown 0 ''discovery_unavailable''
      in if pid \<le> 0 then (w, Some unknown)
         else case pidAlive t pid w of
           (w1, Inl e) \<Rightarrow> (w1, Some unknown)
         | (w1, Inr False) \<Rightarrow> vacancyLoop t binary args dataDir configPath pids w1
         | (w1, Inr True) \<Rightarrow>
             (case cmdline t pid w1 of
                (w2, Inl e) \<Rightarrow> (w2, Some unknown)
              | (w2, Inr argv) \<Rightarrow>
                  if argv = [] then (w2, Some unknown)
                  else if sameLaunch argv binary args then
                    (case ObserveLaunch (Some t) pid binary args w2 of
                       (w3, v) \<Rightarrow>
                         (w3, Some (if v_state v \<noteq> OwnedRunning then unknown
                                    else verdict OwnedUnrecorded pid ''unrecorded_pid_found'')))
                  else if namesNode (tl argv) dataDir configPath then
                    (w2, Some (verdict OwnedMismatch 0 ''unrecorded_argv_mismatch''))
                  else vacancyLoop t binary args dataDir configPath pids w2))"

definition ObserveVacancy ::
  "('w, 'e) processTable option \<Rightarrow> string \<Rightarrow> string list \<Rightarrow> string \<Rightarrow> string \<Rightarrow> 'w \<Rightarrow> 'w \<times> LaunchVerdict"
where
  "ObserveVacancy tab binary args dataDir configPath w =
     (let unknown = verdict OwnedUnknown 0 ''discovery_unavailable''
      in case tab of None \<Rightarrow> (w, unknown) | Some t \<Rightarrow>
         if binary = '''' \<or> args = [] \<or> tableEnded t w then (w, unknown)
         else case findBinary t (BasePath binary) w of
           (w1, Inl e) \<Rightarrow> (w1, unknown)
         | (w1, Inr pids) \<Rightarrow>
             if length pids > 4096 then (w1, unknown)
             else case vacancyLoop t binary args dataDir configPath pids w1 of
               (w2, Some v) \<Rightarrow> (w2, v)
             | (w2, None) \<Rightarrow>
                 (case findBinary t (BasePath binary) w2 of
                    (w3, Inl e) \<Rightarrow> (w3, unknown)
                  | (w3, Inr after) \<Rightarrow>
                      if tableEnded t w3 \<or> pids \<noteq> after then (w3, unknown)
                      else (w3, verdict OwnedStopped 0 ''no_matching_process'')))"

section \<open>What a verdict establishes\<close>

lemma ObserveLaunch_running:
  assumes "ObserveLaunch tab pid binary args w = (w', v)" "v_state v = OwnedRunning"
  obtains t w1 w2 w3 argv where "tab = Some t" "0 < pid" "pidAlive t pid w = (w1, Inr True)"
    "cmdline t pid w1 = (w2, Inr argv)" "sameLaunch argv binary args" "pidAlive t pid w2 = (w3, Inr True)"
    "\<not> tableEnded t w2" "\<not> tableEnded t w3" "v_pid v = pid" "w' = w3"
proof (cases tab)
  case None
  then show ?thesis using assms by (auto simp: ObserveLaunch_def Let_def verdict_def split: if_splits)
next
  case (Some t)
  have g: "0 < pid" "\<not> (tableEnded t w \<or> binary = '''' \<or> args = [])"
    using assms Some by (auto simp: ObserveLaunch_def Let_def verdict_def split: if_splits)
  obtain w1 a1 where p1: "pidAlive t pid w = (w1, a1)" by fastforce
  have "a1 = Inr True" using assms Some g p1
    by (cases a1) (auto simp: ObserveLaunch_def Let_def verdict_def split: bool.splits)
  moreover obtain w2 c where c: "cmdline t pid w1 = (w2, c)" by fastforce
  ultimately obtain argv where argv: "c = Inr argv" "\<not> tableEnded t w2" "sameLaunch argv binary args"
    using assms Some g p1 by (cases c) (auto simp: ObserveLaunch_def Let_def verdict_def split: if_splits)
  obtain w3 a3 where p3: "pidAlive t pid w2 = (w3, a3)" by fastforce
  have "a3 = Inr True" "\<not> tableEnded t w3" "v_pid v = pid" "w' = w3"
    using assms Some g p1 c argv p3 \<open>a1 = Inr True\<close>
    by (cases a3; auto simp: ObserveLaunch_def Let_def verdict_def split: if_splits)+
  then show ?thesis using that Some g p1 c argv p3 \<open>a1 = Inr True\<close> by blast
qed

text \<open>
  The candidates that were up when they were looked at, and what the loop saw of each: none runs the
  launch, and none names the node's files.
\<close>

inductive passedOver ::
  "('w, 'e) processTable \<Rightarrow> string \<Rightarrow> string list \<Rightarrow> string \<Rightarrow> string \<Rightarrow> 'w \<Rightarrow> int list \<Rightarrow> 'w \<Rightarrow> bool"
where
  "passedOver t binary args dataDir configPath w [] w"
| "\<lbrakk>0 < pid; pidAlive t pid w = (w1, Inr False); passedOver t binary args dataDir configPath w1 pids w'\<rbrakk>
     \<Longrightarrow> passedOver t binary args dataDir configPath w (pid # pids) w'"
| "\<lbrakk>0 < pid; pidAlive t pid w = (w1, Inr True); cmdline t pid w1 = (w2, Inr argv); argv \<noteq> [];
      \<not> sameLaunch argv binary args; \<not> namesNode (tl argv) dataDir configPath;
      passedOver t binary args dataDir configPath w2 pids w'\<rbrakk>
     \<Longrightarrow> passedOver t binary args dataDir configPath w (pid # pids) w'"

lemma vacancyLoop_None:
  "vacancyLoop t binary args dataDir configPath pids w = (w', None) \<Longrightarrow> passedOver t binary args dataDir configPath w pids w'"
proof (induction pids arbitrary: w)
  case (Cons pid pids)
  obtain w1 a where a: "pidAlive t pid w = (w1, a)" by fastforce
  have p: "0 < pid" using Cons.prems by (auto simp: Let_def split: if_splits)
  show ?case
  proof (cases a)
    case (Inr alive)
    show ?thesis
    proof (cases alive)
      case False
      then show ?thesis using Cons a Inr p by (auto intro: passedOver.intros(2))
    next
      case True
      obtain w2 c where c: "cmdline t pid w1 = (w2, c)" by fastforce
      then obtain argv where argv: "c = Inr argv"
        using Cons.prems a Inr True p by (cases c) (auto simp: Let_def)
      then have "argv \<noteq> []" "\<not> sameLaunch argv binary args" "\<not> namesNode (tl argv) dataDir configPath"
        "vacancyLoop t binary args dataDir configPath pids w2 = (w', None)"
        using Cons.prems a Inr True p c by (auto simp: Let_def split: if_splits prod.splits)
      then show ?thesis using Cons.IH a Inr True p c argv by (auto intro: passedOver.intros(3))
    qed
  qed (use Cons.prems a p in \<open>auto simp: Let_def\<close>)
qed (auto intro: passedOver.intros)

lemma vacancyLoop_Some: "vacancyLoop t binary args dataDir configPath pids w = (w', Some v) \<Longrightarrow> v_state v \<noteq> OwnedStopped"
proof (induction pids arbitrary: w)
  case (Cons pid pids)
  obtain w1 a where a: "pidAlive t pid w = (w1, a)" by fastforce
  obtain w2 c where c: "cmdline t pid w1 = (w2, c)" by fastforce
  show ?case using Cons a c
    by (cases a; cases c) (auto simp: Let_def verdict_def split: if_splits prod.splits bool.splits)
qed simp

text \<open>
  Property C35. A verdict is never given on stale or partial evidence. A recorded pid is called running
  only when it was alive, its argument vector was exactly the recorded launch, and it was still alive
  after that; a node without a pid is called stopped only when every candidate of its binary was looked
  at, none ran its launch or named its files, and the list of candidates had not moved meanwhile.
\<close>

theorem ownership_is_established:
  "(ObserveLaunch tab pid binary args w = (w', v) \<and> v_state v = OwnedRunning \<longrightarrow>
      (\<exists>t w1 w2 argv. tab = Some t \<and> 0 < pid \<and> pidAlive t pid w = (w1, Inr True)
         \<and> cmdline t pid w1 = (w2, Inr argv) \<and> argv \<noteq> [] \<and> Clean (hd argv) = Clean binary \<and> tl argv = args
         \<and> pidAlive t pid w2 = (w', Inr True)))
   \<and> (ObserveVacancy tab binary args dataDir configPath w = (w', v) \<and> v_state v = OwnedStopped \<longrightarrow>
      (\<exists>t w1 w2 pids. tab = Some t \<and> findBinary t (BasePath binary) w = (w1, Inr pids)
         \<and> passedOver t binary args dataDir configPath w1 pids w2
         \<and> findBinary t (BasePath binary) w2 = (w', Inr pids)))"
proof (intro conjI impI)
  assume "ObserveLaunch tab pid binary args w = (w', v) \<and> v_state v = OwnedRunning"
  then show "\<exists>t w1 w2 argv. tab = Some t \<and> 0 < pid \<and> pidAlive t pid w = (w1, Inr True)
         \<and> cmdline t pid w1 = (w2, Inr argv) \<and> argv \<noteq> [] \<and> Clean (hd argv) = Clean binary \<and> tl argv = args
         \<and> pidAlive t pid w2 = (w', Inr True)"
    by (elim conjE ObserveLaunch_running) (auto simp: sameLaunch_def)
next
  assume h: "ObserveVacancy tab binary args dataDir configPath w = (w', v) \<and> v_state v = OwnedStopped"
  then obtain t where t: "tab = Some t" "\<not> (binary = '''' \<or> args = [] \<or> tableEnded t w)"
    by (auto simp: ObserveVacancy_def Let_def verdict_def split: option.splits if_splits)
  obtain w1 f where f: "findBinary t (BasePath binary) w = (w1, f)" by fastforce
  then obtain pids where pids: "f = Inr pids" "\<not> length pids > 4096"
    using h t by (cases f) (auto simp: ObserveVacancy_def Let_def verdict_def split: if_splits)
  obtain w2 r where r: "vacancyLoop t binary args dataDir configPath pids w1 = (w2, r)" by fastforce
  have r0: "r = None"
  proof (cases r)
    case (Some v')
    then have "v = v'" using h t f pids r by (auto simp: ObserveVacancy_def Let_def)
    then show ?thesis using h vacancyLoop_Some [of t binary args dataDir configPath pids w1 w2 v'] r Some by simp
  qed
  obtain w3 a where a: "findBinary t (BasePath binary) w2 = (w3, a)" by fastforce
  then have "a = Inr pids" "w' = w3"
    using h t f pids r r0 by (cases a; auto simp: ObserveVacancy_def Let_def verdict_def split: if_splits)+
  then show "\<exists>t w1 w2 pids. tab = Some t \<and> findBinary t (BasePath binary) w = (w1, Inr pids)
         \<and> passedOver t binary args dataDir configPath w1 pids w2
         \<and> findBinary t (BasePath binary) w2 = (w', Inr pids)"
    using t(1) f pids(1) vacancyLoop_None [OF r [unfolded r0]] a
    by (intro exI [of _ t] exI [of _ w1] exI [of _ w2] exI [of _ pids]) simp
qed

text \<open>A machine that runs one process: the node of the recorded launch, alive at every read.\<close>

definition sampleTable :: "(unit, string) processTable" where
  "sampleTable = \<lparr>tableEnded = (\<lambda>w. False), pidAlive = (\<lambda>p w. (w, Inr (p = 7))),
     cmdline = (\<lambda>p w. (w, Inr [''/bin/./geth'', ''--datadir=/d''])), findBinary = (\<lambda>b w. (w, Inr [7, 8]))\<rparr>"

theorem ownership_is_established_witness:
  "v_state (snd (ObserveLaunch (Some sampleTable) 7 ''/bin/geth'' [''--datadir=/d''] ())) = OwnedRunning
   \<and> v_state (snd (ObserveVacancy (Some sampleTable) ''/bin/geth'' [''--other''] ''/e'' ''/c'' ())) = OwnedStopped
   \<and> (\<exists>w2. passedOver sampleTable ''/bin/geth'' [''--other''] ''/e'' ''/c'' () [7, 8] w2)"
proof -
  have 1: "v_state (snd (ObserveLaunch (Some sampleTable) 7 ''/bin/geth'' [''--datadir=/d''] ())) = OwnedRunning"
    "v_state (snd (ObserveVacancy (Some sampleTable) ''/bin/geth'' [''--other''] ''/e'' ''/c'' ())) = OwnedStopped"
    by code_simp+
  then have "ObserveVacancy (Some sampleTable) ''/bin/geth'' [''--other''] ''/e'' ''/c'' ()
      = ((), snd (ObserveVacancy (Some sampleTable) ''/bin/geth'' [''--other''] ''/e'' ''/c'' ()))"
    by (simp add: prod_eq_iff)
  with 1(2) ownership_is_established [of "Some sampleTable" 7 "''/bin/geth''" "[''--other'']" "()" "()"
      "snd (ObserveVacancy (Some sampleTable) ''/bin/geth'' [''--other''] ''/e'' ''/c'' ())" "''/e''" "''/c''"]
  have "\<exists>w1 w2 pids. findBinary sampleTable (BasePath ''/bin/geth'') () = (w1, Inr pids)
      \<and> passedOver sampleTable ''/bin/geth'' [''--other''] ''/e'' ''/c'' w1 pids w2"
    by blast
  then show ?thesis using 1 by (auto simp: sampleTable_def)
qed

end
