(* ===== verification/Hard_Fork.thy ===== *)
theory Hard_Fork
  imports Process_Owner
begin

text \<open>
  The binary swap of a hard fork (\<open>internal/core/hardfork/hardfork.go\<close>): the plan, and its execution node
  by node over a driver. The driver and the process table are parameters over a world \<open>'w\<close>; the signals
  and launches the execution makes are kept as a list, oldest first.
\<close>

record NodeSwap =
  sw_index :: int
  sw_role :: Role
  sw_dataDir :: string
  sw_configPath :: string
  sw_logPath :: string
  sw_ports :: Endpoints
  sw_pid :: int
  sw_fromBinary :: string
  sw_toBinary :: string

record SwapPlan =
  FromChain :: string
  ToChain :: string
  FromBinary :: string
  ToBinary :: string
  swapBlock :: int
  Swaps :: "NodeSwap list"

text \<open>Of a chain plugin, what its manifest says.\<close>

record Manifest =
  m_id :: string
  m_binary :: string

datatype planError = EmptyNodeSet | NegativeBlock int

definition swapOf :: "string \<Rightarrow> string \<Rightarrow> string \<Rightarrow> Node \<Rightarrow> NodeSwap" where
  "swapOf fromBin toBin dataRoot n =
     \<lparr>sw_index = n_index n, sw_role = n_role n,
      sw_dataDir = JoinPath [dataRoot, ''node'' @ itoa (n_index n)],
      sw_configPath = JoinPath [dataRoot, ''config_node'' @ itoa (n_index n) @ ''.toml''],
      sw_logPath = JoinPath [dataRoot, ''logs'', ''node'' @ itoa (n_index n) @ ''.log''],
      sw_ports = n_ports n, sw_pid = n_pid n, sw_fromBinary = fromBin, sw_toBinary = toBin\<rparr>"

definition PlanSwap :: "NodeSet \<Rightarrow> Manifest \<Rightarrow> Manifest \<Rightarrow> int \<Rightarrow> string \<Rightarrow> planError + SwapPlan" where
  "PlanSwap ns fromM toM block dataRoot =
     (if length (ns_nodes ns) = 0 then Inl EmptyNodeSet
      else if block < 0 then Inl (NegativeBlock block)
      else Inr \<lparr>FromChain = m_id fromM, ToChain = m_id toM, FromBinary = m_binary fromM, ToBinary = m_binary toM,
             swapBlock = block, Swaps = map (swapOf (m_binary fromM) (m_binary toM) dataRoot) (ns_nodes ns)\<rparr>)"

section \<open>Execution\<close>

datatype effect = Signalled int int | Launched NodeSpec

datatype 'e swapError = NoSavedSpec int | NotTheLaunch int int string | RelaunchFailed int string 'e

record ('w, 'e) driver =
  observer :: "('w, 'e) processTable option"
  stopNode :: "int \<Rightarrow> int \<Rightarrow> 'w \<Rightarrow> 'w"
  launchNode :: "NodeSpec \<Rightarrow> 'w \<Rightarrow> 'w \<times> ('e + int)"

definition specFor :: "NodeSpec list \<Rightarrow> int \<Rightarrow> NodeSpec option" where
  "specFor specs i = find (\<lambda>s. sp_index s = i) (rev specs)"

text \<open>Stopping the recorded process of one swap: refused, or signalled when there is a pid.\<close>

definition stopOld ::
  "('w, 'e) driver \<Rightarrow> NodeSwap \<Rightarrow> NodeSpec \<Rightarrow> 'w \<Rightarrow> 'w \<times> effect list \<times> 'e swapError option"
where
  "stopOld d s orig w =
     (if sw_pid s > 0 then
        (case observer d of
           None \<Rightarrow> (stopNode d (sw_index s) (sw_pid s) w, [Signalled (sw_index s) (sw_pid s)], None)
         | Some t \<Rightarrow>
             (case ObserveLaunch (Some t) (sw_pid s) (sp_binary orig) (sp_args orig) w of
                (w1, obs) \<Rightarrow>
                  if v_state obs \<noteq> OwnedRunning \<and> v_state obs \<noteq> OwnedMissing
                  then (w1, [], Some (NotTheLaunch (sw_index s) (sw_pid s) (v_reason obs)))
                  else (stopNode d (sw_index s) (sw_pid s) w1, [Signalled (sw_index s) (sw_pid s)], None)))
      else (w, [], None))"

fun executeLoop ::
  "('w, 'e) driver \<Rightarrow> NodeSpec list \<Rightarrow> string \<Rightarrow> NodeSwap list \<Rightarrow> 'w
     \<Rightarrow> 'w \<times> effect list \<times> Node list \<times> 'e swapError option"
where
  "executeLoop d specs binary [] w = (w, [], [], None)"
| "executeLoop d specs binary (s # ss) w =
     (case specFor specs (sw_index s) of
        None \<Rightarrow> (w, [], [], Some (NoSavedSpec (sw_index s)))
      | Some orig \<Rightarrow>
          (case stopOld d s orig w of
             (w1, es, Some e) \<Rightarrow> (w1, es, [], Some e)
           | (w1, es, None) \<Rightarrow>
               (let spec = orig\<lparr>sp_binary := binary\<rparr>
                in case launchNode d spec w1 of
                     (w2, Inl e) \<Rightarrow> (w2, es @ [Launched spec], [], Some (RelaunchFailed (sw_index s) binary e))
                   | (w2, Inr pid) \<Rightarrow>
                       (case executeLoop d specs binary ss w2 of
                          (w3, es', ns, err) \<Rightarrow> (w3, es @ Launched spec # es', NodeOf spec pid # ns, err)))))"

definition Execute ::
  "SwapPlan \<Rightarrow> ('w, 'e) driver \<Rightarrow> NodeSpec list \<Rightarrow> string \<Rightarrow> 'w
     \<Rightarrow> 'w \<times> effect list \<times> NodeSet \<times> 'e swapError option"
where
  "Execute p d specs binary w =
     (case executeLoop d specs binary (Swaps p) w of
        (w', es, ns, err) \<Rightarrow>
          (w', es, \<lparr>ns_chain = ToChain p, ns_network = ''local'', ns_nodes = ns, ns_capabilities = []\<rparr>, err))"

section \<open>What a swap does\<close>

definition launches :: "effect list \<Rightarrow> NodeSpec list" where
  "launches es = concat (map (\<lambda>e. case e of Launched s \<Rightarrow> [s] | Signalled i p \<Rightarrow> []) es)"

lemma launches_simps [simp]:
  "launches [] = []" "launches (Launched s # es) = s # launches es" "launches (Signalled i p # es) = launches es"
  "launches (xs @ ys) = launches xs @ launches ys"
  by (simp_all add: launches_def)

text \<open>A pid may be signalled: it is the recorded launch of its node, or is gone.\<close>

definition maySignal :: "('w, 'e) processTable \<Rightarrow> NodeSpec list \<Rightarrow> int \<Rightarrow> int \<Rightarrow> bool" where
  "maySignal t specs i pid \<longleftrightarrow>
     (\<exists>orig w. specFor specs i = Some orig \<and>
        v_state (snd (ObserveLaunch (Some t) pid (sp_binary orig) (sp_args orig) w)) \<in> {OwnedRunning, OwnedMissing})"

lemma stopOld_spec:
  assumes "stopOld d s orig w = (w1, es, err)"
  shows "launches es = []" "\<And>i p. Signalled i p \<in> set es \<Longrightarrow> i = sw_index s \<and> p = sw_pid s \<and> 0 < p"
    "\<And>t. observer d = Some t \<Longrightarrow> specFor specs (sw_index s) = Some orig \<Longrightarrow> Signalled i p \<in> set es \<Longrightarrow> maySignal t specs i p"
proof -
  show "launches es = []" "\<And>i p. Signalled i p \<in> set es \<Longrightarrow> i = sw_index s \<and> p = sw_pid s \<and> 0 < p"
    using assms by (auto simp: stopOld_def split: if_splits option.splits prod.splits)
  fix t assume t: "observer d = Some t" "specFor specs (sw_index s) = Some orig" "Signalled i p \<in> set es"
  obtain w' v where v: "ObserveLaunch (Some t) (sw_pid s) (sp_binary orig) (sp_args orig) w = (w', v)" by fastforce
  have "i = sw_index s" "p = sw_pid s" "v_state v \<in> {OwnedRunning, OwnedMissing}"
    using assms t v by (auto simp: stopOld_def split: if_splits)
  then show "maySignal t specs i p" unfolding maySignal_def using t(2) v by (metis snd_conv)
qed

definition relaunch :: "NodeSpec list \<Rightarrow> string \<Rightarrow> NodeSwap \<Rightarrow> NodeSpec option" where
  "relaunch specs binary s = map_option (\<lambda>orig. orig\<lparr>sp_binary := binary\<rparr>) (specFor specs (sw_index s))"

lemma executeLoop_launches:
  assumes "executeLoop d specs binary ss w = (w', es, ns, err)"
  shows "\<exists>k pids. k \<le> length ss \<and> map Some (launches es) = map (relaunch specs binary) (take k ss)
      \<and> length ns \<le> k \<and> k \<le> length ns + 1 \<and> length pids = length ns
      \<and> ns = map (\<lambda>(spec, pid). NodeOf spec pid) (zip (launches es) pids)
      \<and> (err = None \<longrightarrow> length ns = length ss)"
  using assms
proof (induction ss arbitrary: w w' es ns err)
  case (Cons s ss)
  show ?case
  proof (cases "specFor specs (sw_index s)")
    case None
    then show ?thesis using Cons.prems by (intro exI [of _ 0] exI [of _ "[]"]) auto
  next
    case (Some orig)
    let ?spec = "orig\<lparr>sp_binary := binary\<rparr>"
    obtain w1 es1 e1 where st: "stopOld d s orig w = (w1, es1, e1)" by (metis prod_cases3)
    note quiet = stopOld_spec(1) [OF st]
    have rel: "relaunch specs binary s = Some ?spec" using Some by (simp add: relaunch_def)
    show ?thesis
    proof (cases e1)
      case (Some e)
      then show ?thesis using Cons.prems st \<open>specFor specs (sw_index s) = Some orig\<close> quiet
        by (intro exI [of _ 0] exI [of _ "[]"]) auto
    next
      case None
      obtain w2 l where l: "launchNode d ?spec w1 = (w2, l)" by fastforce
      show ?thesis
      proof (cases l)
        case (Inl e)
        then show ?thesis using Cons.prems st Some None l quiet rel
          by (intro exI [of _ 1] exI [of _ "[]"]) (auto simp: Let_def)
      next
        case (Inr pid)
        obtain w3 es2 ns2 err2 where r: "executeLoop d specs binary ss w2 = (w3, es2, ns2, err2)"
          by (metis prod_cases4)
        then have eq: "es = es1 @ Launched ?spec # es2" "ns = NodeOf ?spec pid # ns2" "err = err2"
          using Cons.prems st Some None l Inr by (auto simp: Let_def)
        from Cons.IH [OF r] obtain k pids where IH: "k \<le> length ss"
          "map Some (launches es2) = map (relaunch specs binary) (take k ss)" "length ns2 \<le> k" "k \<le> length ns2 + 1"
          "length pids = length ns2" "ns2 = map (\<lambda>(spec, pid). NodeOf spec pid) (zip (launches es2) pids)"
          "err2 = None \<longrightarrow> length ns2 = length ss" by blast
        show ?thesis
          by (intro exI [of _ "Suc k"] exI [of _ "pid # pids"])
            (use IH(1-5,7) eq quiet rel in \<open>simp add: IH(6) [symmetric]\<close>)
      qed
    qed
  qed
qed simp

lemma executeLoop_signals:
  assumes "executeLoop d specs binary ss w = (w', es, ns, err)" "Signalled i p \<in> set es"
  shows "(\<exists>s \<in> set ss. i = sw_index s \<and> p = sw_pid s \<and> 0 < p)
      \<and> (\<forall>t. observer d = Some t \<longrightarrow> maySignal t specs i p)"
  using assms
proof (induction ss arbitrary: w w' es ns err)
  case (Cons s ss)
  show ?case
  proof (cases "specFor specs (sw_index s)")
    case (Some orig)
    obtain w1 es1 e1 where st: "stopOld d s orig w = (w1, es1, e1)" by (metis prod_cases3)
    show ?thesis
    proof (cases "Signalled i p \<in> set es1")
      case True
      then show ?thesis using stopOld_spec(2,3) [OF st] Some by auto
    next
      case False
      then obtain w2 es2 ns2 err2 where "executeLoop d specs binary ss w2 = (w', es2, ns2, err2)" "Signalled i p \<in> set es2"
        using Cons.prems st Some by (auto simp: Let_def split: option.splits prod.splits sum.splits)
      then show ?thesis using Cons.IH by fastforce
    qed
  qed (use Cons.prems in auto)
qed simp

text \<open>
  A binary swap relaunches the saved nodes and nothing else. For every plan and driver, the
  launches are, in order, the saved launch descriptions of a prefix of the plan's nodes with only the binary
  replaced; the nodes returned are those that came up; without an error it is every node of the plan. A
  process is signalled only under the recorded pid of a node of the plan, and, where the machine's process
  table can be read, only when that pid was found to be the recorded launch or to be gone.
\<close>

theorem swap_relaunches_saved_nodes:
  assumes "Execute p d specs binary w = (w', es, ns, err)"
  shows "(\<exists>k pids. k \<le> length (Swaps p) \<and> map Some (launches es) = map (relaunch specs binary) (take k (Swaps p))
        \<and> length (ns_nodes ns) \<le> k \<and> k \<le> length (ns_nodes ns) + 1
        \<and> ns_nodes ns = map (\<lambda>(spec, pid). NodeOf spec pid) (zip (launches es) pids) \<and> length pids = length (ns_nodes ns)
        \<and> (err = None \<longrightarrow> length (ns_nodes ns) = length (Swaps p)))
     \<and> (\<forall>i pid. Signalled i pid \<in> set es \<longrightarrow>
          (\<exists>s \<in> set (Swaps p). i = sw_index s \<and> pid = sw_pid s \<and> 0 < pid)
          \<and> (\<forall>t. observer d = Some t \<longrightarrow> maySignal t specs i pid))"
proof -
  obtain nodes where e: "executeLoop d specs binary (Swaps p) w = (w', es, nodes, err)" and n: "ns_nodes ns = nodes"
    using assms by (auto simp: Execute_def split: prod.splits)
  show ?thesis using executeLoop_launches [OF e] executeLoop_signals [OF e] unfolding n by blast
qed

section \<open>A swap of two nodes\<close>

definition sampleSpec :: "int \<Rightarrow> NodeSpec" where
  "sampleSpec i = \<lparr>sp_index = i, sp_role = ''bp'', sp_host = ''h'', sp_rpcURL = '''', sp_binary = ''/old'', sp_dataDir = '''',
     sp_configPath = '''', sp_config = '''', sp_logPath = '''', sp_args = [''--x''],
     sp_ports = \<lparr>P2P = 0, Etcd = 0, EtcdClient = 0, HTTP = 1, WS = 0, Auth = 0, Metrics = 0\<rparr>, sp_syncMode = ''''\<rparr>"

definition sampleDriver :: "(nat, string) driver" where
  "sampleDriver = \<lparr>observer = Some \<lparr>tableEnded = (\<lambda>w. False), pidAlive = (\<lambda>p w. (w, Inr (p < 50))),
       cmdline = (\<lambda>p w. (w, Inr [''/old'', ''--x''])), findBinary = (\<lambda>b w. (w, Inr []))\<rparr>,
     stopNode = (\<lambda>i p w. w), launchNode = (\<lambda>s w. (w + 1, Inr (int w)))\<rparr>"

definition samplePlan :: SwapPlan where
  "samplePlan = \<lparr>FromChain = ''a'', ToChain = ''b'', FromBinary = ''/old'', ToBinary = ''/new'', swapBlock = 9,
     Swaps = map (\<lambda>i. \<lparr>sw_index = i, sw_role = ''bp'', sw_dataDir = '''', sw_configPath = '''', sw_logPath = '''',
       sw_ports = sp_ports (sampleSpec i), sw_pid = 10 * i, sw_fromBinary = '''', sw_toBinary = ''''\<rparr>) [1, 2]\<rparr>"

theorem swap_relaunches_saved_nodes_witness:
  "case Execute samplePlan sampleDriver [sampleSpec 2, sampleSpec 1] ''/new'' 3 of
     (w', es, ns, err) \<Rightarrow> err = None \<and> length (ns_nodes ns) = 2 \<and> Signalled 2 20 \<in> set es
        \<and> maySignal (the (observer sampleDriver)) [sampleSpec 2, sampleSpec 1] 2 20"
proof -
  obtain w' es ns err where e: "Execute samplePlan sampleDriver [sampleSpec 2, sampleSpec 1] ''/new'' 3 = (w', es, ns, err)"
    by (metis prod_cases4)
  have "snd (snd (snd (Execute samplePlan sampleDriver [sampleSpec 2, sampleSpec 1] ''/new'' 3))) = None
     \<and> Signalled 2 20 \<in> set (fst (snd (Execute samplePlan sampleDriver [sampleSpec 2, sampleSpec 1] ''/new'' 3)))"
    by code_simp
  moreover have "length (Swaps samplePlan) = 2" "observer sampleDriver = Some (the (observer sampleDriver))"
    by (simp_all add: samplePlan_def sampleDriver_def)
  ultimately show ?thesis using e swap_relaunches_saved_nodes [OF e] by auto
qed

end
