(* ===== verification/Lifecycle_Status.thy ===== *)
theory Lifecycle_Status
  imports Go_Base
begin

text \<open>
  The failure vocabulary of \<open>internal/core/lifecycle\<close>: \<open>Status\<close> with its two readings (\<open>status.go\<close>),
  the declared states, their names (\<open>names.go\<close>), and the marking of errors (\<open>mark.go\<close>). A \<open>Status\<close>
  is a \<open>uint32\<close>, hence a 32-bit word; \<open>iota\<close> is written out.
\<close>

type_synonym Status = "32 word"

definition blockSize :: Status where "blockSize = 0x100"
definition failureSlot :: Status where "failureSlot = 0x80"

definition IsFailure :: "Status \<Rightarrow> bool" where
  "IsFailure s \<longleftrightarrow> failureSlot \<le> s mod blockSize"

definition Block :: "Status \<Rightarrow> Status" where
  "Block s = s - s mod blockSize"

section \<open>The declared states\<close>

definition areaChain :: Status where "areaChain = 0x1000"
definition areaAdopt :: Status where "areaAdopt = 0x2000"
definition areaChainOp :: Status where "areaChainOp = 0x3000"
definition areaTest :: Status where "areaTest = 0x8000"
definition areaCommon :: Status where "areaCommon = 0x0F00"
definition ChainOpenWorkspace :: Status where "ChainOpenWorkspace = areaChain + 0x100 * 0"
definition ChainBuildNodeTable :: Status where "ChainBuildNodeTable = areaChain + 0x100 * 1"
definition ChainEnsureKeys :: Status where "ChainEnsureKeys = areaChain + 0x100 * 2"
definition ChainBuildGenesis :: Status where "ChainBuildGenesis = areaChain + 0x100 * 3"
definition ChainBuildNodeConfig :: Status where "ChainBuildNodeConfig = areaChain + 0x100 * 4"
definition ChainBuildNodeCommand :: Status where "ChainBuildNodeCommand = areaChain + 0x100 * 5"
definition ChainDeployNodes :: Status where "ChainDeployNodes = areaChain + 0x100 * 6"
definition ChainInitNodes :: Status where "ChainInitNodes = areaChain + 0x100 * 7"
definition ChainLaunchNodes :: Status where "ChainLaunchNodes = areaChain + 0x100 * 8"
definition ChainVerify :: Status where "ChainVerify = areaChain + 0x100 * 9"
definition ChainReady :: Status where "ChainReady = areaChain + 0xF00"
definition ChainOpenWorkspaceFailNoChain :: Status where "ChainOpenWorkspaceFailNoChain = ChainOpenWorkspace + failureSlot + 0"
definition ChainBuildNodeTableFailTwoLayouts :: Status where "ChainBuildNodeTableFailTwoLayouts = ChainBuildNodeTable + failureSlot + 0"
definition ChainBuildNodeTableFailSetContended :: Status where "ChainBuildNodeTableFailSetContended = ChainBuildNodeTable + failureSlot + 1"
definition ChainEnsureKeysFailUnknownSource :: Status where "ChainEnsureKeysFailUnknownSource = ChainEnsureKeys + failureSlot + 0"
definition ChainEnsureKeysFailCountMismatch :: Status where "ChainEnsureKeysFailCountMismatch = ChainEnsureKeys + failureSlot + 1"
definition ChainEnsureKeysFailKeyNotLocal :: Status where "ChainEnsureKeysFailKeyNotLocal = ChainEnsureKeys + failureSlot + 2"
definition ChainEnsureKeysFailKeyUnreadable :: Status where "ChainEnsureKeysFailKeyUnreadable = ChainEnsureKeys + failureSlot + 3"
definition ChainBuildGenesisFailExistingInvalid :: Status where "ChainBuildGenesisFailExistingInvalid = ChainBuildGenesis + failureSlot + 0"
definition ChainBuildGenesisFailExistingForeign :: Status where "ChainBuildGenesisFailExistingForeign = ChainBuildGenesis + failureSlot + 1"
definition ChainBuildGenesisFailForkUnresolved :: Status where "ChainBuildGenesisFailForkUnresolved = ChainBuildGenesis + failureSlot + 2"
definition ChainBuildGenesisFailDeclUnused :: Status where "ChainBuildGenesisFailDeclUnused = ChainBuildGenesis + failureSlot + 3"
definition ChainBuildGenesisFailTargetUnable :: Status where "ChainBuildGenesisFailTargetUnable = ChainBuildGenesis + failureSlot + 4"
definition ChainBuildNodeConfigFailBadOverride :: Status where "ChainBuildNodeConfigFailBadOverride = ChainBuildNodeConfig + failureSlot + 0"
definition ChainBuildNodeConfigFailReadback :: Status where "ChainBuildNodeConfigFailReadback = ChainBuildNodeConfig + failureSlot + 1"
definition ChainBuildNodeConfigFailPinUnreadable :: Status where "ChainBuildNodeConfigFailPinUnreadable = ChainBuildNodeConfig + failureSlot + 2"
definition ChainBuildNodeCommandFailBadOption :: Status where "ChainBuildNodeCommandFailBadOption = ChainBuildNodeCommand + failureSlot + 0"
definition ChainBuildNodeCommandFailSplitNetwork :: Status where "ChainBuildNodeCommandFailSplitNetwork = ChainBuildNodeCommand + failureSlot + 1"
definition ChainDeployNodesFailInputMissing :: Status where "ChainDeployNodesFailInputMissing = ChainDeployNodes + failureSlot + 0"
definition ChainDeployNodesFailInputForeign :: Status where "ChainDeployNodesFailInputForeign = ChainDeployNodes + failureSlot + 1"
definition ChainInitNodesFailTargetUnable :: Status where "ChainInitNodesFailTargetUnable = ChainInitNodes + failureSlot + 0"
definition ChainInitNodesFailGenesisUnreadable :: Status where "ChainInitNodesFailGenesisUnreadable = ChainInitNodes + failureSlot + 1"
definition ChainInitNodesFailDatadir :: Status where "ChainInitNodesFailDatadir = ChainInitNodes + failureSlot + 2"
definition ChainLaunchNodesFailNoBinary :: Status where "ChainLaunchNodesFailNoBinary = ChainLaunchNodes + failureSlot + 0"
definition ChainLaunchNodesFailPortBusy :: Status where "ChainLaunchNodesFailPortBusy = ChainLaunchNodes + failureSlot + 1"
definition ChainLaunchNodesFailOccupied :: Status where "ChainLaunchNodesFailOccupied = ChainLaunchNodes + failureSlot + 2"
definition ChainLaunchNodesFailNoKeystore :: Status where "ChainLaunchNodesFailNoKeystore = ChainLaunchNodes + failureSlot + 3"
definition ChainLaunchNodesFailPhaseEmpty :: Status where "ChainLaunchNodesFailPhaseEmpty = ChainLaunchNodes + failureSlot + 4"
definition ChainVerifyFailPlanMismatch :: Status where "ChainVerifyFailPlanMismatch = ChainVerify + failureSlot + 0"
definition ChainVerifyFailNotProducing :: Status where "ChainVerifyFailNotProducing = ChainVerify + failureSlot + 1"
definition ChainRemoved :: Status where "ChainRemoved = areaChain + 0xD00"
definition ChainStopped :: Status where "ChainStopped = areaChain + 0xE00"
definition ChainOpStopNodes :: Status where "ChainOpStopNodes = areaChainOp + 0x100 * 0"
definition ChainOpStartNodes :: Status where "ChainOpStartNodes = areaChainOp + 0x100 * 1"
definition ChainOpReplaceNode :: Status where "ChainOpReplaceNode = areaChainOp + 0x100 * 2"
definition ChainOpCrossFork :: Status where "ChainOpCrossFork = areaChainOp + 0x100 * 3"
definition ChainOpRemoveNodes :: Status where "ChainOpRemoveNodes = areaChainOp + 0x100 * 4"
definition ChainOpHardfork :: Status where "ChainOpHardfork = areaChainOp + 0x100 * 5"
definition opShared :: Status where "opShared = areaChainOp + 0xF00"
definition ChainOpFailPrecondition :: Status where "ChainOpFailPrecondition = opShared + failureSlot + 0"
definition ChainOpFailNoSuchNode :: Status where "ChainOpFailNoSuchNode = opShared + failureSlot + 1"
definition ChainOpStopNodesFailSomeStillUp :: Status where "ChainOpStopNodesFailSomeStillUp = ChainOpStopNodes + failureSlot"
definition ChainOpReplaceNodeFailNothingAsked :: Status where "ChainOpReplaceNodeFailNothingAsked = ChainOpReplaceNode + failureSlot"
definition ChainOpCrossForkFailNoFork :: Status where "ChainOpCrossForkFailNoFork = ChainOpCrossFork + failureSlot + 0"
definition ChainOpCrossForkFailHeadUnreadable :: Status where "ChainOpCrossForkFailHeadUnreadable = ChainOpCrossFork + failureSlot + 1"
definition ChainOpCrossForkFailAlreadyPast :: Status where "ChainOpCrossForkFailAlreadyPast = ChainOpCrossFork + failureSlot + 2"
definition ChainOpCrossForkFailNobodyCameBack :: Status where "ChainOpCrossForkFailNobodyCameBack = ChainOpCrossFork + failureSlot + 3"
definition AdoptChain :: Status where "AdoptChain = areaAdopt + 0x100 * 0"
definition CompareChain :: Status where "CompareChain = areaAdopt + 0x100 * 1"
definition ReconcileChain :: Status where "ReconcileChain = areaAdopt + 0x100 * 2"
definition AdoptChainByRPC :: Status where "AdoptChainByRPC = AdoptChain + 1 + 0"
definition AdoptChainByWorkspace :: Status where "AdoptChainByWorkspace = AdoptChain + 1 + 1"
definition AdoptChainByDeclaration :: Status where "AdoptChainByDeclaration = AdoptChain + 1 + 2"
definition CompareChainSame :: Status where "CompareChainSame = CompareChain + 1 + 0"
definition CompareChainNodesDiffer :: Status where "CompareChainNodesDiffer = CompareChain + 1 + 1"
definition CompareChainNetworkDiffers :: Status where "CompareChainNetworkDiffers = CompareChain + 1 + 2"
definition CompareChainNothingComposed :: Status where "CompareChainNothingComposed = CompareChain + 1 + 3"
definition ReconcileChainAllKept :: Status where "ReconcileChainAllKept = ReconcileChain + 1 + 0"
definition ReconcileChainSomeRedone :: Status where "ReconcileChainSomeRedone = ReconcileChain + 1 + 1"
definition ReconcileChainFailSharedInputChanged :: Status where "ReconcileChainFailSharedInputChanged = ReconcileChain + failureSlot + 0"
definition ReconcileChainFailUnreadable :: Status where "ReconcileChainFailUnreadable = ReconcileChain + failureSlot + 1"
definition AdoptChainFailUnreachable :: Status where "AdoptChainFailUnreachable = AdoptChain + failureSlot + 0"
definition AdoptChainFailWrongChain :: Status where "AdoptChainFailWrongChain = AdoptChain + failureSlot + 1"
definition CompareChainFailUnreadable :: Status where "CompareChainFailUnreadable = CompareChain + failureSlot"
definition FailRecordFormat :: Status where "FailRecordFormat = areaCommon + failureSlot + 0"
definition FailRecordSave :: Status where "FailRecordSave = areaCommon + failureSlot + 1"
definition FailWorkspaceConfig :: Status where "FailWorkspaceConfig = areaCommon + failureSlot + 2"
definition FailLoop :: Status where "FailLoop = areaCommon + failureSlot + 3"
definition FailNoHandler :: Status where "FailNoHandler = areaCommon + failureSlot + 4"
definition FailStageUnclassified :: Status where "FailStageUnclassified = areaCommon + failureSlot + 5"
definition TestReadDeclaration :: Status where "TestReadDeclaration = areaTest + 0x100 * 0"
definition TestOpenSession :: Status where "TestOpenSession = areaTest + 0x100 * 1"
definition TestReachNetwork :: Status where "TestReachNetwork = areaTest + 0x100 * 2"
definition TestPrepare :: Status where "TestPrepare = areaTest + 0x100 * 3"
definition TestRunCases :: Status where "TestRunCases = areaTest + 0x100 * 4"
definition TestCollect :: Status where "TestCollect = areaTest + 0x100 * 5"
definition TestFinished :: Status where "TestFinished = areaTest + 0xF00"
definition TestReadDeclarationFailUnreadable :: Status where "TestReadDeclarationFailUnreadable = TestReadDeclaration + failureSlot + 0"
definition TestReadDeclarationFailMalformed :: Status where "TestReadDeclarationFailMalformed = TestReadDeclaration + failureSlot + 1"
definition TestReadDeclarationFailIncomplete :: Status where "TestReadDeclarationFailIncomplete = TestReadDeclaration + failureSlot + 2"
definition TestReadDeclarationFailUnknownName :: Status where "TestReadDeclarationFailUnknownName = TestReadDeclaration + failureSlot + 3"
definition TestReadDeclarationFailContradicted :: Status where "TestReadDeclarationFailContradicted = TestReadDeclaration + failureSlot + 4"
definition TestOpenSessionFailNoRoot :: Status where "TestOpenSessionFailNoRoot = TestOpenSession + failureSlot + 0"
definition TestReachNetworkFailCompose :: Status where "TestReachNetworkFailCompose = TestReachNetwork + failureSlot + 0"
definition TestReachNetworkFailNotThePlan :: Status where "TestReachNetworkFailNotThePlan = TestReachNetwork + failureSlot + 1"
definition TestReachNetworkFailUnreachable :: Status where "TestReachNetworkFailUnreachable = TestReachNetwork + failureSlot + 2"
definition TestPrepareFailFork :: Status where "TestPrepareFailFork = TestPrepare + failureSlot + 0"
definition TestPrepareFailHeight :: Status where "TestPrepareFailHeight = TestPrepare + failureSlot + 1"
definition TestPrepareFailAccount :: Status where "TestPrepareFailAccount = TestPrepare + failureSlot + 2"
definition TestRunCasesFailCannotProceed :: Status where "TestRunCasesFailCannotProceed = TestRunCases + failureSlot + 0"
definition TestCollectFailEvidence :: Status where "TestCollectFailEvidence = TestCollect + failureSlot + 0"

section \<open>Their names (names.go)\<close>

definition statusNames :: "(Status \<times> string) list" where
  "statusNames = [
    (ChainOpenWorkspace, ''ChainOpenWorkspace''),
    (ChainOpenWorkspaceFailNoChain, ''ChainOpenWorkspaceFailNoChain''),
    (ChainBuildNodeTable, ''ChainBuildNodeTable''),
    (ChainBuildNodeTableFailTwoLayouts, ''ChainBuildNodeTableFailTwoLayouts''),
    (ChainBuildNodeTableFailSetContended, ''ChainBuildNodeTableFailSetContended''),
    (ChainEnsureKeys, ''ChainEnsureKeys''),
    (ChainEnsureKeysFailUnknownSource, ''ChainEnsureKeysFailUnknownSource''),
    (ChainEnsureKeysFailCountMismatch, ''ChainEnsureKeysFailCountMismatch''),
    (ChainEnsureKeysFailKeyNotLocal, ''ChainEnsureKeysFailKeyNotLocal''),
    (ChainEnsureKeysFailKeyUnreadable, ''ChainEnsureKeysFailKeyUnreadable''),
    (ChainBuildGenesis, ''ChainBuildGenesis''),
    (ChainBuildGenesisFailExistingInvalid, ''ChainBuildGenesisFailExistingInvalid''),
    (ChainBuildGenesisFailExistingForeign, ''ChainBuildGenesisFailExistingForeign''),
    (ChainBuildGenesisFailForkUnresolved, ''ChainBuildGenesisFailForkUnresolved''),
    (ChainBuildGenesisFailDeclUnused, ''ChainBuildGenesisFailDeclUnused''),
    (ChainBuildGenesisFailTargetUnable, ''ChainBuildGenesisFailTargetUnable''),
    (ChainBuildNodeConfig, ''ChainBuildNodeConfig''),
    (ChainBuildNodeConfigFailBadOverride, ''ChainBuildNodeConfigFailBadOverride''),
    (ChainBuildNodeConfigFailReadback, ''ChainBuildNodeConfigFailReadback''),
    (ChainBuildNodeConfigFailPinUnreadable, ''ChainBuildNodeConfigFailPinUnreadable''),
    (ChainBuildNodeCommand, ''ChainBuildNodeCommand''),
    (ChainBuildNodeCommandFailBadOption, ''ChainBuildNodeCommandFailBadOption''),
    (ChainBuildNodeCommandFailSplitNetwork, ''ChainBuildNodeCommandFailSplitNetwork''),
    (ChainDeployNodes, ''ChainDeployNodes''),
    (ChainDeployNodesFailInputMissing, ''ChainDeployNodesFailInputMissing''),
    (ChainDeployNodesFailInputForeign, ''ChainDeployNodesFailInputForeign''),
    (ChainInitNodes, ''ChainInitNodes''),
    (ChainInitNodesFailTargetUnable, ''ChainInitNodesFailTargetUnable''),
    (ChainInitNodesFailGenesisUnreadable, ''ChainInitNodesFailGenesisUnreadable''),
    (ChainInitNodesFailDatadir, ''ChainInitNodesFailDatadir''),
    (ChainLaunchNodes, ''ChainLaunchNodes''),
    (ChainLaunchNodesFailNoBinary, ''ChainLaunchNodesFailNoBinary''),
    (ChainLaunchNodesFailPortBusy, ''ChainLaunchNodesFailPortBusy''),
    (ChainLaunchNodesFailOccupied, ''ChainLaunchNodesFailOccupied''),
    (ChainLaunchNodesFailNoKeystore, ''ChainLaunchNodesFailNoKeystore''),
    (ChainLaunchNodesFailPhaseEmpty, ''ChainLaunchNodesFailPhaseEmpty''),
    (ChainVerify, ''ChainVerify''),
    (ChainVerifyFailPlanMismatch, ''ChainVerifyFailPlanMismatch''),
    (ChainVerifyFailNotProducing, ''ChainVerifyFailNotProducing''),
    (ChainReady, ''ChainReady''),
    (AdoptChain, ''AdoptChain''),
    (AdoptChainByRPC, ''AdoptChainByRPC''),
    (AdoptChainByWorkspace, ''AdoptChainByWorkspace''),
    (AdoptChainByDeclaration, ''AdoptChainByDeclaration''),
    (AdoptChainFailUnreachable, ''AdoptChainFailUnreachable''),
    (AdoptChainFailWrongChain, ''AdoptChainFailWrongChain''),
    (CompareChain, ''CompareChain''),
    (CompareChainSame, ''CompareChainSame''),
    (CompareChainNodesDiffer, ''CompareChainNodesDiffer''),
    (CompareChainNetworkDiffers, ''CompareChainNetworkDiffers''),
    (CompareChainNothingComposed, ''CompareChainNothingComposed''),
    (CompareChainFailUnreadable, ''CompareChainFailUnreadable''),
    (ReconcileChain, ''ReconcileChain''),
    (ReconcileChainAllKept, ''ReconcileChainAllKept''),
    (ReconcileChainSomeRedone, ''ReconcileChainSomeRedone''),
    (ReconcileChainFailSharedInputChanged, ''ReconcileChainFailSharedInputChanged''),
    (ReconcileChainFailUnreadable, ''ReconcileChainFailUnreadable''),
    (FailRecordFormat, ''FailRecordFormat''),
    (FailRecordSave, ''FailRecordSave''),
    (FailWorkspaceConfig, ''FailWorkspaceConfig''),
    (FailLoop, ''FailLoop''),
    (FailNoHandler, ''FailNoHandler''),
    (ChainStopped, ''ChainStopped''),
    (ChainRemoved, ''ChainRemoved''),
    (ChainOpStopNodes, ''ChainOpStopNodes''),
    (ChainOpStopNodesFailSomeStillUp, ''ChainOpStopNodesFailSomeStillUp''),
    (ChainOpStartNodes, ''ChainOpStartNodes''),
    (ChainOpReplaceNode, ''ChainOpReplaceNode''),
    (ChainOpReplaceNodeFailNothingAsked, ''ChainOpReplaceNodeFailNothingAsked''),
    (ChainOpCrossFork, ''ChainOpCrossFork''),
    (ChainOpCrossForkFailNoFork, ''ChainOpCrossForkFailNoFork''),
    (ChainOpCrossForkFailHeadUnreadable, ''ChainOpCrossForkFailHeadUnreadable''),
    (ChainOpCrossForkFailAlreadyPast, ''ChainOpCrossForkFailAlreadyPast''),
    (ChainOpCrossForkFailNobodyCameBack, ''ChainOpCrossForkFailNobodyCameBack''),
    (ChainOpRemoveNodes, ''ChainOpRemoveNodes''),
    (ChainOpHardfork, ''ChainOpHardfork''),
    (ChainOpFailPrecondition, ''ChainOpFailPrecondition''),
    (ChainOpFailNoSuchNode, ''ChainOpFailNoSuchNode''),
    (FailStageUnclassified, ''FailStageUnclassified''),
    (TestReadDeclaration, ''TestReadDeclaration''),
    (TestReadDeclarationFailUnreadable, ''TestReadDeclarationFailUnreadable''),
    (TestReadDeclarationFailMalformed, ''TestReadDeclarationFailMalformed''),
    (TestReadDeclarationFailIncomplete, ''TestReadDeclarationFailIncomplete''),
    (TestReadDeclarationFailUnknownName, ''TestReadDeclarationFailUnknownName''),
    (TestReadDeclarationFailContradicted, ''TestReadDeclarationFailContradicted''),
    (TestOpenSession, ''TestOpenSession''),
    (TestOpenSessionFailNoRoot, ''TestOpenSessionFailNoRoot''),
    (TestReachNetwork, ''TestReachNetwork''),
    (TestReachNetworkFailCompose, ''TestReachNetworkFailCompose''),
    (TestReachNetworkFailNotThePlan, ''TestReachNetworkFailNotThePlan''),
    (TestReachNetworkFailUnreachable, ''TestReachNetworkFailUnreachable''),
    (TestPrepare, ''TestPrepare''),
    (TestPrepareFailFork, ''TestPrepareFailFork''),
    (TestPrepareFailHeight, ''TestPrepareFailHeight''),
    (TestPrepareFailAccount, ''TestPrepareFailAccount''),
    (TestRunCases, ''TestRunCases''),
    (TestRunCasesFailCannotProceed, ''TestRunCasesFailCannotProceed''),
    (TestCollect, ''TestCollect''),
    (TestCollectFailEvidence, ''TestCollectFailEvidence''),
    (TestFinished, ''TestFinished'')]"

lemmas status_consts = areaChain_def
  areaAdopt_def
  areaChainOp_def
  areaTest_def
  areaCommon_def
  ChainOpenWorkspace_def
  ChainBuildNodeTable_def
  ChainEnsureKeys_def
  ChainBuildGenesis_def
  ChainBuildNodeConfig_def
  ChainBuildNodeCommand_def
  ChainDeployNodes_def
  ChainInitNodes_def
  ChainLaunchNodes_def
  ChainVerify_def
  ChainReady_def
  ChainOpenWorkspaceFailNoChain_def
  ChainBuildNodeTableFailTwoLayouts_def
  ChainBuildNodeTableFailSetContended_def
  ChainEnsureKeysFailUnknownSource_def
  ChainEnsureKeysFailCountMismatch_def
  ChainEnsureKeysFailKeyNotLocal_def
  ChainEnsureKeysFailKeyUnreadable_def
  ChainBuildGenesisFailExistingInvalid_def
  ChainBuildGenesisFailExistingForeign_def
  ChainBuildGenesisFailForkUnresolved_def
  ChainBuildGenesisFailDeclUnused_def
  ChainBuildGenesisFailTargetUnable_def
  ChainBuildNodeConfigFailBadOverride_def
  ChainBuildNodeConfigFailReadback_def
  ChainBuildNodeConfigFailPinUnreadable_def
  ChainBuildNodeCommandFailBadOption_def
  ChainBuildNodeCommandFailSplitNetwork_def
  ChainDeployNodesFailInputMissing_def
  ChainDeployNodesFailInputForeign_def
  ChainInitNodesFailTargetUnable_def
  ChainInitNodesFailGenesisUnreadable_def
  ChainInitNodesFailDatadir_def
  ChainLaunchNodesFailNoBinary_def
  ChainLaunchNodesFailPortBusy_def
  ChainLaunchNodesFailOccupied_def
  ChainLaunchNodesFailNoKeystore_def
  ChainLaunchNodesFailPhaseEmpty_def
  ChainVerifyFailPlanMismatch_def
  ChainVerifyFailNotProducing_def
  ChainRemoved_def
  ChainStopped_def
  ChainOpStopNodes_def
  ChainOpStartNodes_def
  ChainOpReplaceNode_def
  ChainOpCrossFork_def
  ChainOpRemoveNodes_def
  ChainOpHardfork_def
  opShared_def
  ChainOpFailPrecondition_def
  ChainOpFailNoSuchNode_def
  ChainOpStopNodesFailSomeStillUp_def
  ChainOpReplaceNodeFailNothingAsked_def
  ChainOpCrossForkFailNoFork_def
  ChainOpCrossForkFailHeadUnreadable_def
  ChainOpCrossForkFailAlreadyPast_def
  ChainOpCrossForkFailNobodyCameBack_def
  AdoptChain_def
  CompareChain_def
  ReconcileChain_def
  AdoptChainByRPC_def
  AdoptChainByWorkspace_def
  AdoptChainByDeclaration_def
  CompareChainSame_def
  CompareChainNodesDiffer_def
  CompareChainNetworkDiffers_def
  CompareChainNothingComposed_def
  ReconcileChainAllKept_def
  ReconcileChainSomeRedone_def
  ReconcileChainFailSharedInputChanged_def
  ReconcileChainFailUnreadable_def
  AdoptChainFailUnreachable_def
  AdoptChainFailWrongChain_def
  CompareChainFailUnreadable_def
  FailRecordFormat_def
  FailRecordSave_def
  FailWorkspaceConfig_def
  FailLoop_def
  FailNoHandler_def
  FailStageUnclassified_def
  TestReadDeclaration_def
  TestOpenSession_def
  TestReachNetwork_def
  TestPrepare_def
  TestRunCases_def
  TestCollect_def
  TestFinished_def
  TestReadDeclarationFailUnreadable_def
  TestReadDeclarationFailMalformed_def
  TestReadDeclarationFailIncomplete_def
  TestReadDeclarationFailUnknownName_def
  TestReadDeclarationFailContradicted_def
  TestOpenSessionFailNoRoot_def
  TestReachNetworkFailCompose_def
  TestReachNetworkFailNotThePlan_def
  TestReachNetworkFailUnreachable_def
  TestPrepareFailFork_def
  TestPrepareFailHeight_def
  TestPrepareFailAccount_def
  TestRunCasesFailCannotProceed_def
  TestCollectFailEvidence_def

section \<open>String\<close>

definition hex_digit :: "nat \<Rightarrow> char" where
  "hex_digit n = (if n < 10 then char_of (48 + n) else char_of (87 + n))"

fun hex_digits :: "nat \<Rightarrow> string" where
  "hex_digits n = (if n < 16 then [hex_digit n] else hex_digits (n div 16) @ [hex_digit (n mod 16)])"

declare hex_digits.simps [simp del]

text \<open>\<open>Status.String\<close>: the declared name, or the value as \<open>%#x\<close> prints it.\<close>

definition status_String :: "Status \<Rightarrow> string" where
  "status_String s = (case map_of statusNames s of
     Some n \<Rightarrow> n | None \<Rightarrow> ''Status(0x'' @ hex_digits (unat s) @ '')'')"

section \<open>Marked errors (mark.go)\<close>

text \<open>
  An error value: a package-level \<open>errors.New\<close> by its identity, a \<open>fmt.Errorf\<close> with the text it
  prints and the errors its \<open>%w\<close> verbs wrap, and \<open>marked\<close>. \<open>errors.Is\<close> looks for a sentinel in the
  tree \<open>Unwrap\<close> spans.
\<close>

datatype goErr = Sentinel string | Errorf string "goErr list" | Marked goErr goErr

fun errorText :: "goErr \<Rightarrow> string" where
  "errorText (Sentinel s) = s"
| "errorText (Errorf txt ws) = txt"
| "errorText (Marked kind err) = errorText err"

fun errorsIs :: "goErr \<Rightarrow> string \<Rightarrow> bool" where
  "errorsIs (Sentinel s) t = (s = t)"
| "errorsIs (Errorf txt ws) t = list_ex (\<lambda>e. errorsIs e t) ws"
| "errorsIs (Marked kind err) t = (errorsIs kind t \<or> errorsIs err t)"

definition Mark :: "goErr \<Rightarrow> goErr option \<Rightarrow> goErr option" where
  "Mark kind err = (case err of None \<Rightarrow> None | Some e \<Rightarrow> Some (Marked kind e))"

section \<open>The two readings of a status\<close>

lemma unat_slot: "unat (s mod blockSize) = unat s mod 256"
  by (simp add: blockSize_def unat_mod)

lemma unat_Block: "unat (Block s) = unat s - unat s mod 256"
proof -
  have "s mod blockSize \<le> s"
    by (metis blockSize_def mod_less_eq_dividend unat_slot word_le_nat_alt
        unat_mod)
  then show ?thesis
    by (simp add: Block_def unat_sub unat_slot)
qed

lemma word_unat_eq: "unat a = unat b \<Longrightarrow> a = b"
  by (simp add: word_unat_eq_iff)

lemma Block_mod: "unat (Block s) mod 256 = 0"
  by (simp add: unat_Block minus_mod_eq_mult_div)

lemma IsFailure_unat: "IsFailure s \<longleftrightarrow> 128 \<le> unat s mod 256"
  by (simp add: IsFailure_def failureSlot_def word_le_nat_alt unat_slot)

text \<open>
  A status is its block and its slot, with no wrap-around: the block is the status with
  the slot taken off, belongs to itself and is never a failure, and putting any slot on it gives a
  status of the same block, which is a failure exactly when that slot is.
\<close>

theorem status_is_block_and_slot:
  "unat s = unat (Block s) + unat s mod 256 \<and> Block (Block s) = Block s \<and> \<not> IsFailure (Block s)
   \<and> Block (Block s + k mod blockSize) = Block s
   \<and> (IsFailure (Block s + k mod blockSize) \<longleftrightarrow> IsFailure k)"
proof (intro conjI)
  have le: "unat s mod 256 \<le> unat s" by simp
  then show "unat s = unat (Block s) + unat s mod 256" by (simp add: unat_Block)
  show "Block (Block s) = Block s"
    by (rule word_unat_eq) (simp add: unat_Block [of "Block s"] Block_mod)
  show "\<not> IsFailure (Block s)" by (simp add: IsFailure_unat Block_mod)
  have mul: "unat (Block s) = 256 * (unat s div 256)"
    by (simp add: unat_Block minus_mod_eq_mult_div)
  have "unat s < 2 ^ 32" using unsigned_less [of s] by simp
  then have "unat s div 256 < 2 ^ 24" by (simp add: less_mult_imp_div_less)
  moreover have k: "unat k mod 256 < 256" by simp
  ultimately have "unat (Block s) + unat (k mod blockSize) < 2 ^ 32"
    using mul k by (simp add: unat_slot)
  then have sum: "unat (Block s + k mod blockSize) = unat (Block s) + unat k mod 256"
    using unat_add_lem [of "Block s" "k mod blockSize"] by (simp add: unat_slot)
  then have slot: "unat (Block s + k mod blockSize) mod 256 = unat k mod 256" using mul by simp
  show "Block (Block s + k mod blockSize) = Block s"
    by (rule word_unat_eq) (simp add: unat_Block [of "Block s + k mod blockSize"] slot, simp add: sum)
  show "IsFailure (Block s + k mod blockSize) \<longleftrightarrow> IsFailure k" by (simp add: IsFailure_unat slot)
qed

section \<open>The table\<close>

definition contains :: "string \<Rightarrow> string \<Rightarrow> bool" where
  "contains sub s = list_ex (\<lambda>i. take (length sub) (drop i s) = sub) [0..<length s]"

text \<open>The table by block: the block, its name, and the slots with the rest of the names.\<close>

definition statusRuns :: "(int \<times> string \<times> (int \<times> string) list) list" where
  "statusRuns = [
    (0x1000, ''ChainOpenWorkspace'', [(0, ''''), (128, ''FailNoChain'')]),
    (0x1100, ''ChainBuildNodeTable'', [(0, ''''), (128, ''FailTwoLayouts''), (129, ''FailSetContended'')]),
    (0x1200, ''ChainEnsureKeys'', [(0, ''''), (128, ''FailUnknownSource''), (129, ''FailCountMismatch''), (130, ''FailKeyNotLocal''), (131, ''FailKeyUnreadable'')]),
    (0x1300, ''ChainBuildGenesis'', [(0, ''''), (128, ''FailExistingInvalid''), (129, ''FailExistingForeign''), (130, ''FailForkUnresolved''), (131, ''FailDeclUnused''), (132, ''FailTargetUnable'')]),
    (0x1400, ''ChainBuildNodeConfig'', [(0, ''''), (128, ''FailBadOverride''), (129, ''FailReadback''), (130, ''FailPinUnreadable'')]),
    (0x1500, ''ChainBuildNodeCommand'', [(0, ''''), (128, ''FailBadOption''), (129, ''FailSplitNetwork'')]),
    (0x1600, ''ChainDeployNodes'', [(0, ''''), (128, ''FailInputMissing''), (129, ''FailInputForeign'')]),
    (0x1700, ''ChainInitNodes'', [(0, ''''), (128, ''FailTargetUnable''), (129, ''FailGenesisUnreadable''), (130, ''FailDatadir'')]),
    (0x1800, ''ChainLaunchNodes'', [(0, ''''), (128, ''FailNoBinary''), (129, ''FailPortBusy''), (130, ''FailOccupied''), (131, ''FailNoKeystore''), (132, ''FailPhaseEmpty'')]),
    (0x1900, ''ChainVerify'', [(0, ''''), (128, ''FailPlanMismatch''), (129, ''FailNotProducing'')]),
    (0x1f00, ''ChainReady'', [(0, '''')]),
    (0x2000, ''AdoptChain'', [(0, ''''), (1, ''ByRPC''), (2, ''ByWorkspace''), (3, ''ByDeclaration''), (128, ''FailUnreachable''), (129, ''FailWrongChain'')]),
    (0x2100, ''CompareChain'', [(0, ''''), (1, ''Same''), (2, ''NodesDiffer''), (3, ''NetworkDiffers''), (4, ''NothingComposed''), (128, ''FailUnreadable'')]),
    (0x2200, ''ReconcileChain'', [(0, ''''), (1, ''AllKept''), (2, ''SomeRedone''), (128, ''FailSharedInputChanged''), (129, ''FailUnreadable'')]),
    (0xf00, '''', [(128, ''FailRecordFormat''), (129, ''FailRecordSave''), (130, ''FailWorkspaceConfig''), (131, ''FailLoop''), (132, ''FailNoHandler'')]),
    (0x1e00, ''ChainStopped'', [(0, '''')]),
    (0x1d00, ''ChainRemoved'', [(0, '''')]),
    (0x3000, ''ChainOpStopNodes'', [(0, ''''), (128, ''FailSomeStillUp'')]),
    (0x3100, ''ChainOpStartNodes'', [(0, '''')]),
    (0x3200, ''ChainOpReplaceNode'', [(0, ''''), (128, ''FailNothingAsked'')]),
    (0x3300, ''ChainOpCrossFork'', [(0, ''''), (128, ''FailNoFork''), (129, ''FailHeadUnreadable''), (130, ''FailAlreadyPast''), (131, ''FailNobodyCameBack'')]),
    (0x3400, ''ChainOpRemoveNodes'', [(0, '''')]),
    (0x3500, ''ChainOpHardfork'', [(0, '''')]),
    (0x3f00, '''', [(128, ''ChainOpFailPrecondition''), (129, ''ChainOpFailNoSuchNode'')]),
    (0xf00, '''', [(133, ''FailStageUnclassified'')]),
    (0x8000, ''TestReadDeclaration'', [(0, ''''), (128, ''FailUnreadable''), (129, ''FailMalformed''), (130, ''FailIncomplete''), (131, ''FailUnknownName''), (132, ''FailContradicted'')]),
    (0x8100, ''TestOpenSession'', [(0, ''''), (128, ''FailNoRoot'')]),
    (0x8200, ''TestReachNetwork'', [(0, ''''), (128, ''FailCompose''), (129, ''FailNotThePlan''), (130, ''FailUnreachable'')]),
    (0x8300, ''TestPrepare'', [(0, ''''), (128, ''FailFork''), (129, ''FailHeight''), (130, ''FailAccount'')]),
    (0x8400, ''TestRunCases'', [(0, ''''), (128, ''FailCannotProceed'')]),
    (0x8500, ''TestCollect'', [(0, ''''), (128, ''FailEvidence'')]),
    (0x8f00, ''TestFinished'', [(0, '''')])]"

definition statusCodes :: "(int \<times> string) list" where
  "statusCodes = map (\<lambda>(s, n). (uint s, n)) statusNames"

lemma statusCodes_runs:
  "statusCodes = concat (map (\<lambda>(b, p, xs). map (\<lambda>(k, x). (b + k, p @ x)) xs) statusRuns)"
  by (simp add: statusCodes_def statusNames_def statusRuns_def status_consts failureSlot_def)

lemma runs_slots:
  "list_all (\<lambda>(b, p, xs). b mod 256 = 0 \<and> (if p = [] then b = 0xF00 \<or> b = 0x3F00 else (0, []) \<in> set xs)
     \<and> list_all (\<lambda>(k, x). 0 \<le> k \<and> k < 256) xs) statusRuns"
  by (simp add: statusRuns_def)

lemma runs_fail:
  "list_all (\<lambda>(b, p, xs). list_all (\<lambda>(k, x). (128 \<le> k) = contains ''Fail'' (p @ x)) xs) statusRuns"
  by code_simp

text \<open>A hash that tells the declared names apart.\<close>

definition name_hash :: "string \<Rightarrow> int" where
  "name_hash s = foldl (\<lambda>a c. (a * 3 + of_char c) mod 16381) 0 s"

lemma names_apart: "distinct (map name_hash (map snd statusNames))"
  by code_simp

lemma codes_apart: "distinct (map fst statusCodes)"
  by (simp add: statusCodes_runs statusRuns_def)

lemma codes_shared: "map_of statusCodes 0xF00 = None" "map_of statusCodes 0x3F00 = None"
  by (simp_all add: map_of_eq_None_iff statusCodes_runs statusRuns_def)

lemma uint_slot: "uint s mod 256 = int (unat s mod 256)"
  by (simp add: zmod_int)

lemma uint_Block: "uint (Block s) = uint s - uint s mod 256"
proof -
  have "int (unat (Block s)) = int (unat s) - int (unat s mod 256)"
    by (simp add: unat_Block of_nat_diff)
  then show ?thesis by (simp add: uint_slot)
qed

lemma map_of_codes: "map_of statusCodes (uint s) = map_of statusNames s"
proof -
  have "map_of (map (\<lambda>(s, n). (uint s, n)) xs) (uint s) = map_of xs s" for xs :: "(Status \<times> string) list"
    by (induction xs) (auto simp: word_uint_eq_iff)
  then show ?thesis by (simp add: statusCodes_def)
qed

lemma names_inj: "distinct (map snd statusNames)"
  using names_apart by (metis distinct_map)

lemma values_inj: "distinct (map fst statusNames)"
proof -
  have "map fst statusCodes = map uint (map fst statusNames)"
    by (simp add: statusCodes_def case_prod_unfold)
  then show ?thesis using codes_apart by (metis distinct_map)
qed

lemma status_in_run:
  assumes "(s, n) \<in> set statusNames"
  obtains b p xs k x where "(b, p, xs) \<in> set statusRuns" "(k, x) \<in> set xs" "uint s = b + k" "n = p @ x"
    "b mod 256 = 0" "0 \<le> k" "k < 256"
proof -
  have "(uint s, n) \<in> set statusCodes" using assms by (force simp: statusCodes_def)
  then obtain b p xs k x where r: "(b, p, xs) \<in> set statusRuns" "(k, x) \<in> set xs" "uint s = b + k" "n = p @ x"
    by (auto simp: statusCodes_runs)
  moreover have "b mod 256 = 0" "0 \<le> k" "k < 256"
    using r(1,2) runs_slots by (fastforce simp: list_all_iff)+
  ultimately show ?thesis by (rule that)
qed

lemma failure_named: "(s, n) \<in> set statusNames \<Longrightarrow> IsFailure s = contains ''Fail'' n"
proof (elim status_in_run)
  fix b p xs k x
  assume r: "(b, p, xs) \<in> set statusRuns" "(k, x) \<in> set xs" "uint s = b + k" "n = p @ x"
    "b mod 256 = 0" "0 \<le> k" "k < 256"
  have "uint s mod 256 = k" using r by (metis add.commute mod_add_right_eq add.right_neutral mod_pos_pos_trivial)
  then have "IsFailure s \<longleftrightarrow> 128 \<le> k" unfolding IsFailure_unat uint_slot by linarith
  moreover have "(128 \<le> k) = contains ''Fail'' (p @ x)" using runs_fail r(1,2) by (fastforce simp: list_all_iff)
  ultimately show "IsFailure s = contains ''Fail'' n" using r(4) by simp
qed

lemma block_named:
  "(s, n) \<in> set statusNames \<Longrightarrow> (case map_of statusNames (Block s) of
     Some b \<Rightarrow> take (length b) n = b | None \<Rightarrow> Block s = areaCommon \<or> Block s = opShared)"
proof (elim status_in_run)
  fix b p xs k x
  assume r: "(b, p, xs) \<in> set statusRuns" "(k, x) \<in> set xs" "uint s = b + k" "n = p @ x"
    "b mod 256 = 0" "0 \<le> k" "k < 256"
  have "uint s mod 256 = k" using r by (metis add.commute mod_add_right_eq add.right_neutral mod_pos_pos_trivial)
  then have b: "uint (Block s) = b" using r(3) by (simp add: uint_Block)
  show ?thesis
  proof (cases "p = []")
    case True
    then have "b = 0xF00 \<or> b = 0x3F00" using runs_slots r(1) by (fastforce simp: list_all_iff)
    then have "map_of statusNames (Block s) = None" "Block s = areaCommon \<or> Block s = opShared"
      using codes_shared b map_of_codes [of "Block s"]
      by (auto simp: word_uint_eq_iff areaCommon_def opShared_def areaChainOp_def)
    then show ?thesis by simp
  next
    case False
    then have "(0, []) \<in> set xs" using runs_slots r(1) by (fastforce simp: list_all_iff)
    then have "(b, p) \<in> set statusCodes" using r(1) by (force simp: statusCodes_runs)
    then have "map_of statusNames (Block s) = Some p"
      using codes_apart b map_of_codes [of "Block s"] by simp
    then show ?thesis using r(4) by simp
  qed
qed

text \<open>
  The table of states: no two states share a value and no two share a name, a state is
  a failure exactly when its name says \<open>Fail\<close>, and the name of every state begins with the name of
  its block, except in the two blocks that hold the failures of no single stage.
\<close>

theorem status_table_sound:
  "distinct (map fst statusNames) \<and> distinct (map snd statusNames)
   \<and> list_all (\<lambda>(s, n). IsFailure s = contains ''Fail'' n) statusNames
   \<and> list_all (\<lambda>(s, n). case map_of statusNames (Block s) of
        Some b \<Rightarrow> take (length b) n = b | None \<Rightarrow> Block s = areaCommon \<or> Block s = opShared) statusNames"
  using values_inj names_inj failure_named block_named by (auto simp: list_all_iff)

section \<open>The printed form\<close>

definition hex_val :: "char \<Rightarrow> nat" where
  "hex_val c = (let n = of_char c in if n < 58 then n - 48 else n - 87)"

lemma hex_val_digit [simp]: "n < 16 \<Longrightarrow> hex_val (hex_digit n) = n"
  by (simp add: hex_val_def hex_digit_def)

lemma hex_digits_read: "foldl (\<lambda>a c. 16 * a + hex_val c) 0 (hex_digits n) = n"
proof (induction n rule: hex_digits.induct)
  case (1 n)
  then show ?case by (cases "n < 16") (subst hex_digits.simps, simp)+
qed

lemma hex_digits_inj: "hex_digits m = hex_digits n \<Longrightarrow> m = n"
  by (metis hex_digits_read)

lemma names_unprinted: "list_all (\<lambda>n. take 7 n \<noteq> ''Status('') (map snd statusNames)"
  by (simp add: statusNames_def)

text \<open>
  What a status prints as identifies it: two statuses print alike only when they are
  the same value, declared or not.
\<close>

theorem status_String_inj: "status_String s = status_String t \<longleftrightarrow> s = t"
proof
  assume eq: "status_String s = status_String t"
  have named: "take 7 n \<noteq> ''Status('' " if "map_of statusNames u = Some n" for u n
    using map_of_SomeD [OF that] names_unprinted by (force simp: list_all_iff)
  show "s = t"
  proof (cases "map_of statusNames s"; cases "map_of statusNames t")
    fix n n' assume "map_of statusNames s = Some n" "map_of statusNames t = Some n'"
    moreover from this have "n = n'" using eq by (simp add: status_String_def)
    ultimately have "(s, n) \<in> set statusNames" "(t, n) \<in> set statusNames" by (auto dest: map_of_SomeD)
    then show "s = t" using names_inj by (force simp: distinct_map inj_on_def)
  next
    assume "map_of statusNames s = None" "map_of statusNames t = None"
    then have "hex_digits (unat s) = hex_digits (unat t)" using eq by (simp add: status_String_def)
    then show "s = t" by (simp add: word_unat_eq hex_digits_inj)
  qed (use eq named in \<open>force simp: status_String_def\<close>)+
qed simp

section \<open>Marking\<close>

text \<open>
  Marking adds a kind and nothing else: no error stays no error, a marked error says what it
  said before, and \<open>errors.Is\<close> finds in it the kind and whatever it found before.
\<close>

theorem mark_adds_a_kind:
  "Mark kind None = None
   \<and> map_option errorText (Mark kind err) = map_option errorText err
   \<and> errorsIs (the (Mark kind (Some e))) k = (errorsIs kind k \<or> errorsIs e k)"
  by (auto simp: Mark_def split: option.splits)

end
