(* ===== verification/Chain_Failures.thy ===== *)
theory Chain_Failures
  imports Lifecycle_Status
begin

text \<open>
  Which failure state an error of a composition is: the sentinels the stages of \<open>internal/chainsetup\<close>
  mark their errors with, the classifier written beside each stage, and \<open>FailureStatus\<close>
  (\<open>failure_status.go\<close>), which picks the classifier by step. A sentinel is its identity, for which
  its text serves (no two have the same).
\<close>

section \<open>The steps of a composition\<close>

definition stepNew :: string where "stepNew = ''new''"
definition stepPlace :: string where "stepPlace = ''place''"
definition stepKeys :: string where "stepKeys = ''keys''"
definition stepGenesis :: string where "stepGenesis = ''genesis''"
definition stepConfig :: string where "stepConfig = ''config''"
definition stepBuild :: string where "stepBuild = ''build''"
definition stepDeploy :: string where "stepDeploy = ''deploy''"
definition stepInit :: string where "stepInit = ''init''"
definition stepStart :: string where "stepStart = ''start''"
definition crossForkStep :: string where "crossForkStep = ''cross-fork''"

lemmas step_names = stepNew_def stepPlace_def stepKeys_def stepGenesis_def stepConfig_def stepBuild_def
  stepDeploy_def stepInit_def stepStart_def crossForkStep_def

section \<open>Sentinels\<close>

definition errOpNoSuchNode :: string where "errOpNoSuchNode = ''no such node in the table''"
definition errOpNothingToReplace :: string where "errOpNothingToReplace = ''the swap asks for no change''"
definition errLaunchNoBinary :: string where "errLaunchNoBinary = ''the node binary is not on the target''"
definition errLaunchPortBusy :: string where "errLaunchPortBusy = ''a planned port is in use''"
definition errLaunchOccupied :: string where "errLaunchOccupied = ''the machine is already running this binary''"
definition errLaunchNoKeystore :: string where "errLaunchNoKeystore = ''a node has no keystore file''"
definition errLaunchPhaseEmpty :: string where "errLaunchPhaseEmpty = ''a phase has nowhere to run its actions''"
definition errBuildBadOption :: string where "errBuildBadOption = ''a launch option is not one this accepts''"
definition errBuildSplitNetwork :: string where "errBuildSplitNetwork = ''the assembled commands name more than one network''"
definition errDeployInputMissing :: string where "errDeployInputMissing = ''a launch input is missing on the target''"
definition errDeployInputForeign :: string where "errDeployInputForeign = ''a launch input on the target is not this workspace's''"
definition errConfigBadOverride :: string where "errConfigBadOverride = ''a config override is not one this accepts''"
definition errConfigReadback :: string where "errConfigReadback = ''the config did not read back intact''"
definition errConfigPinUnreadable :: string where "errConfigPinUnreadable = ''a pinned input cannot be read''"
definition errCrossForkNoFork :: string where "errCrossForkNoFork = ''this network crosses no fork''"
definition errCrossForkHeadUnreadable :: string where "errCrossForkHeadUnreadable = ''the chain head could not be read''"
definition errCrossForkAlreadyPast :: string where "errCrossForkAlreadyPast = ''the chain is past the fork block''"
definition errCrossForkNobodyCameBack :: string where "errCrossForkNobodyCameBack = ''the restart left no node running''"
definition errGenesisExistingInvalid :: string where "errGenesisExistingInvalid = ''the named genesis is not usable''"
definition errGenesisExistingForeign :: string where "errGenesisExistingForeign = ''the named genesis is not this network's''"
definition errGenesisForkUnresolved :: string where "errGenesisForkUnresolved = ''the fork cannot be resolved''"
definition errGenesisDeclUnused :: string where "errGenesisDeclUnused = ''the declaration names a binary no node runs''"
definition errGenesisTargetUnable :: string where "errGenesisTargetUnable = ''the target cannot build this genesis''"
definition errKeySourceUnknown :: string where "errKeySourceUnknown = ''key source unknown''"
definition errKeyCountShort :: string where "errKeyCountShort = ''declared identities are fewer than the nodes''"
definition errKeyRefNotLocal :: string where "errKeyRefNotLocal = ''node key reference is not a local file''"
definition errKeyUnreadable :: string where "errKeyUnreadable = ''node key file cannot be read as a key''"
definition errOpSomeStillUp :: string where "errOpSomeStillUp = ''not every node came down''"
definition errInitTargetUnable :: string where "errInitTargetUnable = ''the target cannot initialize a datadir''"
definition errInitGenesisUnreadable :: string where "errInitGenesisUnreadable = ''the genesis cannot be read from the target''"
definition errInitDatadir :: string where "errInitDatadir = ''the datadir cannot be cleared''"
definition errPlaceTwoLayouts :: string where "errPlaceTwoLayouts = ''the layout is described twice''"
definition errPlaceSetContended :: string where "errPlaceSetContended = ''the server set is being allocated by another run''"
definition errOpPrecondition :: string where "errOpPrecondition = ''the workspace is not in a state this verb can act on''"
definition errNewNoChain :: string where "errNewNoChain = ''no chain was named''"
section \<open>Classifiers\<close>

definition NewFailure :: "goErr \<Rightarrow> Status" where
  "NewFailure err =
     (if errorsIs err errNewNoChain then ChainOpenWorkspaceFailNoChain
      else FailStageUnclassified)"

definition PlaceFailure :: "goErr \<Rightarrow> Status" where
  "PlaceFailure err =
     (if errorsIs err errPlaceTwoLayouts then ChainBuildNodeTableFailTwoLayouts
      else if errorsIs err errPlaceSetContended then ChainBuildNodeTableFailSetContended
      else FailStageUnclassified)"

definition KeysFailure :: "goErr \<Rightarrow> Status" where
  "KeysFailure err =
     (if errorsIs err errKeySourceUnknown then ChainEnsureKeysFailUnknownSource
      else if errorsIs err errKeyCountShort then ChainEnsureKeysFailCountMismatch
      else if errorsIs err errKeyRefNotLocal then ChainEnsureKeysFailKeyNotLocal
      else if errorsIs err errKeyUnreadable then ChainEnsureKeysFailKeyUnreadable
      else FailStageUnclassified)"

definition GenesisFailure :: "goErr \<Rightarrow> Status" where
  "GenesisFailure err =
     (if errorsIs err errGenesisExistingInvalid then ChainBuildGenesisFailExistingInvalid
      else if errorsIs err errGenesisExistingForeign then ChainBuildGenesisFailExistingForeign
      else if errorsIs err errGenesisForkUnresolved then ChainBuildGenesisFailForkUnresolved
      else if errorsIs err errGenesisDeclUnused then ChainBuildGenesisFailDeclUnused
      else if errorsIs err errGenesisTargetUnable then ChainBuildGenesisFailTargetUnable
      else FailStageUnclassified)"

definition ConfigFailure :: "goErr \<Rightarrow> Status" where
  "ConfigFailure err =
     (if errorsIs err errConfigBadOverride then ChainBuildNodeConfigFailBadOverride
      else if errorsIs err errConfigReadback then ChainBuildNodeConfigFailReadback
      else if errorsIs err errConfigPinUnreadable then ChainBuildNodeConfigFailPinUnreadable
      else FailStageUnclassified)"

definition BuildFailure :: "goErr \<Rightarrow> Status" where
  "BuildFailure err =
     (if errorsIs err errBuildBadOption then ChainBuildNodeCommandFailBadOption
      else if errorsIs err errBuildSplitNetwork then ChainBuildNodeCommandFailSplitNetwork
      else FailStageUnclassified)"

definition DeployFailure :: "goErr \<Rightarrow> Status" where
  "DeployFailure err =
     (if errorsIs err errDeployInputMissing then ChainDeployNodesFailInputMissing
      else if errorsIs err errDeployInputForeign then ChainDeployNodesFailInputForeign
      else FailStageUnclassified)"

definition InitFailure :: "goErr \<Rightarrow> Status" where
  "InitFailure err =
     (if errorsIs err errInitTargetUnable then ChainInitNodesFailTargetUnable
      else if errorsIs err errInitGenesisUnreadable then ChainInitNodesFailGenesisUnreadable
      else if errorsIs err errInitDatadir then ChainInitNodesFailDatadir
      else if errorsIs err errLaunchPortBusy then ChainLaunchNodesFailPortBusy
      else FailStageUnclassified)"

definition LaunchFailure :: "goErr \<Rightarrow> Status" where
  "LaunchFailure err =
     (if errorsIs err errLaunchNoBinary then ChainLaunchNodesFailNoBinary
      else if errorsIs err errLaunchPortBusy then ChainLaunchNodesFailPortBusy
      else if errorsIs err errLaunchOccupied then ChainLaunchNodesFailOccupied
      else if errorsIs err errLaunchNoKeystore then ChainLaunchNodesFailNoKeystore
      else if errorsIs err errLaunchPhaseEmpty then ChainLaunchNodesFailPhaseEmpty
      else FailStageUnclassified)"

definition CrossForkFailure :: "goErr \<Rightarrow> Status" where
  "CrossForkFailure err =
     (if errorsIs err errCrossForkNoFork then ChainOpCrossForkFailNoFork
      else if errorsIs err errCrossForkHeadUnreadable then ChainOpCrossForkFailHeadUnreadable
      else if errorsIs err errCrossForkAlreadyPast then ChainOpCrossForkFailAlreadyPast
      else if errorsIs err errCrossForkNobodyCameBack then ChainOpCrossForkFailNobodyCameBack
      else if errorsIs err errLaunchNoBinary then ChainLaunchNodesFailNoBinary
      else ConfigFailure err)"

definition StopFailure :: "goErr \<Rightarrow> Status" where
  "StopFailure err =
     (if errorsIs err errOpSomeStillUp then ChainOpStopNodesFailSomeStillUp
      else if errorsIs err errOpNoSuchNode then ChainOpFailNoSuchNode
      else if errorsIs err errOpPrecondition then ChainOpFailPrecondition
      else FailStageUnclassified)"

definition NodeOpFailure :: "goErr \<Rightarrow> Status" where
  "NodeOpFailure err =
     (if errorsIs err errOpNoSuchNode then ChainOpFailNoSuchNode
      else if errorsIs err errOpNothingToReplace then ChainOpReplaceNodeFailNothingAsked
      else if errorsIs err errOpPrecondition then ChainOpFailPrecondition
      else if errorsIs err errLaunchNoBinary then ChainLaunchNodesFailNoBinary
      else if errorsIs err errLaunchPortBusy then ChainLaunchNodesFailPortBusy
      else if errorsIs err errInitTargetUnable then ChainInitNodesFailTargetUnable
      else if errorsIs err errInitGenesisUnreadable then ChainInitNodesFailGenesisUnreadable
      else ConfigFailure err)"

definition OpPreconditionFailure :: "goErr \<Rightarrow> Status" where
  "OpPreconditionFailure err =
     (if errorsIs err errOpPrecondition then ChainOpFailPrecondition
      else FailStageUnclassified)"

text \<open>\<open>FailureStatus\<close>: 0 for no error.\<close>

definition FailureStatus :: "string \<Rightarrow> goErr option \<Rightarrow> Status" where
  "FailureStatus step err =
     (case err of None \<Rightarrow> 0 | Some e \<Rightarrow>
      let s = (if step = stepNew then NewFailure e
               else if step = stepPlace then PlaceFailure e
               else if step = stepKeys then KeysFailure e
               else if step = stepGenesis then GenesisFailure e
               else if step = stepConfig then ConfigFailure e
               else if step = stepBuild then BuildFailure e
               else if step = stepDeploy then DeployFailure e
               else if step = stepInit then InitFailure e
               else if step = stepStart then LaunchFailure e
               else if step = crossForkStep then CrossForkFailure e
               else if step = ''stop'' then StopFailure e
               else if CHR '' '' \<in> set step \<or> step = ''restart'' \<or> step = ''rm'' \<or> step = ''hardfork''
                 then NodeOpFailure e
               else FailStageUnclassified)
      in if s = FailStageUnclassified then
           (let p = OpPreconditionFailure e in if p \<noteq> FailStageUnclassified then p else s)
         else s)"

section \<open>What a failure is called\<close>

lemmas classifiers = NewFailure_def PlaceFailure_def KeysFailure_def GenesisFailure_def ConfigFailure_def
  BuildFailure_def DeployFailure_def InitFailure_def LaunchFailure_def CrossForkFailure_def StopFailure_def
  NodeOpFailure_def OpPreconditionFailure_def

text \<open>The blocks whose failures the classifier of a step may name.\<close>

definition blocksOf :: "string \<Rightarrow> Status list" where
  "blocksOf step =
     (if step = stepNew then [ChainOpenWorkspace]
      else if step = stepPlace then [ChainBuildNodeTable]
      else if step = stepKeys then [ChainEnsureKeys]
      else if step = stepGenesis then [ChainBuildGenesis]
      else if step = stepConfig then [ChainBuildNodeConfig]
      else if step = stepBuild then [ChainBuildNodeCommand]
      else if step = stepDeploy then [ChainDeployNodes]
      else if step = stepInit then [ChainInitNodes, ChainLaunchNodes]
      else if step = stepStart then [ChainLaunchNodes]
      else if step = crossForkStep then [ChainOpCrossFork, ChainLaunchNodes, ChainBuildNodeConfig]
      else if step = ''stop'' then [ChainOpStopNodes]
      else [ChainOpReplaceNode, ChainLaunchNodes, ChainInitNodes, ChainBuildNodeConfig])"

lemmas failure_values = Block_def IsFailure_def blockSize_def failureSlot_def status_consts

text \<open>A failure state, filed under one of these blocks, a shared one or none.\<close>

definition filed :: "Status list \<Rightarrow> Status \<Rightarrow> bool" where
  "filed bs s \<longleftrightarrow> s \<noteq> 0 \<and> IsFailure s \<and> Block s \<in> set bs \<union> {opShared, areaCommon}"

lemma filed_values:
  "filed bs ChainBuildGenesisFailDeclUnused \<longleftrightarrow> ChainBuildGenesis \<in> set bs"
  "filed bs ChainBuildGenesisFailExistingForeign \<longleftrightarrow> ChainBuildGenesis \<in> set bs"
  "filed bs ChainBuildGenesisFailExistingInvalid \<longleftrightarrow> ChainBuildGenesis \<in> set bs"
  "filed bs ChainBuildGenesisFailForkUnresolved \<longleftrightarrow> ChainBuildGenesis \<in> set bs"
  "filed bs ChainBuildGenesisFailTargetUnable \<longleftrightarrow> ChainBuildGenesis \<in> set bs"
  "filed bs ChainBuildNodeCommandFailBadOption \<longleftrightarrow> ChainBuildNodeCommand \<in> set bs"
  "filed bs ChainBuildNodeCommandFailSplitNetwork \<longleftrightarrow> ChainBuildNodeCommand \<in> set bs"
  "filed bs ChainBuildNodeConfigFailBadOverride \<longleftrightarrow> ChainBuildNodeConfig \<in> set bs"
  "filed bs ChainBuildNodeConfigFailPinUnreadable \<longleftrightarrow> ChainBuildNodeConfig \<in> set bs"
  "filed bs ChainBuildNodeConfigFailReadback \<longleftrightarrow> ChainBuildNodeConfig \<in> set bs"
  "filed bs ChainBuildNodeTableFailSetContended \<longleftrightarrow> ChainBuildNodeTable \<in> set bs"
  "filed bs ChainBuildNodeTableFailTwoLayouts \<longleftrightarrow> ChainBuildNodeTable \<in> set bs"
  "filed bs ChainDeployNodesFailInputForeign \<longleftrightarrow> ChainDeployNodes \<in> set bs"
  "filed bs ChainDeployNodesFailInputMissing \<longleftrightarrow> ChainDeployNodes \<in> set bs"
  "filed bs ChainEnsureKeysFailCountMismatch \<longleftrightarrow> ChainEnsureKeys \<in> set bs"
  "filed bs ChainEnsureKeysFailKeyNotLocal \<longleftrightarrow> ChainEnsureKeys \<in> set bs"
  "filed bs ChainEnsureKeysFailKeyUnreadable \<longleftrightarrow> ChainEnsureKeys \<in> set bs"
  "filed bs ChainEnsureKeysFailUnknownSource \<longleftrightarrow> ChainEnsureKeys \<in> set bs"
  "filed bs ChainInitNodesFailDatadir \<longleftrightarrow> ChainInitNodes \<in> set bs"
  "filed bs ChainInitNodesFailGenesisUnreadable \<longleftrightarrow> ChainInitNodes \<in> set bs"
  "filed bs ChainInitNodesFailTargetUnable \<longleftrightarrow> ChainInitNodes \<in> set bs"
  "filed bs ChainLaunchNodesFailNoBinary \<longleftrightarrow> ChainLaunchNodes \<in> set bs"
  "filed bs ChainLaunchNodesFailNoKeystore \<longleftrightarrow> ChainLaunchNodes \<in> set bs"
  "filed bs ChainLaunchNodesFailOccupied \<longleftrightarrow> ChainLaunchNodes \<in> set bs"
  "filed bs ChainLaunchNodesFailPhaseEmpty \<longleftrightarrow> ChainLaunchNodes \<in> set bs"
  "filed bs ChainLaunchNodesFailPortBusy \<longleftrightarrow> ChainLaunchNodes \<in> set bs"
  "filed bs ChainOpCrossForkFailAlreadyPast \<longleftrightarrow> ChainOpCrossFork \<in> set bs"
  "filed bs ChainOpCrossForkFailHeadUnreadable \<longleftrightarrow> ChainOpCrossFork \<in> set bs"
  "filed bs ChainOpCrossForkFailNoFork \<longleftrightarrow> ChainOpCrossFork \<in> set bs"
  "filed bs ChainOpCrossForkFailNobodyCameBack \<longleftrightarrow> ChainOpCrossFork \<in> set bs"
  "filed bs ChainOpFailNoSuchNode \<longleftrightarrow> True"
  "filed bs ChainOpFailPrecondition \<longleftrightarrow> True"
  "filed bs ChainOpReplaceNodeFailNothingAsked \<longleftrightarrow> ChainOpReplaceNode \<in> set bs"
  "filed bs ChainOpStopNodesFailSomeStillUp \<longleftrightarrow> ChainOpStopNodes \<in> set bs"
  "filed bs ChainOpenWorkspaceFailNoChain \<longleftrightarrow> ChainOpenWorkspace \<in> set bs"
  "filed bs FailStageUnclassified \<longleftrightarrow> True"
  by (simp_all add: filed_def failure_values)

lemma filed_classifiers:
  "filed [ChainOpenWorkspace] (NewFailure e)"
  "filed [ChainBuildNodeTable] (PlaceFailure e)"
  "filed [ChainEnsureKeys] (KeysFailure e)"
  "filed [ChainBuildGenesis] (GenesisFailure e)"
  "ChainBuildNodeConfig \<in> set bs \<Longrightarrow> filed bs (ConfigFailure e)"
  "filed [ChainBuildNodeCommand] (BuildFailure e)"
  "filed [ChainDeployNodes] (DeployFailure e)"
  "filed [ChainInitNodes, ChainLaunchNodes] (InitFailure e)"
  "filed [ChainLaunchNodes] (LaunchFailure e)"
  "filed [ChainOpCrossFork, ChainLaunchNodes, ChainBuildNodeConfig] (CrossForkFailure e)"
  "filed [ChainOpStopNodes] (StopFailure e)"
  "filed [ChainOpReplaceNode, ChainLaunchNodes, ChainInitNodes, ChainBuildNodeConfig] (NodeOpFailure e)"
  "filed bs (OpPreconditionFailure e)"
  by (simp_all add: classifiers filed_values)

lemma FailureStatus_filed: "filed (blocksOf step) (FailureStatus step (Some e))"
  unfolding FailureStatus_def Let_def option.case blocksOf_def
  by (auto simp: filed_classifiers filed_values)


end
