(* ===== verification/Chain_Record.thy ===== *)
theory Chain_Record
  imports Chain_Failures Statemachine
begin

text \<open>
  What a workspace records of a composition and what is read back from it: the steps and how they ended
  (\<open>internal/core/session/composition.go\<close>, \<open>internal/chainsetup/workspace.go\<close>), which steps a step
  needs (\<open>composeNeeds\<close>), where a resume begins (\<open>FirstUndone\<close>, \<open>ResumeStep\<close>), and what a verb asks of
  the network (\<open>verb_needs.go\<close>). Of a node record these read the index, the pid and the argv. The prose
  field \<open>why\<close> of \<open>verbNeeds\<close> is read by no code and left out.
\<close>

section \<open>Steps\<close>

type_synonym StepState = string

definition StepRunning :: StepState where "StepRunning = ''running''"
definition StepDone :: StepState where "StepDone = ''done''"
definition StepFailed :: StepState where "StepFailed = ''failed''"

record Step =
  Done :: bool
  Result :: StepState
  Detail :: string
  Err :: string
  Failed :: string
  StartedAt :: string
  At :: string

definition zeroStep :: Step where
  "zeroStep = \<lparr>Done = False, Result = '''', Detail = '''', Err = '''', Failed = '''', StartedAt = '''', At = ''''\<rparr>"

text \<open>The clock's reading is an argument.\<close>

definition StepMark :: "string \<Rightarrow> string \<Rightarrow> Step" where
  "StepMark t detail = zeroStep\<lparr>Done := True, Result := StepDone, Detail := detail, StartedAt := t, At := t\<rparr>"

definition StepBegin :: "string \<Rightarrow> Step" where
  "StepBegin t = zeroStep\<lparr>Result := StepRunning, StartedAt := t\<rparr>"

definition StepEnd :: "string \<Rightarrow> Step \<Rightarrow> string \<Rightarrow> goErr option \<Rightarrow> Step" where
  "StepEnd t begun detail err =
     (let out = begun\<lparr>Detail := detail, At := t\<rparr>
      in case err of Some e \<Rightarrow> out\<lparr>Result := StepFailed, Err := errorText e\<rparr>
         | None \<Rightarrow> out\<lparr>Done := True, Result := StepDone\<rparr>)"

section \<open>The record of a workspace\<close>

record nodeRec =
  nr_Index :: int
  nr_PID :: int
  nr_Args :: "string list"

record wsState =
  ws_Nodes :: "nodeRec list"
  ws_Steps :: "string \<rightharpoonup> Step"
  ws_StatePath :: string
  ws_Request :: "string option"

text \<open>\<open>ws_Request\<close> is the stage the recorded request asks for, when a request is recorded.\<close>

definition markStep :: "string \<Rightarrow> wsState \<Rightarrow> string \<Rightarrow> string \<Rightarrow> wsState" where
  "markStep t w step detail = w\<lparr>ws_Steps := (ws_Steps w)(step \<mapsto> StepMark t detail)\<rparr>"

definition MarkStepFailed :: "string \<Rightarrow> wsState \<Rightarrow> string \<Rightarrow> goErr option \<Rightarrow> Status \<Rightarrow> wsState" where
  "MarkStepFailed t w step cause status =
     (let r = StepEnd t (StepBegin t) '''' cause;
          r = (if status \<noteq> 0 then r\<lparr>Failed := status_String status\<rparr> else r)
      in w\<lparr>ws_Steps := (ws_Steps w)(step \<mapsto> r)\<rparr>)"

definition SetStatePath :: "wsState \<Rightarrow> string \<Rightarrow> wsState" where
  "SetStatePath w path = w\<lparr>ws_StatePath := path\<rparr>"

section \<open>Which step follows which\<close>

definition UpStepNames :: "string list" where
  "UpStepNames = [''new'', ''place'', ''keys'', ''genesis'', ''config'', ''build'', ''deploy'', ''init'', ''start'']"

definition composeNeeds :: "string \<Rightarrow> string list" where
  "composeNeeds step =
     (if step = ''place'' then [''new'']
      else if step = ''keys'' then [''new'']
      else if step = ''genesis'' then [''place'']
      else if step = ''config'' then [''place'', ''keys'']
      else if step = ''build'' then [''place'', ''keys'']
      else if step = ''deploy'' then [''place'', ''genesis'', ''config'']
      else if step = ''init'' then [''deploy'']
      else if step = ''start'' then [''init'']
      else [])"

definition emDash :: string where
  "emDash = [CHR 0xE2, CHR 0x80, CHR 0x94]"

definition notRunText :: "string \<Rightarrow> string \<Rightarrow> string" where
  "notRunText step need = ''chainsetup: '' @ step @ '': '' @ need @ '' has not run '' @ emDash
     @ '' run `chain '' @ need @ ''` first''"

definition require :: "wsState \<Rightarrow> string \<Rightarrow> goErr option" where
  "require w step =
     (case filter (\<lambda>need. ws_Steps w need = None) (composeNeeds step) of
        [] \<Rightarrow> None
      | need # _ \<Rightarrow> Mark (Sentinel errOpPrecondition) (Some (Errorf (notRunText step need) [])))"

text \<open>\<open>Manager.stepIsDue\<close>, after the workspace was opened.\<close>

definition stepIsDue :: "wsState \<Rightarrow> string \<Rightarrow> goErr option" where
  "stepIsDue w step =
     (case filter (\<lambda>need. ws_Steps w need = None) (composeNeeds step) of
        [] \<Rightarrow> None | need # _ \<Rightarrow> Some (Errorf (notRunText step need) []))"

definition UpDeploy :: string where "UpDeploy = ''deploy''"
definition UpInit :: string where "UpInit = ''init''"
definition UpStart :: string where "UpStart = ''start''"

definition stepDone :: "wsState \<Rightarrow> string \<Rightarrow> bool" where
  "stepDone w name = (case ws_Steps w name of None \<Rightarrow> False | Some r \<Rightarrow> Done r)"

text \<open>The loop of \<open>FirstUndone\<close>, and the function.\<close>

fun firstUndoneIn :: "string \<Rightarrow> wsState \<Rightarrow> string list \<Rightarrow> string" where
  "firstUndoneIn stage w [] = ''''"
| "firstUndoneIn stage w (name # names) =
     (if stage = UpDeploy \<and> (name = ''init'' \<or> name = ''start'') then ''''
      else if stage = UpInit \<and> name = ''start'' then ''''
      else if \<not> stepDone w name then name
      else firstUndoneIn stage w names)"

definition FirstUndone :: "wsState \<Rightarrow> string" where
  "FirstUndone w =
     (let stage = (case ws_Request w of Some s \<Rightarrow> if s \<noteq> '''' then s else UpStart | None \<Rightarrow> UpStart)
      in firstUndoneIn stage w UpStepNames)"

definition stopAfterFor :: "string \<Rightarrow> string" where
  "stopAfterFor stage =
     (if stage = UpDeploy then stepDeploy else if stage = UpInit then stepInit else '''')"

section \<open>The names of the composition's states\<close>

definition nameChain :: StateName where "nameChain = ''CHAIN''"
definition nameChainIdle :: StateName where "nameChainIdle = ''CHAIN_IDLE''"
definition nameChainBuildUp :: StateName where "nameChainBuildUp = ''CHAIN_BUILD_UP''"
definition nameChainOpenWorkspace :: StateName where "nameChainOpenWorkspace = ''CHAIN_OPEN_WORKSPACE''"
definition nameChainBuildNodeTable :: StateName where "nameChainBuildNodeTable = ''CHAIN_BUILD_NODE_TABLE''"
definition nameChainEnsureKeys :: StateName where "nameChainEnsureKeys = ''CHAIN_ENSURE_KEYS''"
definition nameChainBuildGenesis :: StateName where "nameChainBuildGenesis = ''CHAIN_BUILD_GENESIS''"
definition nameChainBuildNodeConfig :: StateName where "nameChainBuildNodeConfig = ''CHAIN_BUILD_NODE_CONFIG''"
definition nameChainBuildNodeCommand :: StateName where "nameChainBuildNodeCommand = ''CHAIN_BUILD_NODE_COMMAND''"
definition nameChainDeployNodes :: StateName where "nameChainDeployNodes = ''CHAIN_DEPLOY_NODES''"
definition nameChainInitNodes :: StateName where "nameChainInitNodes = ''CHAIN_INIT_NODES''"
definition nameChainLaunchNodes :: StateName where "nameChainLaunchNodes = ''CHAIN_LAUNCH_NODES''"
definition nameChainBuildUpStoppedAtStep :: StateName where
  "nameChainBuildUpStoppedAtStep = ''CHAIN_BUILD_UP_STOPPED_AT_STEP''"
definition nameChainReady :: StateName where "nameChainReady = ''CHAIN_READY''"
definition nameChainFailed :: StateName where "nameChainFailed = ''CHAIN_FAILED''"
definition nameChainOp :: StateName where "nameChainOp = ''CHAIN_OP''"
definition nameChainStopped :: StateName where "nameChainStopped = ''CHAIN_STOPPED''"
definition nameChainRemoved :: StateName where "nameChainRemoved = ''CHAIN_REMOVED''"

lemmas chain_names = nameChain_def nameChainIdle_def nameChainBuildUp_def nameChainOpenWorkspace_def
  nameChainBuildNodeTable_def nameChainEnsureKeys_def nameChainBuildGenesis_def nameChainBuildNodeConfig_def
  nameChainBuildNodeCommand_def nameChainDeployNodes_def nameChainInitNodes_def nameChainLaunchNodes_def
  nameChainBuildUpStoppedAtStep_def nameChainReady_def nameChainFailed_def nameChainOp_def
  nameChainStopped_def nameChainRemoved_def

definition stageOrder :: "(string \<times> StateName) list" where
  "stageOrder = [
     (stepNew, nameChainOpenWorkspace),
     (stepPlace, nameChainBuildNodeTable),
     (stepKeys, nameChainEnsureKeys),
     (stepGenesis, nameChainBuildGenesis),
     (stepConfig, nameChainBuildNodeConfig),
     (stepBuild, nameChainBuildNodeCommand),
     (stepDeploy, nameChainDeployNodes),
     (stepInit, nameChainInitNodes),
     (stepStart, nameChainLaunchNodes)]"

text \<open>The two nested loops of \<open>ResumeStep\<close>: the first part of the path that names a stage.\<close>

definition stageOfPart :: "string \<Rightarrow> string option" where
  "stageOfPart part = map_of (map (\<lambda>(step, name). (name, step)) stageOrder) part"

fun firstStage :: "string list \<Rightarrow> string option" where
  "firstStage [] = None"
| "firstStage (part # parts) = (case stageOfPart part of Some step \<Rightarrow> Some step | None \<Rightarrow> firstStage parts)"

definition ResumeStep :: "wsState \<Rightarrow> string" where
  "ResumeStep w =
     (let p = ws_StatePath w in
      if p = nameChain @ ''/'' @ nameChainReady \<or> p = nameChain @ ''/'' @ nameChainStopped
         \<or> p = nameChain @ ''/'' @ nameChainRemoved then ''''
      else if p = '''' \<or> p = nameChain @ ''/'' @ nameChainIdle
         \<or> p = nameChain @ ''/'' @ nameChainBuildUpStoppedAtStep then FirstUndone w
      else case firstStage (split_on (CHR ''/'') p) of Some step \<Rightarrow> step | None \<Rightarrow> FirstUndone w)"

section \<open>What a verb needs (verb_needs.go)\<close>

datatype runNeed = anyRun | placed | stopped
datatype nodeNeed = anyNode | launched | down

record verbNeed =
  vn_step :: string
  vn_run :: runNeed
  vn_node :: "nodeNeed list"
  vn_nodeAll :: bool

definition verbNeed_of :: "string \<Rightarrow> runNeed \<Rightarrow> nodeNeed list \<Rightarrow> bool \<Rightarrow> verbNeed" where
  "verbNeed_of s r n al = \<lparr>vn_step = s, vn_run = r, vn_node = n, vn_nodeAll = al\<rparr>"

definition verbNeeds :: "(string \<times> verbNeed) list" where
  "verbNeeds = [
    (''Allocate'', verbNeed_of ''place'' anyRun [] False),
    (''EnsureKeys'', verbNeed_of ''keys'' anyRun [] False),
    (''Keys'', verbNeed_of ''keys'' anyRun [] False),
    (''Genesis'', verbNeed_of ''genesis'' anyRun [] False),
    (''Config'', verbNeed_of ''config'' anyRun [] False),
    (''Provision'', verbNeed_of ''deploy'' anyRun [] False),
    (''Init'', verbNeed_of ''init'' anyRun [] False),
    (''LaunchPlan'', verbNeed_of ''start'' anyRun [] False),
    (''StartPhase'', verbNeed_of ''start'' anyRun [] False),
    (''RunPhaseActions'', verbNeed_of ''start'' anyRun [] False),
    (''FinishLaunch'', verbNeed_of ''start'' anyRun [] False),
    (''LaunchOpts'', verbNeed_of ''build'' anyRun [] False),
    (''Endpoints'', verbNeed_of '''' placed [] False),
    (''LivePIDs'', verbNeed_of '''' placed [] False),
    (''Health'', verbNeed_of '''' placed [] False),
    (''Preflight'', verbNeed_of '''' placed [] False),
    (''Hardfork'', verbNeed_of '''' placed [launched] True),
    (''VerifyValidators'', verbNeed_of '''' placed [] False),
    (''Rm'', verbNeed_of '''' stopped [] False),
    (''New'', verbNeed_of '''' anyRun [] False),
    (''Dir'', verbNeed_of '''' anyRun [] False),
    (''State'', verbNeed_of '''' anyRun [] False),
    (''RPCHost'', verbNeed_of '''' anyRun [] False),
    (''OpenHost'', verbNeed_of '''' anyRun [] False),
    (''Have'', verbNeed_of '''' anyRun [] False),
    (''NodeSet'', verbNeed_of '''' anyRun [] False),
    (''Netmap'', verbNeed_of '''' anyRun [] False),
    (''Save'', verbNeed_of '''' anyRun [] False),
    (''Lock'', verbNeed_of '''' anyRun [] False),
    (''SetDriver'', verbNeed_of '''' anyRun [] False),
    (''SetStatePath'', verbNeed_of '''' anyRun [] False),
    (''SetEnv'', verbNeed_of '''' anyRun [] False),
    (''SetServerLookup'', verbNeed_of '''' anyRun [] False),
    (''Acquire'', verbNeed_of '''' anyRun [] False),
    (''MarkStepFailed'', verbNeed_of '''' anyRun [] False),
    (''Reconcile'', verbNeed_of '''' anyRun [] False),
    (''ObserveNodes'', verbNeed_of '''' anyRun [] False),
    (''SnapshotForReuse'', verbNeed_of '''' anyRun [] False),
    (''Retarget'', verbNeed_of '''' anyRun [] False),
    (''Logs'', verbNeed_of '''' anyRun [] False),
    (''Stop'', verbNeed_of '''' anyRun [] False),
    (''StopUnrecorded'', verbNeed_of '''' anyRun [] False),
    (''StopNode'', verbNeed_of '''' anyRun [] False),
    (''RollBackLaunch'', verbNeed_of '''' anyRun [] False),
    (''RunningNodes'', verbNeed_of '''' anyRun [] False),
    (''CheckFreeSpace'', verbNeed_of '''' anyRun [] False),
    (''ResumeStep'', verbNeed_of '''' anyRun [] False),
    (''FirstUndone'', verbNeed_of '''' anyRun [] False),
    (''RecordRequest'', verbNeed_of '''' anyRun [] False),
    (''RecordConfigSet'', verbNeed_of '''' anyRun [] False),
    (''RecordLaunchSet'', verbNeed_of '''' anyRun [] False),
    (''RecordLaunchCommand'', verbNeed_of '''' anyRun [] False),
    (''ResolveTarget'', verbNeed_of '''' anyRun [] False),
    (''SetBinary'', verbNeed_of '''' anyRun [] False),
    (''StartNode'', verbNeed_of '''' anyRun [down, launched] False),
    (''SwapNode'', verbNeed_of '''' anyRun [launched] False),
    (''Restart'', verbNeed_of '''' anyRun [] False),
    (''ResetNode'', verbNeed_of '''' anyRun [] False),
    (''ForkStanding'', verbNeed_of '''' anyRun [] False),
    (''ForkMoment'', verbNeed_of '''' anyRun [] False),
    (''HandOverFork'', verbNeed_of '''' anyRun [] False),
    (''ConfirmCrossing'', verbNeed_of '''' anyRun [] False),
    (''ReportAlreadyCrossed'', verbNeed_of '''' anyRun [] False),
    (''Compare'', verbNeed_of '''' anyRun [] False),
    (''CheckBaseline'', verbNeed_of '''' anyRun [] False),
    (''ObserveBaseline'', verbNeed_of '''' anyRun [] False)]"

text \<open>\<open>lowerVerb\<close>: a capital letter becomes small, with a space before it unless it is the first rune.\<close>

fun lowerFrom :: "bool \<Rightarrow> string \<Rightarrow> string" where
  "lowerFrom first [] = []"
| "lowerFrom first (r # rs) =
     (if 65 \<le> (of_char r :: nat) \<and> (of_char r :: nat) \<le> 90
      then (if first then [] else '' '') @ [char_of ((of_char r :: nat) + 32)]
      else [r]) @ lowerFrom False rs"

definition lowerVerb :: "string \<Rightarrow> string" where
  "lowerVerb verb = lowerFrom True verb"

definition opRefusal :: "string \<Rightarrow> goErr option" where
  "opRefusal txt = Mark (Sentinel errOpPrecondition) (Some (Errorf txt []))"

fun checkNode :: "string \<Rightarrow> nodeNeed list \<Rightarrow> nodeRec \<Rightarrow> goErr option" where
  "checkNode verb [] ns = None"
| "checkNode verb (need # needs) ns =
     (case need of
        anyNode \<Rightarrow> checkNode verb needs ns
      | launched \<Rightarrow>
          if length (nr_Args ns) = 0 then
            opRefusal (''chainsetup: '' @ lowerVerb verb @ '': node'' @ itoa (nr_Index ns) @ '' has no recorded argv ''
              @ emDash @ '' run `chain start` first'')
          else checkNode verb needs ns
      | down \<Rightarrow>
          if nr_PID ns > 0 then
            opRefusal (''chainsetup: '' @ lowerVerb verb @ '': node'' @ itoa (nr_Index ns) @ '' is already running (pid ''
              @ itoa (nr_PID ns) @ '')'')
          else checkNode verb needs ns)"

text \<open>A loop that returns the first error.\<close>

fun firstErr :: "('a \<Rightarrow> goErr option) \<Rightarrow> 'a list \<Rightarrow> goErr option" where
  "firstErr f [] = None"
| "firstErr f (x # xs) = (case f x of Some e \<Rightarrow> Some e | None \<Rightarrow> firstErr f xs)"

definition allow :: "wsState \<Rightarrow> string \<Rightarrow> goErr option" where
  "allow w verb =
     (case map_of verbNeeds verb of
        None \<Rightarrow> opRefusal (''chainsetup: '' @ verb @ '': this verb declares no requirements '' @ emDash
          @ '' add it to verbNeeds'')
      | Some need \<Rightarrow>
          (case (if vn_step need \<noteq> '''' then require w (vn_step need) else None) of
             Some e \<Rightarrow> Some e
           | None \<Rightarrow>
               (case (if vn_nodeAll need then firstErr (checkNode verb (vn_node need)) (ws_Nodes w) else None) of
                  Some e \<Rightarrow> Some e
                | None \<Rightarrow>
                    (case vn_run need of
                       anyRun \<Rightarrow> None
                     | placed \<Rightarrow>
                         if length (ws_Nodes w) = 0 then
                           opRefusal (''chainsetup: '' @ lowerVerb verb @ '': the node table is empty '' @ emDash
                             @ '' run `chain place` first'')
                         else None
                     | stopped \<Rightarrow>
                         firstErr (\<lambda>ns. if nr_PID ns > 0 then
                             opRefusal (''chainsetup: '' @ lowerVerb verb @ '': node'' @ itoa (nr_Index ns)
                               @ '' is running (pid '' @ itoa (nr_PID ns) @ '') '' @ emDash @ '' run `chain stop` first'')
                           else None) (ws_Nodes w)))))"

fun nodeAt :: "nodeRec list \<Rightarrow> int \<Rightarrow> nat \<Rightarrow> nat option" where
  "nodeAt [] index i = None"
| "nodeAt (ns # rest) index i = (if nr_Index ns = index then Some i else nodeAt rest index (Suc i))"

definition allowNode :: "wsState \<Rightarrow> string \<Rightarrow> int \<Rightarrow> goErr option" where
  "allowNode w verb index =
     (case allow w verb of
        Some e \<Rightarrow> Some e
      | None \<Rightarrow>
          (case nodeAt (ws_Nodes w) index 0 of
             None \<Rightarrow> Mark (Sentinel errOpNoSuchNode)
               (Some (Errorf (''chainsetup: no node '' @ itoa index @ '' in the table'') []))
           | Some ni \<Rightarrow> checkNode verb (vn_node (the (map_of verbNeeds verb))) (ws_Nodes w ! ni)))"

end
