(* ===== verification/Record_Laws.thy ===== *)
theory Record_Laws
  imports Chain_Record
begin

text \<open>
  What the record of a composition answers: which step a resume begins at, which steps may be run by hand,
  and which operations a network may be asked for.
\<close>

section \<open>Recorded steps\<close>

lemma MarkStepFailed_steps: "ws_Steps (MarkStepFailed t w s cause st) n = None \<longleftrightarrow> n \<noteq> s \<and> ws_Steps w n = None"
  by (simp add: MarkStepFailed_def Let_def)

lemma markStep_steps: "ws_Steps (markStep t w s d) n = None \<longleftrightarrow> n \<noteq> s \<and> ws_Steps w n = None"
  by (simp add: markStep_def)

text \<open>
  The order check reads whether a step has an entry, and a step that failed has one: to every
  later step, a step that failed has run as much as one that succeeded, although the record
  says it is not done.
\<close>

theorem failed_step_counts_as_run:
  "require (MarkStepFailed t w s (Some cause) st) u = require (markStep t w s d) u
   \<and> stepIsDue (MarkStepFailed t w s (Some cause) st) u = stepIsDue (markStep t w s d) u
   \<and> \<not> stepDone (MarkStepFailed t w s (Some cause) st) s \<and> stepDone (markStep t w s d) s"
  unfolding require_def stepIsDue_def MarkStepFailed_steps markStep_steps
  by (simp add: stepDone_def markStep_def MarkStepFailed_def StepMark_def StepEnd_def StepBegin_def
      zeroStep_def Let_def)

section \<open>Where a resume begins\<close>

text \<open>The steps a request for a stage performs: all of them, or those up to the step it stops after.\<close>

definition stepsFor :: "string \<Rightarrow> string list" where
  "stepsFor stage =
     (if stopAfterFor stage = '''' then UpStepNames
      else takeWhile (\<lambda>s. s \<noteq> stopAfterFor stage) UpStepNames @ [stopAfterFor stage])"

definition requestedStage :: "wsState \<Rightarrow> string" where
  "requestedStage w = (case ws_Request w of Some s \<Rightarrow> s | None \<Rightarrow> '''')"

lemma stepsFor_values:
  "stepsFor UpDeploy = [''new'', ''place'', ''keys'', ''genesis'', ''config'', ''build'', ''deploy'']"
  "stepsFor UpInit = [''new'', ''place'', ''keys'', ''genesis'', ''config'', ''build'', ''deploy'', ''init'']"
  "stage \<noteq> UpDeploy \<Longrightarrow> stage \<noteq> UpInit \<Longrightarrow> stepsFor stage = UpStepNames"
  by (simp_all add: stepsFor_def stopAfterFor_def UpDeploy_def UpInit_def UpStepNames_def step_names)

lemma firstUndoneIn_filter:
  "firstUndoneIn stage w UpStepNames =
     (case filter (\<lambda>s. \<not> stepDone w s) (stepsFor stage) of [] \<Rightarrow> '''' | s # _ \<Rightarrow> s)"
proof -
  have "stage = UpDeploy \<or> stage = UpInit \<or> stage \<noteq> UpDeploy \<and> stage \<noteq> UpInit" by blast
  then show ?thesis
  proof (elim disjE conjE)
    assume "stage = UpDeploy"
    then show ?thesis by (simp add: stepsFor_values) (simp add: UpStepNames_def UpDeploy_def UpInit_def)
  next
    assume "stage = UpInit"
    then show ?thesis by (simp add: stepsFor_values) (simp add: UpStepNames_def UpDeploy_def UpInit_def)
  next
    assume "stage \<noteq> UpDeploy" "stage \<noteq> UpInit"
    then show ?thesis by (simp add: stepsFor_values) (simp add: UpStepNames_def)
  qed
qed

text \<open>
  \<open>FirstUndone\<close> and the machine agree on how far a request goes: it is the first step not done
  among the steps the request's stage performs, those up to the one \<open>stopAfterFor\<close> names, and empty when
  all of them are done.
\<close>

theorem first_undone_within_request:
  "FirstUndone w =
     (case filter (\<lambda>s. \<not> stepDone w s) (stepsFor (requestedStage w)) of [] \<Rightarrow> '''' | s # _ \<Rightarrow> s)"
proof -
  define stage where "stage = (case ws_Request w of Some s \<Rightarrow> if s \<noteq> '''' then s else UpStart | None \<Rightarrow> UpStart)"
  have "stepsFor (requestedStage w) = stepsFor stage"
    by (auto simp: stage_def requestedStage_def stepsFor_def stopAfterFor_def UpStart_def UpDeploy_def UpInit_def
        split: option.splits)
  moreover have "FirstUndone w = (case filter (\<lambda>s. \<not> stepDone w s) (stepsFor stage) of [] \<Rightarrow> '''' | s # _ \<Rightarrow> s)"
    unfolding FirstUndone_def stage_def [symmetric] Let_def by (rule firstUndoneIn_filter)
  ultimately show ?thesis by simp
qed

lemma split_path: "split_on (CHR ''/'') (a @ CHR ''/'' # b) = split_on (CHR ''/'') a @ split_on (CHR ''/'') b"
proof (induction a)
  case (Cons x xs)
  obtain y ys where "split_on (CHR ''/'') xs = y # ys" by (cases "split_on (CHR ''/'') xs") auto
  then show ?case using Cons by simp
qed simp

lemma stage_parts:
  "list_all (\<lambda>(step, name). CHR ''/'' \<notin> set name \<and> stageOfPart name = Some step
     \<and> name \<noteq> nameChainBuildUp \<and> name \<noteq> nameChain) stageOrder"
  "stageOfPart nameChain = None" "stageOfPart nameChainBuildUp = None"
  by code_simp+

text \<open>A position under a stage resumes at that stage's step, whatever the record of the steps says.\<close>

lemma resume_under_stage:
  assumes "(step, name) \<in> set stageOrder" and "rest = '''' \<or> (\<exists>r. rest = CHR ''/'' # r)"
  shows "ResumeStep (SetStatePath w (nameChain @ ''/'' @ nameChainBuildUp @ ''/'' @ name @ rest)) = step"
proof -
  let ?p = "nameChain @ ''/'' @ nameChainBuildUp @ ''/'' @ name @ rest"
  have name: "CHR ''/'' \<notin> set name" "stageOfPart name = Some step"
    using assms(1) stage_parts(1) by (fastforce simp: list_all_iff)+
  obtain parts where "split_on (CHR ''/'') (name @ rest) = name # parts"
    using assms(2) name(1) by (auto simp: split_on_no_sep split_on_append_sep)
  then have "split_on (CHR ''/'') ?p = nameChain # nameChainBuildUp # name # parts"
    by (simp add: chain_names)
  then have "firstStage (split_on (CHR ''/'') ?p) = Some step"
    using name(2) stage_parts(2,3) by simp
  moreover have "take 21 ?p = ''CHAIN/CHAIN_BUILD_UP/''" by (simp add: chain_names)
  then have "?p \<notin> {'''', nameChain @ ''/'' @ nameChainReady, nameChain @ ''/'' @ nameChainStopped,
      nameChain @ ''/'' @ nameChainRemoved, nameChain @ ''/'' @ nameChainIdle,
      nameChain @ ''/'' @ nameChainBuildUpStoppedAtStep}"
    by (auto simp: chain_names)
  ultimately show ?thesis by (simp add: ResumeStep_def SetStatePath_def Let_def)
qed

section \<open>What may be asked of a network\<close>

lemma verb_needs_of_operations:
  "map_of verbNeeds ''Stop'' = Some (verbNeed_of '''' anyRun [] False)"
  "map_of verbNeeds ''Restart'' = Some (verbNeed_of '''' anyRun [] False)"
  "map_of verbNeeds ''SwapNode'' = Some (verbNeed_of '''' anyRun [launched] False)"
  "map_of verbNeeds ''Hardfork'' = Some (verbNeed_of '''' placed [launched] True)"
  "map_of verbNeeds ''ForkStanding'' = Some (verbNeed_of '''' anyRun [] False)"
  "map_of verbNeeds ''Rm'' = Some (verbNeed_of '''' stopped [] False)"
  "map_of verbNeeds ''StartNode'' = Some (verbNeed_of '''' anyRun [down, launched] False)"
  by (simp_all add: verbNeeds_def)

lemma firstErr_None: "firstErr f xs = None \<longleftrightarrow> list_all (\<lambda>x. f x = None) xs"
  by (induction xs) (auto split: option.splits)

lemma opRefusal_Some [simp]: "opRefusal t \<noteq> None"
  by (simp add: opRefusal_def Mark_def)

lemma checkNode_None:
  "checkNode verb [launched] ns = None \<longleftrightarrow> nr_Args ns \<noteq> []"
  "checkNode verb [down, launched] ns = None \<longleftrightarrow> nr_PID ns \<le> 0 \<and> nr_Args ns \<noteq> []"
  by auto

lemma nodeAt_None: "nodeAt ns i k = None \<longleftrightarrow> find (\<lambda>n. nr_Index n = i) ns = None"
  by (induction ns arbitrary: k) auto

lemma nodeAt_Some: "nodeAt ns i k = Some j \<Longrightarrow> k \<le> j \<and> find (\<lambda>n. nr_Index n = i) ns = Some (ns ! (j - k))"
proof (induction ns arbitrary: k)
  case (Cons n ns)
  show ?case
  proof (cases "nr_Index n = i")
    case False
    then have "Suc k \<le> j \<and> find (\<lambda>n. nr_Index n = i) ns = Some (ns ! (j - Suc k))"
      using Cons by simp
    then show ?thesis using False by (simp add: nth_Cons')
  qed (use Cons.prems in auto)
qed simp

text \<open>
  What an operation asks of the network before it runs: a removal that no node runs, a
  hardfork that there are nodes and each has been launched, the others nothing of the whole table;
  and relaunching one node that the node is in the table, down, and has been launched.
\<close>

theorem operations_allowed_iff:
  "allow w ''Stop'' = None \<and> allow w ''Restart'' = None \<and> allow w ''SwapNode'' = None
   \<and> allow w ''ForkStanding'' = None
   \<and> (allow w ''Rm'' = None \<longleftrightarrow> list_all (\<lambda>n. nr_PID n \<le> 0) (ws_Nodes w))
   \<and> (allow w ''Hardfork'' = None \<longleftrightarrow> ws_Nodes w \<noteq> [] \<and> list_all (\<lambda>n. nr_Args n \<noteq> []) (ws_Nodes w))
   \<and> (allowNode w ''StartNode'' i = None \<longleftrightarrow>
        (case find (\<lambda>n. nr_Index n = i) (ws_Nodes w) of
           None \<Rightarrow> False | Some n \<Rightarrow> nr_PID n \<le> 0 \<and> nr_Args n \<noteq> []))"
proof -
  have rm: "allow w ''Rm'' = None \<longleftrightarrow> list_all (\<lambda>n. nr_PID n \<le> 0) (ws_Nodes w)"
    by (simp add: allow_def verb_needs_of_operations verbNeed_of_def firstErr_None if_distrib linorder_not_less
        cong: if_cong)
  have "allow w ''Hardfork'' = None \<longleftrightarrow>
      firstErr (checkNode ''Hardfork'' [launched]) (ws_Nodes w) = None \<and> ws_Nodes w \<noteq> []"
    by (simp add: allow_def verb_needs_of_operations verbNeed_of_def del: checkNode.simps split: option.splits)
  then have hf: "allow w ''Hardfork'' = None \<longleftrightarrow> ws_Nodes w \<noteq> [] \<and> list_all (\<lambda>n. nr_Args n \<noteq> []) (ws_Nodes w)"
    by (auto simp: firstErr_None checkNode_None simp del: checkNode.simps)
  have "allowNode w ''StartNode'' i = None \<longleftrightarrow>
      (case find (\<lambda>n. nr_Index n = i) (ws_Nodes w) of
         None \<Rightarrow> False | Some n \<Rightarrow> checkNode ''StartNode'' [down, launched] n = None)"
  proof (cases "nodeAt (ws_Nodes w) i 0")
    case None
    then show ?thesis using nodeAt_None [of "ws_Nodes w" i 0]
      by (simp add: allowNode_def allow_def verb_needs_of_operations verbNeed_of_def Mark_def)
  next
    case (Some j)
    then show ?thesis using nodeAt_Some [OF Some]
      by (simp add: allowNode_def allow_def verb_needs_of_operations verbNeed_of_def del: checkNode.simps)
  qed
  then have "allowNode w ''StartNode'' i = None \<longleftrightarrow>
      (case find (\<lambda>n. nr_Index n = i) (ws_Nodes w) of
         None \<Rightarrow> False | Some n \<Rightarrow> nr_PID n \<le> 0 \<and> nr_Args n \<noteq> [])"
    by (simp add: checkNode_None del: checkNode.simps split: option.splits)
  then show ?thesis using rm hf by (simp add: allow_def verb_needs_of_operations verbNeed_of_def)
qed

text \<open>Every refusal is a precondition failure.\<close>

lemma checkNode_refuses: "checkNode verb needs ns = Some e \<Longrightarrow> OpPreconditionFailure e = ChainOpFailPrecondition"
  by (induction needs) (auto simp: opRefusal_def Mark_def OpPreconditionFailure_def split: nodeNeed.splits if_splits)

lemma firstErr_Some: "firstErr f xs = Some e \<Longrightarrow> \<exists>x \<in> set xs. f x = Some e"
  by (induction xs) (auto split: option.splits)

lemma allow_refuses: "allow w verb = Some e \<Longrightarrow> OpPreconditionFailure e = ChainOpFailPrecondition"
  by (auto simp: allow_def require_def opRefusal_def Mark_def OpPreconditionFailure_def
      dest!: firstErr_Some dest: checkNode_refuses split: option.splits list.splits if_splits runNeed.splits)

end
