(* ===== verification/Preflight.thy ===== *)
theory Preflight
  imports Node_Peering
begin

text \<open>
  The comparison a suite makes before it builds anything (\<open>internal/core/preflight\<close>): \<open>Compare\<close> holds
  the composed chain against the wanted one on paper, \<open>Check\<close> adds a probe of every node the paper half
  would keep. \<open>Have\<close> and \<open>WantOf\<close> of \<open>internal/chainsetup/steps_preflight.go\<close> fill the two sides.
  A reason names what differed; its wording is not modelled. The digest \<open>GenesisDeclared\<close> is a
  parameter (it is a SHA-256 of the request).
\<close>

section \<open>Data\<close>

record pfNode =
  pf_Index :: int
  pf_Role :: Role
  pf_SyncMode :: string
  pf_Server :: string
  pf_Host :: string
  pf_Ports :: Endpoints
  pf_PID :: int

record Have =
  h_Chain :: string
  h_Binary :: string
  h_KeysDir :: string
  h_Peering :: string
  h_ChainID :: int
  h_BPCount :: int
  h_GenesisDeclared :: string
  h_Nodes :: "pfNode list"
  h_Started :: bool

record Want =
  w_Chain :: string
  w_Binary :: string
  w_KeysDir :: string
  w_Peering :: string
  w_ChainID :: int
  w_BPCount :: int
  w_ENCount :: int
  w_GenesisDeclared :: string
  w_Nodes :: "pfNode list"

type_synonym pfVerdict = int

definition Reuse :: pfVerdict where "Reuse = 0"
definition RebuildNodes :: pfVerdict where "RebuildNodes = 1"
definition RebuildAll :: pfVerdict where "RebuildAll = 2"
definition ComposeIt :: pfVerdict where "ComposeIt = 3"
definition Relaunch :: pfVerdict where "Relaunch = 4"

lemmas verdicts = Reuse_def RebuildNodes_def RebuildAll_def ComposeIt_def Relaunch_def

datatype difference = DRole Role Role | DSync string string | DServer string string

datatype pfReason =
    NothingIsComposed
  | Differs string string string
  | ChainIDDiffers int int
  | GenesisDiffers
  | BPNodesDiffer int int
  | NodesDiffer int int
  | NeverStarted
  | WantedNotComposed int
  | NodeDiffers int "difference list"
  | NotAlive int string
  | NoneAlive

record Decision =
  d_Verdict :: pfVerdict
  d_Nodes :: "int list"
  d_Reasons :: "pfReason list"

definition pfVerdictString :: "pfVerdict \<Rightarrow> string" where
  "pfVerdictString v =
     (if v = Reuse then ''reuse''
      else if v = RebuildNodes then ''rebuild-nodes''
      else if v = RebuildAll then ''rebuild-all''
      else if v = ComposeIt then ''compose''
      else if v = Relaunch then ''relaunch''
      else ''verdict('' @ itoa v @ '')'')"

section \<open>Compare\<close>

definition orMesh :: "string \<Rightarrow> string" where
  "orMesh p = (if p = '''' then Mesh else p)"

definition orText :: "string \<Rightarrow> string \<Rightarrow> string" where
  "orText s def = (if s = '''' then def else s)"

definition differs :: "string \<Rightarrow> string \<Rightarrow> string \<Rightarrow> pfReason list" where
  "differs what a b = (if a \<noteq> b then [Differs what a b] else [])"

text \<open>The network-wide differences, in the order \<open>Compare\<close> collects them.\<close>

definition networkDiffs :: "Have \<Rightarrow> Want \<Rightarrow> pfReason list" where
  "networkDiffs h w =
     differs ''chain'' (h_Chain h) (w_Chain w)
     @ (if w_Binary w \<noteq> '''' then differs ''binary'' (h_Binary h) (w_Binary w) else [])
     @ (if w_KeysDir w \<noteq> '''' then differs ''keys'' (h_KeysDir h) (w_KeysDir w) else [])
     @ (if w_Peering w \<noteq> '''' \<or> h_Peering h \<noteq> ''''
        then differs ''peering'' (orMesh (h_Peering h)) (orMesh (w_Peering w)) else [])
     @ (if w_ChainID w \<noteq> 0 \<and> h_ChainID h \<noteq> w_ChainID w
        then [ChainIDDiffers (h_ChainID h) (w_ChainID w)] else [])
     @ (if h_GenesisDeclared h \<noteq> '''' \<and> w_GenesisDeclared w \<noteq> ''''
           \<and> h_GenesisDeclared h \<noteq> w_GenesisDeclared w then [GenesisDiffers] else [])
     @ (if w_BPCount w \<noteq> 0 \<and> h_BPCount h \<noteq> w_BPCount w
        then [BPNodesDiffer (h_BPCount h) (w_BPCount w)] else [])
     @ (let wantTotal = w_BPCount w + w_ENCount w
        in if wantTotal \<noteq> 0 \<and> int (length (h_Nodes h)) \<noteq> wantTotal
           then [NodesDiffer (int (length (h_Nodes h))) wantTotal] else [])
     @ (if \<not> h_Started h then [NeverStarted] else [])"

text \<open>\<open>byIndex\<close>: a later node of an index replaces an earlier one.\<close>

definition byIndex :: "pfNode list \<Rightarrow> int \<rightharpoonup> pfNode" where
  "byIndex ns = foldl (\<lambda>m n. m(pf_Index n \<mapsto> n)) Map.empty ns"

definition nodeDiffs :: "pfNode \<Rightarrow> pfNode \<Rightarrow> difference list" where
  "nodeDiffs h w =
     (if pf_Role w \<noteq> '''' \<and> \<not> Is_role (pf_Role h) (pf_Role w) then [DRole (pf_Role h) (pf_Role w)] else [])
     @ (if pf_SyncMode w \<noteq> '''' \<and> pf_SyncMode h \<noteq> pf_SyncMode w
        then [DSync (pf_SyncMode h) (pf_SyncMode w)] else [])
     @ (if pf_Server w \<noteq> '''' \<and> pf_Server h \<noteq> pf_Server w
        then [DServer (pf_Server h) (pf_Server w)] else [])"

text \<open>The loop over the pinned nodes: the first one that is not composed ends it.\<close>

fun pinnedDiffs ::
  "(int \<rightharpoonup> pfNode) \<Rightarrow> pfNode list \<Rightarrow> int list \<Rightarrow> pfReason list \<Rightarrow> int + int list \<times> pfReason list"
where
  "pinnedDiffs by [] idx reasons = Inr (idx, reasons)"
| "pinnedDiffs by (w # ws) idx reasons =
     (case by (pf_Index w) of
        None \<Rightarrow> Inl (pf_Index w)
      | Some h \<Rightarrow>
          if nodeDiffs h w \<noteq> [] then
            pinnedDiffs by ws (idx @ [pf_Index w]) (reasons @ [NodeDiffers (pf_Index w) (nodeDiffs h w)])
          else pinnedDiffs by ws idx reasons)"

definition Compare :: "Have \<Rightarrow> Want \<Rightarrow> Decision" where
  "Compare h w =
     (if length (h_Nodes h) = 0 then
        \<lparr>d_Verdict = ComposeIt, d_Nodes = [], d_Reasons = [NothingIsComposed]\<rparr>
      else
        let all = networkDiffs h w in
        if length all > 0 then \<lparr>d_Verdict = RebuildAll, d_Nodes = [], d_Reasons = all\<rparr>
        else case pinnedDiffs (byIndex (h_Nodes h)) (w_Nodes w) [] [] of
          Inl i \<Rightarrow> \<lparr>d_Verdict = RebuildAll, d_Nodes = [], d_Reasons = [WantedNotComposed i]\<rparr>
        | Inr (idx, reasons) \<Rightarrow>
            if length idx > 0 then \<lparr>d_Verdict = RebuildNodes, d_Nodes = sort idx, d_Reasons = reasons\<rparr>
            else \<lparr>d_Verdict = Reuse, d_Nodes = [], d_Reasons = []\<rparr>)"

section \<open>Check\<close>

text \<open>
  The probe of every node not yet on the list. \<open>rebuild\<close> is the Go map of the indices to rebuild, as the
  list of its keys without repetition; \<open>sort.Ints\<close> orders it afterwards.
\<close>

fun probeNodes ::
  "(pfNode \<Rightarrow> bool \<times> string) \<Rightarrow> pfNode list \<Rightarrow> int list \<Rightarrow> pfReason list \<Rightarrow> int list \<times> pfReason list"
where
  "probeNodes live [] rebuild reasons = (rebuild, reasons)"
| "probeNodes live (n # ns) rebuild reasons =
     (if pf_Index n \<in> set rebuild then probeNodes live ns rebuild reasons
      else case live n of
        (True, _) \<Rightarrow> probeNodes live ns rebuild reasons
      | (False, why) \<Rightarrow>
          probeNodes live ns (rebuild @ [pf_Index n])
            (reasons @ [NotAlive (pf_Index n) (orText why ''not alive'')]))"

definition Check :: "Have \<Rightarrow> Want \<Rightarrow> (pfNode \<Rightarrow> bool \<times> string) option \<Rightarrow> Decision" where
  "Check h w live =
     (let d = Compare h w in
      if d_Verdict d = RebuildAll \<or> d_Verdict d = ComposeIt then d
      else case live of None \<Rightarrow> d | Some probe \<Rightarrow>
        let (rebuild, reasons) = probeNodes probe (h_Nodes h) (remdups (d_Nodes d)) (d_Reasons d) in
        if length rebuild = 0 then \<lparr>d_Verdict = Reuse, d_Nodes = [], d_Reasons = []\<rparr>
        else
          let idx = sort rebuild in
          if length idx = length (h_Nodes h) then
            (if d_Verdict d = Reuse then
               \<lparr>d_Verdict = Relaunch, d_Nodes = [], d_Reasons = NoneAlive # reasons\<rparr>
             else \<lparr>d_Verdict = RebuildAll, d_Nodes = [], d_Reasons = NoneAlive # reasons\<rparr>)
          else \<lparr>d_Verdict = RebuildNodes, d_Nodes = idx, d_Reasons = reasons\<rparr>)"

section \<open>What a request wants (steps_preflight.go)\<close>

record upShape =
  u_Chain :: string
  u_Binary :: string
  u_KeysDir :: string
  u_Peering :: string
  u_ChainID :: int
  u_BPCount :: int
  u_ENCount :: int
  u_PNCount :: int

definition WantOf :: "(upShape \<Rightarrow> string) \<Rightarrow> upShape \<Rightarrow> Want" where
  "WantOf genesisDeclared u =
     \<lparr>w_Chain = u_Chain u, w_Binary = u_Binary u, w_KeysDir = u_KeysDir u, w_Peering = u_Peering u,
      w_ChainID = u_ChainID u, w_BPCount = u_BPCount u, w_ENCount = u_ENCount u,
      w_GenesisDeclared = genesisDeclared u, w_Nodes = []\<rparr>"

section \<open>The paper half\<close>

lemma pinnedDiffs_acc:
  "pinnedDiffs by ws idx rs =
     (case pinnedDiffs by ws [] [] of Inl i \<Rightarrow> Inl i | Inr (i, r) \<Rightarrow> Inr (idx @ i, rs @ r))"
proof (induction ws arbitrary: idx rs)
  case (Cons w ws)
  show ?case
  proof (cases "by (pf_Index w)")
    case (Some h)
    then show ?thesis
      using Cons.IH [of "idx @ [pf_Index w]" "rs @ [NodeDiffers (pf_Index w) (nodeDiffs h w)]"]
        Cons.IH [of "[pf_Index w]" "[NodeDiffers (pf_Index w) (nodeDiffs h w)]"]
        Cons.IH [of idx rs]
      by (auto split: sum.splits)
  qed simp
qed simp

text \<open>A pinned node is a mismatch when its composed counterpart differs.\<close>

definition mismatched :: "(int \<rightharpoonup> pfNode) \<Rightarrow> pfNode \<Rightarrow> bool" where
  "mismatched by w \<longleftrightarrow> (case by (pf_Index w) of None \<Rightarrow> False | Some h \<Rightarrow> nodeDiffs h w \<noteq> [])"

lemma pinnedDiffs_fresh:
  "pinnedDiffs by ws [] [] = (if list_ex (\<lambda>w. by (pf_Index w) = None) ws
     then Inl (pf_Index (hd (filter (\<lambda>w. by (pf_Index w) = None) ws)))
     else Inr (map pf_Index (filter (mismatched by) ws),
       map (\<lambda>w. NodeDiffers (pf_Index w) (nodeDiffs (the (by (pf_Index w))) w)) (filter (mismatched by) ws)))"
proof (induction ws)
  case (Cons w ws)
  show ?case
  proof (cases "by (pf_Index w)")
    case (Some h)
    then have "mismatched by w \<longleftrightarrow> nodeDiffs h w \<noteq> []" by (simp add: mismatched_def)
    then show ?thesis
      using Cons Some pinnedDiffs_acc [of "by" ws "[pf_Index w]" "[NodeDiffers (pf_Index w) (nodeDiffs h w)]"]
      by simp
  qed simp
qed simp

text \<open>When the two sides describe one network, fact by fact.\<close>

definition sameNetwork :: "Have \<Rightarrow> Want \<Rightarrow> bool" where
  "sameNetwork h w \<longleftrightarrow>
     h_Chain h = w_Chain w
     \<and> (w_Binary w = '''' \<or> h_Binary h = w_Binary w)
     \<and> (w_KeysDir w = '''' \<or> h_KeysDir h = w_KeysDir w)
     \<and> orMesh (h_Peering h) = orMesh (w_Peering w)
     \<and> (w_ChainID w = 0 \<or> h_ChainID h = w_ChainID w)
     \<and> (h_GenesisDeclared h = '''' \<or> w_GenesisDeclared w = '''' \<or> h_GenesisDeclared h = w_GenesisDeclared w)
     \<and> (w_BPCount w = 0 \<or> h_BPCount h = w_BPCount w)
     \<and> (w_BPCount w + w_ENCount w = 0 \<or> int (length (h_Nodes h)) = w_BPCount w + w_ENCount w)
     \<and> h_Started h"

lemma networkDiffs_Nil: "networkDiffs h w = [] \<longleftrightarrow> sameNetwork h w"
  by (simp add: networkDiffs_def sameNetwork_def differs_def Let_def orMesh_def)

definition allComposed :: "Have \<Rightarrow> Want \<Rightarrow> bool" where
  "allComposed h w \<longleftrightarrow> list_all (\<lambda>p. byIndex (h_Nodes h) (pf_Index p) \<noteq> None) (w_Nodes w)"

definition pinnedWrong :: "Have \<Rightarrow> Want \<Rightarrow> int list" where
  "pinnedWrong h w = map pf_Index (filter (mismatched (byIndex (h_Nodes h))) (w_Nodes w))"

lemma Compare_cases:
  "d_Verdict (Compare h w) =
     (if h_Nodes h = [] then ComposeIt
      else if \<not> sameNetwork h w \<or> \<not> allComposed h w then RebuildAll
      else if pinnedWrong h w \<noteq> [] then RebuildNodes else Reuse)"
  "d_Nodes (Compare h w) =
     (if h_Nodes h = [] \<or> \<not> sameNetwork h w \<or> \<not> allComposed h w then [] else sort (pinnedWrong h w))"
  by (auto simp: Compare_def Let_def pinnedDiffs_fresh allComposed_def pinnedWrong_def
      list_all_iff list_ex_iff simp flip: networkDiffs_Nil)

section \<open>The live half\<close>

lemma probeNodes_set:
  "set (fst (probeNodes live ns rb rs)) = set rb \<union> pf_Index ` {n \<in> set ns. \<not> fst (live n)}"
  by (induction ns arbitrary: rb rs) (auto split: prod.splits bool.splits)

lemma probeNodes_distinct: "distinct rb \<Longrightarrow> distinct (fst (probeNodes live ns rb rs))"
  by (induction ns arbitrary: rb rs) (auto split: prod.splits bool.splits)

text \<open>The indices \<open>Check\<close> finds to rebuild: what the paper half named, and what does not answer.\<close>

definition toRebuild :: "(pfNode \<Rightarrow> bool \<times> string) \<Rightarrow> Have \<Rightarrow> Want \<Rightarrow> int set" where
  "toRebuild live h w = set (pinnedWrong h w) \<union> pf_Index ` {n \<in> set (h_Nodes h). \<not> fst (live n)}"

lemma Check_cases:
  assumes "h_Nodes h \<noteq> []" "sameNetwork h w" "allComposed h w"
  shows "d_Verdict (Check h w (Some live)) =
     (if toRebuild live h w = {} then Reuse
      else if card (toRebuild live h w) = length (h_Nodes h)
        then (if pinnedWrong h w = [] then Relaunch else RebuildAll)
      else RebuildNodes)"
    and "d_Verdict (Check h w (Some live)) = RebuildNodes \<Longrightarrow>
      d_Nodes (Check h w (Some live)) = sorted_list_of_set (toRebuild live h w)"
proof -
  let ?rb = "probeNodes live (h_Nodes h) (remdups (d_Nodes (Compare h w))) (d_Reasons (Compare h w))"
  have v: "d_Verdict (Compare h w) = (if pinnedWrong h w \<noteq> [] then RebuildNodes else Reuse)"
    and n: "d_Nodes (Compare h w) = sort (pinnedWrong h w)"
    using assms by (simp_all add: Compare_cases)
  obtain rb rs where rb: "?rb = (rb, rs)" by (cases ?rb)
  have set_rb: "set rb = toRebuild live h w"
    using probeNodes_set [of live "h_Nodes h" "remdups (d_Nodes (Compare h w))" "d_Reasons (Compare h w)"]
    unfolding rb by (simp add: n toRebuild_def)
  have dist: "distinct rb"
    using probeNodes_distinct [of "remdups (d_Nodes (Compare h w))" live "h_Nodes h" "d_Reasons (Compare h w)"]
    unfolding rb by simp
  have len: "length rb = card (toRebuild live h w)"
    using distinct_card [OF dist] set_rb by simp
  have none: "rb = [] \<longleftrightarrow> toRebuild live h w = {}" using set_rb by auto
  have srt: "sort rb = sorted_list_of_set (toRebuild live h w)"
    using sorted_list_of_set_sort_remdups [of rb] dist set_rb by (simp add: distinct_remdups_id)
  show "d_Verdict (Check h w (Some live)) =
     (if toRebuild live h w = {} then Reuse
      else if card (toRebuild live h w) = length (h_Nodes h)
        then (if pinnedWrong h w = [] then Relaunch else RebuildAll)
      else RebuildNodes)"
    using none len rb by (auto simp: Check_def Let_def v verdicts)
  show "d_Nodes (Check h w (Some live)) = sorted_list_of_set (toRebuild live h w)"
    if "d_Verdict (Check h w (Some live)) = RebuildNodes"
    using that none len srt rb by (auto simp: Check_def Let_def v verdicts split: if_splits)
qed

lemma Check_early:
  "h_Nodes h = [] \<Longrightarrow> d_Verdict (Check h w live) = ComposeIt"
  "h_Nodes h \<noteq> [] \<Longrightarrow> \<not> sameNetwork h w \<or> \<not> allComposed h w \<Longrightarrow> d_Verdict (Check h w live) = RebuildAll"
  by (simp_all add: Check_def Compare_cases Let_def)

text \<open>
  A composed network is reused exactly when it is there, every network-wide fact the
  request states agrees, every pinned node is composed as it is pinned, and every node answers.
\<close>

theorem check_reuse_iff:
  "d_Verdict (Check h w (Some live)) = Reuse \<longleftrightarrow>
     h_Nodes h \<noteq> [] \<and> sameNetwork h w \<and> allComposed h w \<and> pinnedWrong h w = []
     \<and> list_all (\<lambda>n. fst (live n)) (h_Nodes h)"
proof (cases "h_Nodes h \<noteq> [] \<and> sameNetwork h w \<and> allComposed h w")
  case True
  then have "d_Verdict (Check h w (Some live)) = Reuse \<longleftrightarrow> toRebuild live h w = {}"
    using Check_cases(1) [of h w live] by (simp add: verdicts)
  then show ?thesis using True by (auto simp: toRebuild_def list_all_iff)
next
  case False
  then have "d_Verdict (Check h w (Some live)) \<noteq> Reuse"
    using Check_early [of h w "Some live"] by (cases "h_Nodes h = []") (auto simp: verdicts)
  then show ?thesis using False by blast
qed

text \<open>
  Property C31. When only nodes are rebuilt, the list is exact: in increasing order and without
  repetition, the indices of the pinned nodes that differ and of the nodes that do not answer,
  at least one and never all of them.
\<close>

theorem check_rebuild_nodes_exact:
  assumes "d_Verdict (Check h w (Some live)) = RebuildNodes"
  shows "set (d_Nodes (Check h w (Some live)))
      = set (pinnedWrong h w) \<union> pf_Index ` {n \<in> set (h_Nodes h). \<not> fst (live n)}
    \<and> sorted_wrt (<) (d_Nodes (Check h w (Some live)))
    \<and> d_Nodes (Check h w (Some live)) \<noteq> []
    \<and> length (d_Nodes (Check h w (Some live))) \<noteq> length (h_Nodes h)"
proof -
  have pre: "h_Nodes h \<noteq> []" "sameNetwork h w" "allComposed h w"
    using assms Check_early [of h w "Some live"] by (auto simp: verdicts)
  have nodes: "d_Nodes (Check h w (Some live)) = sorted_list_of_set (toRebuild live h w)"
    by (rule Check_cases(2) [OF pre assms])
  have fin: "finite (toRebuild live h w)" by (simp add: toRebuild_def)
  have "toRebuild live h w \<noteq> {}" "card (toRebuild live h w) \<noteq> length (h_Nodes h)"
    using Check_cases(1) [OF pre, of live] assms by (auto simp: verdicts split: if_splits)
  then show ?thesis using fin by (auto simp: nodes toRebuild_def)
qed

text \<open>
  Property C38. \<open>WantOf\<close> counts block producers and end nodes only. A request for proxy nodes, against
  the network composed from that very request, is told to rebuild everything.
\<close>

theorem proxied_request_rebuilds_itself:
  assumes "0 < u_PNCount u" "0 < u_BPCount u + u_ENCount u"
    and "int (length (h_Nodes h)) = u_BPCount u + u_ENCount u + u_PNCount u"
  shows "d_Verdict (Check h (WantOf digest u) live) = RebuildAll"
proof -
  have "\<not> sameNetwork h (WantOf digest u)" using assms by (simp add: sameNetwork_def WantOf_def)
  moreover have "h_Nodes h \<noteq> []" using assms by auto
  ultimately show ?thesis using Check_early(2) [of h "WantOf digest u" live] by blast
qed

section \<open>Witnesses\<close>

definition wPorts :: Endpoints where
  "wPorts = \<lparr>P2P = 30301, Etcd = 0, EtcdClient = 0, HTTP = 8501, WS = 0, Auth = 0, Metrics = 0\<rparr>"

definition wNode :: "int \<Rightarrow> string \<Rightarrow> int \<Rightarrow> pfNode" where
  "wNode i sync pid = \<lparr>pf_Index = i, pf_Role = ''bp'', pf_SyncMode = sync, pf_Server = '''',
     pf_Host = ''127.0.0.1'', pf_Ports = wPorts, pf_PID = pid\<rparr>"

definition wHave :: Have where
  "wHave = \<lparr>h_Chain = ''wbft'', h_Binary = ''gwemix'', h_KeysDir = ''keys'', h_Peering = '''', h_ChainID = 8283,
     h_BPCount = 3, h_GenesisDeclared = '''',
     h_Nodes = [wNode 1 ''full'' 11, wNode 2 ''full'' 12, wNode 3 ''full'' 0], h_Started = True\<rparr>"

definition wWant :: Want where
  "wWant = \<lparr>w_Chain = ''wbft'', w_Binary = '''', w_KeysDir = '''', w_Peering = ''mesh'', w_ChainID = 0,
     w_BPCount = 3, w_ENCount = 0, w_GenesisDeclared = '''', w_Nodes = [wNode 1 ''snap'' 0]\<rparr>"

definition wLive :: "pfNode \<Rightarrow> bool \<times> string" where
  "wLive n = (pf_PID n > 0, '''')"

lemma wCheck: "Check wHave wWant (Some wLive) =
  \<lparr>d_Verdict = RebuildNodes, d_Nodes = [1, 3],
   d_Reasons = [NodeDiffers 1 [DSync ''full'' ''snap''], NotAlive 3 ''not alive'']\<rparr>"
  by code_simp

theorem check_rebuild_nodes_exact_witness:
  "d_Verdict (Check wHave wWant (Some wLive)) = RebuildNodes
   \<and> set (pinnedWrong wHave wWant) \<union> pf_Index ` {n \<in> set (h_Nodes wHave). \<not> fst (wLive n)} = {1, 3}"
  using check_rebuild_nodes_exact [of wHave wWant wLive] by (simp add: wCheck)

definition wShape :: upShape where
  "wShape = \<lparr>u_Chain = ''wbft'', u_Binary = '''', u_KeysDir = '''', u_Peering = ''proxied'', u_ChainID = 0,
     u_BPCount = 1, u_ENCount = 1, u_PNCount = 1\<rparr>"

theorem proxied_request_rebuilds_itself_witness:
  "int (length (h_Nodes wHave)) = u_BPCount wShape + u_ENCount wShape + u_PNCount wShape
   \<and> d_Verdict (Check wHave (WantOf (\<lambda>u. '''') wShape) None) = RebuildAll"
  using proxied_request_rebuilds_itself [of wShape wHave "\<lambda>u. ''''" None] by (simp add: wShape_def wHave_def)

end
