(* ===== verification/Chain_Machine.thy ===== *)
theory Chain_Machine
  imports Machine_Client Record_Laws Preflight
begin

text \<open>
  The composition of a chain (\<open>internal/chainsetup\<close>: \<open>protocol.go\<close>, \<open>manager.go\<close>, \<open>manager_states.go\<close>
  and the \<open>stage_*.go\<close> files): the messages, the tree of states with their contracts, what each state does
  on \<open>Enter\<close> and on \<open>Process\<close>, and the entry points of the \<open>Manager\<close>, over the state machine of
  \<open>Statemachine\<close>.

  The workspace is its record on disk (\<open>wsState\<close>), which every piece of work opens, changes and saves.
  What a piece of work does beyond the record (files, keys, processes, sockets) is a function of an opaque
  outside \<open>'x\<close>, in the record \<open>deps\<close>; values that only pass through the manager (the request beyond
  its stage and binary, key sources, genesis options, arguments of an operation) are of an opaque type
  \<open>'v\<close>. Nothing is assumed of these functions here.
\<close>

section \<open>Messages (protocol.go)\<close>

definition BaseChain :: What where "BaseChain = 0x1000"

definition CmdCompose :: What where "CmdCompose = BaseChain + 0x001 + 0"
definition CmdStep :: What where "CmdStep = BaseChain + 0x001 + 1"
definition CmdOperate :: What where "CmdOperate = BaseChain + 0x001 + 2"
definition CmdCompare :: What where "CmdCompare = BaseChain + 0x001 + 3"
definition CmdStop :: What where "CmdStop = BaseChain + 0x001 + 4"
definition CmdClearError :: What where "CmdClearError = BaseChain + 0x001 + 5"

definition CmdPostCompose :: What where "CmdPostCompose = BaseChain + 0x040 + 0"
definition CmdOnQuit :: What where "CmdOnQuit = BaseChain + 0x040 + 1"

definition eventWorkspaceOpened :: What where "eventWorkspaceOpened = BaseChain + 0x100 + 0"
definition eventNodeTableBuilt :: What where "eventNodeTableBuilt = BaseChain + 0x100 + 1"
definition eventKeySourceChosen :: What where "eventKeySourceChosen = BaseChain + 0x100 + 2"
definition eventKeysEnsured :: What where "eventKeysEnsured = BaseChain + 0x100 + 3"
definition eventComparisonMade :: What where "eventComparisonMade = BaseChain + 0x100 + 4"
definition eventNodesRestarted :: What where "eventNodesRestarted = BaseChain + 0x100 + 5"
definition eventOperationDone :: What where "eventOperationDone = BaseChain + 0x100 + 6"
definition eventStoppedToRebuild :: What where "eventStoppedToRebuild = BaseChain + 0x100 + 7"
definition eventReconciled :: What where "eventReconciled = BaseChain + 0x100 + 8"
definition eventReconcileRefused :: What where "eventReconcileRefused = BaseChain + 0x100 + 9"
definition eventGenesisWayChosen :: What where "eventGenesisWayChosen = BaseChain + 0x100 + 10"
definition eventGenesisBuilt :: What where "eventGenesisBuilt = BaseChain + 0x100 + 11"
definition eventNodeConfigBuilt :: What where "eventNodeConfigBuilt = BaseChain + 0x100 + 12"
definition eventNodeCommandBuilt :: What where "eventNodeCommandBuilt = BaseChain + 0x100 + 13"
definition eventInputsPresent :: What where "eventInputsPresent = BaseChain + 0x100 + 14"
definition eventInputsDeployed :: What where "eventInputsDeployed = BaseChain + 0x100 + 15"
definition eventDatadirsInitialized :: What where "eventDatadirsInitialized = BaseChain + 0x100 + 16"
definition eventLaunchPlanned :: What where "eventLaunchPlanned = BaseChain + 0x100 + 17"
definition eventPhaseLaunched :: What where "eventPhaseLaunched = BaseChain + 0x100 + 18"
definition eventPhaseActionsDone :: What where "eventPhaseActionsDone = BaseChain + 0x100 + 19"
definition eventNodesLaunched :: What where "eventNodesLaunched = BaseChain + 0x100 + 20"
definition eventForkStandingRead :: What where "eventForkStandingRead = BaseChain + 0x100 + 21"
definition eventForkBoundaryReached :: What where "eventForkBoundaryReached = BaseChain + 0x100 + 22"
definition eventProductionHandedOver :: What where "eventProductionHandedOver = BaseChain + 0x100 + 23"
definition eventStageFailed :: What where "eventStageFailed = BaseChain + 0x100 + 24"
definition eventNetworkKept :: What where "eventNetworkKept = BaseChain + 0x100 + 25"
definition eventNothingComposed :: What where "eventNothingComposed = BaseChain + 0x100 + 26"
definition eventNetworkStopped :: What where "eventNetworkStopped = BaseChain + 0x100 + 27"

definition EventNodeDied :: What where "EventNodeDied = BaseChain + 0x180 + 0"

lemmas chain_whats = BaseChain_def CmdCompose_def CmdStep_def CmdOperate_def CmdCompare_def CmdStop_def
  CmdClearError_def CmdPostCompose_def CmdOnQuit_def eventWorkspaceOpened_def eventNodeTableBuilt_def
  eventKeySourceChosen_def eventKeysEnsured_def eventComparisonMade_def eventNodesRestarted_def
  eventOperationDone_def eventStoppedToRebuild_def eventReconciled_def eventReconcileRefused_def
  eventGenesisWayChosen_def eventGenesisBuilt_def eventNodeConfigBuilt_def eventNodeCommandBuilt_def
  eventInputsPresent_def eventInputsDeployed_def eventDatadirsInitialized_def eventLaunchPlanned_def
  eventPhaseLaunched_def eventPhaseActionsDone_def eventNodesLaunched_def eventForkStandingRead_def
  eventForkBoundaryReached_def eventProductionHandedOver_def eventStageFailed_def eventNetworkKept_def
  eventNothingComposed_def eventNetworkStopped_def EventNodeDied_def

definition whatNames :: "(What \<times> string) list" where
  "whatNames =
     [(CmdCompose, ''CmdCompose''),
      (CmdStep, ''CmdStep''),
      (CmdOperate, ''CmdOperate''),
      (CmdCompare, ''CmdCompare''),
      (CmdStop, ''CmdStop''),
      (CmdClearError, ''CmdClearError''),
      (CmdPostCompose, ''CmdPostCompose''),
      (CmdOnQuit, ''CmdOnQuit''),
      (eventWorkspaceOpened, ''eventWorkspaceOpened''),
      (eventNodeTableBuilt, ''eventNodeTableBuilt''),
      (eventKeySourceChosen, ''eventKeySourceChosen''),
      (eventKeysEnsured, ''eventKeysEnsured''),
      (eventComparisonMade, ''eventComparisonMade''),
      (eventNodesRestarted, ''eventNodesRestarted''),
      (eventOperationDone, ''eventOperationDone''),
      (eventStoppedToRebuild, ''eventStoppedToRebuild''),
      (eventReconciled, ''eventReconciled''),
      (eventReconcileRefused, ''eventReconcileRefused''),
      (eventGenesisWayChosen, ''eventGenesisWayChosen''),
      (eventGenesisBuilt, ''eventGenesisBuilt''),
      (eventNodeConfigBuilt, ''eventNodeConfigBuilt''),
      (eventNodeCommandBuilt, ''eventNodeCommandBuilt''),
      (eventInputsPresent, ''eventInputsPresent''),
      (eventInputsDeployed, ''eventInputsDeployed''),
      (eventDatadirsInitialized, ''eventDatadirsInitialized''),
      (eventLaunchPlanned, ''eventLaunchPlanned''),
      (eventPhaseLaunched, ''eventPhaseLaunched''),
      (eventPhaseActionsDone, ''eventPhaseActionsDone''),
      (eventNodesLaunched, ''eventNodesLaunched''),
      (eventForkStandingRead, ''eventForkStandingRead''),
      (eventForkBoundaryReached, ''eventForkBoundaryReached''),
      (eventProductionHandedOver, ''eventProductionHandedOver''),
      (eventStageFailed, ''eventStageFailed''),
      (eventNetworkKept, ''eventNetworkKept''),
      (eventNothingComposed, ''eventNothingComposed''),
      (eventNetworkStopped, ''eventNetworkStopped''),
      (EventNodeDied, ''EventNodeDied'')]"

text \<open>\<open>WhatName\<close>: a message this machine does not have comes back as its number.\<close>

definition WhatName :: "What \<Rightarrow> string" where
  "WhatName w = (case map_of whatNames w of
     Some name \<Rightarrow> name
   | None \<Rightarrow> ''What('' @ (if w < 0 then ''-'' else '''') @ ''0x'' @ hex_digits (nat \<bar>w\<bar>) @ '')'')"

text \<open>
  Of a request the manager itself reads the stage and the binary, and the comparison the shape; the rest
  passes through to the work of the stages.
\<close>

record 'v upRequest =
  rq_Stage :: string
  rq_shape :: upShape
  rq_rest :: 'v

datatype 'v chainMsg =
    Compose "'v upRequest" string
  | RunStep string "'v upRequest"
  | OperateMsg StateName
  | ComposeComparing "'v upRequest"
  | StopMsg
  | ClearError
  | PostCompose bool "string list" "goErr option"
  | OnQuit
  | NodeDied int
  | workspaceOpened string
  | stageFailed string goErr
  | nodeTableBuilt string
  | keySourceChosen string
  | keysEnsured string
  | genesisWayChosen bool
  | genesisBuilt string
  | nodeConfigBuilt string
  | nodeCommandBuilt string
  | inputsPresent string int
  | inputsDeployed string
  | datadirsInitialized string
  | launchPlanned nat
  | phaseLaunched int
  | phaseActionsDone
  | nodesLaunched string
  | reconciled bool
  | reconcileRefused
  | comparisonMade pfVerdict
  | nodesRestarted
  | stoppedToRebuild
  | networkKept
  | nothingComposed
  | networkStopped
  | operationDone
  | forkStandingRead bool
  | forkBoundaryReached int
  | productionHandedOver

fun chainWhat :: "'v chainMsg \<Rightarrow> What" where
  "chainWhat (Compose r f) = CmdCompose"
| "chainWhat (RunStep n r) = CmdStep"
| "chainWhat (OperateMsg n) = CmdOperate"
| "chainWhat (ComposeComparing r) = CmdCompare"
| "chainWhat StopMsg = CmdStop"
| "chainWhat ClearError = CmdClearError"
| "chainWhat (PostCompose ok s e) = CmdPostCompose"
| "chainWhat OnQuit = CmdOnQuit"
| "chainWhat (NodeDied i) = EventNodeDied"
| "chainWhat (workspaceOpened d) = eventWorkspaceOpened"
| "chainWhat (stageFailed s e) = eventStageFailed"
| "chainWhat (nodeTableBuilt d) = eventNodeTableBuilt"
| "chainWhat (keySourceChosen w) = eventKeySourceChosen"
| "chainWhat (keysEnsured d) = eventKeysEnsured"
| "chainWhat (genesisWayChosen b) = eventGenesisWayChosen"
| "chainWhat (genesisBuilt d) = eventGenesisBuilt"
| "chainWhat (nodeConfigBuilt d) = eventNodeConfigBuilt"
| "chainWhat (nodeCommandBuilt d) = eventNodeCommandBuilt"
| "chainWhat (inputsPresent d n) = eventInputsPresent"
| "chainWhat (inputsDeployed d) = eventInputsDeployed"
| "chainWhat (datadirsInitialized d) = eventDatadirsInitialized"
| "chainWhat (launchPlanned n) = eventLaunchPlanned"
| "chainWhat (phaseLaunched n) = eventPhaseLaunched"
| "chainWhat phaseActionsDone = eventPhaseActionsDone"
| "chainWhat (nodesLaunched d) = eventNodesLaunched"
| "chainWhat (reconciled k) = eventReconciled"
| "chainWhat reconcileRefused = eventReconcileRefused"
| "chainWhat (comparisonMade v) = eventComparisonMade"
| "chainWhat nodesRestarted = eventNodesRestarted"
| "chainWhat stoppedToRebuild = eventStoppedToRebuild"
| "chainWhat networkKept = eventNetworkKept"
| "chainWhat nothingComposed = eventNothingComposed"
| "chainWhat networkStopped = eventNetworkStopped"
| "chainWhat operationDone = eventOperationDone"
| "chainWhat (forkStandingRead c) = eventForkStandingRead"
| "chainWhat (forkBoundaryReached h) = eventForkBoundaryReached"
| "chainWhat productionHandedOver = eventProductionHandedOver"

text \<open>\<open>stageReport\<close>: which step a finished stage ran, and its line.\<close>

fun stageReport :: "'v chainMsg \<Rightarrow> (string \<times> string) option" where
  "stageReport (workspaceOpened d) = Some (stepNew, d)"
| "stageReport (nodeTableBuilt d) = Some (stepPlace, d)"
| "stageReport (keysEnsured d) = Some (stepKeys, d)"
| "stageReport (genesisBuilt d) = Some (stepGenesis, d)"
| "stageReport (nodeConfigBuilt d) = Some (stepConfig, d)"
| "stageReport (nodeCommandBuilt d) = Some (stepBuild, d)"
| "stageReport (inputsDeployed d) = Some (stepDeploy, d)"
| "stageReport (datadirsInitialized d) = Some (stepInit, d)"
| "stageReport (nodesLaunched d) = Some (stepStart, d)"
| "stageReport _ = None"

section \<open>Names of the other states\<close>

definition nameChainEnsureKeysFromPreset :: StateName where
  "nameChainEnsureKeysFromPreset = ''CHAIN_ENSURE_KEYS_FROM_PRESET''"
definition nameChainEnsureKeysGenerate :: StateName where
  "nameChainEnsureKeysGenerate = ''CHAIN_ENSURE_KEYS_GENERATE''"
definition nameChainEnsureKeysFromBlueprint :: StateName where
  "nameChainEnsureKeysFromBlueprint = ''CHAIN_ENSURE_KEYS_FROM_BLUEPRINT''"
definition nameChainBuildGenesisFromTemplate :: StateName where
  "nameChainBuildGenesisFromTemplate = ''CHAIN_BUILD_GENESIS_FROM_TEMPLATE''"
definition nameChainBuildGenesisFromExisting :: StateName where
  "nameChainBuildGenesisFromExisting = ''CHAIN_BUILD_GENESIS_FROM_EXISTING''"
definition nameChainDeployNodesVerifiedLocal :: StateName where
  "nameChainDeployNodesVerifiedLocal = ''CHAIN_DEPLOY_NODES_VERIFIED_LOCAL''"
definition nameChainDeployNodesShippedRemote :: StateName where
  "nameChainDeployNodesShippedRemote = ''CHAIN_DEPLOY_NODES_SHIPPED_REMOTE''"
definition nameChainLaunchNodesPhase :: StateName where
  "nameChainLaunchNodesPhase = ''CHAIN_LAUNCH_NODES_PHASE''"
definition nameChainLaunchNodesPhaseActions :: StateName where
  "nameChainLaunchNodesPhaseActions = ''CHAIN_LAUNCH_NODES_PHASE_ACTIONS''"
definition nameChainLaunchNodesRecordRun :: StateName where
  "nameChainLaunchNodesRecordRun = ''CHAIN_LAUNCH_NODES_RECORD_RUN''"
definition nameChainReconcile :: StateName where "nameChainReconcile = ''CHAIN_RECONCILE''"
definition nameChainCompare :: StateName where "nameChainCompare = ''CHAIN_COMPARE''"
definition nameChainCompareNodesDiffer :: StateName where
  "nameChainCompareNodesDiffer = ''CHAIN_COMPARE_NODES_DIFFER''"
definition nameChainCompareNetworkDiffers :: StateName where
  "nameChainCompareNetworkDiffers = ''CHAIN_COMPARE_NETWORK_DIFFERS''"
definition nameChainCompareSame :: StateName where "nameChainCompareSame = ''CHAIN_COMPARE_SAME''"
definition nameChainCompareNothingComposed :: StateName where
  "nameChainCompareNothingComposed = ''CHAIN_COMPARE_NOTHING_COMPOSED''"
definition nameChainCompareNetworkStopped :: StateName where
  "nameChainCompareNetworkStopped = ''CHAIN_COMPARE_NETWORK_STOPPED''"
definition nameChainOpStop :: StateName where "nameChainOpStop = ''CHAIN_OP_STOP''"
definition nameChainOpRestartNode :: StateName where "nameChainOpRestartNode = ''CHAIN_OP_RESTART_NODE''"
definition nameChainOpSwapNode :: StateName where "nameChainOpSwapNode = ''CHAIN_OP_SWAP_NODE''"
definition nameChainOpHardfork :: StateName where "nameChainOpHardfork = ''CHAIN_OP_HARDFORK''"
definition nameChainOpCrossFork :: StateName where "nameChainOpCrossFork = ''CHAIN_OP_CROSS_FORK''"
definition nameChainOpRemove :: StateName where "nameChainOpRemove = ''CHAIN_OP_REMOVE''"
definition nameChainOpCrossForkAwaitBoundary :: StateName where
  "nameChainOpCrossForkAwaitBoundary = ''CHAIN_OP_CROSS_FORK_AWAIT_BOUNDARY''"
definition nameChainOpCrossForkHandOver :: StateName where
  "nameChainOpCrossForkHandOver = ''CHAIN_OP_CROSS_FORK_HAND_OVER''"
definition nameChainOpCrossForkConfirm :: StateName where
  "nameChainOpCrossForkConfirm = ''CHAIN_OP_CROSS_FORK_CONFIRM''"

lemmas leaf_names = nameChainEnsureKeysFromPreset_def nameChainEnsureKeysGenerate_def
  nameChainEnsureKeysFromBlueprint_def nameChainBuildGenesisFromTemplate_def
  nameChainBuildGenesisFromExisting_def nameChainDeployNodesVerifiedLocal_def
  nameChainDeployNodesShippedRemote_def nameChainLaunchNodesPhase_def nameChainLaunchNodesPhaseActions_def
  nameChainLaunchNodesRecordRun_def nameChainReconcile_def nameChainCompare_def
  nameChainCompareNodesDiffer_def nameChainCompareNetworkDiffers_def nameChainCompareSame_def
  nameChainCompareNothingComposed_def nameChainCompareNetworkStopped_def nameChainOpStop_def
  nameChainOpRestartNode_def nameChainOpSwapNode_def nameChainOpHardfork_def nameChainOpCrossFork_def
  nameChainOpRemove_def nameChainOpCrossForkAwaitBoundary_def nameChainOpCrossForkHandOver_def
  nameChainOpCrossForkConfirm_def
section \<open>The manager (manager.go)\<close>

record phase =
  ph_Name :: string
  ph_Nodes :: "int list"
  ph_Actions :: "string list"
  ph_ActionsOn :: int

text \<open>
  The \<open>Manager\<close> with the fields its states keep (the key source and count of \<open>ensuringKeys\<close>, the options of
  \<open>buildingGenesis\<close>, the plan and progress of \<open>launching\<close>, the arguments and results of the operations),
  the record on disk and the outside.
\<close>

record ('v, 'x) manager =
  request :: "'v upRequest"
  stopAfter :: string
  reusing :: bool
  only :: string
  mg_steps :: "string list"
  mg_failure :: "goErr option"
  failStatus :: Status
  operating :: StateName
  decision :: Decision
  keySrc :: "'v option"
  keyN :: int
  genesisOpts :: "'v option"
  localDetail :: string
  remoteDetail :: string
  ln_bin :: string
  ln_phases :: "phase list"
  ln_at :: nat
  ln_started :: int
  wasRunning :: "int list"
  restartIndex :: int
  swapOpts :: "'v option"
  hardforkArgs :: "'v option"
  hardforkNodes :: "'v list"
  crossOpts :: "'v option"
  cf_head :: int
  cf_already :: bool
  cf_out :: string
  disk :: wsState
  beyond :: 'x

text \<open>
  What the states call. A verb of the workspace gets the opened record and the outside, and returns both
  with its result.
\<close>

type_synonym ('x, 'r) verb = "wsState \<Rightarrow> 'x \<Rightarrow> wsState \<times> 'x \<times> (goErr + 'r)"

record ('v, 'x) deps =
  c_ctxErr :: "'x \<Rightarrow> goErr option"
  c_now :: "'x \<Rightarrow> int"
  c_clock :: "'x \<Rightarrow> string"
  c_open :: "wsState \<Rightarrow> 'x \<Rightarrow> goErr + wsState"
  c_acquire :: "'x \<Rightarrow> 'x \<times> goErr option"
  c_save :: "wsState \<Rightarrow> 'x \<Rightarrow> 'x \<times> goErr option"
  c_release :: "'x \<Rightarrow> 'x"
  c_logf :: "string \<Rightarrow> 'x \<Rightarrow> 'x"
  c_Have :: "wsState \<Rightarrow> 'x \<Rightarrow> Have"
  c_liveness :: "wsState \<Rightarrow> 'x \<Rightarrow> pfNode \<Rightarrow> bool \<times> string"
  c_genesisDeclared :: "'v upRequest \<Rightarrow> string"
  c_decisionText :: "Decision \<Rightarrow> string"
  c_New :: "'v upRequest \<Rightarrow> ('x, string) verb"
  c_PlaceNodes :: "'v upRequest \<Rightarrow> ('x, string) verb"
  c_KeysOptsFor :: "'v upRequest \<Rightarrow> 'x \<Rightarrow> 'x \<times> (goErr + 'v)"
  c_keySource :: "'v \<Rightarrow> ('x, 'v \<times> string \<times> int) verb"
  c_EnsureKeys :: "'v option \<Rightarrow> int \<Rightarrow> ('x, string) verb"
  c_GenesisOptsFor :: "'v upRequest \<Rightarrow> 'x \<Rightarrow> 'x \<times> (goErr + 'v)"
  c_existing :: "'v \<Rightarrow> string"
  c_CheckFreeSpace :: "('x, string) verb"
  c_Genesis :: "'v option \<Rightarrow> ('x, string) verb"
  c_configScopes :: "'v upRequest \<Rightarrow> string list"
  c_RecordConfigSet :: "'v upRequest \<Rightarrow> string \<Rightarrow> ('x, unit) verb"
  c_Config :: "('x, string) verb"
  c_launchScopes :: "'v upRequest \<Rightarrow> string list"
  c_RecordLaunchSet :: "'v upRequest \<Rightarrow> string \<Rightarrow> ('x, unit) verb"
  c_RecordLaunchCommand :: "'v upRequest \<Rightarrow> ('x, unit) verb"
  c_LaunchOpts :: "('x, string) verb"
  c_Provision :: "('x, string \<times> int) verb"
  c_Init :: "string \<Rightarrow> ('x, string) verb"
  c_LaunchPlan :: "string \<Rightarrow> ('x, string \<times> phase list) verb"
  c_StartPhase :: "string \<Rightarrow> phase \<Rightarrow> ('x, int) verb"
  c_RunPhaseActions :: "string \<Rightarrow> phase \<Rightarrow> ('x, unit) verb"
  c_FinishLaunch :: "string \<Rightarrow> int \<Rightarrow> ('x, string) verb"
  c_stopOwned :: "nodeRec \<Rightarrow> 'x \<Rightarrow> 'x \<times> goErr option"
  c_StopUnrecorded :: "('x, int) verb"
  c_reconcileUp :: "'v \<Rightarrow> ('x, string \<times> string \<times> int list) verb"
  c_Rm :: "('x, string) verb"
  c_Restart :: "int \<Rightarrow> ('x, string) verb"
  c_SwapNode :: "'v option \<Rightarrow> ('x, string) verb"
  c_Hardfork :: "'v option \<Rightarrow> ('x, 'v list) verb"
  c_ForkStanding :: "('x, bool) verb"
  c_ForkMoment :: "'v option \<Rightarrow> ('x, int) verb"
  c_HandOverFork :: "('x, unit) verb"
  c_ReportAlreadyCrossed :: "('x, string) verb"
  c_ConfirmCrossing :: "int \<Rightarrow> ('x, string) verb"

section \<open>Verbs of the workspace that the machine itself depends on\<close>

text \<open>\<open>RunningNodes\<close> (steps_lifecycle.go): the indices of the nodes the record has a pid for.\<close>

definition RunningNodes :: "wsState \<Rightarrow> int list" where
  "RunningNodes w = map nr_Index (filter (\<lambda>n. nr_PID n > 0) (ws_Nodes w))"

definition RecordRequest :: "'v upRequest \<Rightarrow> ('x, unit) verb" where
  "RecordRequest req w x = (w\<lparr>ws_Request := Some (rq_Stage req)\<rparr>, x, Inr ())"

text \<open>
  \<open>stopNodes\<close>: every running node that is picked is stopped; a node that went down loses its pid, the
  others are reported in the order of the table, whatever order they ended in. The counts are those of the
  nodes stopped and attempted.
\<close>

fun stopLoop ::
  "(nodeRec \<Rightarrow> 'x \<Rightarrow> 'x \<times> goErr option) \<Rightarrow> (nodeRec \<Rightarrow> bool) \<Rightarrow> nodeRec list \<Rightarrow> 'x
     \<Rightarrow> nodeRec list \<times> 'x \<times> nat \<times> nat \<times> string list"
where
  "stopLoop stop pick [] x = ([], x, 0, 0, [])"
| "stopLoop stop pick (n # ns) x =
     (if nr_PID n \<le> 0 \<or> \<not> pick n then
        (case stopLoop stop pick ns x of (ns', x', k, a, errs) \<Rightarrow> (n # ns', x', k, a, errs))
      else case stop n x of
        (x1, None) \<Rightarrow>
          (case stopLoop stop pick ns x1 of
             (ns', x', k, a, errs) \<Rightarrow> (n\<lparr>nr_PID := 0\<rparr> # ns', x', Suc k, Suc a, errs))
      | (x1, Some err) \<Rightarrow>
          (case stopLoop stop pick ns x1 of
             (ns', x', k, a, errs) \<Rightarrow>
               (n # ns', x', k, Suc a, (''node'' @ itoa (nr_Index n) @ '': '' @ errorText err) # errs)))"

definition stopNodes ::
  "('v, 'x) deps \<Rightarrow> (nodeRec \<Rightarrow> bool) \<Rightarrow> wsState \<Rightarrow> 'x \<Rightarrow> wsState \<times> 'x \<times> nat \<times> nat \<times> string list"
where
  "stopNodes D pick w x =
     (case stopLoop (c_stopOwned D) pick (ws_Nodes w) x of
        (ns, x', k, a, errs) \<Rightarrow> (w\<lparr>ws_Nodes := ns\<rparr>, x', k, a, errs))"

definition Stop :: "('v, 'x) deps \<Rightarrow> ('x, string) verb" where
  "Stop D w x =
     (case stopNodes D (\<lambda>n. True) w x of (w1, x1, k, attempts, errs) \<Rightarrow>
        if length errs > 0 then
          (w1, x1, Inl (Marked (Sentinel errOpSomeStillUp)
             (Errorf (''chainsetup: stop: '' @ itoa (int k) @ '' of '' @ itoa (int attempts)
                @ '' node(s) stopped; '' @ join ''; '' errs) [])))
        else case c_StopUnrecorded D w1 x1 of
          (w2, x2, Inl oerr) \<Rightarrow> (w2, x2, Inl (Marked (Sentinel errOpSomeStillUp) oerr))
        | (w2, x2, Inr extra) \<Rightarrow>
            (let detail = itoa (int k + extra) @ '' node(s) stopped''
                   @ (if extra > 0 then '' ('' @ itoa extra @ '' of them had no recorded pid)'' else '''')
             in (markStep (c_clock D x2) w2 ''stop'' detail, x2, Inr detail)))"

definition RollBackLaunch :: "('v, 'x) deps \<Rightarrow> int list \<Rightarrow> ('x, string) verb" where
  "RollBackLaunch D was w x =
     (case stopNodes D (\<lambda>n. nr_Index n \<notin> set was) w x of (w1, x1, k, attempts, errs) \<Rightarrow>
        if length errs > 0 then
          (w1, x1, Inl (Errorf (''chainsetup: roll back launch: '' @ itoa (int k) @ '' of ''
             @ itoa (int attempts) @ '' node(s) stopped; '' @ join ''; '' errs) []))
        else (w1, x1, Inr (itoa (int k) @ '' node(s) this launch started were stopped'')))"

text \<open>
  \<open>InWorkspace\<close> (workspace_open.go): open, take the lock, run, save, release. The work may change the
  manager too, as the closures of the source do; \<open>lift_verb\<close> is a closure that only calls a verb.
\<close>

type_synonym ('v, 'x, 'r) closure =
  "wsState \<Rightarrow> ('v, 'x) manager \<Rightarrow> wsState \<times> ('v, 'x) manager \<times> (goErr + 'r)"

definition lift_verb :: "('x, 'r) verb \<Rightarrow> ('v, 'x, 'r) closure" where
  "lift_verb v w r = (case v w (beyond r) of (w', x', out) \<Rightarrow> (w', r\<lparr>beyond := x'\<rparr>, out))"

definition unsaved :: "goErr \<Rightarrow> goErr \<Rightarrow> goErr" where
  "unsaved stepErr saveErr =
     Errorf (errorText stepErr @ '' (and the workspace could not be saved: '' @ errorText saveErr @ '' '' @ emDash
       @ '' processes this step started may not be recorded)'') [stepErr]"

definition InWorkspace ::
  "('v, 'x) deps \<Rightarrow> ('v, 'x, 'r) closure \<Rightarrow> ('v, 'x) manager \<Rightarrow> ('v, 'x) manager \<times> (goErr + 'r)"
where
  "InWorkspace D fn r =
     (case c_open D (disk r) (beyond r) of
        Inl err \<Rightarrow> (r, Inl err)
      | Inr ws \<Rightarrow>
          (case c_acquire D (beyond r) of
             (x1, Some lerr) \<Rightarrow> (r\<lparr>beyond := x1\<rparr>, Inl lerr)
           | (x1, None) \<Rightarrow>
               (case fn ws (r\<lparr>beyond := x1\<rparr>) of (ws2, r2, out) \<Rightarrow>
                  (case c_save D ws2 (beyond r2) of
                     (x3, None) \<Rightarrow> (r2\<lparr>disk := ws2, beyond := c_release D x3\<rparr>, out)
                   | (x3, Some saveErr) \<Rightarrow>
                       (r2\<lparr>beyond := c_release D x3\<rparr>,
                        Inl (case out of Inl stepErr \<Rightarrow> unsaved stepErr saveErr | Inr v \<Rightarrow> saveErr))))))"

section \<open>What the manager does for its states\<close>

definition recordPath :: "('v, 'x) deps \<Rightarrow> string \<Rightarrow> ('v, 'x) manager \<Rightarrow> ('v, 'x) manager" where
  "recordPath D path r =
     (let logged = (\<lambda>x e. c_logf D (''could not record the composition's position ('' @ path @ ''): '' @ errorText e) x)
      in case c_open D (disk r) (beyond r) of
        Inl err \<Rightarrow> r\<lparr>beyond := logged (beyond r) err\<rparr>
      | Inr ws \<Rightarrow>
          (case c_save D (SetStatePath ws path) (beyond r) of
             (x1, None) \<Rightarrow> r\<lparr>disk := SetStatePath ws path, beyond := x1\<rparr>
           | (x1, Some err) \<Rightarrow> r\<lparr>beyond := logged x1 err\<rparr>))"

definition note_step :: "string \<Rightarrow> string \<Rightarrow> ('v, 'x) manager \<Rightarrow> ('v, 'x) manager" where
  "note_step step detail r = r\<lparr>mg_steps := mg_steps r @ [step @ '': '' @ detail]\<rparr>"

definition markFailed :: "('v, 'x) deps \<Rightarrow> string \<Rightarrow> goErr \<Rightarrow> ('v, 'x) manager \<Rightarrow> ('v, 'x) manager" where
  "markFailed D step cause r =
     (case c_open D (disk r) (beyond r) of
        Inl err \<Rightarrow> r
      | Inr ws \<Rightarrow>
          (let ws2 = MarkStepFailed (c_clock D (beyond r)) ws step (Some cause) (FailureStatus step (Some cause))
           in case c_save D ws2 (beyond r) of
                (x1, None) \<Rightarrow> r\<lparr>disk := ws2, beyond := x1\<rparr>
              | (x1, Some err) \<Rightarrow> r\<lparr>beyond := x1\<rparr>))"

text \<open>What an \<open>Enter\<close> does is the new manager and the messages it leaves with \<open>SendSelf\<close>.\<close>

type_synonym ('v, 'x) entered = "('v, 'x) manager \<times> 'v chainMsg list"

definition upError :: "string \<Rightarrow> goErr \<Rightarrow> goErr" where
  "upError step cause = Errorf (''chainsetup: chain up: '' @ step @ '': '' @ errorText cause) [cause]"

definition fail_stage :: "('v, 'x) deps \<Rightarrow> string \<Rightarrow> goErr \<Rightarrow> ('v, 'x) manager \<Rightarrow> ('v, 'x) entered" where
  "fail_stage D step cause r =
     (markFailed D step (upError step cause) r, [stageFailed step (upError step cause)])"

definition andError :: "goErr \<Rightarrow> goErr \<Rightarrow> goErr" where
  "andError cause rerr = Errorf (errorText cause @ '' (and '' @ errorText rerr @ '')'') [cause]"

definition failLaunch :: "('v, 'x) deps \<Rightarrow> goErr \<Rightarrow> ('v, 'x) manager \<Rightarrow> ('v, 'x) entered" where
  "failLaunch D cause r =
     (case InWorkspace D (lift_verb (RollBackLaunch D (wasRunning r))) r of
        (r1, Inl rerr) \<Rightarrow> fail_stage D stepStart (andError cause rerr) r1
      | (r1, Inr detail) \<Rightarrow> fail_stage D stepStart cause (note_step ''rollback'' detail r1))"

definition stageFor :: "string \<Rightarrow> goErr + StateName" where
  "stageFor step =
     (if step = '''' then Inr nameChainOpenWorkspace
      else case map_of stageOrder step of
        Some n \<Rightarrow> Inr n
      | None \<Rightarrow> Inl (Errorf (''chainsetup: no stage is named \"'' @ step @ ''\"'') []))"

text \<open>The loop of \<open>after\<close>: the stage that follows a step, or ready.\<close>

fun nextStage :: "(string \<times> StateName) list \<Rightarrow> string \<Rightarrow> StateName" where
  "nextStage [] step = nameChainReady"
| "nextStage ((s, n) # rest) step =
     (if s = step then (case rest of [] \<Rightarrow> nameChainReady | (s', n') # _ \<Rightarrow> n') else nextStage rest step)"

definition after :: "('v, 'x) manager \<Rightarrow> string \<Rightarrow> StateName" where
  "after r step =
     (if step = stopAfter r then nameChainBuildUpStoppedAtStep
      else if step = stepKeys \<and> reusing r then nameChainReconcile
      else nextStage stageOrder step)"

text \<open>The operations: their states and the verbs their conditions are declared under.\<close>

definition ops :: "(StateName \<times> string) list" where
  "ops = [(nameChainOpStop, ''Stop''), (nameChainOpRestartNode, ''Restart''), (nameChainOpSwapNode, ''SwapNode''),
     (nameChainOpHardfork, ''Hardfork''), (nameChainOpCrossFork, ''ForkStanding''), (nameChainOpRemove, ''Rm'')]"

definition operationNamed :: "StateName \<Rightarrow> goErr + string" where
  "operationNamed name =
     (case map_of ops name of
        Some v \<Rightarrow> Inr v
      | None \<Rightarrow> Inl (Errorf (''chainsetup: no operation is named \"'' @ name @ ''\"'') []))"

definition mayOperate :: "('v, 'x) deps \<Rightarrow> ('v, 'x) manager \<Rightarrow> string \<Rightarrow> goErr option" where
  "mayOperate D r verb =
     (case c_open D (disk r) (beyond r) of Inl err \<Rightarrow> Some err | Inr ws \<Rightarrow> allow ws verb)"

definition mayStep :: "('v, 'x) deps \<Rightarrow> ('v, 'x) manager \<Rightarrow> string \<Rightarrow> goErr option" where
  "mayStep D r step =
     (case c_open D (disk r) (beyond r) of Inl err \<Rightarrow> Some err | Inr ws \<Rightarrow> stepIsDue ws step)"

definition operated ::
  "('v, 'x) deps \<Rightarrow> string \<Rightarrow> string \<Rightarrow> ('v, 'x, string) closure \<Rightarrow> ('v, 'x) manager \<Rightarrow> ('v, 'x) entered"
where
  "operated D path verb fn r =
     (case InWorkspace D fn (recordPath D path r) of
        (r1, Inl err) \<Rightarrow> (r1, [stageFailed (lowerVerb verb) err])
      | (r1, Inr detail) \<Rightarrow> (note_step (lowerVerb verb) detail r1, [operationDone]))"

definition nothingDecision :: Decision where
  "nothingDecision = \<lparr>d_Verdict = ComposeIt, d_Nodes = [], d_Reasons = [NothingIsComposed]\<rparr>"

definition compareWorkspace :: "('v, 'x) deps \<Rightarrow> 'v upRequest \<Rightarrow> wsState \<Rightarrow> 'x \<Rightarrow> Decision" where
  "compareWorkspace D up w x =
     (case c_open D w x of
        Inl err \<Rightarrow> nothingDecision
      | Inr ws \<Rightarrow>
          if length (ws_Nodes ws) = 0 then nothingDecision
          else Check (c_Have D ws x) (WantOf (\<lambda>_. c_genesisDeclared D up) (rq_shape up)) (Some (c_liveness D ws x)))"

end
