(* ===== verification/Chain_States.thy ===== *)
theory Chain_States
  imports Chain_Machine
begin

text \<open>
  The states of the composition machine (\<open>internal/chainsetup\<close>: \<open>manager_states.go\<close> and the \<open>stage_*.go\<close>
  files): what each does on \<open>Enter\<close> and on \<open>Process\<close>, their contracts, the tree \<open>NewManager\<close> builds, and the
  entry points \<open>Compose\<close>, \<open>Step\<close>, \<open>ComposeComparing\<close> and \<open>Operate\<close> of the \<open>Manager\<close>.
\<close>

section \<open>The stages: what they do on Enter\<close>

text \<open>How a stage whose work returns one line ends.\<close>

definition ended ::
  "('v, 'x) deps \<Rightarrow> string \<Rightarrow> (string \<Rightarrow> 'v chainMsg) \<Rightarrow> ('v, 'x) manager \<times> (goErr + string) \<Rightarrow> ('v, 'x) entered"
where
  "ended D step report res =
     (case res of (r, Inl err) \<Rightarrow> fail_stage D step err r | (r, Inr detail) \<Rightarrow> (r, [report detail]))"

definition newWork :: "('v, 'x) deps \<Rightarrow> 'v upRequest \<Rightarrow> ('x, string) verb" where
  "newWork D req w x =
     (case c_New D req w x of
        (w1, x1, Inl nerr) \<Rightarrow> (w1, x1, Inl nerr)
      | (w1, x1, Inr detail) \<Rightarrow>
          (case RecordRequest req w1 x1 of (w2, x2, Inl e) \<Rightarrow> (w2, x2, Inl e) | (w2, x2, Inr _) \<Rightarrow> (w2, x2, Inr detail)))"

definition enter_openingWorkspace :: "('v, 'x) deps \<Rightarrow> string \<Rightarrow> ('v, 'x) manager \<Rightarrow> ('v, 'x) entered" where
  "enter_openingWorkspace D path r =
     ended D stepNew workspaceOpened (InWorkspace D (lift_verb (newWork D (request r))) (recordPath D path r))"

text \<open>\<open>PlaceNodes\<close> opens and saves the workspace itself, under the lock of the server set.\<close>

definition onDisk :: "('x, 'r) verb \<Rightarrow> ('v, 'x) manager \<Rightarrow> ('v, 'x) manager \<times> (goErr + 'r)" where
  "onDisk v r = (case v (disk r) (beyond r) of (w, x, out) \<Rightarrow> (r\<lparr>disk := w, beyond := x\<rparr>, out))"

definition enter_buildingNodeTable :: "('v, 'x) deps \<Rightarrow> string \<Rightarrow> ('v, 'x) manager \<Rightarrow> ('v, 'x) entered" where
  "enter_buildingNodeTable D path r =
     ended D stepPlace nodeTableBuilt (onDisk (c_PlaceNodes D (request r)) (recordPath D path r))"

definition enter_ensuringKeys :: "('v, 'x) deps \<Rightarrow> string \<Rightarrow> ('v, 'x) manager \<Rightarrow> ('v, 'x) entered" where
  "enter_ensuringKeys D path r =
     (let r1 = recordPath D path r
      in case c_KeysOptsFor D (request r1) (beyond r1) of
           (x1, Inl err) \<Rightarrow> fail_stage D stepKeys err (r1\<lparr>beyond := x1\<rparr>)
         | (x1, Inr opts) \<Rightarrow>
             (case InWorkspace D (lift_verb (c_keySource D opts)) (r1\<lparr>beyond := x1\<rparr>) of
                (r2, Inl err) \<Rightarrow> fail_stage D stepKeys err r2
              | (r2, Inr (src, way, n)) \<Rightarrow> (r2\<lparr>keySrc := Some src, keyN := n\<rparr>, [keySourceChosen way])))"

definition enter_keysLeaf :: "('v, 'x) deps \<Rightarrow> string \<Rightarrow> ('v, 'x) manager \<Rightarrow> ('v, 'x) entered" where
  "enter_keysLeaf D path r =
     ended D stepKeys keysEnsured (InWorkspace D (lift_verb (c_EnsureKeys D (keySrc r) (keyN r))) (recordPath D path r))"

definition enter_buildingGenesis :: "('v, 'x) deps \<Rightarrow> string \<Rightarrow> ('v, 'x) manager \<Rightarrow> ('v, 'x) entered" where
  "enter_buildingGenesis D path r =
     (let r1 = recordPath D path r
      in case c_GenesisOptsFor D (request r1) (beyond r1) of
           (x1, Inl err) \<Rightarrow> fail_stage D stepGenesis err (r1\<lparr>beyond := x1\<rparr>)
         | (x1, Inr opts) \<Rightarrow>
             (case InWorkspace D (lift_verb (c_CheckFreeSpace D)) (r1\<lparr>beyond := x1\<rparr>) of
                (r2, Inl err) \<Rightarrow> fail_stage D stepGenesis err r2
              | (r2, Inr _) \<Rightarrow>
                  (r2\<lparr>genesisOpts := Some opts\<rparr>, [genesisWayChosen (c_existing D opts \<noteq> '''')])))"

definition enter_genesisLeaf :: "('v, 'x) deps \<Rightarrow> string \<Rightarrow> ('v, 'x) manager \<Rightarrow> ('v, 'x) entered" where
  "enter_genesisLeaf D path r =
     ended D stepGenesis genesisBuilt (InWorkspace D (lift_verb (c_Genesis D (genesisOpts r))) (recordPath D path r))"

text \<open>The loop over the sorted scopes of a request: the first that cannot be recorded ends it.\<close>

fun recordScopes :: "(string \<Rightarrow> ('x, unit) verb) \<Rightarrow> string \<Rightarrow> string list \<Rightarrow> ('x, unit) verb" where
  "recordScopes rec what [] w x = (w, x, Inr ())"
| "recordScopes rec what (scope # scopes) w x =
     (case rec scope w x of
        (w1, x1, Inl rerr) \<Rightarrow> (w1, x1, Inl (Errorf (''chainsetup: '' @ what @ '': '' @ errorText rerr) [rerr]))
      | (w1, x1, Inr _) \<Rightarrow> recordScopes rec what scopes w1 x1)"

definition configWork :: "('v, 'x) deps \<Rightarrow> 'v upRequest \<Rightarrow> ('x, string) verb" where
  "configWork D req w x =
     (case recordScopes (c_RecordConfigSet D req) ''config'' (c_configScopes D req) w x of
        (w1, x1, Inl err) \<Rightarrow> (w1, x1, Inl err)
      | (w1, x1, Inr _) \<Rightarrow> c_Config D w1 x1)"

definition enter_buildingNodeConfig :: "('v, 'x) deps \<Rightarrow> string \<Rightarrow> ('v, 'x) manager \<Rightarrow> ('v, 'x) entered" where
  "enter_buildingNodeConfig D path r =
     ended D stepConfig nodeConfigBuilt (InWorkspace D (lift_verb (configWork D (request r))) (recordPath D path r))"

definition commandWork :: "('v, 'x) deps \<Rightarrow> 'v upRequest \<Rightarrow> ('x, string) verb" where
  "commandWork D req w x =
     (case recordScopes (c_RecordLaunchSet D req) ''launchopts'' (c_launchScopes D req) w x of
        (w1, x1, Inl err) \<Rightarrow> (w1, x1, Inl err)
      | (w1, x1, Inr _) \<Rightarrow>
          (case c_RecordLaunchCommand D req w1 x1 of
             (w2, x2, Inl rerr) \<Rightarrow> (w2, x2, Inl (Errorf (''chainsetup: launchopts: '' @ errorText rerr) [rerr]))
           | (w2, x2, Inr _) \<Rightarrow> c_LaunchOpts D w2 x2))"

definition enter_buildingNodeCommand :: "('v, 'x) deps \<Rightarrow> string \<Rightarrow> ('v, 'x) manager \<Rightarrow> ('v, 'x) entered" where
  "enter_buildingNodeCommand D path r =
     ended D stepBuild nodeCommandBuilt (InWorkspace D (lift_verb (commandWork D (request r))) (recordPath D path r))"

definition enter_deployingInputs :: "('v, 'x) deps \<Rightarrow> string \<Rightarrow> ('v, 'x) manager \<Rightarrow> ('v, 'x) entered" where
  "enter_deployingInputs D path r =
     (case InWorkspace D (lift_verb (c_Provision D)) (recordPath D path r) of
        (r1, Inl err) \<Rightarrow> fail_stage D stepDeploy err r1
      | (r1, Inr (detail, shipped)) \<Rightarrow> (r1, [inputsPresent detail shipped]))"

definition enter_deployOutcome ::
  "(('v, 'x) manager \<Rightarrow> string) \<Rightarrow> ('v, 'x) deps \<Rightarrow> string \<Rightarrow> ('v, 'x) manager \<Rightarrow> ('v, 'x) entered"
where
  "enter_deployOutcome det D path r = (recordPath D path r, [inputsDeployed (det r)])"

definition enter_initializingDatadirs :: "('v, 'x) deps \<Rightarrow> string \<Rightarrow> ('v, 'x) manager \<Rightarrow> ('v, 'x) entered" where
  "enter_initializingDatadirs D path r =
     ended D stepInit datadirsInitialized
       (InWorkspace D (lift_verb (c_Init D (u_Binary (rq_shape (request r))))) (recordPath D path r))"

text \<open>The plan of a launch, with the nodes that ran before it.\<close>

definition planWork :: "('v, 'x) deps \<Rightarrow> string \<Rightarrow> ('x, string \<times> phase list \<times> int list) verb" where
  "planWork D bin w x =
     (case c_LaunchPlan D bin w x of
        (w1, x1, Inl e) \<Rightarrow> (w1, x1, Inl e)
      | (w1, x1, Inr (b, phases)) \<Rightarrow> (w1, x1, Inr (b, phases, RunningNodes w1)))"

definition enter_launching :: "('v, 'x) deps \<Rightarrow> string \<Rightarrow> ('v, 'x) manager \<Rightarrow> ('v, 'x) entered" where
  "enter_launching D path r =
     (let r1 = (recordPath D path r)\<lparr>ln_at := 0, ln_started := 0\<rparr>
      in case InWorkspace D (lift_verb (planWork D (u_Binary (rq_shape (request r1))))) r1 of
           (r2, Inl err) \<Rightarrow> fail_stage D stepStart err r2
         | (r2, Inr (bin, phases, running)) \<Rightarrow>
             (r2\<lparr>ln_bin := bin, ln_phases := phases, wasRunning := running\<rparr>, [launchPlanned (length phases)]))"

text \<open>
  The states of a phase are entered only while there is one (\<open>next\<close> below), so the index of the source is
  in range; the refinement of the launch by a loop over the phases rests on that.
\<close>

definition enter_launchingPhase :: "('v, 'x) deps \<Rightarrow> string \<Rightarrow> ('v, 'x) manager \<Rightarrow> ('v, 'x) entered" where
  "enter_launchingPhase D path r =
     (let r1 = recordPath D path r
      in case InWorkspace D (lift_verb (c_StartPhase D (ln_bin r1) (ln_phases r1 ! ln_at r1))) r1 of
           (r2, Inl err) \<Rightarrow> failLaunch D err r2
         | (r2, Inr started) \<Rightarrow> (r2, [phaseLaunched started]))"

definition enter_runningPhaseActions :: "('v, 'x) deps \<Rightarrow> string \<Rightarrow> ('v, 'x) manager \<Rightarrow> ('v, 'x) entered" where
  "enter_runningPhaseActions D path r =
     (let r1 = recordPath D path r
      in case InWorkspace D (lift_verb (c_RunPhaseActions D (ln_bin r1) (ln_phases r1 ! ln_at r1))) r1 of
           (r2, Inl err) \<Rightarrow> failLaunch D err r2
         | (r2, Inr _) \<Rightarrow> (r2, [phaseActionsDone]))"

definition enter_recordingRun :: "('v, 'x) deps \<Rightarrow> string \<Rightarrow> ('v, 'x) manager \<Rightarrow> ('v, 'x) entered" where
  "enter_recordingRun D path r =
     (let r1 = recordPath D path r
      in case InWorkspace D (lift_verb (c_FinishLaunch D (ln_bin r1) (ln_started r1))) r1 of
           (r2, Inl err) \<Rightarrow> failLaunch D err r2
         | (r2, Inr detail) \<Rightarrow> (r2, [nodesLaunched detail]))"

definition enter_reconciling :: "('v, 'x) deps \<Rightarrow> string \<Rightarrow> ('v, 'x) manager \<Rightarrow> ('v, 'x) entered" where
  "enter_reconciling D path r =
     (let r1 = recordPath D path r
      in case c_GenesisOptsFor D (request r1) (beyond r1) of
           (x1, Inl err) \<Rightarrow> fail_stage D stepGenesis err (r1\<lparr>beyond := x1\<rparr>)
         | (x1, Inr gopts) \<Rightarrow>
             (case InWorkspace D (lift_verb (c_reconcileUp D gopts)) (r1\<lparr>beyond := x1\<rparr>) of
                (r2, Inl err) \<Rightarrow> fail_stage D stepGenesis err r2
              | (r2, Inr (describe, refuse, redo)) \<Rightarrow>
                  (let r3 = note_step ''reuse'' describe r2
                   in if refuse \<noteq> '''' then
                        (r3\<lparr>mg_failure := Some (Errorf (''chainsetup: chain up: reuse-if-matching refused: '' @ refuse) [])\<rparr>,
                         [reconcileRefused])
                      else (r3, [reconciled (length redo = 0)]))))"

section \<open>The comparison, the operations and the resting places: what they do on Enter\<close>

definition enter_comparing :: "('v, 'x) deps \<Rightarrow> string \<Rightarrow> ('v, 'x) manager \<Rightarrow> ('v, 'x) entered" where
  "enter_comparing D path r =
     (let r1 = recordPath D path r;
          d = compareWorkspace D (request r1) (disk r1) (beyond r1);
          r2 = note_step ''preflight'' (c_decisionText D d) (r1\<lparr>decision := d\<rparr>)
      in (r2, [comparisonMade (d_Verdict d)]))"

definition enter_stoppingToRebuild :: "('v, 'x) deps \<Rightarrow> string \<Rightarrow> ('v, 'x) manager \<Rightarrow> ('v, 'x) entered" where
  "enter_stoppingToRebuild D path r =
     (case InWorkspace D (lift_verb (Stop D)) (recordPath D path r) of
        (r1, Inl err) \<Rightarrow>
          (r1, [stageFailed ''stop'' (Errorf (''chainsetup: preflight stop before rebuild: '' @ errorText err) [err])])
      | (r1, Inr detail) \<Rightarrow> (note_step ''stop (rebuild-all)'' detail r1, [stoppedToRebuild]))"

fun restartNodesLoop :: "('v, 'x) deps \<Rightarrow> int list \<Rightarrow> ('v, 'x) manager \<Rightarrow> ('v, 'x) entered" where
  "restartNodesLoop D [] r = (r, [nodesRestarted])"
| "restartNodesLoop D (idx # rest) r =
     (case InWorkspace D (lift_verb (c_Restart D idx)) r of
        (r1, Inl err) \<Rightarrow>
          (r1, [stageFailed ''restart''
             (Errorf (''chainsetup: preflight restart node'' @ itoa idx @ '': '' @ errorText err) [err])])
      | (r1, Inr detail) \<Rightarrow> restartNodesLoop D rest (note_step ''restart'' detail r1))"

definition enter_restartingNodes :: "('v, 'x) deps \<Rightarrow> string \<Rightarrow> ('v, 'x) manager \<Rightarrow> ('v, 'x) entered" where
  "enter_restartingNodes D path r = restartNodesLoop D (d_Nodes (decision r)) (recordPath D path r)"

definition enter_compareOutcome ::
  "'v chainMsg \<Rightarrow> ('v, 'x) deps \<Rightarrow> string \<Rightarrow> ('v, 'x) manager \<Rightarrow> ('v, 'x) entered"
where
  "enter_compareOutcome report D path r = (recordPath D path r, [report])"

definition enter_stopping :: "('v, 'x) deps \<Rightarrow> string \<Rightarrow> ('v, 'x) manager \<Rightarrow> ('v, 'x) entered" where
  "enter_stopping D path r = operated D path ''Stop'' (lift_verb (Stop D)) r"

definition enter_removing :: "('v, 'x) deps \<Rightarrow> string \<Rightarrow> ('v, 'x) manager \<Rightarrow> ('v, 'x) entered" where
  "enter_removing D path r = operated D path ''Rm'' (lift_verb (c_Rm D)) r"

definition enter_restarting :: "('v, 'x) deps \<Rightarrow> string \<Rightarrow> ('v, 'x) manager \<Rightarrow> ('v, 'x) entered" where
  "enter_restarting D path r = operated D path ''Restart'' (lift_verb (c_Restart D (restartIndex r))) r"

definition enter_swapping :: "('v, 'x) deps \<Rightarrow> string \<Rightarrow> ('v, 'x) manager \<Rightarrow> ('v, 'x) entered" where
  "enter_swapping D path r = operated D path ''SwapNode'' (lift_verb (c_SwapNode D (swapOpts r))) r"

text \<open>The closure of \<open>hardforking\<close> keeps what the swap produced.\<close>

definition hardforkWork :: "('v, 'x) deps \<Rightarrow> ('v, 'x, string) closure" where
  "hardforkWork D w r =
     (case c_Hardfork D (hardforkArgs r) w (beyond r) of
        (w1, x1, Inl err) \<Rightarrow> (w1, r\<lparr>beyond := x1\<rparr>, Inl err)
      | (w1, x1, Inr ns) \<Rightarrow>
          (w1, r\<lparr>beyond := x1, hardforkNodes := ns\<rparr>, Inr (itoa (int (length ns)) @ '' node(s) swapped'')))"

definition enter_hardforking :: "('v, 'x) deps \<Rightarrow> string \<Rightarrow> ('v, 'x) manager \<Rightarrow> ('v, 'x) entered" where
  "enter_hardforking D path r = operated D path ''Hardfork'' (hardforkWork D) r"

definition enter_crossingFork :: "('v, 'x) deps \<Rightarrow> string \<Rightarrow> ('v, 'x) manager \<Rightarrow> ('v, 'x) entered" where
  "enter_crossingFork D path r =
     (let r1 = (recordPath D path r)\<lparr>cf_head := 0, cf_already := False, cf_out := ''''\<rparr>
      in case InWorkspace D (lift_verb (c_ForkStanding D)) r1 of
           (r2, Inl err) \<Rightarrow> fail_stage D crossForkStep err r2
         | (r2, Inr crossed) \<Rightarrow> (r2, [forkStandingRead crossed]))"

definition enter_beforeFork :: "('v, 'x) deps \<Rightarrow> string \<Rightarrow> ('v, 'x) manager \<Rightarrow> ('v, 'x) entered" where
  "enter_beforeFork D path r =
     (case InWorkspace D (lift_verb (c_ForkMoment D (crossOpts r))) (recordPath D path r) of
        (r1, Inl err) \<Rightarrow> fail_stage D crossForkStep err r1
      | (r1, Inr head) \<Rightarrow> (r1, [forkBoundaryReached head]))"

definition enter_handingOver :: "('v, 'x) deps \<Rightarrow> string \<Rightarrow> ('v, 'x) manager \<Rightarrow> ('v, 'x) entered" where
  "enter_handingOver D path r =
     (case InWorkspace D (lift_verb (c_HandOverFork D)) (recordPath D path r) of
        (r1, Inl err) \<Rightarrow> fail_stage D crossForkStep err r1
      | (r1, Inr _) \<Rightarrow> (r1, [productionHandedOver]))"

definition enter_crossedFork :: "('v, 'x) deps \<Rightarrow> string \<Rightarrow> ('v, 'x) manager \<Rightarrow> ('v, 'x) entered" where
  "enter_crossedFork D path r =
     (case InWorkspace D (lift_verb (if cf_already r then c_ReportAlreadyCrossed D else c_ConfirmCrossing D (cf_head r)))
             (recordPath D path r) of
        (r1, Inl err) \<Rightarrow> fail_stage D crossForkStep err r1
      | (r1, Inr detail) \<Rightarrow> (note_step crossForkStep detail (r1\<lparr>cf_out := detail\<rparr>), [operationDone]))"

text \<open>\<open>composedState\<close>, \<open>readyState\<close> and \<open>opResult\<close> record where the composition rests.\<close>

definition enter_resting :: "('v, 'x) deps \<Rightarrow> string \<Rightarrow> ('v, 'x) manager \<Rightarrow> ('v, 'x) entered" where
  "enter_resting D path r = (recordPath D path r, [])"

definition chainEnters :: "(StateName \<times> (('v, 'x) deps \<Rightarrow> string \<Rightarrow> ('v, 'x) manager \<Rightarrow> ('v, 'x) entered)) list" where
  "chainEnters =
     [(nameChainCompare, enter_comparing),
      (nameChainCompareSame, enter_compareOutcome networkKept),
      (nameChainCompareNodesDiffer, enter_restartingNodes),
      (nameChainCompareNetworkDiffers, enter_stoppingToRebuild),
      (nameChainCompareNothingComposed, enter_compareOutcome nothingComposed),
      (nameChainCompareNetworkStopped, enter_compareOutcome networkStopped),
      (nameChainOpenWorkspace, enter_openingWorkspace),
      (nameChainBuildNodeTable, enter_buildingNodeTable),
      (nameChainEnsureKeys, enter_ensuringKeys),
      (nameChainEnsureKeysFromPreset, enter_keysLeaf),
      (nameChainEnsureKeysGenerate, enter_keysLeaf),
      (nameChainEnsureKeysFromBlueprint, enter_keysLeaf),
      (nameChainReconcile, enter_reconciling),
      (nameChainBuildGenesis, enter_buildingGenesis),
      (nameChainBuildGenesisFromTemplate, enter_genesisLeaf),
      (nameChainBuildGenesisFromExisting, enter_genesisLeaf),
      (nameChainBuildNodeConfig, enter_buildingNodeConfig),
      (nameChainBuildNodeCommand, enter_buildingNodeCommand),
      (nameChainDeployNodes, enter_deployingInputs),
      (nameChainDeployNodesVerifiedLocal, enter_deployOutcome localDetail),
      (nameChainDeployNodesShippedRemote, enter_deployOutcome remoteDetail),
      (nameChainInitNodes, enter_initializingDatadirs),
      (nameChainLaunchNodes, enter_launching),
      (nameChainLaunchNodesPhase, enter_launchingPhase),
      (nameChainLaunchNodesPhaseActions, enter_runningPhaseActions),
      (nameChainLaunchNodesRecordRun, enter_recordingRun),
      (nameChainBuildUpStoppedAtStep, enter_resting),
      (nameChainReady, enter_resting),
      (nameChainOpStop, enter_stopping),
      (nameChainOpRestartNode, enter_restarting),
      (nameChainOpSwapNode, enter_swapping),
      (nameChainOpHardfork, enter_hardforking),
      (nameChainOpCrossFork, enter_crossingFork),
      (nameChainOpCrossForkAwaitBoundary, enter_beforeFork),
      (nameChainOpCrossForkHandOver, enter_handingOver),
      (nameChainOpCrossForkConfirm, enter_crossedFork),
      (nameChainOpRemove, enter_removing),
      (nameChainStopped, enter_resting),
      (nameChainRemoved, enter_resting)]"

text \<open>The states that are not listed keep the \<open>Enter\<close> of \<open>statemachine.Base\<close>, which does nothing.\<close>

definition chain_enter :: "('v, 'x) deps \<Rightarrow> StateName \<Rightarrow> string \<Rightarrow> ('v, 'x) manager \<Rightarrow> ('v, 'x) entered" where
  "chain_enter D n path r =
     (case map_of chainEnters n of Some f \<Rightarrow> f D path r | None \<Rightarrow> (r, []))"

section \<open>What the states do on Process\<close>

type_synonym ('v, 'x) answered = "(('v, 'x) manager, 'v chainMsg, goErr) reaction"

definition failAs :: "goErr \<Rightarrow> ('v, 'x) manager \<Rightarrow> ('v, 'x) answered" where
  "failAs err r = Moves (r\<lparr>mg_failure := Some err\<rparr>) nameChainFailed"

definition process_compositionState :: "('v, 'x) deps \<Rightarrow> ('v, 'x) manager \<Rightarrow> 'v chainMsg \<Rightarrow> ('v, 'x) answered" where
  "process_compositionState D r x =
     (case x of
        stageFailed step err \<Rightarrow>
          Moves (r\<lparr>mg_failure := Some err, failStatus := FailureStatus step (Some err)\<rparr>) nameChainFailed
      | _ \<Rightarrow> NotMine)"

definition process_stoppedState :: "('v, 'x) deps \<Rightarrow> ('v, 'x) manager \<Rightarrow> 'v chainMsg \<Rightarrow> ('v, 'x) answered" where
  "process_stoppedState D r x =
     (case x of
        Compose req from \<Rightarrow>
          (case stageFor from of Inl err \<Rightarrow> Errs r err | Inr first \<Rightarrow> Moves (r\<lparr>request := req\<rparr>) first)
      | ComposeComparing req \<Rightarrow> Moves (r\<lparr>request := req\<rparr>) nameChainCompare
      | OperateMsg name \<Rightarrow>
          (case operationNamed name of
             Inl err \<Rightarrow> Errs r err
           | Inr verb \<Rightarrow>
               (case mayOperate D r verb of Some err \<Rightarrow> failAs err r | None \<Rightarrow> Moves r name))
      | RunStep name req \<Rightarrow>
          (case mayStep D r name of
             Some err \<Rightarrow> failAs err r
           | None \<Rightarrow>
               (case stageFor name of Inl err \<Rightarrow> Errs r err | Inr st \<Rightarrow> Moves (r\<lparr>request := req\<rparr>) st))
      | _ \<Rightarrow> NotMine)"

definition process_composingState :: "('v, 'x) deps \<Rightarrow> ('v, 'x) manager \<Rightarrow> 'v chainMsg \<Rightarrow> ('v, 'x) answered" where
  "process_composingState D r x =
     (case stageReport x of
        Some (step, detail) \<Rightarrow>
          (let r1 = note_step step detail r
           in Moves r1 (if only r1 \<noteq> '''' then nameChainBuildUpStoppedAtStep else after r1 step))
      | None \<Rightarrow>
          (case x of
             reconciled kept \<Rightarrow>
               (case stageFor stepGenesis of Inl err \<Rightarrow> Errs r err | Inr next \<Rightarrow> Moves r next)
           | reconcileRefused \<Rightarrow> Moves r nameChainFailed
           | _ \<Rightarrow> NotMine))"

text \<open>The leaves of \<open>ensuringKeys\<close>, by the way the keys are had.\<close>

definition keyLeaves :: "(string \<times> StateName) list" where
  "keyLeaves = [(''preset'', nameChainEnsureKeysFromPreset), (''generated'', nameChainEnsureKeysGenerate),
     (''declared'', nameChainEnsureKeysFromBlueprint)]"

definition process_ensuringKeys :: "('v, 'x) deps \<Rightarrow> ('v, 'x) manager \<Rightarrow> 'v chainMsg \<Rightarrow> ('v, 'x) answered" where
  "process_ensuringKeys D r x =
     (case x of
        keySourceChosen way \<Rightarrow>
          (case map_of keyLeaves way of
             Some leaf \<Rightarrow> Moves r leaf
           | None \<Rightarrow>
               (case fail_stage D stepKeys
                       (Errorf (''chainsetup: keys: no state for the \"'' @ way @ ''\" source'') []) r of
                  (r1, ms) \<Rightarrow> Says r1 ms))
      | _ \<Rightarrow> NotMine)"

definition process_buildingGenesis :: "('v, 'x) deps \<Rightarrow> ('v, 'x) manager \<Rightarrow> 'v chainMsg \<Rightarrow> ('v, 'x) answered" where
  "process_buildingGenesis D r x =
     (case x of
        genesisWayChosen fromExisting \<Rightarrow>
          Moves r (if fromExisting then nameChainBuildGenesisFromExisting else nameChainBuildGenesisFromTemplate)
      | _ \<Rightarrow> NotMine)"

definition process_deployingInputs :: "('v, 'x) deps \<Rightarrow> ('v, 'x) manager \<Rightarrow> 'v chainMsg \<Rightarrow> ('v, 'x) answered" where
  "process_deployingInputs D r x =
     (case x of
        inputsPresent detail shipped \<Rightarrow>
          if shipped > 0 then Moves (r\<lparr>remoteDetail := detail\<rparr>) nameChainDeployNodesShippedRemote
          else Moves (r\<lparr>localDetail := detail\<rparr>) nameChainDeployNodesVerifiedLocal
      | _ \<Rightarrow> NotMine)"

text \<open>\<open>next\<close> of \<open>launching\<close>: the phase state again, or the wrap-up.\<close>

definition launch_next :: "('v, 'x) manager \<Rightarrow> StateName" where
  "launch_next r =
     (if ln_at r < length (ln_phases r) then nameChainLaunchNodesPhase else nameChainLaunchNodesRecordRun)"

definition process_launching :: "('v, 'x) deps \<Rightarrow> ('v, 'x) manager \<Rightarrow> 'v chainMsg \<Rightarrow> ('v, 'x) answered" where
  "process_launching D r x =
     (case x of
        launchPlanned n \<Rightarrow> Moves r (launch_next r)
      | phaseLaunched started \<Rightarrow>
          (let r1 = r\<lparr>ln_started := ln_started r + started\<rparr>
           in if length (ph_Actions (ln_phases r1 ! ln_at r1)) > 0 then Moves r1 nameChainLaunchNodesPhaseActions
              else (let r2 = r1\<lparr>ln_at := ln_at r1 + 1\<rparr> in Moves r2 (launch_next r2)))
      | phaseActionsDone \<Rightarrow> (let r1 = r\<lparr>ln_at := ln_at r + 1\<rparr> in Moves r1 (launch_next r1))
      | _ \<Rightarrow> NotMine)"

definition nextFor :: "pfVerdict \<Rightarrow> goErr + StateName" where
  "nextFor v =
     (if v = Reuse then Inr nameChainCompareSame
      else if v = RebuildNodes then Inr nameChainCompareNodesDiffer
      else if v = RebuildAll then Inr nameChainCompareNetworkDiffers
      else if v = ComposeIt then Inr nameChainCompareNothingComposed
      else if v = Relaunch then Inr nameChainCompareNetworkStopped
      else Inl (Errorf (''chainsetup: preflight returned '' @ pfVerdictString v @ '', which is not a verdict this knows'') []))"

definition process_comparing :: "('v, 'x) deps \<Rightarrow> ('v, 'x) manager \<Rightarrow> 'v chainMsg \<Rightarrow> ('v, 'x) answered" where
  "process_comparing D r x =
     (case x of
        comparisonMade v \<Rightarrow> (case nextFor v of Inl err \<Rightarrow> failAs err r | Inr next \<Rightarrow> Moves r next)
      | networkKept \<Rightarrow> Moves r nameChainReady
      | nodesRestarted \<Rightarrow> Moves r nameChainReady
      | stoppedToRebuild \<Rightarrow> Moves r nameChainOpenWorkspace
      | nothingComposed \<Rightarrow> Moves r nameChainOpenWorkspace
      | networkStopped \<Rightarrow>
          (case stageFor stepStart of Inl err \<Rightarrow> Errs r err | Inr launch \<Rightarrow> Moves r launch)
      | _ \<Rightarrow> NotMine)"

text \<open>\<open>nextMoment\<close> of \<open>crossingFork\<close>, with what it keeps.\<close>

definition nextMoment :: "('v, 'x) manager \<Rightarrow> 'v chainMsg \<Rightarrow> (('v, 'x) manager \<times> StateName) option" where
  "nextMoment r x =
     (case x of
        forkStandingRead crossed \<Rightarrow>
          Some (r\<lparr>cf_already := crossed\<rparr>,
            if crossed then nameChainOpCrossForkConfirm else nameChainOpCrossForkAwaitBoundary)
      | forkBoundaryReached head \<Rightarrow> Some (r\<lparr>cf_head := head\<rparr>, nameChainOpCrossForkHandOver)
      | productionHandedOver \<Rightarrow> Some (r, nameChainOpCrossForkConfirm)
      | _ \<Rightarrow> None)"

definition process_crossingFork :: "('v, 'x) deps \<Rightarrow> ('v, 'x) manager \<Rightarrow> 'v chainMsg \<Rightarrow> ('v, 'x) answered" where
  "process_crossingFork D r x = (case nextMoment r x of None \<Rightarrow> NotMine | Some (r1, next) \<Rightarrow> Moves r1 next)"

definition process_opState :: "('v, 'x) deps \<Rightarrow> ('v, 'x) manager \<Rightarrow> 'v chainMsg \<Rightarrow> ('v, 'x) answered" where
  "process_opState D r x =
     (case x of
        operationDone \<Rightarrow>
          Moves r (if operating r = nameChainOpStop then nameChainStopped
                   else if operating r = nameChainOpRemove then nameChainRemoved
                   else nameChainReady)
      | _ \<Rightarrow> NotMine)"

text \<open>The error of \<open>failedState\<close> wraps the failure; with none recorded \<open>fmt\<close> prints its mark for a nil.\<close>

definition uncleared :: "goErr option \<Rightarrow> goErr" where
  "uncleared failure =
     (case failure of
        Some e \<Rightarrow> Errorf (''chainsetup: the composition failed and has not been cleared: '' @ errorText e) [e]
      | None \<Rightarrow> Errorf ''chainsetup: the composition failed and has not been cleared: %!w(<nil>)'' [])"

definition process_failedState :: "('v, 'x) deps \<Rightarrow> ('v, 'x) manager \<Rightarrow> 'v chainMsg \<Rightarrow> ('v, 'x) answered" where
  "process_failedState D r x =
     (case x of
        ClearError \<Rightarrow> Moves (r\<lparr>mg_failure := None, failStatus := 0\<rparr>) nameChainIdle
      | _ \<Rightarrow> Errs r (uncleared (mg_failure r)))"

definition chainProcesses ::
  "(StateName \<times> (('v, 'x) deps \<Rightarrow> ('v, 'x) manager \<Rightarrow> 'v chainMsg \<Rightarrow> ('v, 'x) answered)) list"
where
  "chainProcesses =
     [(nameChain, process_compositionState),
      (nameChainIdle, process_stoppedState),
      (nameChainCompare, process_comparing),
      (nameChainBuildUp, process_composingState),
      (nameChainEnsureKeys, process_ensuringKeys),
      (nameChainBuildGenesis, process_buildingGenesis),
      (nameChainDeployNodes, process_deployingInputs),
      (nameChainLaunchNodes, process_launching),
      (nameChainOp, process_opState),
      (nameChainOpCrossFork, process_crossingFork),
      (nameChainFailed, process_failedState)]"

text \<open>The states that are not listed keep the \<open>Process\<close> of \<open>statemachine.Base\<close>, which handles nothing.\<close>

definition chain_process ::
  "('v, 'x) deps \<Rightarrow> StateName \<Rightarrow> ('v, 'x) manager \<Rightarrow> 'v chainMsg \<Rightarrow> ('v, 'x) answered"
where
  "chain_process D n r x =
     (case map_of chainProcesses n of Some f \<Rightarrow> f D r x | None \<Rightarrow> NotMine)"

definition chainClient :: "('v, 'x) deps \<Rightarrow> (('v, 'x) manager, 'v chainMsg, goErr) client" where
  "chainClient D = \<lparr>what_of = chainWhat, ctx_err = (\<lambda>r. c_ctxErr D (beyond r)), now = (\<lambda>r. c_now D (beyond r)),
     st_enter = (\<lambda>n m r. case chain_enter D n (Path m (Some n)) r of
        (r', ms) \<Rightarrow> (r', map (\<lambda>x. SendSelf (Some x)) ms, None)),
     st_exit = (\<lambda>n m r. (r, [], None)),
     st_process = (\<lambda>n m x r. case chain_process D n r x of
        NotMine \<Rightarrow> (r, [], False, None)
      | Moves r' d \<Rightarrow> (r', [TransitionTo (Some d)], True, None)
      | Says r' ms \<Rightarrow> (r', map (\<lambda>x. SendSelf (Some x)) ms, True, None)
      | Errs r' e \<Rightarrow> (r', [], True, Some e))\<rparr>"

section \<open>The tree (NewManager)\<close>

definition chainState :: "StateName \<Rightarrow> What list \<Rightarrow> What list \<Rightarrow> State option" where
  "chainState n acc em =
     Some \<lparr>st_name = n, st_contract = Some \<lparr>Accepts = acc, Emits = em, Ignores = [], Refuses = (n = nameChainFailed)\<rparr>\<rparr>"

text \<open>The states with what they accept and emit: those under the comparison, the stages with their ways,
  the operations with their moments.\<close>

definition st_root :: "State option" where "st_root = chainState nameChain [eventStageFailed] []"
definition st_idle :: "State option" where
  "st_idle = chainState nameChainIdle [CmdCompose, CmdCompare, CmdOperate, CmdStep] []"
definition st_compare :: "State option" where
  "st_compare = chainState nameChainCompare [eventComparisonMade, eventNetworkKept, eventNothingComposed,
     eventNodesRestarted, eventStoppedToRebuild, eventNetworkStopped] [eventComparisonMade]"
definition compareLeaves :: "State option list" where
  "compareLeaves =
     [chainState nameChainCompareSame [] [eventNetworkKept],
      chainState nameChainCompareNodesDiffer [] [eventNodesRestarted, eventStageFailed],
      chainState nameChainCompareNetworkDiffers [] [eventStoppedToRebuild, eventStageFailed],
      chainState nameChainCompareNothingComposed [] [eventNothingComposed],
      chainState nameChainCompareNetworkStopped [] [eventNetworkStopped]]"
definition st_composing_up :: "State option" where
  "st_composing_up = chainState nameChainBuildUp [eventWorkspaceOpened, eventNodeTableBuilt, eventKeysEnsured,
     eventGenesisBuilt, eventNodeConfigBuilt, eventNodeCommandBuilt, eventInputsDeployed,
     eventDatadirsInitialized, eventNodesLaunched, eventReconciled, eventReconcileRefused] []"
definition st_reconciling :: "State option" where
  "st_reconciling = chainState nameChainReconcile [] [eventReconciled, eventReconcileRefused, eventStageFailed]"

definition chainStages :: "(string \<times> State option \<times> State option list) list" where
  "chainStages =
     [(stepNew, chainState nameChainOpenWorkspace [] [eventWorkspaceOpened, eventStageFailed], []),
      (stepPlace, chainState nameChainBuildNodeTable [] [eventNodeTableBuilt, eventStageFailed], []),
      (stepKeys, chainState nameChainEnsureKeys [eventKeySourceChosen] [eventKeySourceChosen, eventStageFailed],
        [chainState nameChainEnsureKeysFromPreset [] [eventKeysEnsured, eventStageFailed],
         chainState nameChainEnsureKeysGenerate [] [eventKeysEnsured, eventStageFailed],
         chainState nameChainEnsureKeysFromBlueprint [] [eventKeysEnsured, eventStageFailed]]),
      (stepGenesis, chainState nameChainBuildGenesis [eventGenesisWayChosen] [eventGenesisWayChosen, eventStageFailed],
        [chainState nameChainBuildGenesisFromTemplate [] [eventGenesisBuilt, eventStageFailed],
         chainState nameChainBuildGenesisFromExisting [] [eventGenesisBuilt, eventStageFailed]]),
      (stepConfig, chainState nameChainBuildNodeConfig [] [eventNodeConfigBuilt, eventStageFailed], []),
      (stepBuild, chainState nameChainBuildNodeCommand [] [eventNodeCommandBuilt, eventStageFailed], []),
      (stepDeploy, chainState nameChainDeployNodes [eventInputsPresent] [eventInputsPresent, eventStageFailed],
        [chainState nameChainDeployNodesVerifiedLocal [] [eventInputsDeployed],
         chainState nameChainDeployNodesShippedRemote [] [eventInputsDeployed]]),
      (stepInit, chainState nameChainInitNodes [] [eventDatadirsInitialized, eventStageFailed], []),
      (stepStart, chainState nameChainLaunchNodes [eventLaunchPlanned, eventPhaseLaunched, eventPhaseActionsDone]
          [eventLaunchPlanned, eventStageFailed],
        [chainState nameChainLaunchNodesPhase [] [eventPhaseLaunched, eventStageFailed],
         chainState nameChainLaunchNodesPhaseActions [] [eventPhaseActionsDone, eventStageFailed],
         chainState nameChainLaunchNodesRecordRun [] [eventNodesLaunched, eventStageFailed]])]"

definition operations :: "(State option \<times> State option list) list" where
  "operations =
     [(chainState nameChainOpStop [] [eventOperationDone, eventStageFailed], []),
      (chainState nameChainOpRestartNode [] [eventOperationDone, eventStageFailed], []),
      (chainState nameChainOpSwapNode [] [eventOperationDone, eventStageFailed], []),
      (chainState nameChainOpHardfork [] [eventOperationDone, eventStageFailed], []),
      (chainState nameChainOpCrossFork [eventForkStandingRead, eventForkBoundaryReached, eventProductionHandedOver]
          [eventForkStandingRead, eventStageFailed],
        [chainState nameChainOpCrossForkAwaitBoundary [] [eventForkBoundaryReached, eventStageFailed],
         chainState nameChainOpCrossForkHandOver [] [eventProductionHandedOver, eventStageFailed],
         chainState nameChainOpCrossForkConfirm [] [eventOperationDone, eventStageFailed]]),
      (chainState nameChainOpRemove [] [eventOperationDone, eventStageFailed], [])]"

definition st_composed :: "State option" where "st_composed = chainState nameChainBuildUpStoppedAtStep [] []"
definition st_ready :: "State option" where "st_ready = chainState nameChainReady [] []"
definition st_op :: "State option" where "st_op = chainState nameChainOp [eventOperationDone] []"
definition st_opStopped :: "State option" where "st_opStopped = chainState nameChainStopped [] []"
definition st_opRemoved :: "State option" where "st_opRemoved = chainState nameChainRemoved [] []"
definition st_chainFailed :: "State option" where "st_chainFailed = chainState nameChainFailed [CmdClearError] []"

text \<open>The \<open>Add\<close> calls in the order of the source: a list of states with their parents.\<close>

definition addAll :: "('w, 'm) machine \<Rightarrow> (State option \<times> State option) list \<Rightarrow> ('w, 'm) machine" where
  "addAll m rows = foldl (\<lambda>m (st, p). Add m st p) m rows"

definition chainRows :: "(State option \<times> State option) list" where
  "chainRows =
     [(st_root, None), (st_idle, st_root), (st_compare, st_root)]
     @ map (\<lambda>leaf. (leaf, st_compare)) compareLeaves
     @ [(st_composing_up, st_root)]
     @ concat (map (\<lambda>(step, st, leaves).
         (st, st_composing_up) # map (\<lambda>leaf. (leaf, st)) leaves
         @ (if step = stepKeys then [(st_reconciling, st_composing_up)] else [])) chainStages)
     @ [(st_composed, st_root), (st_ready, st_root), (st_op, st_root)]
     @ concat (map (\<lambda>(st, leaves). (st, st_op) # map (\<lambda>leaf. (leaf, st)) leaves) operations)
     @ [(st_opStopped, st_root), (st_opRemoved, st_root), (st_chainFailed, st_root)]"

text \<open>A message no state handles ends the composition the way a failed stage does.\<close>

definition errUnhandled :: string where
  "errUnhandled = ''statemachine: no state handles the message''"

definition chainUnhandled ::
  "'v chainMsg \<Rightarrow> StateName \<Rightarrow> ('v, 'x) manager \<Rightarrow> 'v chainMsg \<times> ('v, 'x) manager"
where
  "chainUnhandled x at r =
     (stageFailed ''machine''
        (Errorf (''chainsetup: '' @ errUnhandled @ '': '' @ WhatName (chainWhat x) @ '' in '' @ at)
           [Sentinel errUnhandled]), r)"

definition newManager :: "(('v, 'x) manager, 'v chainMsg) machine" where
  "newManager = OnUnhandled (addAll (RequireContracts New) chainRows) chainUnhandled"

section \<open>The entry points of the manager\<close>

datatype chainError = Refused goErr | MachineError "goErr smError" | Failure goErr | ReportedNothing string

text \<open>\<open>ends\<close>: the failure of the composition, or that the machine rests where it may.\<close>

definition chain_ends ::
  "(('v, 'x) manager, 'v chainMsg) machine \<Rightarrow> ('v, 'x) manager \<Rightarrow> StateName list \<Rightarrow> chainError option"
where
  "chain_ends m r names =
     (case mg_failure r of
        Some e \<Rightarrow> Some (Failure e)
      | None \<Rightarrow> map_option MachineError (RequireAt m (map Some names)))"

text \<open>\<open>Start\<close> at idle, one message, and where the machine may rest.\<close>

definition runFrom ::
  "('v, 'x) deps \<Rightarrow> (('v, 'x) manager, 'v chainMsg) machine \<Rightarrow> ('v, 'x) manager \<Rightarrow> 'v chainMsg \<Rightarrow> StateName list
     \<Rightarrow> (('v, 'x) manager, 'v chainMsg) machine \<times> ('v, 'x) manager \<times> chainError option"
where
  "runFrom D m r x names =
     (case Start (chainClient D) m r (Some nameChainIdle) of
        (m1, r1, Some e) \<Rightarrow> (m1, r1, Some (MachineError e))
      | (m1, r1, None) \<Rightarrow>
          (case Send (chainClient D) m1 r1 (Some x) of
             (m2, r2, Some e) \<Rightarrow> (m2, r2, Some (MachineError e))
           | (m2, r2, None) \<Rightarrow> (m2, r2, chain_ends m2 r2 names)))"

definition Manager_Compose ::
  "('v, 'x) deps \<Rightarrow> (('v, 'x) manager, 'v chainMsg) machine \<Rightarrow> ('v, 'x) manager \<Rightarrow> 'v upRequest \<Rightarrow> string
     \<Rightarrow> (('v, 'x) manager, 'v chainMsg) machine \<times> ('v, 'x) manager \<times> chainError option"
where
  "Manager_Compose D m r req from =
     (case stageFor from of
        Inl err \<Rightarrow> (m, r, Some (Refused err))
      | Inr _ \<Rightarrow>
          runFrom D m (r\<lparr>stopAfter := stopAfterFor (rq_Stage req)\<rparr>) (Compose req from)
            [nameChainReady, nameChainBuildUpStoppedAtStep, nameChainFailed])"

text \<open>The line a step reported, after its name.\<close>

fun cutDetail :: "string \<Rightarrow> string" where
  "cutDetail [] = []"
| "cutDetail (c # cs) = (if take 2 (c # cs) = '': '' then drop 2 (c # cs) else cutDetail cs)"

definition Manager_Step ::
  "('v, 'x) deps \<Rightarrow> (('v, 'x) manager, 'v chainMsg) machine \<Rightarrow> ('v, 'x) manager \<Rightarrow> string \<Rightarrow> 'v upRequest
     \<Rightarrow> (('v, 'x) manager, 'v chainMsg) machine \<times> ('v, 'x) manager \<times> (chainError + string)"
where
  "Manager_Step D m r step req =
     (case stageFor step of
        Inl err \<Rightarrow> (m, r, Inl (Refused err))
      | Inr _ \<Rightarrow>
          (case runFrom D m (r\<lparr>only := step\<rparr>) (RunStep step req)
                  [nameChainBuildUpStoppedAtStep, nameChainFailed] of
             (m1, r1, Some e) \<Rightarrow> (m1, r1, Inl e)
           | (m1, r1, None) \<Rightarrow>
               if length (mg_steps r1) = 0 then (m1, r1, Inl (ReportedNothing step))
               else (m1, r1, Inr (cutDetail (last (mg_steps r1))))))"

definition ReuseFrom :: "('v, 'x) manager \<Rightarrow> ('v, 'x) manager" where
  "ReuseFrom r = r\<lparr>reusing := True\<rparr>"

definition Manager_ComposeComparing ::
  "('v, 'x) deps \<Rightarrow> (('v, 'x) manager, 'v chainMsg) machine \<Rightarrow> ('v, 'x) manager \<Rightarrow> 'v upRequest
     \<Rightarrow> (('v, 'x) manager, 'v chainMsg) machine \<times> ('v, 'x) manager \<times> chainError option"
where
  "Manager_ComposeComparing D m r req =
     runFrom D m (r\<lparr>request := req, stopAfter := stopAfterFor (rq_Stage req)\<rparr>) (ComposeComparing req)
       [nameChainReady, nameChainBuildUpStoppedAtStep, nameChainFailed]"

definition Manager_Operate ::
  "('v, 'x) deps \<Rightarrow> (('v, 'x) manager, 'v chainMsg) machine \<Rightarrow> ('v, 'x) manager \<Rightarrow> StateName
     \<Rightarrow> (('v, 'x) manager, 'v chainMsg) machine \<times> ('v, 'x) manager \<times> (chainError + string)"
where
  "Manager_Operate D m r opn =
     (case runFrom D m (r\<lparr>operating := opn\<rparr>) (OperateMsg opn)
             [nameChainReady, nameChainStopped, nameChainRemoved, nameChainFailed] of
        (m1, r1, Some e) \<Rightarrow> (m1, r1, Inl e)
      | (m1, r1, None) \<Rightarrow>
          if length (mg_steps r1) = 0 then (m1, r1, Inr '''')
          else (m1, r1, Inr (cutDetail (last (mg_steps r1)))))"

text \<open>The operations by name: the arguments go on the state that runs the operation.\<close>

definition Manager_Stop ::
  "('v, 'x) deps \<Rightarrow> (('v, 'x) manager, 'v chainMsg) machine \<Rightarrow> ('v, 'x) manager
     \<Rightarrow> (('v, 'x) manager, 'v chainMsg) machine \<times> ('v, 'x) manager \<times> (chainError + string)"
where
  "Manager_Stop D m r = Manager_Operate D m r nameChainOpStop"

definition Manager_Remove ::
  "('v, 'x) deps \<Rightarrow> (('v, 'x) manager, 'v chainMsg) machine \<Rightarrow> ('v, 'x) manager
     \<Rightarrow> (('v, 'x) manager, 'v chainMsg) machine \<times> ('v, 'x) manager \<times> (chainError + string)"
where
  "Manager_Remove D m r = Manager_Operate D m r nameChainOpRemove"

definition Manager_RestartNode ::
  "('v, 'x) deps \<Rightarrow> (('v, 'x) manager, 'v chainMsg) machine \<Rightarrow> ('v, 'x) manager \<Rightarrow> int
     \<Rightarrow> (('v, 'x) manager, 'v chainMsg) machine \<times> ('v, 'x) manager \<times> (chainError + string)"
where
  "Manager_RestartNode D m r index = Manager_Operate D m (r\<lparr>restartIndex := index\<rparr>) nameChainOpRestartNode"

definition Manager_Swap ::
  "('v, 'x) deps \<Rightarrow> (('v, 'x) manager, 'v chainMsg) machine \<Rightarrow> ('v, 'x) manager \<Rightarrow> 'v
     \<Rightarrow> (('v, 'x) manager, 'v chainMsg) machine \<times> ('v, 'x) manager \<times> (chainError + string)"
where
  "Manager_Swap D m r opts = Manager_Operate D m (r\<lparr>swapOpts := Some opts\<rparr>) nameChainOpSwapNode"

definition Manager_Hardfork ::
  "('v, 'x) deps \<Rightarrow> (('v, 'x) manager, 'v chainMsg) machine \<Rightarrow> ('v, 'x) manager \<Rightarrow> 'v
     \<Rightarrow> (('v, 'x) manager, 'v chainMsg) machine \<times> ('v, 'x) manager \<times> (chainError + 'v list)"
where
  "Manager_Hardfork D m r args =
     (case Manager_Operate D m (r\<lparr>hardforkArgs := Some args\<rparr>) nameChainOpHardfork of
        (m1, r1, Inl err) \<Rightarrow> (m1, r1, Inl err)
      | (m1, r1, Inr _) \<Rightarrow> (m1, r1, Inr (hardforkNodes r1)))"

text \<open>A crossing returns what it reported beside the error.\<close>

definition Manager_CrossFork ::
  "('v, 'x) deps \<Rightarrow> (('v, 'x) manager, 'v chainMsg) machine \<Rightarrow> ('v, 'x) manager \<Rightarrow> 'v
     \<Rightarrow> (('v, 'x) manager, 'v chainMsg) machine \<times> ('v, 'x) manager \<times> string \<times> chainError option"
where
  "Manager_CrossFork D m r opts =
     (case Manager_Operate D m (r\<lparr>crossOpts := Some opts\<rparr>) nameChainOpCrossFork of
        (m1, r1, Inl err) \<Rightarrow> (m1, r1, cf_out r1, Some err)
      | (m1, r1, Inr _) \<Rightarrow> (m1, r1, cf_out r1, None))"

end
