(* ===== verification/Chain_Tree.thy ===== *)
theory Chain_Tree
  imports Chain_States
begin

text \<open>
  The tree of the composition machine: its states are those of the list, every one declares a contract,
  \<open>Audit\<close> finds nothing, and the machine is a \<open>walker\<close>, so that a \<open>Send\<close> can be read message by message.
\<close>

section \<open>Names\<close>

definition chainNames :: "StateName list" where
  "chainNames =
     [nameChain, nameChainIdle, nameChainCompare, nameChainCompareSame, nameChainCompareNodesDiffer,
      nameChainCompareNetworkDiffers, nameChainCompareNothingComposed, nameChainCompareNetworkStopped,
      nameChainBuildUp, nameChainOpenWorkspace, nameChainBuildNodeTable, nameChainEnsureKeys,
      nameChainEnsureKeysFromPreset, nameChainEnsureKeysGenerate, nameChainEnsureKeysFromBlueprint,
      nameChainReconcile, nameChainBuildGenesis, nameChainBuildGenesisFromTemplate,
      nameChainBuildGenesisFromExisting, nameChainBuildNodeConfig, nameChainBuildNodeCommand,
      nameChainDeployNodes, nameChainDeployNodesVerifiedLocal, nameChainDeployNodesShippedRemote,
      nameChainInitNodes, nameChainLaunchNodes, nameChainLaunchNodesPhase, nameChainLaunchNodesPhaseActions,
      nameChainLaunchNodesRecordRun, nameChainBuildUpStoppedAtStep, nameChainReady, nameChainOp,
      nameChainOpStop, nameChainOpRestartNode, nameChainOpSwapNode, nameChainOpHardfork, nameChainOpCrossFork,
      nameChainOpCrossForkAwaitBoundary, nameChainOpCrossForkHandOver, nameChainOpCrossForkConfirm,
      nameChainOpRemove, nameChainStopped, nameChainRemoved, nameChainFailed]"

lemma chainNames_distinct: "distinct chainNames" "'''' \<notin> set chainNames" "list_all (\<lambda>n. n \<noteq> '''') chainNames"
  by (simp_all add: chainNames_def chain_names leaf_names)

lemma chainNames_distinct_rev:
  "distinct [nameChainFailed, nameChainRemoved, nameChainStopped, nameChainOpRemove, nameChainOpCrossForkConfirm,
     nameChainOpCrossForkHandOver, nameChainOpCrossForkAwaitBoundary, nameChainOpCrossFork,
     nameChainOpHardfork, nameChainOpSwapNode, nameChainOpRestartNode, nameChainOpStop, nameChainOp,
     nameChainReady, nameChainBuildUpStoppedAtStep, nameChainLaunchNodesRecordRun,
     nameChainLaunchNodesPhaseActions, nameChainLaunchNodesPhase, nameChainLaunchNodes, nameChainInitNodes,
     nameChainDeployNodesShippedRemote, nameChainDeployNodesVerifiedLocal, nameChainDeployNodes,
     nameChainBuildNodeCommand, nameChainBuildNodeConfig, nameChainBuildGenesisFromExisting,
     nameChainBuildGenesisFromTemplate, nameChainBuildGenesis, nameChainReconcile,
     nameChainEnsureKeysFromBlueprint, nameChainEnsureKeysGenerate, nameChainEnsureKeysFromPreset,
     nameChainEnsureKeys, nameChainBuildNodeTable, nameChainOpenWorkspace, nameChainBuildUp,
     nameChainCompareNetworkStopped, nameChainCompareNothingComposed, nameChainCompareNetworkDiffers,
     nameChainCompareNodesDiffer, nameChainCompareSame, nameChainCompare, nameChainIdle, nameChain]"
  using chainNames_distinct(1) distinct_rev [of chainNames] by (simp only: chainNames_def rev.simps append.simps)

lemmas chain_names_neq [simp] = chainNames_distinct [unfolded chainNames_def, simplified]
  chainNames_distinct_rev [simplified]

section \<open>Building a tree\<close>

text \<open>Rows that build without a setup error: names are new and not empty, a parent was added before.\<close>

fun goodRows :: "StateName list \<Rightarrow> (State option \<times> State option) list \<Rightarrow> bool" where
  "goodRows seen [] = True"
| "goodRows seen ((None, p) # rows) = False"
| "goodRows seen ((Some st, p) # rows) =
     (st_name st \<noteq> '''' \<and> st_name st \<notin> set seen
      \<and> (case p of None \<Rightarrow> True | Some q \<Rightarrow> st_name q \<in> set seen) \<and> goodRows (st_name st # seen) rows)"

definition rowInfo :: "State option \<times> State option \<Rightarrow> StateName \<times> stateInfo" where
  "rowInfo row = (st_name (the (fst row)),
     \<lparr>si_state = the (fst row), si_parent = (case snd row of None \<Rightarrow> '''' | Some q \<Rightarrow> st_name q), si_active = False\<rparr>)"

lemma addAll_good:
  assumes "m_current m = ''''" "dom (m_info m) = set seen" "goodRows seen rows"
  shows "addAll m rows = m\<lparr>m_info := m_info m ++ map_of (map rowInfo rows),
     m_order := m_order m @ map (fst \<circ> rowInfo) rows\<rparr>
     \<and> dom (map_of (map rowInfo rows)) \<inter> set seen = {}"
  using assms
proof (induction seen rows arbitrary: m rule: goodRows.induct)
  case (3 seen st p rows)
  let ?i = "snd (rowInfo (Some st, p))"
  let ?m = "m\<lparr>m_info := (m_info m)(st_name st \<mapsto> ?i), m_order := m_order m @ [st_name st]\<rparr>"
  have fresh: "m_info m (st_name st) = None" using 3 by (auto simp: domIff)
  have par: "m_info m (st_name q) \<noteq> None" if "p = Some q" for q using 3 that by (auto simp: domIff)
  have add: "Add m (Some st) p = ?m"
    using 3(2-) fresh par by (auto simp: Add_def rowInfo_def Let_def split: option.splits)
  have d: "dom (m_info ?m) = set (st_name st # seen)" using 3(3) by (simp del: fun_upd_apply)
  have IH: "addAll ?m rows = ?m\<lparr>m_info := m_info ?m ++ map_of (map rowInfo rows),
     m_order := m_order ?m @ map (fst \<circ> rowInfo) rows\<rparr>"
    and disj: "dom (map_of (map rowInfo rows)) \<inter> set (st_name st # seen) = {}"
    using 3(1) [OF _ d] 3(2,4) by (simp_all del: fun_upd_apply)
  have "m_info m ++ map_of (map rowInfo ((Some st, p) # rows)) = m_info ?m ++ map_of (map rowInfo rows)"
    using map_add_upd_left [of "st_name st" "map_of (map rowInfo rows)" "m_info m" ?i] disj
    by (simp add: rowInfo_def del: fun_upd_apply)
  moreover have "addAll m ((Some st, p) # rows) = addAll ?m rows" using add by (simp add: addAll_def)
  moreover have "dom (map_of (map rowInfo ((Some st, p) # rows))) \<inter> set seen = {}"
    using disj 3(4) by (simp add: rowInfo_def del: fun_upd_apply)
  moreover have "fst (rowInfo (Some st, p)) = st_name st" by (simp add: rowInfo_def)
  ultimately show ?case using IH by (simp del: fun_upd_apply)
qed (simp_all add: addAll_def)

lemma chainRows_good: "goodRows [] chainRows"
  by (simp add: chainRows_def chainStages_def operations_def compareLeaves_def chainState_def st_root_def st_idle_def
      st_compare_def st_composing_up_def st_reconciling_def st_composed_def st_ready_def st_op_def
      st_opStopped_def st_opRemoved_def st_chainFailed_def step_names)

text \<open>The tree at one type: the shape of a machine does not depend on what it drives.\<close>

definition chainInfo :: "(StateName \<times> stateInfo) list" where
  "chainInfo = map rowInfo chainRows"

definition chainTree :: "(unit, unit) machine" where
  "chainTree = addAll (RequireContracts New) chainRows"

lemma newManager_built:
  "addAll (RequireContracts New) chainRows
     = (RequireContracts New)\<lparr>m_info := map_of chainInfo, m_order := map fst chainInfo\<rparr>"
  using addAll_good [of "RequireContracts New" "[]" chainRows] chainRows_good
  by (simp add: RequireContracts_def New_def chainInfo_def)

lemma shape_newManager: "shape newManager = shape chainTree"
  by (simp add: newManager_def chainTree_def shape_setup newManager_built) (simp add: shape_def)

lemma chain_fields: "m_setupErr newManager = None" "m_current newManager = ''''"
  "m_self newManager = []" "m_inbox newManager = []" "m_opErr newManager = None" "\<not> m_haveDest newManager"
  "\<not> m_inFailure newManager" "m_contracts newManager" "\<not> m_sending newManager"
  unfolding newManager_def newManager_built by (simp_all add: OnUnhandled_def RequireContracts_def New_def)

lemma settled_addAll: "settled m \<Longrightarrow> settled (addAll m rows)"
  by (induction rows arbitrary: m) (auto simp: addAll_def intro: settled_Add)

lemma chain_settled: "settled newManager"
  unfolding newManager_def by (intro settled_setup settled_addAll settled_New)

section \<open>The states and their ancestors\<close>

lemmas chain_rows = chainInfo_def chainRows_def rowInfo_def chainStages_def operations_def compareLeaves_def
  chainState_def st_root_def st_idle_def st_compare_def st_composing_up_def st_reconciling_def
  st_composed_def st_ready_def st_op_def st_opStopped_def st_opRemoved_def st_chainFailed_def

lemma chain_steps_neq: "stepNew \<noteq> stepKeys" "stepPlace \<noteq> stepKeys" "stepGenesis \<noteq> stepKeys"
  "stepConfig \<noteq> stepKeys" "stepBuild \<noteq> stepKeys" "stepDeploy \<noteq> stepKeys" "stepInit \<noteq> stepKeys"
  "stepStart \<noteq> stepKeys"
  by (simp_all add: step_names)

lemma chainInfo_names: "map fst chainInfo = chainNames"
  by (simp add: chain_rows chain_steps_neq chainNames_def)

lemma chainTree_info: "m_info chainTree = map_of chainInfo" "m_order chainTree = chainNames"
  "m_contracts chainTree"
  using newManager_built [where 'a = unit and 'b = unit]
  by (simp_all add: chainTree_def chainInfo_names RequireContracts_def)

lemma chainTree_dom: "dom (m_info chainTree) = set chainNames"
  by (simp add: chainTree_info dom_map_of_conv_image_fst chainInfo_names [symmetric])

lemma chain_ancestors:
  "ancestors chainTree nameChain = [nameChain]"
  "ancestors chainTree nameChainIdle = [nameChainIdle, nameChain]"
  "ancestors chainTree nameChainCompare = [nameChainCompare, nameChain]"
  "ancestors chainTree nameChainCompareSame = [nameChainCompareSame, nameChainCompare, nameChain]"
  "ancestors chainTree nameChainCompareNodesDiffer = [nameChainCompareNodesDiffer, nameChainCompare, nameChain]"
  "ancestors chainTree nameChainCompareNetworkDiffers = [nameChainCompareNetworkDiffers, nameChainCompare, nameChain]"
  "ancestors chainTree nameChainCompareNothingComposed = [nameChainCompareNothingComposed, nameChainCompare, nameChain]"
  "ancestors chainTree nameChainCompareNetworkStopped = [nameChainCompareNetworkStopped, nameChainCompare, nameChain]"
  "ancestors chainTree nameChainBuildUp = [nameChainBuildUp, nameChain]"
  "ancestors chainTree nameChainOpenWorkspace = [nameChainOpenWorkspace, nameChainBuildUp, nameChain]"
  "ancestors chainTree nameChainBuildNodeTable = [nameChainBuildNodeTable, nameChainBuildUp, nameChain]"
  "ancestors chainTree nameChainEnsureKeys = [nameChainEnsureKeys, nameChainBuildUp, nameChain]"
  "ancestors chainTree nameChainEnsureKeysFromPreset = [nameChainEnsureKeysFromPreset, nameChainEnsureKeys, nameChainBuildUp, nameChain]"
  "ancestors chainTree nameChainEnsureKeysGenerate = [nameChainEnsureKeysGenerate, nameChainEnsureKeys, nameChainBuildUp, nameChain]"
  "ancestors chainTree nameChainEnsureKeysFromBlueprint = [nameChainEnsureKeysFromBlueprint, nameChainEnsureKeys, nameChainBuildUp, nameChain]"
  "ancestors chainTree nameChainReconcile = [nameChainReconcile, nameChainBuildUp, nameChain]"
  "ancestors chainTree nameChainBuildGenesis = [nameChainBuildGenesis, nameChainBuildUp, nameChain]"
  "ancestors chainTree nameChainBuildGenesisFromTemplate = [nameChainBuildGenesisFromTemplate, nameChainBuildGenesis, nameChainBuildUp, nameChain]"
  "ancestors chainTree nameChainBuildGenesisFromExisting = [nameChainBuildGenesisFromExisting, nameChainBuildGenesis, nameChainBuildUp, nameChain]"
  "ancestors chainTree nameChainBuildNodeConfig = [nameChainBuildNodeConfig, nameChainBuildUp, nameChain]"
  "ancestors chainTree nameChainBuildNodeCommand = [nameChainBuildNodeCommand, nameChainBuildUp, nameChain]"
  "ancestors chainTree nameChainDeployNodes = [nameChainDeployNodes, nameChainBuildUp, nameChain]"
  "ancestors chainTree nameChainDeployNodesVerifiedLocal = [nameChainDeployNodesVerifiedLocal, nameChainDeployNodes, nameChainBuildUp, nameChain]"
  "ancestors chainTree nameChainDeployNodesShippedRemote = [nameChainDeployNodesShippedRemote, nameChainDeployNodes, nameChainBuildUp, nameChain]"
  "ancestors chainTree nameChainInitNodes = [nameChainInitNodes, nameChainBuildUp, nameChain]"
  "ancestors chainTree nameChainLaunchNodes = [nameChainLaunchNodes, nameChainBuildUp, nameChain]"
  "ancestors chainTree nameChainLaunchNodesPhase = [nameChainLaunchNodesPhase, nameChainLaunchNodes, nameChainBuildUp, nameChain]"
  "ancestors chainTree nameChainLaunchNodesPhaseActions = [nameChainLaunchNodesPhaseActions, nameChainLaunchNodes, nameChainBuildUp, nameChain]"
  "ancestors chainTree nameChainLaunchNodesRecordRun = [nameChainLaunchNodesRecordRun, nameChainLaunchNodes, nameChainBuildUp, nameChain]"
  "ancestors chainTree nameChainBuildUpStoppedAtStep = [nameChainBuildUpStoppedAtStep, nameChain]"
  "ancestors chainTree nameChainReady = [nameChainReady, nameChain]"
  "ancestors chainTree nameChainOp = [nameChainOp, nameChain]"
  "ancestors chainTree nameChainOpStop = [nameChainOpStop, nameChainOp, nameChain]"
  "ancestors chainTree nameChainOpRestartNode = [nameChainOpRestartNode, nameChainOp, nameChain]"
  "ancestors chainTree nameChainOpSwapNode = [nameChainOpSwapNode, nameChainOp, nameChain]"
  "ancestors chainTree nameChainOpHardfork = [nameChainOpHardfork, nameChainOp, nameChain]"
  "ancestors chainTree nameChainOpCrossFork = [nameChainOpCrossFork, nameChainOp, nameChain]"
  "ancestors chainTree nameChainOpCrossForkAwaitBoundary = [nameChainOpCrossForkAwaitBoundary, nameChainOpCrossFork, nameChainOp, nameChain]"
  "ancestors chainTree nameChainOpCrossForkHandOver = [nameChainOpCrossForkHandOver, nameChainOpCrossFork, nameChainOp, nameChain]"
  "ancestors chainTree nameChainOpCrossForkConfirm = [nameChainOpCrossForkConfirm, nameChainOpCrossFork, nameChainOp, nameChain]"
  "ancestors chainTree nameChainOpRemove = [nameChainOpRemove, nameChainOp, nameChain]"
  "ancestors chainTree nameChainStopped = [nameChainStopped, nameChain]"
  "ancestors chainTree nameChainRemoved = [nameChainRemoved, nameChain]"
  "ancestors chainTree nameChainFailed = [nameChainFailed, nameChain]"
  by (simp_all add: ancestors_def chainTree_info chain_rows chain_steps_neq chainNames_def eval_nat_numeral)


lemma chain_contracts:
  "contractOf chainTree nameChain = Some \<lparr>Accepts = [eventStageFailed], Emits = [], Ignores = [], Refuses = False\<rparr>"
  "contractOf chainTree nameChainIdle = Some \<lparr>Accepts = [CmdCompose, CmdCompare, CmdOperate, CmdStep], Emits = [], Ignores = [], Refuses = False\<rparr>"
  "contractOf chainTree nameChainCompare = Some \<lparr>Accepts = [eventComparisonMade, eventNetworkKept, eventNothingComposed, eventNodesRestarted, eventStoppedToRebuild, eventNetworkStopped], Emits = [eventComparisonMade], Ignores = [], Refuses = False\<rparr>"
  "contractOf chainTree nameChainCompareSame = Some \<lparr>Accepts = [], Emits = [eventNetworkKept], Ignores = [], Refuses = False\<rparr>"
  "contractOf chainTree nameChainCompareNodesDiffer = Some \<lparr>Accepts = [], Emits = [eventNodesRestarted, eventStageFailed], Ignores = [], Refuses = False\<rparr>"
  "contractOf chainTree nameChainCompareNetworkDiffers = Some \<lparr>Accepts = [], Emits = [eventStoppedToRebuild, eventStageFailed], Ignores = [], Refuses = False\<rparr>"
  "contractOf chainTree nameChainCompareNothingComposed = Some \<lparr>Accepts = [], Emits = [eventNothingComposed], Ignores = [], Refuses = False\<rparr>"
  "contractOf chainTree nameChainCompareNetworkStopped = Some \<lparr>Accepts = [], Emits = [eventNetworkStopped], Ignores = [], Refuses = False\<rparr>"
  "contractOf chainTree nameChainBuildUp = Some \<lparr>Accepts = [eventWorkspaceOpened, eventNodeTableBuilt, eventKeysEnsured, eventGenesisBuilt, eventNodeConfigBuilt, eventNodeCommandBuilt, eventInputsDeployed, eventDatadirsInitialized, eventNodesLaunched, eventReconciled, eventReconcileRefused], Emits = [], Ignores = [], Refuses = False\<rparr>"
  "contractOf chainTree nameChainReconcile = Some \<lparr>Accepts = [], Emits = [eventReconciled, eventReconcileRefused, eventStageFailed], Ignores = [], Refuses = False\<rparr>"
  "contractOf chainTree nameChainOpenWorkspace = Some \<lparr>Accepts = [], Emits = [eventWorkspaceOpened, eventStageFailed], Ignores = [], Refuses = False\<rparr>"
  "contractOf chainTree nameChainBuildNodeTable = Some \<lparr>Accepts = [], Emits = [eventNodeTableBuilt, eventStageFailed], Ignores = [], Refuses = False\<rparr>"
  "contractOf chainTree nameChainEnsureKeys = Some \<lparr>Accepts = [eventKeySourceChosen], Emits = [eventKeySourceChosen, eventStageFailed], Ignores = [], Refuses = False\<rparr>"
  "contractOf chainTree nameChainEnsureKeysFromPreset = Some \<lparr>Accepts = [], Emits = [eventKeysEnsured, eventStageFailed], Ignores = [], Refuses = False\<rparr>"
  "contractOf chainTree nameChainEnsureKeysGenerate = Some \<lparr>Accepts = [], Emits = [eventKeysEnsured, eventStageFailed], Ignores = [], Refuses = False\<rparr>"
  "contractOf chainTree nameChainEnsureKeysFromBlueprint = Some \<lparr>Accepts = [], Emits = [eventKeysEnsured, eventStageFailed], Ignores = [], Refuses = False\<rparr>"
  "contractOf chainTree nameChainBuildGenesis = Some \<lparr>Accepts = [eventGenesisWayChosen], Emits = [eventGenesisWayChosen, eventStageFailed], Ignores = [], Refuses = False\<rparr>"
  "contractOf chainTree nameChainBuildGenesisFromTemplate = Some \<lparr>Accepts = [], Emits = [eventGenesisBuilt, eventStageFailed], Ignores = [], Refuses = False\<rparr>"
  "contractOf chainTree nameChainBuildGenesisFromExisting = Some \<lparr>Accepts = [], Emits = [eventGenesisBuilt, eventStageFailed], Ignores = [], Refuses = False\<rparr>"
  "contractOf chainTree nameChainBuildNodeConfig = Some \<lparr>Accepts = [], Emits = [eventNodeConfigBuilt, eventStageFailed], Ignores = [], Refuses = False\<rparr>"
  "contractOf chainTree nameChainBuildNodeCommand = Some \<lparr>Accepts = [], Emits = [eventNodeCommandBuilt, eventStageFailed], Ignores = [], Refuses = False\<rparr>"
  "contractOf chainTree nameChainDeployNodes = Some \<lparr>Accepts = [eventInputsPresent], Emits = [eventInputsPresent, eventStageFailed], Ignores = [], Refuses = False\<rparr>"
  "contractOf chainTree nameChainDeployNodesVerifiedLocal = Some \<lparr>Accepts = [], Emits = [eventInputsDeployed], Ignores = [], Refuses = False\<rparr>"
  "contractOf chainTree nameChainDeployNodesShippedRemote = Some \<lparr>Accepts = [], Emits = [eventInputsDeployed], Ignores = [], Refuses = False\<rparr>"
  "contractOf chainTree nameChainInitNodes = Some \<lparr>Accepts = [], Emits = [eventDatadirsInitialized, eventStageFailed], Ignores = [], Refuses = False\<rparr>"
  "contractOf chainTree nameChainLaunchNodes = Some \<lparr>Accepts = [eventLaunchPlanned, eventPhaseLaunched, eventPhaseActionsDone], Emits = [eventLaunchPlanned, eventStageFailed], Ignores = [], Refuses = False\<rparr>"
  "contractOf chainTree nameChainLaunchNodesPhase = Some \<lparr>Accepts = [], Emits = [eventPhaseLaunched, eventStageFailed], Ignores = [], Refuses = False\<rparr>"
  "contractOf chainTree nameChainLaunchNodesPhaseActions = Some \<lparr>Accepts = [], Emits = [eventPhaseActionsDone, eventStageFailed], Ignores = [], Refuses = False\<rparr>"
  "contractOf chainTree nameChainLaunchNodesRecordRun = Some \<lparr>Accepts = [], Emits = [eventNodesLaunched, eventStageFailed], Ignores = [], Refuses = False\<rparr>"
  "contractOf chainTree nameChainOpStop = Some \<lparr>Accepts = [], Emits = [eventOperationDone, eventStageFailed], Ignores = [], Refuses = False\<rparr>"
  "contractOf chainTree nameChainOpRestartNode = Some \<lparr>Accepts = [], Emits = [eventOperationDone, eventStageFailed], Ignores = [], Refuses = False\<rparr>"
  "contractOf chainTree nameChainOpSwapNode = Some \<lparr>Accepts = [], Emits = [eventOperationDone, eventStageFailed], Ignores = [], Refuses = False\<rparr>"
  "contractOf chainTree nameChainOpHardfork = Some \<lparr>Accepts = [], Emits = [eventOperationDone, eventStageFailed], Ignores = [], Refuses = False\<rparr>"
  "contractOf chainTree nameChainOpCrossFork = Some \<lparr>Accepts = [eventForkStandingRead, eventForkBoundaryReached, eventProductionHandedOver], Emits = [eventForkStandingRead, eventStageFailed], Ignores = [], Refuses = False\<rparr>"
  "contractOf chainTree nameChainOpCrossForkAwaitBoundary = Some \<lparr>Accepts = [], Emits = [eventForkBoundaryReached, eventStageFailed], Ignores = [], Refuses = False\<rparr>"
  "contractOf chainTree nameChainOpCrossForkHandOver = Some \<lparr>Accepts = [], Emits = [eventProductionHandedOver, eventStageFailed], Ignores = [], Refuses = False\<rparr>"
  "contractOf chainTree nameChainOpCrossForkConfirm = Some \<lparr>Accepts = [], Emits = [eventOperationDone, eventStageFailed], Ignores = [], Refuses = False\<rparr>"
  "contractOf chainTree nameChainOpRemove = Some \<lparr>Accepts = [], Emits = [eventOperationDone, eventStageFailed], Ignores = [], Refuses = False\<rparr>"
  "contractOf chainTree nameChainBuildUpStoppedAtStep = Some \<lparr>Accepts = [], Emits = [], Ignores = [], Refuses = False\<rparr>"
  "contractOf chainTree nameChainReady = Some \<lparr>Accepts = [], Emits = [], Ignores = [], Refuses = False\<rparr>"
  "contractOf chainTree nameChainOp = Some \<lparr>Accepts = [eventOperationDone], Emits = [], Ignores = [], Refuses = False\<rparr>"
  "contractOf chainTree nameChainStopped = Some \<lparr>Accepts = [], Emits = [], Ignores = [], Refuses = False\<rparr>"
  "contractOf chainTree nameChainRemoved = Some \<lparr>Accepts = [], Emits = [], Ignores = [], Refuses = False\<rparr>"
  "contractOf chainTree nameChainFailed = Some \<lparr>Accepts = [CmdClearError], Emits = [], Ignores = [], Refuses = True\<rparr>"
  by (simp_all add: contractOf_def chainTree_info chain_rows chain_steps_neq)

lemma chain_unknown: "n \<notin> set chainNames \<Longrightarrow> contractOf chainTree n = None"
  using chainTree_dom by (auto simp: contractOf_def split: option.splits)

section \<open>The states keep to their contracts\<close>

lemma fail_stage_what [simp]: "chainWhat ` set (snd (fail_stage D s e r)) = {eventStageFailed}"
  by (simp add: fail_stage_def)

lemma failLaunch_what [simp]: "chainWhat ` set (snd (failLaunch D e r)) = {eventStageFailed}"
  by (auto simp: failLaunch_def split: prod.splits sum.splits)

lemma ended_what: "(\<And>d. chainWhat (report d) = e) \<Longrightarrow>
    chainWhat ` set (snd (ended D s report res)) \<subseteq> {e, eventStageFailed}"
  by (auto simp: ended_def split: prod.splits sum.splits)

lemma operated_what: "chainWhat ` set (snd (operated D p v fn r)) \<subseteq> {eventOperationDone, eventStageFailed}"
  by (auto simp: operated_def split: prod.splits sum.splits)

lemma restartNodesLoop_what:
  "chainWhat ` set (snd (restartNodesLoop D is r)) \<subseteq> {eventNodesRestarted, eventStageFailed}"
  by (induction D "is" r rule: restartNodesLoop.induct) (auto split: prod.splits sum.splits)

lemma enters_what:
  "chainWhat ` set (snd (enter_openingWorkspace D p r)) \<subseteq> {eventWorkspaceOpened, eventStageFailed}"
  "chainWhat ` set (snd (enter_buildingNodeTable D p r)) \<subseteq> {eventNodeTableBuilt, eventStageFailed}"
  "chainWhat ` set (snd (enter_keysLeaf D p r)) \<subseteq> {eventKeysEnsured, eventStageFailed}"
  "chainWhat ` set (snd (enter_genesisLeaf D p r)) \<subseteq> {eventGenesisBuilt, eventStageFailed}"
  "chainWhat ` set (snd (enter_buildingNodeConfig D p r)) \<subseteq> {eventNodeConfigBuilt, eventStageFailed}"
  "chainWhat ` set (snd (enter_buildingNodeCommand D p r)) \<subseteq> {eventNodeCommandBuilt, eventStageFailed}"
  "chainWhat ` set (snd (enter_initializingDatadirs D p r)) \<subseteq> {eventDatadirsInitialized, eventStageFailed}"
  "chainWhat ` set (snd (enter_stopping D p r)) \<subseteq> {eventOperationDone, eventStageFailed}"
  "chainWhat ` set (snd (enter_removing D p r)) \<subseteq> {eventOperationDone, eventStageFailed}"
  "chainWhat ` set (snd (enter_restarting D p r)) \<subseteq> {eventOperationDone, eventStageFailed}"
  "chainWhat ` set (snd (enter_swapping D p r)) \<subseteq> {eventOperationDone, eventStageFailed}"
  "chainWhat ` set (snd (enter_hardforking D p r)) \<subseteq> {eventOperationDone, eventStageFailed}"
  "chainWhat ` set (snd (enter_restartingNodes D p r)) \<subseteq> {eventNodesRestarted, eventStageFailed}"
  unfolding enter_openingWorkspace_def enter_buildingNodeTable_def enter_keysLeaf_def enter_genesisLeaf_def
    enter_buildingNodeConfig_def enter_buildingNodeCommand_def enter_initializingDatadirs_def
    enter_stopping_def enter_removing_def enter_restarting_def enter_swapping_def enter_hardforking_def
    enter_restartingNodes_def
  by (rule ended_what operated_what restartNodesLoop_what, simp?)+

lemma enters_choose_what:
  "chainWhat ` set (snd (enter_ensuringKeys D p r)) \<subseteq> {eventKeySourceChosen, eventStageFailed}"
  "chainWhat ` set (snd (enter_buildingGenesis D p r)) \<subseteq> {eventGenesisWayChosen, eventStageFailed}"
  "chainWhat ` set (snd (enter_deployingInputs D p r)) \<subseteq> {eventInputsPresent, eventStageFailed}"
  "chainWhat ` set (snd (enter_launching D p r)) \<subseteq> {eventLaunchPlanned, eventStageFailed}"
  "chainWhat ` set (snd (enter_launchingPhase D p r)) \<subseteq> {eventPhaseLaunched, eventStageFailed}"
  "chainWhat ` set (snd (enter_runningPhaseActions D p r)) \<subseteq> {eventPhaseActionsDone, eventStageFailed}"
  "chainWhat ` set (snd (enter_recordingRun D p r)) \<subseteq> {eventNodesLaunched, eventStageFailed}"
  "chainWhat ` set (snd (enter_reconciling D p r)) \<subseteq> {eventReconciled, eventReconcileRefused, eventStageFailed}"
  "chainWhat ` set (snd (enter_stoppingToRebuild D p r)) \<subseteq> {eventStoppedToRebuild, eventStageFailed}"
  "chainWhat ` set (snd (enter_crossingFork D p r)) \<subseteq> {eventForkStandingRead, eventStageFailed}"
  "chainWhat ` set (snd (enter_beforeFork D p r)) \<subseteq> {eventForkBoundaryReached, eventStageFailed}"
  "chainWhat ` set (snd (enter_handingOver D p r)) \<subseteq> {eventProductionHandedOver, eventStageFailed}"
  "chainWhat ` set (snd (enter_crossedFork D p r)) \<subseteq> {eventOperationDone, eventStageFailed}"
  unfolding enter_ensuringKeys_def enter_buildingGenesis_def enter_deployingInputs_def enter_launching_def
    enter_launchingPhase_def enter_runningPhaseActions_def enter_recordingRun_def enter_reconciling_def
    enter_stoppingToRebuild_def enter_crossingFork_def enter_beforeFork_def enter_handingOver_def
    enter_crossedFork_def Let_def
  by (simp_all split: prod.splits sum.splits)

lemma chain_ent_declared:
  "chainWhat ` set (snd (chain_enter D n p r)) \<subseteq> emitsOf chainTree n"
proof (cases "n \<in> set chainNames")
  case True
  then show ?thesis
    using enters_what [of D p r] enters_choose_what [of D p r]
    by (auto simp: chainNames_def chain_enter_def chainEnters_def emitsOf_def chain_contracts
        enter_comparing_def enter_compareOutcome_def enter_deployOutcome_def enter_resting_def Let_def)
qed (simp add: emitsOf_def chain_unknown)

text \<open>Only the states with a \<open>Process\<close> of their own answer, and they answer what their contract accepts.\<close>

lemma chain_process_at:
  "chain_process D nameChain = process_compositionState D"
  "chain_process D nameChainIdle = process_stoppedState D"
  "chain_process D nameChainCompare = process_comparing D"
  "chain_process D nameChainBuildUp = process_composingState D"
  "chain_process D nameChainEnsureKeys = process_ensuringKeys D"
  "chain_process D nameChainBuildGenesis = process_buildingGenesis D"
  "chain_process D nameChainDeployNodes = process_deployingInputs D"
  "chain_process D nameChainLaunchNodes = process_launching D"
  "chain_process D nameChainOp = process_opState D"
  "chain_process D nameChainOpCrossFork = process_crossingFork D"
  "chain_process D nameChainFailed = process_failedState D"
  by (simp_all add: chain_process_def chainProcesses_def fun_eq_iff)

definition answering :: "StateName set" where
  "answering = {nameChain, nameChainIdle, nameChainCompare, nameChainBuildUp, nameChainEnsureKeys,
     nameChainBuildGenesis, nameChainDeployNodes, nameChainLaunchNodes, nameChainOp, nameChainOpCrossFork,
     nameChainFailed}"

lemma chain_process_silent: "n \<notin> answering \<Longrightarrow> chain_process D n r x = NotMine"
  by (simp add: chain_process_def chainProcesses_def answering_def)

lemmas process_defs = process_compositionState_def process_stoppedState_def process_comparing_def
  process_composingState_def process_ensuringKeys_def process_buildingGenesis_def
  process_deployingInputs_def process_launching_def process_opState_def process_crossingFork_def
  nextMoment_def process_failedState_def failAs_def

lemma chain_react_declared:
  assumes "chain_process D n r x \<noteq> NotMine"
  shows "chainWhat x \<in> answersOf chainTree n"
proof -
  have "n \<in> answering" using assms chain_process_silent by blast
  moreover have "process_compositionState D r x \<noteq> NotMine \<Longrightarrow> chainWhat x \<in> answersOf chainTree nameChain"
    "process_stoppedState D r x \<noteq> NotMine \<Longrightarrow> chainWhat x \<in> answersOf chainTree nameChainIdle"
    "process_comparing D r x \<noteq> NotMine \<Longrightarrow> chainWhat x \<in> answersOf chainTree nameChainCompare"
    "process_composingState D r x \<noteq> NotMine \<Longrightarrow> chainWhat x \<in> answersOf chainTree nameChainBuildUp"
    "process_ensuringKeys D r x \<noteq> NotMine \<Longrightarrow> chainWhat x \<in> answersOf chainTree nameChainEnsureKeys"
    "process_buildingGenesis D r x \<noteq> NotMine \<Longrightarrow> chainWhat x \<in> answersOf chainTree nameChainBuildGenesis"
    "process_deployingInputs D r x \<noteq> NotMine \<Longrightarrow> chainWhat x \<in> answersOf chainTree nameChainDeployNodes"
    "process_launching D r x \<noteq> NotMine \<Longrightarrow> chainWhat x \<in> answersOf chainTree nameChainLaunchNodes"
    "process_opState D r x \<noteq> NotMine \<Longrightarrow> chainWhat x \<in> answersOf chainTree nameChainOp"
    "process_crossingFork D r x \<noteq> NotMine \<Longrightarrow> chainWhat x \<in> answersOf chainTree nameChainOpCrossFork"
    "chainWhat x \<in> answersOf chainTree nameChainFailed"
    unfolding answersOf_def chain_contracts process_defs by (cases x; simp)+
  ultimately show ?thesis using assms unfolding answering_def by (auto simp: chain_process_at)
qed

lemma stageFor_known: "stageFor s = Inr n \<Longrightarrow> n \<in> set chainNames"
  by (auto simp: stageFor_def stageOrder_def chainNames_def split: if_splits option.splits)

lemma nextStage_known: "nextStage stageOrder s \<in> set chainNames"
  by (simp add: stageOrder_def chainNames_def)

lemma names_known [simp]:
  "nameChain \<in> set chainNames" "nameChainIdle \<in> set chainNames" "nameChainCompare \<in> set chainNames"
  "nameChainCompareSame \<in> set chainNames" "nameChainCompareNodesDiffer \<in> set chainNames"
  "nameChainCompareNetworkDiffers \<in> set chainNames" "nameChainCompareNothingComposed \<in> set chainNames"
  "nameChainCompareNetworkStopped \<in> set chainNames" "nameChainBuildUp \<in> set chainNames"
  "nameChainOpenWorkspace \<in> set chainNames" "nameChainBuildNodeTable \<in> set chainNames"
  "nameChainEnsureKeys \<in> set chainNames" "nameChainEnsureKeysFromPreset \<in> set chainNames"
  "nameChainEnsureKeysGenerate \<in> set chainNames" "nameChainEnsureKeysFromBlueprint \<in> set chainNames"
  "nameChainReconcile \<in> set chainNames" "nameChainBuildGenesis \<in> set chainNames"
  "nameChainBuildGenesisFromTemplate \<in> set chainNames"
  "nameChainBuildGenesisFromExisting \<in> set chainNames" "nameChainBuildNodeConfig \<in> set chainNames"
  "nameChainBuildNodeCommand \<in> set chainNames" "nameChainDeployNodes \<in> set chainNames"
  "nameChainDeployNodesVerifiedLocal \<in> set chainNames"
  "nameChainDeployNodesShippedRemote \<in> set chainNames" "nameChainInitNodes \<in> set chainNames"
  "nameChainLaunchNodes \<in> set chainNames" "nameChainLaunchNodesPhase \<in> set chainNames"
  "nameChainLaunchNodesPhaseActions \<in> set chainNames" "nameChainLaunchNodesRecordRun \<in> set chainNames"
  "nameChainBuildUpStoppedAtStep \<in> set chainNames" "nameChainReady \<in> set chainNames"
  "nameChainOp \<in> set chainNames" "nameChainOpStop \<in> set chainNames"
  "nameChainOpRestartNode \<in> set chainNames" "nameChainOpSwapNode \<in> set chainNames"
  "nameChainOpHardfork \<in> set chainNames" "nameChainOpCrossFork \<in> set chainNames"
  "nameChainOpCrossForkAwaitBoundary \<in> set chainNames" "nameChainOpCrossForkHandOver \<in> set chainNames"
  "nameChainOpCrossForkConfirm \<in> set chainNames" "nameChainOpRemove \<in> set chainNames"
  "nameChainStopped \<in> set chainNames" "nameChainRemoved \<in> set chainNames"
  "nameChainFailed \<in> set chainNames"
  by (simp_all add: chainNames_def)

lemma nextFor_known: "nextFor v = Inr d \<Longrightarrow> d \<in> set chainNames"
  by (auto simp: nextFor_def split: if_splits)

lemma operationNamed_known: "operationNamed d = Inr v \<Longrightarrow> d \<in> set chainNames"
  by (auto simp: operationNamed_def ops_def split: option.splits if_splits)

lemma keyLeaves_known: "map_of keyLeaves w = Some d \<Longrightarrow> d \<in> set chainNames"
  by (auto simp: keyLeaves_def split: if_splits)

lemma chain_moves_known:
  assumes "chain_process D n r x = Moves r' d"
  shows "d \<in> set chainNames"
proof -
  have "n \<in> answering" using assms chain_process_silent [of n D r x] by (cases "n \<in> answering") simp_all
  moreover have "process_compositionState D r x = Moves r' d \<Longrightarrow> ?thesis"
    "process_buildingGenesis D r x = Moves r' d \<Longrightarrow> ?thesis"
    "process_deployingInputs D r x = Moves r' d \<Longrightarrow> ?thesis"
    "process_launching D r x = Moves r' d \<Longrightarrow> ?thesis"
    "process_opState D r x = Moves r' d \<Longrightarrow> ?thesis"
    "process_failedState D r x = Moves r' d \<Longrightarrow> ?thesis"
    "process_crossingFork D r x = Moves r' d \<Longrightarrow> ?thesis"
    by (cases x; auto simp: process_defs launch_next_def Let_def split: if_splits)+
  moreover have "process_stoppedState D r x = Moves r' d \<Longrightarrow> ?thesis"
    using stageFor_known operationNamed_known
    by (cases x) (auto simp: process_defs split: sum.splits option.splits)
  moreover have "process_comparing D r x = Moves r' d \<Longrightarrow> ?thesis"
    using stageFor_known nextFor_known by (cases x) (auto simp: process_defs split: sum.splits)
  moreover have "process_composingState D r x = Moves r' d \<Longrightarrow> ?thesis"
    using stageFor_known nextStage_known
    by (cases x) (auto simp: process_defs after_def Let_def split: sum.splits if_splits)
  moreover have "process_ensuringKeys D r x = Moves r' d \<Longrightarrow> ?thesis"
    using keyLeaves_known by (cases x) (auto simp: process_defs split: option.splits prod.splits)
  ultimately show ?thesis
    using assms unfolding answering_def by (auto simp: chain_process_at)
qed

lemma chain_says_declared:
  assumes "chain_process D n r x = Says r' ms"
  shows "chainWhat ` set ms \<subseteq> emitsOf chainTree n"
proof -
  have "n \<in> answering" using assms chain_process_silent [of n D r x] by (cases "n \<in> answering") simp_all
  moreover have "process_compositionState D r x \<noteq> Says r' ms" "process_buildingGenesis D r x \<noteq> Says r' ms"
    "process_deployingInputs D r x \<noteq> Says r' ms" "process_launching D r x \<noteq> Says r' ms"
    "process_opState D r x \<noteq> Says r' ms" "process_failedState D r x \<noteq> Says r' ms"
    "process_crossingFork D r x \<noteq> Says r' ms" "process_stoppedState D r x \<noteq> Says r' ms"
    "process_comparing D r x \<noteq> Says r' ms" "process_composingState D r x \<noteq> Says r' ms"
    unfolding process_defs Let_def by (cases x; simp split: sum.splits option.splits)+
  moreover have "process_ensuringKeys D r x = Says r' ms \<Longrightarrow> chainWhat ` set ms \<subseteq> emitsOf chainTree nameChainEnsureKeys"
    by (cases x) (auto simp: process_defs emitsOf_def chain_contracts fail_stage_def split: option.splits)
  ultimately show ?thesis
    using assms unfolding answering_def by (elim insertE emptyE) (simp_all add: chain_process_at)
qed

text \<open>The machine of a composition is a client the walk reads.\<close>

definition chain_ent :: "('v, 'x) deps \<Rightarrow> StateName \<Rightarrow> ('v, 'x) manager \<Rightarrow> ('v, 'x) entered" where
  "chain_ent D n r = chain_enter D n (Path chainTree (Some n)) r"

interpretation chain: walker "chainClient D" chainTree "chain_ent D" "chain_process D" for D
proof (unfold_locales, goal_cases)
  case (1 m n r)
  then show ?case using Path_shape [OF 1] by (simp add: chainClient_def chain_ent_def split: prod.splits)
next
  case (4 n r)
  then show ?case using chain_ent_declared by (simp add: chain_ent_def chainClient_def)
next
  case (5 n r x)
  then show ?case using chain_react_declared by (simp add: chainClient_def)
next
  case (6 n r x r' d)
  then show ?case using chain_moves_known chainTree_dom by simp
next
  case (7 n r x r' ms)
  then show ?case using chain_says_declared [OF 7] by (simp add: chainClient_def)
qed (simp_all add: chainClient_def)

section \<open>The tree as the audit and the walk see it\<close>

lemma newManager_as_tree:
  "ancestors newManager n = ancestors chainTree n" "contractOf newManager n = contractOf chainTree n"
  "m_order newManager = chainNames"
  using shape_D(1,3,5) [OF shape_newManager] by (simp_all add: chainTree_info)

lemma chain_fresh: "chain.fresh newManager"
proof -
  have "contractOf chainTree n \<noteq> None" if "n \<in> set chainNames" for n
    using that by (auto simp: chainNames_def chain_contracts)
  then have "checkDeclared newManager = []"
    by (simp add: checkDeclared_def filter_empty_conv newManager_as_tree)
  then show ?thesis using chain_settled shape_newManager chain_fields by (simp add: chain.fresh_def)
qed

text \<open>
  The tree \<open>NewManager\<close> builds is sound: it builds without a setup error, every one of its 44
  states declares what it accepts and emits, and everything a state may say to itself is taken by that
  state or one above it, so that no stage of a composition can end with a message nobody handles.
\<close>

theorem composition_tree_audits_clean:
  "m_setupErr newManager = None \<and> length (m_order newManager) = 44 \<and> Audit newManager = []"
proof -
  have "list_all (\<lambda>n. case contractOf chainTree n of None \<Rightarrow> False
      | Some c \<Rightarrow> list_all (takenOnPath chainTree n) (Emits c)) chainNames"
    by (simp add: chainNames_def chain_contracts takenOnPath_def chain_ancestors takes_def)
  then have "\<forall>n\<in>set chainNames. \<exists>c. contractOf chainTree n = Some c \<and> (\<forall>w\<in>set (Emits c). takenOnPath chainTree n w)"
    by (auto simp: list_all_iff split: option.splits)
  then have "Audit newManager = []"
    by (fastforce simp: Audit_def takenOnPath_def newManager_as_tree filter_empty_conv split: option.splits)
  then show ?thesis using chain_fields(1) by (simp add: newManager_as_tree chainNames_def)
qed

end
