(* ===== verification/Chain_Laws.thy ===== *)
theory Chain_Laws
  imports Chain_Tree "HOL-Library.Sublist"
begin

text \<open>
  What composing a chain does: the machine walks its stages exactly as a straight-line program would, for
  whatever the work of the stages does; a composition that fails is resumed at the stage that failed; a
  launch that fails takes down what it started.
\<close>

section \<open>Answers\<close>

lemma chain_silent [simp]:
  "chain_process D nameChainCompareSame r x = NotMine"
  "chain_process D nameChainCompareNodesDiffer r x = NotMine"
  "chain_process D nameChainCompareNetworkDiffers r x = NotMine"
  "chain_process D nameChainCompareNothingComposed r x = NotMine"
  "chain_process D nameChainCompareNetworkStopped r x = NotMine"
  "chain_process D nameChainOpenWorkspace r x = NotMine"
  "chain_process D nameChainBuildNodeTable r x = NotMine"
  "chain_process D nameChainEnsureKeysFromPreset r x = NotMine"
  "chain_process D nameChainEnsureKeysGenerate r x = NotMine"
  "chain_process D nameChainEnsureKeysFromBlueprint r x = NotMine"
  "chain_process D nameChainReconcile r x = NotMine"
  "chain_process D nameChainBuildGenesisFromTemplate r x = NotMine"
  "chain_process D nameChainBuildGenesisFromExisting r x = NotMine"
  "chain_process D nameChainBuildNodeConfig r x = NotMine"
  "chain_process D nameChainBuildNodeCommand r x = NotMine"
  "chain_process D nameChainDeployNodesVerifiedLocal r x = NotMine"
  "chain_process D nameChainDeployNodesShippedRemote r x = NotMine"
  "chain_process D nameChainInitNodes r x = NotMine"
  "chain_process D nameChainLaunchNodesPhase r x = NotMine"
  "chain_process D nameChainLaunchNodesPhaseActions r x = NotMine"
  "chain_process D nameChainLaunchNodesRecordRun r x = NotMine"
  "chain_process D nameChainBuildUpStoppedAtStep r x = NotMine"
  "chain_process D nameChainReady r x = NotMine"
  "chain_process D nameChainOpStop r x = NotMine"
  "chain_process D nameChainOpRestartNode r x = NotMine"
  "chain_process D nameChainOpSwapNode r x = NotMine"
  "chain_process D nameChainOpHardfork r x = NotMine"
  "chain_process D nameChainOpCrossForkAwaitBoundary r x = NotMine"
  "chain_process D nameChainOpCrossForkHandOver r x = NotMine"
  "chain_process D nameChainOpCrossForkConfirm r x = NotMine"
  "chain_process D nameChainOpRemove r x = NotMine"
  "chain_process D nameChainStopped r x = NotMine"
  "chain_process D nameChainRemoved r x = NotMine"
  by (rule chain_process_silent, simp add: answering_def)+

lemma entry_one: "ancestors chainTree d = d # p # rest \<Longrightarrow> p \<in> set (ancestors chainTree l) \<Longrightarrow> entryPath chainTree l d = [d]"
  by (simp add: entryPath_def)

text \<open>Where a stage may stand when it reports.\<close>

definition underUp :: "StateName list" where
  "underUp =
     [nameChainOpenWorkspace, nameChainBuildNodeTable, nameChainEnsureKeys, nameChainEnsureKeysFromPreset,
      nameChainEnsureKeysGenerate, nameChainEnsureKeysFromBlueprint, nameChainReconcile, nameChainBuildGenesis,
      nameChainBuildGenesisFromTemplate, nameChainBuildGenesisFromExisting, nameChainBuildNodeConfig,
      nameChainBuildNodeCommand, nameChainDeployNodes, nameChainDeployNodesVerifiedLocal,
      nameChainDeployNodesShippedRemote, nameChainInitNodes, nameChainLaunchNodes, nameChainLaunchNodesPhase,
      nameChainLaunchNodesPhaseActions, nameChainLaunchNodesRecordRun]"

lemma underUp_ancestors: "l \<in> set underUp \<Longrightarrow> nameChainBuildUp \<in> set (ancestors chainTree l) \<and> nameChain \<in> set (ancestors chainTree l)"
  by (auto simp: underUp_def chain_ancestors)

text \<open>The messages the composing state answers: no stage under it does.\<close>

definition forComposing :: "'v chainMsg \<Rightarrow> bool" where
  "forComposing x \<longleftrightarrow> stageReport x \<noteq> None \<or> x = reconcileRefused \<or> (\<exists>k. x = reconciled k)"

lemma answer_composing:
  assumes "forComposing x" "l \<in> set underUp"
  shows "chain.answer D (ancestors chainTree l) r x = Some (nameChainBuildUp, process_composingState D r x)"
proof -
  have "process_ensuringKeys D r x = NotMine" "process_buildingGenesis D r x = NotMine"
    "process_deployingInputs D r x = NotMine" "process_launching D r x = NotMine"
    using assms(1) by (cases x; simp add: forComposing_def process_defs)+
  moreover have "process_composingState D r x \<noteq> NotMine"
    using assms(1) by (cases x) (simp_all add: forComposing_def process_composingState_def Let_def split: sum.splits)
  ultimately show ?thesis using assms(2) by (auto simp: underUp_def chain_ancestors chain_process_at)
qed

lemma answer_failed:
  assumes "l \<in> set chainNames" "l \<noteq> nameChainFailed"
  shows "chain.answer D (ancestors chainTree l) r (stageFailed s e)
    = Some (nameChain, Moves (r\<lparr>mg_failure := Some e, failStatus := FailureStatus s (Some e)\<rparr>) nameChainFailed)"
  using assms by (auto simp: chainNames_def chain_ancestors chain_process_at process_defs)


section \<open>The composition as a straight-line program\<close>

text \<open>The work of a state on the way in, with the one message it leaves.\<close>

definition ent1 :: "('v, 'x) deps \<Rightarrow> StateName \<Rightarrow> ('v, 'x) manager \<Rightarrow> ('v, 'x) manager \<times> 'v chainMsg" where
  "ent1 D n r = (fst (chain_ent D n r), hd (snd (chain_ent D n r)))"

definition spec_keys :: "('v, 'x) deps \<Rightarrow> ('v, 'x) manager \<Rightarrow> ('v, 'x) manager \<times> 'v chainMsg" where
  "spec_keys D r =
     (case ent1 D nameChainEnsureKeys r of
        (r1, keySourceChosen way) \<Rightarrow>
          (case map_of keyLeaves way of
             Some leaf \<Rightarrow> ent1 D leaf r1
           | None \<Rightarrow>
               (let (r2, ms) = fail_stage D stepKeys
                      (Errorf (''chainsetup: keys: no state for the \"'' @ way @ ''\" source'') []) r1
                in (r2, hd ms)))
      | (r1, x) \<Rightarrow> (r1, x))"

definition spec_genesis :: "('v, 'x) deps \<Rightarrow> ('v, 'x) manager \<Rightarrow> ('v, 'x) manager \<times> 'v chainMsg" where
  "spec_genesis D r =
     (case ent1 D nameChainBuildGenesis r of
        (r1, genesisWayChosen existing) \<Rightarrow>
          ent1 D (if existing then nameChainBuildGenesisFromExisting else nameChainBuildGenesisFromTemplate) r1
      | (r1, x) \<Rightarrow> (r1, x))"

definition spec_deploy :: "('v, 'x) deps \<Rightarrow> ('v, 'x) manager \<Rightarrow> ('v, 'x) manager \<times> 'v chainMsg" where
  "spec_deploy D r =
     (case ent1 D nameChainDeployNodes r of
        (r1, inputsPresent detail shipped) \<Rightarrow>
          if shipped > 0 then ent1 D nameChainDeployNodesShippedRemote (r1\<lparr>remoteDetail := detail\<rparr>)
          else ent1 D nameChainDeployNodesVerifiedLocal (r1\<lparr>localDetail := detail\<rparr>)
      | (r1, x) \<Rightarrow> (r1, x))"

text \<open>The phases of a launch, one after the other.\<close>

fun spec_phases :: "('v, 'x) deps \<Rightarrow> phase list \<Rightarrow> ('v, 'x) manager \<Rightarrow> ('v, 'x) manager \<times> 'v chainMsg" where
  "spec_phases D [] r = ent1 D nameChainLaunchNodesRecordRun r"
| "spec_phases D (ph # phs) r =
     (case ent1 D nameChainLaunchNodesPhase r of
        (r1, phaseLaunched k) \<Rightarrow>
          (let r2 = r1\<lparr>ln_started := ln_started r1 + k\<rparr>
           in if length (ph_Actions ph) > 0 then
                (case ent1 D nameChainLaunchNodesPhaseActions r2 of
                   (r3, phaseActionsDone) \<Rightarrow> spec_phases D phs (r3\<lparr>ln_at := ln_at r3 + 1\<rparr>)
                 | (r3, x) \<Rightarrow> (r3, x))
              else spec_phases D phs (r2\<lparr>ln_at := ln_at r2 + 1\<rparr>))
      | (r1, x) \<Rightarrow> (r1, x))"

definition spec_launch :: "('v, 'x) deps \<Rightarrow> ('v, 'x) manager \<Rightarrow> ('v, 'x) manager \<times> 'v chainMsg" where
  "spec_launch D r =
     (case ent1 D nameChainLaunchNodes r of
        (r1, launchPlanned n) \<Rightarrow> spec_phases D (ln_phases r1) r1
      | (r1, x) \<Rightarrow> (r1, x))"

text \<open>The work of one step, and how it reported.\<close>

definition spec_stage :: "('v, 'x) deps \<Rightarrow> string \<Rightarrow> ('v, 'x) manager \<Rightarrow> ('v, 'x) manager \<times> 'v chainMsg" where
  "spec_stage D step r =
     (if step = stepKeys then spec_keys D r
      else if step = stepGenesis then spec_genesis D r
      else if step = stepDeploy then spec_deploy D r
      else if step = stepStart then spec_launch D r
      else ent1 D (the (map_of stageOrder step)) r)"

definition spec_failed :: "'v chainMsg \<Rightarrow> ('v, 'x) manager \<Rightarrow> ('v, 'x) manager \<times> StateName" where
  "spec_failed x r =
     (case x of
        stageFailed s e \<Rightarrow> (r\<lparr>mg_failure := Some e, failStatus := FailureStatus s (Some e)\<rparr>, nameChainFailed)
      | _ \<Rightarrow> (r, nameChainFailed))"

text \<open>The stages that are left, in order: a failure ends the composition, and so does the stage it was
  asked to stop after; a reusing composition compares after its keys.\<close>

fun spec_up :: "('v, 'x) deps \<Rightarrow> (string \<times> StateName) list \<Rightarrow> ('v, 'x) manager \<Rightarrow> ('v, 'x) manager \<times> StateName" where
  "spec_up D [] r = (fst (chain_ent D nameChainReady r), nameChainReady)"
| "spec_up D ((s, n) # rest) r =
     (case spec_stage D s r of (r1, x) \<Rightarrow>
        (case stageReport x of
           None \<Rightarrow> spec_failed x r1
         | Some (step, detail) \<Rightarrow>
             (let r2 = note_step step detail r1
              in if only r2 \<noteq> '''' \<or> s = stopAfter r2 then
                   (fst (chain_ent D nameChainBuildUpStoppedAtStep r2), nameChainBuildUpStoppedAtStep)
                 else if s = stepKeys \<and> reusing r2 then
                   (case ent1 D nameChainReconcile r2 of
                      (r3, reconciled kept) \<Rightarrow> spec_up D rest r3
                    | (r3, x3) \<Rightarrow> spec_failed x3 r3)
                 else spec_up D rest r2)))"

definition spec_compose ::
  "('v, 'x) deps \<Rightarrow> ('v, 'x) manager \<Rightarrow> 'v upRequest \<Rightarrow> string \<Rightarrow> ('v, 'x) manager \<times> StateName"
where
  "spec_compose D r req from =
     spec_up D (dropWhile (\<lambda>(s, n). from \<noteq> '''' \<and> s \<noteq> from) stageOrder)
       (r\<lparr>stopAfter := stopAfterFor (rq_Stage req), request := req\<rparr>)"

section \<open>What work leaves alone\<close>

text \<open>Work changes the record, the outside and the lines it reported, and nothing else of the manager.\<close>

definition same :: "('v, 'x) manager \<Rightarrow> ('v, 'x) manager \<Rightarrow> bool" where
  "same r r' \<longleftrightarrow> r' = r\<lparr>disk := disk r', beyond := beyond r', mg_steps := mg_steps r'\<rparr>"

lemma same_refl [simp]: "same r r"
  by (simp add: same_def)

lemma same_trans: "same a b \<Longrightarrow> same b c \<Longrightarrow> same a c"
proof -
  assume "same a b" "same b c"
  then have "c = a\<lparr>disk := disk b, beyond := beyond b, mg_steps := mg_steps b\<rparr>
      \<lparr>disk := disk c, beyond := beyond c, mg_steps := mg_steps c\<rparr>" unfolding same_def by metis
  then show ?thesis by (simp add: same_def)
qed

lemma same_D:
  assumes "same r r'"
  shows "request r' = request r" "stopAfter r' = stopAfter r" "reusing r' = reusing r" "only r' = only r"
    "mg_failure r' = mg_failure r" "failStatus r' = failStatus r" "ln_phases r' = ln_phases r"
    "ln_at r' = ln_at r" "ln_started r' = ln_started r" "ln_bin r' = ln_bin r" "wasRunning r' = wasRunning r"
    "operating r' = operating r"
  by (subst assms [unfolded same_def], simp)+

lemma same_record [simp]: "same r (recordPath D p r)"
  by (simp add: recordPath_def same_def Let_def split: sum.splits prod.splits option.splits)

lemma same_mark [simp]: "same r (markFailed D s e r)"
  by (simp add: markFailed_def same_def Let_def split: sum.splits prod.splits option.splits)

lemma same_note [simp]: "same r (note_step s d r)"
  by (simp add: note_step_def same_def)

lemma same_InWorkspace: "same r (fst (InWorkspace D (lift_verb v) r))"
  by (simp add: InWorkspace_def lift_verb_def same_def split: sum.splits prod.splits option.splits)

lemma same_fail [simp]: "same r (fst (fail_stage D s e r))"
  by (simp add: fail_stage_def)

lemma same_InWorkspace_D: "InWorkspace D (lift_verb v) r = (r', out) \<Longrightarrow> same r r'"
  using same_InWorkspace [of r D v] by simp

lemma same_failLaunch [simp]: "same r (fst (failLaunch D e r))"
proof -
  obtain r1 out where i: "InWorkspace D (lift_verb (RollBackLaunch D (wasRunning r))) r = (r1, out)" by fastforce
  have r1: "same r r1" by (rule same_InWorkspace_D [OF i])
  have "same r1 (fst (fail_stage D stepStart e (note_step ''rollback'' d r1)))" for d
    by (rule same_trans [OF same_note same_fail])
  then show ?thesis
    using i same_trans [OF r1] by (auto simp: failLaunch_def split: sum.splits)
qed


section \<open>What the states report\<close>

lemma chain_enter_at:
  "chain_enter D nameChainCompare = enter_comparing D"
  "chain_enter D nameChainCompareSame = enter_compareOutcome networkKept D"
  "chain_enter D nameChainCompareNodesDiffer = enter_restartingNodes D"
  "chain_enter D nameChainCompareNetworkDiffers = enter_stoppingToRebuild D"
  "chain_enter D nameChainCompareNothingComposed = enter_compareOutcome nothingComposed D"
  "chain_enter D nameChainCompareNetworkStopped = enter_compareOutcome networkStopped D"
  "chain_enter D nameChainOpenWorkspace = enter_openingWorkspace D"
  "chain_enter D nameChainBuildNodeTable = enter_buildingNodeTable D"
  "chain_enter D nameChainEnsureKeys = enter_ensuringKeys D"
  "chain_enter D nameChainEnsureKeysFromPreset = enter_keysLeaf D"
  "chain_enter D nameChainEnsureKeysGenerate = enter_keysLeaf D"
  "chain_enter D nameChainEnsureKeysFromBlueprint = enter_keysLeaf D"
  "chain_enter D nameChainReconcile = enter_reconciling D"
  "chain_enter D nameChainBuildGenesis = enter_buildingGenesis D"
  "chain_enter D nameChainBuildGenesisFromTemplate = enter_genesisLeaf D"
  "chain_enter D nameChainBuildGenesisFromExisting = enter_genesisLeaf D"
  "chain_enter D nameChainBuildNodeConfig = enter_buildingNodeConfig D"
  "chain_enter D nameChainBuildNodeCommand = enter_buildingNodeCommand D"
  "chain_enter D nameChainDeployNodes = enter_deployingInputs D"
  "chain_enter D nameChainDeployNodesVerifiedLocal = enter_deployOutcome localDetail D"
  "chain_enter D nameChainDeployNodesShippedRemote = enter_deployOutcome remoteDetail D"
  "chain_enter D nameChainInitNodes = enter_initializingDatadirs D"
  "chain_enter D nameChainLaunchNodes = enter_launching D"
  "chain_enter D nameChainLaunchNodesPhase = enter_launchingPhase D"
  "chain_enter D nameChainLaunchNodesPhaseActions = enter_runningPhaseActions D"
  "chain_enter D nameChainLaunchNodesRecordRun = enter_recordingRun D"
  "chain_enter D nameChainBuildUpStoppedAtStep = enter_resting D"
  "chain_enter D nameChainReady = enter_resting D"
  "chain_enter D nameChainOpStop = enter_stopping D"
  "chain_enter D nameChainOpRestartNode = enter_restarting D"
  "chain_enter D nameChainOpSwapNode = enter_swapping D"
  "chain_enter D nameChainOpHardfork = enter_hardforking D"
  "chain_enter D nameChainOpCrossFork = enter_crossingFork D"
  "chain_enter D nameChainOpCrossForkAwaitBoundary = enter_beforeFork D"
  "chain_enter D nameChainOpCrossForkHandOver = enter_handingOver D"
  "chain_enter D nameChainOpCrossForkConfirm = enter_crossedFork D"
  "chain_enter D nameChainOpRemove = enter_removing D"
  "chain_enter D nameChainStopped = enter_resting D"
  "chain_enter D nameChainRemoved = enter_resting D"
  by (simp_all add: chain_enter_def chainEnters_def fun_eq_iff)

lemma chain_ent_none [simp]:
  "chain_ent D nameChain r = (r, [])"
  "chain_ent D nameChainIdle r = (r, [])"
  "chain_ent D nameChainBuildUp r = (r, [])"
  "chain_ent D nameChainOp r = (r, [])"
  "chain_ent D nameChainFailed r = (r, [])"
  by (simp_all add: chain_ent_def chain_enter_def chainEnters_def)

lemma what_inv:
  "chainWhat x = eventStageFailed \<Longrightarrow> \<exists>s e. x = stageFailed s e"
  "chainWhat x = eventKeySourceChosen \<Longrightarrow> \<exists>w. x = keySourceChosen w"
  "chainWhat x = eventGenesisWayChosen \<Longrightarrow> \<exists>b. x = genesisWayChosen b"
  "chainWhat x = eventInputsPresent \<Longrightarrow> \<exists>d n. x = inputsPresent d n"
  "chainWhat x = eventLaunchPlanned \<Longrightarrow> \<exists>n. x = launchPlanned n"
  "chainWhat x = eventPhaseLaunched \<Longrightarrow> \<exists>n. x = phaseLaunched n"
  "chainWhat x = eventPhaseActionsDone \<Longrightarrow> x = phaseActionsDone"
  by (cases x; simp add: chain_whats)+

lemma what_report:
  "chainWhat x = eventWorkspaceOpened \<Longrightarrow> \<exists>d. stageReport x = Some (stepNew, d)"
  "chainWhat x = eventNodeTableBuilt \<Longrightarrow> \<exists>d. stageReport x = Some (stepPlace, d)"
  "chainWhat x = eventKeysEnsured \<Longrightarrow> \<exists>d. stageReport x = Some (stepKeys, d)"
  "chainWhat x = eventGenesisBuilt \<Longrightarrow> \<exists>d. stageReport x = Some (stepGenesis, d)"
  "chainWhat x = eventNodeConfigBuilt \<Longrightarrow> \<exists>d. stageReport x = Some (stepConfig, d)"
  "chainWhat x = eventNodeCommandBuilt \<Longrightarrow> \<exists>d. stageReport x = Some (stepBuild, d)"
  "chainWhat x = eventInputsDeployed \<Longrightarrow> \<exists>d. stageReport x = Some (stepDeploy, d)"
  "chainWhat x = eventDatadirsInitialized \<Longrightarrow> \<exists>d. stageReport x = Some (stepInit, d)"
  "chainWhat x = eventNodesLaunched \<Longrightarrow> \<exists>d. stageReport x = Some (stepStart, d)"
  by (cases x; simp add: chain_whats)+

text \<open>A state that works leaves exactly one message.\<close>

lemma length_fail [simp]: "length (snd (fail_stage D s e r)) = 1" "length (snd (failLaunch D e r)) = 1"
  by (simp_all add: fail_stage_def failLaunch_def split: prod.splits sum.splits)

lemma length_restartNodesLoop [simp]: "length (snd (restartNodesLoop D is r)) = 1"
  by (induction D "is" r rule: restartNodesLoop.induct) (auto split: prod.splits sum.splits)

definition resting :: "StateName list" where
  "resting = [nameChain, nameChainIdle, nameChainBuildUp, nameChainOp, nameChainFailed,
     nameChainBuildUpStoppedAtStep, nameChainReady, nameChainStopped, nameChainRemoved]"

lemmas enter_defs = enter_openingWorkspace_def enter_buildingNodeTable_def enter_keysLeaf_def enter_genesisLeaf_def
    enter_buildingNodeConfig_def enter_buildingNodeCommand_def enter_initializingDatadirs_def
    enter_stopping_def enter_removing_def enter_restarting_def enter_swapping_def enter_hardforking_def
    enter_restartingNodes_def enter_ensuringKeys_def enter_buildingGenesis_def enter_deployingInputs_def
    enter_launching_def enter_launchingPhase_def enter_runningPhaseActions_def enter_recordingRun_def
    enter_reconciling_def enter_stoppingToRebuild_def enter_crossingFork_def enter_beforeFork_def
    enter_handingOver_def enter_crossedFork_def enter_comparing_def enter_compareOutcome_def
    enter_deployOutcome_def

lemma one_message:
  assumes "n \<in> set chainNames" "n \<notin> set resting"
  shows "length (snd (chain_enter D n p r)) = 1"
  using assms
  by (auto simp: chainNames_def resting_def chain_enter_at)
    (auto simp: enter_defs ended_def operated_def Let_def split: prod.splits sum.splits)

lemma ent1_message:
  assumes "n \<in> set chainNames" "n \<notin> set resting"
  shows "chain_ent D n r = (fst (ent1 D n r), [snd (ent1 D n r)])"
  using one_message [OF assms, of D "Path chainTree (Some n)" r]
  by (cases "snd (chain_ent D n r)") (auto simp: ent1_def chain_ent_def prod_eq_iff)

lemma ent1_what:
  assumes "n \<in> set chainNames" "n \<notin> set resting"
  shows "chainWhat (snd (ent1 D n r)) \<in> emitsOf chainTree n"
  using chain_ent_declared [of D n "Path chainTree (Some n)" r] ent1_message [OF assms, of D r]
  by (simp add: chain_ent_def)


section \<open>The walk through a stage\<close>

text \<open>The machine just entered \<open>n\<close> with the manager \<open>r\<close>.\<close>

definition arrived :: "('v, 'x) deps \<Rightarrow> StateName \<Rightarrow> ('v, 'x) manager \<Rightarrow> StateName \<times> 'v chainMsg list \<times> ('v, 'x) manager" where
  "arrived D n r = (n, snd (chain_ent D n r), fst (chain_ent D n r))"

lemma arrived_message:
  "n \<in> set chainNames \<Longrightarrow> n \<notin> set resting \<Longrightarrow> arrived D n r = (n, [snd (ent1 D n r)], fst (ent1 D n r))"
  using ent1_message [of n D r] by (simp add: arrived_def)

definition never_cancelled :: "('v, 'x) deps \<Rightarrow> bool" where
  "never_cancelled D \<longleftrightarrow> (\<forall>x. c_ctxErr D x = None)"

lemma leads_move:
  assumes "never_cancelled D" "chain.answer D (ancestors chainTree l) r x = Some (h, Moves r1 d)"
    and "ancestors chainTree d = d # p # rest" "p \<in> set (ancestors chainTree l)"
  shows "chain.leads D 1 (l, [x], r) (arrived D d r1)"
  unfolding arrived_def
  by (rule chain.leads_moves) (use assms entry_one [OF assms(3,4)] in
    \<open>auto simp: never_cancelled_def chainClient_def split: prod.splits\<close>)

text \<open>How the work of a step ended: a report of that step, or a failure.\<close>

definition reported :: "string \<Rightarrow> 'v chainMsg \<Rightarrow> bool" where
  "reported s x \<longleftrightarrow> (\<exists>d. stageReport x = Some (s, d)) \<or> (\<exists>t e. x = stageFailed t e)"

definition reaches ::
  "('v, 'x) deps \<Rightarrow> nat \<Rightarrow> StateName \<Rightarrow> ('v, 'x) manager \<Rightarrow> string \<Rightarrow> ('v, 'x) manager \<times> 'v chainMsg \<Rightarrow> bool"
where
  "reaches D k n r s out \<longleftrightarrow>
     (\<exists>j l. j \<le> k \<and> l \<in> set underUp \<and> chain.leads D j (arrived D n r) (l, [snd out], fst out)) \<and> reported s (snd out)"

lemma reaches_here:
  assumes "n \<in> set underUp" "n \<notin> set resting" "reported s (snd (ent1 D n r))"
  shows "reaches D k n r s (ent1 D n r)"
proof -
  have "n \<in> set chainNames" using assms(1) by (auto simp: underUp_def)
  then have "chain.leads D 0 (arrived D n r) (n, [snd (ent1 D n r)], fst (ent1 D n r))"
    using arrived_message [of n D r] assms(2) chain.leads_refl by simp
  then show ?thesis using assms unfolding reaches_def by blast
qed

lemma reaches_mono: "reaches D j n r s out \<Longrightarrow> j \<le> k \<Longrightarrow> reaches D k n r s out"
  by (meson le_trans reaches_def)

lemma reaches_step:
  assumes "chain.leads D 1 (arrived D n r) (arrived D m r1)" "reaches D k m r1 s out"
  shows "reaches D (Suc k) n r s out"
proof -
  obtain j l where "j \<le> k" "l \<in> set underUp" "chain.leads D j (arrived D m r1) (l, [snd out], fst out)"
    using assms(2) by (auto simp: reaches_def)
  then show ?thesis
    using chain.leads_trans [OF assms(1)] assms(2) by (auto simp: reaches_def intro!: exI [of _ "1 + j"])
qed

lemma reportedI:
  assumes "n \<in> set chainNames" "n \<notin> set resting" "emitsOf chainTree n \<subseteq> {e, eventStageFailed}"
    and "\<And>x :: 'v chainMsg. chainWhat x = e \<Longrightarrow> \<exists>d. stageReport x = Some (s, d)"
  shows "reported s (snd (ent1 (D :: ('v, 'x) deps) n r))"
proof -
  have "chainWhat (snd (ent1 D n r)) \<in> {e, eventStageFailed}" using ent1_what [OF assms(1,2), of D r] assms(3) by blast
  then show ?thesis using assms(4) what_inv(1) by (auto simp: reported_def)
qed

lemma simple_reported:
  "reported stepNew (snd (ent1 D nameChainOpenWorkspace r))"
  "reported stepPlace (snd (ent1 D nameChainBuildNodeTable r))"
  "reported stepConfig (snd (ent1 D nameChainBuildNodeConfig r))"
  "reported stepBuild (snd (ent1 D nameChainBuildNodeCommand r))"
  "reported stepInit (snd (ent1 D nameChainInitNodes r))"
  "reported stepKeys (snd (ent1 D nameChainEnsureKeysFromPreset r))"
  "reported stepKeys (snd (ent1 D nameChainEnsureKeysGenerate r))"
  "reported stepKeys (snd (ent1 D nameChainEnsureKeysFromBlueprint r))"
  "reported stepGenesis (snd (ent1 D nameChainBuildGenesisFromTemplate r))"
  "reported stepGenesis (snd (ent1 D nameChainBuildGenesisFromExisting r))"
  "reported stepDeploy (snd (ent1 D nameChainDeployNodesVerifiedLocal r))"
  "reported stepDeploy (snd (ent1 D nameChainDeployNodesShippedRemote r))"
  "reported stepStart (snd (ent1 D nameChainLaunchNodesRecordRun r))"
  by (rule reportedI [OF _ _ _ what_report(1)] reportedI [OF _ _ _ what_report(2)] reportedI [OF _ _ _ what_report(3)]
      reportedI [OF _ _ _ what_report(4)] reportedI [OF _ _ _ what_report(5)] reportedI [OF _ _ _ what_report(6)]
      reportedI [OF _ _ _ what_report(7)] reportedI [OF _ _ _ what_report(8)] reportedI [OF _ _ _ what_report(9)];
      simp add: resting_def emitsOf_def chain_contracts)+

lemma keys_reaches:
  assumes ctx: "never_cancelled D"
  shows "reaches D 1 nameChainEnsureKeys r stepKeys (spec_keys D r)"
proof -
  let ?n = nameChainEnsureKeys
  obtain r1 x where e: "ent1 D ?n r = (r1, x)" by fastforce
  have a: "arrived D ?n r = (?n, [x], r1)" using arrived_message [of ?n D r] e by (simp add: resting_def)
  have "chainWhat x \<in> {eventKeySourceChosen, eventStageFailed}"
    using ent1_what [of ?n D r] e by (simp add: resting_def emitsOf_def chain_contracts)
  then consider t err where "x = stageFailed t err" | way where "x = keySourceChosen way" using what_inv by blast
  then show ?thesis
  proof cases
    case 1
    then have "reaches D 1 ?n r stepKeys (ent1 D ?n r)"
      by (intro reaches_here) (simp_all add: e reported_def underUp_def resting_def)
    then show ?thesis using e 1 by (simp add: spec_keys_def)
  next
    case 2
    have ans: "chain.answer D (ancestors chainTree ?n) r1 x = Some (?n, process_ensuringKeys D r1 x)"
      using 2 by (simp add: chain_ancestors chain_process_at process_ensuringKeys_def split: option.splits prod.splits)
    show ?thesis
    proof (cases "map_of keyLeaves way")
      case None
      let ?f = "fail_stage D stepKeys (Errorf (''chainsetup: keys: no state for the \"'' @ way @ ''\" source'') []) r1"
      have "chain.leads D 1 (?n, [x], r1) (?n, snd ?f, fst ?f)"
        by (rule chain.leads_says) (use ctx ans 2 None in
          \<open>simp_all add: process_ensuringKeys_def never_cancelled_def chainClient_def split: prod.splits\<close>)
      then show ?thesis
        using a 2 None e by (auto simp: reaches_def spec_keys_def fail_stage_def reported_def underUp_def)
    next
      case (Some leaf)
      have anc: "ancestors chainTree leaf = [leaf, ?n, nameChainBuildUp, nameChain]"
        and ok: "leaf \<in> set underUp" "leaf \<notin> set resting"
        and rep: "reported stepKeys (snd (ent1 D leaf r1))"
        using Some simple_reported(6-8) [of D r1]
        by (auto simp: keyLeaves_def chain_ancestors underUp_def resting_def split: if_splits)
      have "chain.leads D 1 (?n, [x], r1) (arrived D leaf r1)"
        by (rule leads_move [OF ctx _ anc]) (use ans 2 Some in \<open>simp_all add: process_ensuringKeys_def chain_ancestors\<close>)
      from reaches_step [OF this [folded a] reaches_here [OF ok rep, of 0]] show ?thesis
        using e 2 Some by (simp add: spec_keys_def)
    qed
  qed
qed

lemma genesis_reaches:
  assumes ctx: "never_cancelled D"
  shows "reaches D 1 nameChainBuildGenesis r stepGenesis (spec_genesis D r)"
proof -
  let ?n = nameChainBuildGenesis
  obtain r1 x where e: "ent1 D ?n r = (r1, x)" by fastforce
  have a: "arrived D ?n r = (?n, [x], r1)" using arrived_message [of ?n D r] e by (simp add: resting_def)
  have "chainWhat x \<in> {eventGenesisWayChosen, eventStageFailed}"
    using ent1_what [of ?n D r] e by (simp add: resting_def emitsOf_def chain_contracts)
  then consider t err where "x = stageFailed t err" | b where "x = genesisWayChosen b" using what_inv by blast
  then show ?thesis
  proof cases
    case 1
    then have "reaches D 1 ?n r stepGenesis (ent1 D ?n r)"
      by (intro reaches_here) (simp_all add: e reported_def underUp_def resting_def)
    then show ?thesis using e 1 by (simp add: spec_genesis_def)
  next
    case 2
    let ?l = "if b then nameChainBuildGenesisFromExisting else nameChainBuildGenesisFromTemplate"
    have l: "chain.leads D 1 (arrived D ?n r) (arrived D ?l r1)" unfolding a
      by (rule leads_move [OF ctx, where p = ?n and rest = "[nameChainBuildUp, nameChain]"])
        (use 2 in \<open>simp_all add: chain_ancestors chain_process_at process_buildingGenesis_def\<close>)
    have "reaches D (Suc 0) ?n r stepGenesis (ent1 D ?l r1)"
      by (intro reaches_step [OF l] reaches_here) (simp_all add: simple_reported underUp_def resting_def)
    then show ?thesis using 2 e by (simp add: spec_genesis_def)
  qed
qed

lemma deploy_reaches:
  assumes ctx: "never_cancelled D"
  shows "reaches D 1 nameChainDeployNodes r stepDeploy (spec_deploy D r)"
proof -
  let ?n = nameChainDeployNodes
  obtain r1 x where e: "ent1 D ?n r = (r1, x)" by fastforce
  have a: "arrived D ?n r = (?n, [x], r1)" using arrived_message [of ?n D r] e by (simp add: resting_def)
  have "chainWhat x \<in> {eventInputsPresent, eventStageFailed}"
    using ent1_what [of ?n D r] e by (simp add: resting_def emitsOf_def chain_contracts)
  then consider t err where "x = stageFailed t err" | d k where "x = inputsPresent d k" using what_inv by blast
  then show ?thesis
  proof cases
    case 1
    then have "reaches D 1 ?n r stepDeploy (ent1 D ?n r)"
      by (intro reaches_here) (simp_all add: e reported_def underUp_def resting_def)
    then show ?thesis using e 1 by (simp add: spec_deploy_def)
  next
    case 2
    let ?l = "if k > 0 then nameChainDeployNodesShippedRemote else nameChainDeployNodesVerifiedLocal"
    let ?r = "if k > 0 then r1\<lparr>remoteDetail := d\<rparr> else r1\<lparr>localDetail := d\<rparr>"
    have l: "chain.leads D 1 (arrived D ?n r) (arrived D ?l ?r)" unfolding a
      by (rule leads_move [OF ctx, where p = ?n and rest = "[nameChainBuildUp, nameChain]"])
        (use 2 in \<open>simp_all add: chain_ancestors chain_process_at process_deployingInputs_def\<close>)
    have "reaches D (Suc 0) ?n r stepDeploy (ent1 D ?l ?r)"
      by (intro reaches_step [OF l] reaches_here) (simp_all add: simple_reported underUp_def resting_def)
    then show ?thesis using 2 e by (simp add: spec_deploy_def split: if_splits)
  qed
qed


lemma same_worked:
  "same r (fst (case InWorkspace D (lift_verb v) (recordPath D p r) of
      (r2, Inl err) \<Rightarrow> failLaunch D err r2 | (r2, Inr y) \<Rightarrow> (r2, f y)))"
proof -
  obtain r2 out where i: "InWorkspace D (lift_verb v) (recordPath D p r) = (r2, out)" by fastforce
  have "same r r2" by (rule same_trans [OF same_record same_InWorkspace_D [OF i]])
  then show ?thesis using i same_trans [OF _ same_failLaunch, of r r2] by (simp split: sum.splits)
qed

lemma same_phase:
  "same r (fst (ent1 D nameChainLaunchNodesPhase r))" "same r (fst (ent1 D nameChainLaunchNodesPhaseActions r))"
  using same_worked [where f = "\<lambda>y. [phaseLaunched y]"] same_worked [where f = "\<lambda>y. [phaseActionsDone]"]
  by (simp_all add: ent1_def chain_ent_def chain_enter_at enter_launchingPhase_def enter_runningPhaseActions_def Let_def)

lemma launch_next_ancestors:
  "ancestors chainTree (launch_next r) = [launch_next r, nameChainLaunchNodes, nameChainBuildUp, nameChain]"
  by (simp add: launch_next_def chain_ancestors)

lemma launch_answer:
  assumes "l \<in> {nameChainLaunchNodes, nameChainLaunchNodesPhase, nameChainLaunchNodesPhaseActions}"
    and "process_launching D r x \<noteq> NotMine"
  shows "chain.answer D (ancestors chainTree l) r x = Some (nameChainLaunchNodes, process_launching D r x)"
    and "nameChainLaunchNodes \<in> set (ancestors chainTree l)"
  using assms by (auto simp: chain_ancestors chain_process_at)

lemma leads_launch:
  assumes "never_cancelled D" "arrived D l r0 = (l, [x], r)"
    and "l \<in> {nameChainLaunchNodes, nameChainLaunchNodesPhase, nameChainLaunchNodesPhaseActions}"
    and "process_launching D r x = Moves r1 d" "d = launch_next r' \<or> d = nameChainLaunchNodesPhaseActions"
  shows "chain.leads D 1 (arrived D l r0) (arrived D d r1)"
  unfolding assms(2)
  by (rule leads_move [OF assms(1), where p = nameChainLaunchNodes and rest = "[nameChainBuildUp, nameChain]"])
    (use assms launch_answer [OF assms(3), of D r x] launch_next_ancestors [of r'] in \<open>auto simp: chain_ancestors\<close>)

lemma phases_reach:
  assumes ctx: "never_cancelled D"
  shows "ln_phases r = pre @ phs \<Longrightarrow> ln_at r = length pre \<Longrightarrow>
    reaches D (2 * length phs) (launch_next r) r stepStart (spec_phases D phs r)"
proof (induction phs arbitrary: pre r)
  case Nil
  then show ?case
    using reaches_here [of nameChainLaunchNodesRecordRun stepStart D r 0] simple_reported(13) [of D r]
    by (simp add: launch_next_def underUp_def resting_def)
next
  case (Cons ph phs)
  let ?P = nameChainLaunchNodesPhase and ?A = nameChainLaunchNodesPhaseActions
  have n: "launch_next r = ?P" and up: "?P \<in> set underUp" "?P \<notin> set resting" "?A \<in> set underUp" "?A \<notin> set resting"
    using Cons.prems by (simp_all add: launch_next_def underUp_def resting_def)
  obtain r1 x where e: "ent1 D ?P r = (r1, x)" by fastforce
  have s1: "same r r1" using same_phase(1) [of r D] e by simp
  have a: "arrived D ?P r = (?P, [x], r1)" using arrived_message [of ?P D r] e up(2) by simp
  have "chainWhat x \<in> {eventPhaseLaunched, eventStageFailed}"
    using ent1_what [of ?P D r] e up(2) by (simp add: emitsOf_def chain_contracts)
  then consider t err where "x = stageFailed t err" | k where "x = phaseLaunched k" using what_inv by blast
  then show ?case
  proof cases
    case 1
    then show ?thesis using reaches_here [OF up(1,2), of stepStart D r] e n by (simp add: reported_def)
  next
    case 2
    let ?r2 = "r1\<lparr>ln_started := ln_started r1 + k\<rparr>" and ?next = "\<lambda>r. r\<lparr>ln_at := ln_at r + 1\<rparr>"
    have at: "ln_phases ?r2 ! ln_at ?r2 = ph" using same_D(7,8) [OF s1] Cons.prems by simp
    show ?thesis
    proof (cases "length (ph_Actions ph) > 0")
      case False
      have l: "chain.leads D 1 (arrived D ?P r) (arrived D (launch_next (?next ?r2)) (?next ?r2))"
        by (rule leads_launch [OF ctx a, where r' = "?next ?r2"]) (use 2 at False in \<open>simp_all add: process_launching_def Let_def\<close>)
      have "reaches D (2 * length phs) (launch_next (?next ?r2)) (?next ?r2) stepStart (spec_phases D phs (?next ?r2))"
        by (rule Cons.IH [where pre = "pre @ [ph]"]) (use same_D [OF s1] Cons.prems in simp_all)
      from reaches_mono [OF reaches_step [OF l this]] show ?thesis using e n 2 False by (simp add: Let_def)
    next
      case True
      obtain r3 y where e3: "ent1 D ?A ?r2 = (r3, y)" by fastforce
      have s3: "same ?r2 r3" using same_phase(2) [of ?r2 D] e3 by simp
      have a3: "arrived D ?A ?r2 = (?A, [y], r3)" using arrived_message [of ?A D ?r2] e3 up(4) by simp
      have l: "chain.leads D 1 (arrived D ?P r) (arrived D ?A ?r2)"
        by (rule leads_launch [OF ctx a]) (use 2 at True in \<open>simp_all add: process_launching_def Let_def\<close>)
      have "chainWhat y \<in> {eventPhaseActionsDone, eventStageFailed}"
        using ent1_what [of ?A D ?r2] e3 up(4) by (simp add: emitsOf_def chain_contracts)
      then consider t err where "y = stageFailed t err" | "y = phaseActionsDone" using what_inv by blast
      then show ?thesis
      proof cases
        case 1
        then have "reaches D 0 ?A ?r2 stepStart (r3, y)"
          using reaches_here [OF up(3,4), of stepStart D ?r2 0] e3 by (simp add: reported_def)
        from reaches_mono [OF reaches_step [OF l this]] show ?thesis using e n 2 True e3 1 by (simp add: Let_def)
      next
        case y: 2
        have l3: "chain.leads D 1 (arrived D ?A ?r2) (arrived D (launch_next (?next r3)) (?next r3))"
          by (rule leads_launch [OF ctx a3, where r' = "?next r3"]) (use y in \<open>simp_all add: process_launching_def Let_def\<close>)
        have "reaches D (2 * length phs) (launch_next (?next r3)) (?next r3) stepStart (spec_phases D phs (?next r3))"
          by (rule Cons.IH [where pre = "pre @ [ph]"]) (use same_D [OF s1] same_D [OF s3] Cons.prems in simp_all)
        from reaches_step [OF l reaches_step [OF l3 this]] show ?thesis using e n 2 True e3 y by (simp add: Let_def)
      qed
    qed
  qed
qed

text \<open>A launch plan has fewer phases than the machine takes messages for.\<close>

definition phases_bounded :: "('v, 'x) deps \<Rightarrow> nat \<Rightarrow> bool" where
  "phases_bounded D b \<longleftrightarrow>
     (\<forall>bin w x w' x' bin' phases. c_LaunchPlan D bin w x = (w', x', Inr (bin', phases)) \<longrightarrow> length phases \<le> b)"

lemma launch_planned:
  assumes "ent1 D nameChainLaunchNodes r = (r1, launchPlanned n)" "phases_bounded D b"
  shows "ln_at r1 = 0 \<and> length (ln_phases r1) \<le> b"
proof -
  let ?r = "(recordPath D (Path chainTree (Some nameChainLaunchNodes)) r)\<lparr>ln_at := 0, ln_started := 0\<rparr>"
  obtain r2 out where i: "InWorkspace D (lift_verb (planWork D (u_Binary (rq_shape (request ?r))))) ?r = (r2, out)"
    by fastforce
  show ?thesis
  proof (cases out)
    case (Inl err)
    then show ?thesis
      using assms(1) i by (simp add: ent1_def chain_ent_def chain_enter_at enter_launching_def fail_stage_def)
  next
    case (Inr p)
    then obtain bin phases running where p: "out = Inr (bin, phases, running)" by (cases p) auto
    have "ln_at r2 = 0" using same_D(8) [OF same_InWorkspace_D [OF i]] by simp
    moreover have "length phases \<le> b"
      using i assms(2) unfolding p
      by (auto simp: InWorkspace_def lift_verb_def planWork_def phases_bounded_def
          split: sum.splits prod.splits option.splits)
    ultimately show ?thesis
      using assms(1) i p by (auto simp: ent1_def chain_ent_def chain_enter_at enter_launching_def)
  qed
qed

lemma launch_reaches:
  assumes ctx: "never_cancelled D" and b: "phases_bounded D b"
  shows "reaches D (1 + 2 * b) nameChainLaunchNodes r stepStart (spec_launch D r)"
proof -
  let ?n = nameChainLaunchNodes
  obtain r1 x where e: "ent1 D ?n r = (r1, x)" by fastforce
  have a: "arrived D ?n r = (?n, [x], r1)" using arrived_message [of ?n D r] e by (simp add: resting_def)
  have "chainWhat x \<in> {eventLaunchPlanned, eventStageFailed}"
    using ent1_what [of ?n D r] e by (simp add: resting_def emitsOf_def chain_contracts)
  then consider t err where "x = stageFailed t err" | k where "x = launchPlanned k" using what_inv by blast
  then show ?thesis
  proof cases
    case 1
    then have "reaches D (1 + 2 * b) ?n r stepStart (ent1 D ?n r)"
      by (intro reaches_here) (simp_all add: e reported_def underUp_def resting_def)
    then show ?thesis using e 1 by (simp add: spec_launch_def)
  next
    case 2
    have r1: "ln_at r1 = 0" "length (ln_phases r1) \<le> b" using launch_planned [OF e [unfolded 2] b] by simp_all
    have l: "chain.leads D 1 (arrived D ?n r) (arrived D (launch_next r1) r1)"
      by (rule leads_launch [OF ctx a, where r' = r1]) (use 2 in \<open>simp_all add: process_launching_def\<close>)
    have "reaches D (2 * length (ln_phases r1)) (launch_next r1) r1 stepStart (spec_phases D (ln_phases r1) r1)"
      by (rule phases_reach [OF ctx, where pre = "[]"]) (use r1 in simp_all)
    from reaches_mono [OF reaches_step [OF l this], of "1 + 2 * b"] show ?thesis
      using e 2 r1(2) by (simp add: spec_launch_def)
  qed
qed

text \<open>Every step of the ladder, with the state that runs it.\<close>

lemma steps_neq [simp]:
  "distinct [stepNew, stepPlace, stepKeys, stepGenesis, stepConfig, stepBuild, stepDeploy, stepInit, stepStart]"
  "distinct [stepStart, stepInit, stepDeploy, stepBuild, stepConfig, stepGenesis, stepKeys, stepPlace, stepNew]"
  by (simp_all add: step_names)

lemmas step_neq [simp] = steps_neq [simplified]

lemma spec_stage_at:
  "spec_stage D stepNew r = ent1 D nameChainOpenWorkspace r"
  "spec_stage D stepPlace r = ent1 D nameChainBuildNodeTable r"
  "spec_stage D stepKeys r = spec_keys D r"
  "spec_stage D stepGenesis r = spec_genesis D r"
  "spec_stage D stepConfig r = ent1 D nameChainBuildNodeConfig r"
  "spec_stage D stepBuild r = ent1 D nameChainBuildNodeCommand r"
  "spec_stage D stepDeploy r = spec_deploy D r"
  "spec_stage D stepInit r = ent1 D nameChainInitNodes r"
  "spec_stage D stepStart r = spec_launch D r"
  by (simp_all add: spec_stage_def stageOrder_def)

lemma stage_cases:
  assumes "(s, n) \<in> set stageOrder"
  obtains "s = stepNew" "n = nameChainOpenWorkspace" | "s = stepPlace" "n = nameChainBuildNodeTable"
    | "s = stepKeys" "n = nameChainEnsureKeys" | "s = stepGenesis" "n = nameChainBuildGenesis"
    | "s = stepConfig" "n = nameChainBuildNodeConfig" | "s = stepBuild" "n = nameChainBuildNodeCommand"
    | "s = stepDeploy" "n = nameChainDeployNodes" | "s = stepInit" "n = nameChainInitNodes"
    | "s = stepStart" "n = nameChainLaunchNodes"
  using assms unfolding stageOrder_def by (simp only: list.set insert_iff empty_iff prod.inject) blast

lemma stage_reaches:
  assumes "never_cancelled D" "phases_bounded D b" "(s, n) \<in> set stageOrder"
  shows "reaches D (if s = stepStart then 1 + 2 * b else 1) n r s (spec_stage D s r)"
  using assms(3)
proof (cases rule: stage_cases)
  case 3 then show ?thesis using keys_reaches [OF assms(1), of r] by (simp add: spec_stage_at)
next
  case 4 then show ?thesis using genesis_reaches [OF assms(1), of r] by (simp add: spec_stage_at)
next
  case 7 then show ?thesis using deploy_reaches [OF assms(1), of r] by (simp add: spec_stage_at)
next
  case 9 then show ?thesis using launch_reaches [OF assms(1,2), of r] by (simp add: spec_stage_at)
qed (simp_all add: spec_stage_at reaches_here underUp_def resting_def simple_reported)


section \<open>The walk through a composition\<close>

definition finishes ::
  "('v, 'x) deps \<Rightarrow> nat \<Rightarrow> StateName \<times> 'v chainMsg list \<times> ('v, 'x) manager \<Rightarrow> ('v, 'x) manager \<times> StateName \<Rightarrow> bool"
where
  "finishes D k c out \<longleftrightarrow> (\<exists>j \<le> k. chain.leads D j c (snd out, [], fst out))"

lemma finishes_trans:
  assumes "chain.leads D j c c'" "finishes D k c' out" "j + k \<le> m"
  shows "finishes D m c out"
proof -
  obtain i where "i \<le> k" "chain.leads D i c' (snd out, [], fst out)" using assms(2) by (auto simp: finishes_def)
  then show ?thesis using chain.leads_trans [OF assms(1)] assms(3) unfolding finishes_def by (meson add_left_mono le_trans)
qed

lemma finishes_rest:
  assumes "n \<in> {nameChainReady, nameChainBuildUpStoppedAtStep, nameChainStopped, nameChainRemoved, nameChainFailed}"
  shows "finishes D k (arrived D n r) (fst (chain_ent D n r), n)"
proof -
  have "snd (chain_ent D n r) = []"
  proof (cases "n = nameChainFailed")
    case False
    then show ?thesis using assms by (auto simp: chain_ent_def chain_enter_at enter_resting_def)
  qed simp
  then show ?thesis using chain.leads_refl [of D "(n, [], fst (chain_ent D n r))"]
    by (auto simp: finishes_def arrived_def intro!: exI [of _ 0])
qed

lemma finishes_failed:
  assumes "never_cancelled D" "l \<in> set chainNames" "l \<noteq> nameChainFailed" "x = stageFailed s e" "1 \<le> k"
  shows "finishes D k (l, [x], r) (spec_failed x r)"
proof -
  have "chain.leads D 1 (l, [x], r)
      (arrived D nameChainFailed (r\<lparr>mg_failure := Some e, failStatus := FailureStatus s (Some e)\<rparr>))"
    using assms(4) answer_failed [OF assms(2,3)] assms(2)
    by (intro leads_move [OF assms(1), where p = nameChain and rest = "[]"])
      (auto simp: chain_ancestors chainNames_def)
  from finishes_trans [OF this finishes_rest [where k = 0], of k] show ?thesis
    using assms(4,5) by (simp add: spec_failed_def)
qed

text \<open>What a report leads to: the state the composing state chooses.\<close>

lemma dest_ancestors:
  assumes "d \<in> insert nameChainBuildUpStoppedAtStep (insert (after r s) (snd ` set stageOrder))"
  obtains p rest where "ancestors chainTree d = d # p # rest" "p \<in> {nameChainBuildUp, nameChain}"
proof -
  have "after r s \<in> {nameChainBuildUpStoppedAtStep, nameChainReconcile, nameChainReady} \<union> snd ` set stageOrder"
    by (simp add: after_def stageOrder_def)
  then have "d \<in> {nameChainBuildUpStoppedAtStep, nameChainReconcile, nameChainReady} \<union> snd ` set stageOrder"
    using assms by blast
  then show thesis using that by (auto simp: stageOrder_def chain_ancestors)
qed

lemma leads_report:
  assumes "never_cancelled D" "l \<in> set underUp" "stageReport x = Some (s, d)"
    and r2: "r2 = note_step s d r"
  shows "chain.leads D 1 (l, [x], r) (arrived D (if only r2 \<noteq> '''' then nameChainBuildUpStoppedAtStep else after r2 s) r2)"
    (is "chain.leads _ _ _ (arrived _ ?d _)")
proof -
  obtain p rest where anc: "ancestors chainTree ?d = ?d # p # rest" "p \<in> {nameChainBuildUp, nameChain}"
    by (rule dest_ancestors [where d = ?d and r = r2 and s = s]) auto
  show ?thesis
    by (rule leads_move [OF assms(1) _ anc(1)])
      (use assms answer_composing [of x l D r] underUp_ancestors [OF assms(2)] anc(2) in
        \<open>auto simp: forComposing_def process_composingState_def Let_def\<close>)
qed

lemma suffix_next:
  assumes "suffix ((s, n) # rest) stageOrder"
  shows "(s, n) \<in> set stageOrder" and "suffix rest stageOrder"
    and "nextStage stageOrder s = (case rest of [] \<Rightarrow> nameChainReady | (s', n') # _ \<Rightarrow> n')"
    and "s = stepStart \<longleftrightarrow> rest = []"
    and "s = stepKeys \<Longrightarrow> \<exists>rest'. rest = (stepGenesis, nameChainBuildGenesis) # rest'"
proof -
  show "(s, n) \<in> set stageOrder" using set_mono_suffix [OF assms] by simp
  show "suffix rest stageOrder" by (rule suffix_ConsD [OF assms])
  have "\<exists>i < length stageOrder. (s, n) # rest = drop i stageOrder"
    using assms unfolding suffix_def
    by (metis append_eq_conv_conj length_append length_greater_0_conv less_add_same_cancel1 list.distinct(1))
  moreover have "length stageOrder = 9" by (simp add: stageOrder_def)
  ultimately obtain i where i: "i < 9" "(s, n) # rest = drop i stageOrder" by metis
  then have "i \<in> {0, 1, 2, 3, 4, 5, 6, 7, 8}" by auto
  then have "nextStage stageOrder s = (case rest of [] \<Rightarrow> nameChainReady | (s', n') # _ \<Rightarrow> n')
    \<and> (s = stepStart \<longleftrightarrow> rest = []) \<and> (s = stepKeys \<longrightarrow> (\<exists>rest'. rest = (stepGenesis, nameChainBuildGenesis) # rest'))"
    using i(2) by (elim insertE emptyE) (simp_all add: stageOrder_def)
  then show "nextStage stageOrder s = (case rest of [] \<Rightarrow> nameChainReady | (s', n') # _ \<Rightarrow> n')"
    "s = stepStart \<longleftrightarrow> rest = []" "s = stepKeys \<Longrightarrow> \<exists>rest'. rest = (stepGenesis, nameChainBuildGenesis) # rest'"
    by blast+
qed

lemma reconcile_finishes:
  assumes ctx: "never_cancelled D"
    and go: "\<And>r3. finishes D k (arrived D nameChainBuildGenesis r3) (spec_up D rest r3)"
  shows "finishes D (1 + k) (arrived D nameChainReconcile r)
    (case ent1 D nameChainReconcile r of (r3, reconciled kept) \<Rightarrow> spec_up D rest r3 | (r3, x3) \<Rightarrow> spec_failed x3 r3)"
proof -
  let ?n = nameChainReconcile
  obtain r3 x where e: "ent1 D ?n r = (r3, x)" by fastforce
  have a: "arrived D ?n r = (?n, [x], r3)" using arrived_message [of ?n D r] e by (simp add: resting_def)
  have ans: "forComposing x \<Longrightarrow> chain.answer D (ancestors chainTree ?n) r3 x = Some (nameChainBuildUp, process_composingState D r3 x)"
    by (rule answer_composing) (simp_all add: underUp_def)
  have "chainWhat x \<in> {eventReconciled, eventReconcileRefused, eventStageFailed}"
    using ent1_what [of ?n D r] e by (simp add: resting_def emitsOf_def chain_contracts)
  then consider t err where "x = stageFailed t err" | b where "x = reconciled b" | "x = reconcileRefused"
    by (cases x) (auto simp: chain_whats)
  then show ?thesis
  proof cases
    case 1
    then show ?thesis using finishes_failed [OF ctx, of ?n x t err "1 + k" r3] a e by simp
  next
    case 2
    have "chain.leads D 1 (?n, [x], r3) (arrived D nameChainBuildGenesis r3)"
      by (rule leads_move [OF ctx, where p = nameChainBuildUp and rest = "[nameChain]"])
        (use ans 2 in \<open>simp_all add: forComposing_def process_composingState_def stageFor_def stageOrder_def
          chain_ancestors step_names\<close>)
    from finishes_trans [OF this [folded a] go] show ?thesis using e 2 by simp
  next
    case 3
    have "chain.leads D 1 (?n, [x], r3) (arrived D nameChainFailed r3)"
      by (rule leads_move [OF ctx, where p = nameChain and rest = "[]"])
        (use ans 3 in \<open>simp_all add: forComposing_def process_composingState_def chain_ancestors\<close>)
    from finishes_trans [OF this [folded a] finishes_rest [where k = 0], of "1 + k"] show ?thesis
      using e 3 by (simp add: spec_failed_def)
  qed
qed

lemma up_step:
  assumes ctx: "never_cancelled D" and b: "phases_bounded D b" and sx: "suffix ((s, n) # rest) stageOrder"
    and go: "\<And>s' n' rest' r. rest = (s', n') # rest' \<Longrightarrow> finishes D k (arrived D n' r) (spec_up D rest r)"
    and m: "(if rest = [] then 2 + 2 * b else 4 + k) \<le> m"
  shows "finishes D m (arrived D n r) (spec_up D ((s, n) # rest) r)"
proof -
  obtain r1 x where sp: "spec_stage D s r = (r1, x)" by fastforce
  from stage_reaches [OF ctx b suffix_next(1) [OF sx], of r] sp
  obtain j l where j: "j \<le> (if s = stepStart then 1 + 2 * b else 1)" and l: "l \<in> set underUp"
    and lead: "chain.leads D j (arrived D n r) (l, [x], r1)" and rep: "reported s x"
    by (auto simp: reaches_def split: if_splits)
  have jm: "j + (if rest = [] then 1 else 3 + k) \<le> m" using j m suffix_next(4) [OF sx] by (auto split: if_splits)
  have names: "l \<in> set chainNames" "l \<noteq> nameChainFailed" using l by (auto simp: underUp_def)
  show ?thesis
  proof (cases "stageReport x")
    case None
    then obtain t e where "x = stageFailed t e" using rep by (auto simp: reported_def)
    from finishes_trans [OF lead finishes_failed [OF ctx names this le_refl]] show ?thesis
      using jm sp None by (simp split: if_splits)
  next
    case (Some sd)
    then obtain d where d: "stageReport x = Some (s, d)" using rep by (auto simp: reported_def)
    define r2 where "r2 = note_step s d r1"
    let ?d = "if only r2 \<noteq> '''' then nameChainBuildUpStoppedAtStep else after r2 s"
    have to: "chain.leads D (j + 1) (arrived D n r) (arrived D ?d r2)"
      using chain.leads_trans [OF lead leads_report [OF ctx l d r2_def]] .
    consider "only r2 \<noteq> '''' \<or> s = stopAfter r2" | "only r2 = ''''" "s \<noteq> stopAfter r2" "s = stepKeys" "reusing r2"
      | "only r2 = ''''" "s \<noteq> stopAfter r2" "\<not> (s = stepKeys \<and> reusing r2)" by blast
    then show ?thesis
    proof cases
      case 1
      then have "?d = nameChainBuildUpStoppedAtStep" by (auto simp: after_def)
      moreover have "spec_up D ((s, n) # rest) r
          = (fst (chain_ent D nameChainBuildUpStoppedAtStep r2), nameChainBuildUpStoppedAtStep)"
        using 1 sp d by (simp add: r2_def Let_def)
      ultimately show ?thesis
        using finishes_trans [OF to, of 0] finishes_rest [of nameChainBuildUpStoppedAtStep D 0 r2] jm
        by (simp split: if_splits)
    next
      case 2
      then have dd: "?d = nameChainReconcile" by (auto simp: after_def)
      obtain rest' where rest: "rest = (stepGenesis, nameChainBuildGenesis) # rest'" using suffix_next(5) [OF sx 2(3)] ..
      have "finishes D (1 + k) (arrived D nameChainReconcile r2) (spec_up D ((s, n) # rest) r)"
        using reconcile_finishes [OF ctx go [OF rest], of r2] 2 sp d by (simp add: r2_def Let_def)
      then show ?thesis using finishes_trans [OF to] dd jm rest by simp
    next
      case 3
      then have dd: "?d = nextStage stageOrder s" by (auto simp: after_def)
      have up: "spec_up D ((s, n) # rest) r = spec_up D rest r2" using 3 sp d by (auto simp: r2_def Let_def)
      show ?thesis
      proof (cases rest)
        case Nil
        then show ?thesis
          using finishes_trans [OF to, of 0] finishes_rest [of nameChainReady D 0 r2] dd up jm suffix_next(3) [OF sx]
          by simp
      next
        case (Cons sn rest')
        obtain s' n' where sn: "sn = (s', n')" by fastforce
        then show ?thesis
          using finishes_trans [OF to, of k] go [of s' n' rest' r2] dd up jm suffix_next(3) [OF sx] Cons by simp
      qed
    qed
  qed
qed

lemma up_finishes:
  assumes "never_cancelled D" "phases_bounded D b"
  shows "suffix ((s, n) # rest) stageOrder \<Longrightarrow>
    finishes D (4 * length rest + 2 + 2 * b) (arrived D n r) (spec_up D ((s, n) # rest) r)"
proof (induction rest arbitrary: s n r)
  case Nil
  then show ?case by (intro up_step [OF assms]) simp_all
next
  case (Cons sn rest)
  show ?case
  proof (rule up_step [OF assms Cons.prems, where k = "4 * length rest + 2 + 2 * b"])
    show "finishes D (4 * length rest + 2 + 2 * b) (arrived D n' r') (spec_up D (sn # rest) r')"
      if "sn # rest = (s', n') # rest'" for s' n' rest' r'
      using Cons.IH [of s' n' r'] suffix_next(2) Cons.prems that by (metis list.inject)
  qed simp
qed


section \<open>The entry points\<close>

lemma Start_not_sending:
  "Start C m w (Some n) = (m', w', None) \<Longrightarrow> \<not> m_sending m'"
  by (auto simp: Start_def Let_def split: if_splits option.splits prod.splits)

lemma start_idle:
  obtains m where "Start (chainClient D) newManager r (Some nameChainIdle) = (m, r, None)"
    "chain.standing m nameChainIdle []" "\<not> m_sending m"
proof -
  have "ancestors chainTree '''' = []"
    by (simp add: ancestors_def chainTree_info chainNames_def)
  then have "chain.enterAll D (entryPath chainTree '''' nameChainIdle) r = (r, [])"
    by (simp add: entryPath_def chain_ancestors)
  moreover have "chain.walk D maxDispatchPerSend nameChainIdle [] r = Rested nameChainIdle r"
    by (simp add: maxDispatchPerSend_def numeral_eq_Suc)
  moreover have "nameChainIdle \<in> dom (m_info chainTree)" by (simp add: chainTree_dom)
  ultimately have "chain.does (Start (chainClient D) newManager r (Some nameChainIdle)) (Rested nameChainIdle r)"
    using chain.start_walk [OF chain_fresh] by metis
  then obtain m where "Start (chainClient D) newManager r (Some nameChainIdle) = (m, r, None)"
    "chain.standing m nameChainIdle []" unfolding chain.does_def by auto
  with that [OF this Start_not_sending] show thesis by blast
qed

text \<open>An entry point whose message the walk brings to rest returns what the walk does.\<close>

lemma runFrom_finishes:
  assumes "finishes D 1000 (nameChainIdle, [x], r) out"
  shows "\<exists>m. runFrom D newManager r x names = (m, fst out, chain_ends m (fst out) names) \<and> m_current m = snd out"
proof -
  obtain m where m: "Start (chainClient D) newManager r (Some nameChainIdle) = (m, r, None)"
    "chain.standing m nameChainIdle []" "\<not> m_sending m" by (rule start_idle)
  have "chain.walk D (Suc maxDispatchPerSend) nameChainIdle [x] r = Rested (snd out) (fst out)"
    using assms chain.leads_rested by (fastforce simp: finishes_def maxDispatchPerSend_def)
  then have "chain.does (Send (chainClient D) m r (Some x)) (Rested (snd out) (fst out))"
    using chain.send_walk [OF m(2) _ m(3), of D r x] by simp
  then obtain m' where "Send (chainClient D) m r (Some x) = (m', fst out, None)" "chain.standing m' (snd out) []"
    unfolding chain.does_def by auto
  then show ?thesis using m(1) by (auto simp: runFrom_def chain.standing_def)
qed

lemma chain_ends_at:
  "m_current m \<in> set names \<Longrightarrow> chain_ends m r names = map_option Failure (mg_failure r)"
  by (auto simp: chain_ends_def RequireAt_def split: option.splits)

lemma spec_failed_at: "snd (spec_failed x r) = nameChainFailed"
  by (simp add: spec_failed_def split: chainMsg.splits)

lemma spec_up_at: "snd (spec_up D rows r) \<in> {nameChainReady, nameChainBuildUpStoppedAtStep, nameChainFailed}"
  by (induction D rows r rule: spec_up.induct)
    (auto simp: Let_def spec_failed_at split: prod.splits option.splits chainMsg.splits)

text \<open>Leaving idle for a stage enters the composing state on the way.\<close>

lemma leads_first:
  assumes "never_cancelled D" "process_stoppedState D r x = Moves r1 n" "(s, n) \<in> set stageOrder"
  shows "chain.leads D 1 (nameChainIdle, [x], r) (arrived D n r1)"
proof -
  have "entryPath chainTree nameChainIdle n = [nameChainBuildUp, n]"
    using assms(3) by (cases rule: stage_cases) (simp_all add: entryPath_def chain_ancestors)
  then show ?thesis unfolding arrived_def
    by (intro chain.leads_moves) (use assms in
      \<open>auto simp: never_cancelled_def chainClient_def chain_ancestors chain_process_at split: prod.splits\<close>)
qed

lemma stageFor_rows:
  assumes "stageFor from = Inr n"
  obtains s rest where "dropWhile (\<lambda>(s, n). from \<noteq> '''' \<and> s \<noteq> from) stageOrder = (s, n) # rest"
    "suffix ((s, n) # rest) stageOrder"
proof -
  let ?rows = "dropWhile (\<lambda>(s, n). from \<noteq> '''' \<and> s \<noteq> from) stageOrder"
  have sx: "suffix ?rows stageOrder" by (rule suffix_dropWhile)
  show thesis
  proof (cases "from = ''''")
    case True
    then have "n = nameChainOpenWorkspace" "?rows = stageOrder" using assms by (simp_all add: stageFor_def dropWhile_eq_self_iff)
    then show thesis using that sx by (simp add: stageOrder_def)
  next
    case False
    then have "map_of stageOrder from = Some n" using assms by (simp add: stageFor_def split: option.splits)
    then have "(from, n) \<in> set stageOrder" by (rule map_of_SomeD)
    then have "\<exists>rest. ?rows = (from, n) # rest" using False
      by (cases rule: stage_cases) (simp_all add: stageOrder_def)
    then show thesis using that sx by metis
  qed
qed

lemma compose_is_spec:
  assumes "never_cancelled D" "phases_bounded D 400"
  shows "case stageFor from of
      Inl err \<Rightarrow> Manager_Compose D newManager r req from = (newManager, r, Some (Refused err))
    | Inr n \<Rightarrow> (\<exists>m. Manager_Compose D newManager r req from
        = (m, fst (spec_compose D r req from), map_option Failure (mg_failure (fst (spec_compose D r req from))))
        \<and> m_current m = snd (spec_compose D r req from)
        \<and> m_current m \<in> {nameChainReady, nameChainBuildUpStoppedAtStep, nameChainFailed})"
proof (cases "stageFor from")
  case (Inl err)
  then show ?thesis by (simp add: Manager_Compose_def)
next
  case (Inr n)
  let ?r = "r\<lparr>stopAfter := stopAfterFor (rq_Stage req)\<rparr>" and ?out = "spec_compose D r req from"
  let ?names = "[nameChainReady, nameChainBuildUpStoppedAtStep, nameChainFailed]"
  obtain s rest where rows: "dropWhile (\<lambda>(s, n). from \<noteq> '''' \<and> s \<noteq> from) stageOrder = (s, n) # rest"
    "suffix ((s, n) # rest) stageOrder" using stageFor_rows [OF Inr] .
  have len: "length rest \<le> 8" using rows(2) suffix_length_le by (fastforce simp: stageOrder_def)
  have "chain.leads D 1 (nameChainIdle, [Compose req from], ?r) (arrived D n (?r\<lparr>request := req\<rparr>))"
    by (rule leads_first [OF assms(1) _ suffix_next(1) [OF rows(2)]]) (simp add: process_stoppedState_def Inr)
  from finishes_trans [OF this up_finishes [OF assms rows(2)], of 1000]
  have "finishes D 1000 (nameChainIdle, [Compose req from], ?r) ?out"
    using len rows(1) by (simp add: spec_compose_def)
  from runFrom_finishes [OF this, of ?names] obtain m where
    m: "runFrom D newManager ?r (Compose req from) ?names = (m, fst ?out, chain_ends m (fst ?out) ?names)"
      "m_current m = snd ?out" by blast
  have at: "snd ?out \<in> {nameChainReady, nameChainBuildUpStoppedAtStep, nameChainFailed}"
    unfolding spec_compose_def by (rule spec_up_at)
  then have "chain_ends m (fst ?out) ?names = map_option Failure (mg_failure (fst ?out))"
    using m(2) by (intro chain_ends_at) auto
  then show ?thesis using m at Inr by (simp add: Manager_Compose_def)
qed

text \<open>
  Property C6. Composing does what its stages do one after the other. For whatever the work of the stages
  does, as long as the context is not cancelled and a launch plan has at most 400 phases (the machine takes
  at most 1000 messages in one \<open>Send\<close>), \<open>Compose\<close> ends with the manager, the record, the outside and the
  reported lines of the straight-line program \<open>spec_compose\<close>, returns that program's failure and nothing
  else, and rests where it ends: ready, stopped at the step asked for, or failed. A step that does not exist
  is refused before anything runs.
\<close>

theorem composition_refines_straight_line:
  assumes "never_cancelled D" "phases_bounded D 400"
  shows "case stageFor from of
      Inl err \<Rightarrow> Manager_Compose D newManager r req from = (newManager, r, Some (Refused err))
    | Inr n \<Rightarrow> (\<exists>m. Manager_Compose D newManager r req from
        = (m, fst (spec_compose D r req from), map_option Failure (mg_failure (fst (spec_compose D r req from))))
        \<and> m_current m = snd (spec_compose D r req from)
        \<and> m_current m \<in> {nameChainReady, nameChainBuildUpStoppedAtStep, nameChainFailed})"
  using compose_is_spec [OF assms] .

end
