(* ===== verification/Chain_Resume.thy ===== *)
theory Chain_Resume
  imports Chain_Laws
begin

text \<open>
  What a composition that failed leaves: its record names the stage that did not finish and how it failed,
  a resume begins there, and a launch that failed has taken down the nodes it started, or says that it
  could not.
\<close>


section \<open>A composition that fails\<close>

text \<open>
  What the record relies on: it opens as it was saved, saving succeeds, and no verb writes the position
  (in the source only \<open>SetStatePath\<close> does).
\<close>

definition keepsPath :: "('x, 'r) verb \<Rightarrow> bool" where
  "keepsPath v \<longleftrightarrow> (\<forall>w x. ws_StatePath (fst (v w x)) = ws_StatePath w)"

definition record_kept :: "('v, 'x) deps \<Rightarrow> bool" where
  "record_kept D \<longleftrightarrow>
     (\<forall>w x. c_open D w x = Inr w) \<and> (\<forall>w x. snd (c_save D w x) = None)
     \<and> (\<forall>q. keepsPath (c_New D q)) \<and> (\<forall>q. keepsPath (c_PlaceNodes D q)) \<and> (\<forall>o'. keepsPath (c_keySource D o'))
     \<and> (\<forall>s n. keepsPath (c_EnsureKeys D s n)) \<and> keepsPath (c_CheckFreeSpace D) \<and> (\<forall>o'. keepsPath (c_Genesis D o'))
     \<and> (\<forall>q s. keepsPath (c_RecordConfigSet D q s)) \<and> keepsPath (c_Config D)
     \<and> (\<forall>q s. keepsPath (c_RecordLaunchSet D q s)) \<and> (\<forall>q. keepsPath (c_RecordLaunchCommand D q))
     \<and> keepsPath (c_LaunchOpts D) \<and> keepsPath (c_Provision D) \<and> (\<forall>b. keepsPath (c_Init D b))
     \<and> (\<forall>b. keepsPath (c_LaunchPlan D b)) \<and> (\<forall>b p. keepsPath (c_StartPhase D b p))
     \<and> (\<forall>b p. keepsPath (c_RunPhaseActions D b p)) \<and> (\<forall>b n. keepsPath (c_FinishLaunch D b n))"

lemma record_keptD:
  assumes "record_kept D"
  shows "c_open D w x = Inr w" "snd (c_save D w x) = None"
    "keepsPath (c_New D q)" "keepsPath (c_PlaceNodes D q)" "keepsPath (c_keySource D o')"
    "keepsPath (c_EnsureKeys D s n)" "keepsPath (c_CheckFreeSpace D)" "keepsPath (c_Genesis D g)"
    "keepsPath (c_RecordConfigSet D q c)" "keepsPath (c_Config D)" "keepsPath (c_RecordLaunchSet D q c)"
    "keepsPath (c_RecordLaunchCommand D q)" "keepsPath (c_LaunchOpts D)" "keepsPath (c_Provision D)"
    "keepsPath (c_Init D b)" "keepsPath (c_LaunchPlan D b)" "keepsPath (c_StartPhase D b p)"
    "keepsPath (c_RunPhaseActions D b p)" "keepsPath (c_FinishLaunch D b k)"
  using assms by (simp_all add: record_kept_def)

abbreviation position :: "('v, 'x) manager \<Rightarrow> string" where
  "position r \<equiv> ws_StatePath (disk r)"

lemma position_record:
  assumes "record_kept D"
  shows "position (recordPath D p r) = p"
  using record_keptD(1,2) [OF assms]
  by (auto simp: recordPath_def SetStatePath_def Let_def split: prod.splits option.splits)
    (metis option.distinct(1) snd_conv)

lemma position_InWorkspace:
  assumes "record_kept D" "keepsPath v" "InWorkspace D (lift_verb v) r = (r', out)"
  shows "position r' = position r"
proof -
  have "snd (c_save D w x) = None" for w x by (rule record_keptD(2) [OF assms(1)])
  then have "c_save D w x = (x', Some e) \<Longrightarrow> False" for w x x' e by (metis option.distinct(1) snd_conv)
  moreover have "v w x = (w', x', out') \<Longrightarrow> ws_StatePath w' = ws_StatePath w" for w x w' x' out'
    using assms(2) unfolding keepsPath_def by (metis fst_conv)
  ultimately show ?thesis
    using assms(3) record_keptD(1) [OF assms(1)]
    by (auto simp: InWorkspace_def lift_verb_def split: prod.splits option.splits)
qed

lemma position_mark: "record_kept D \<Longrightarrow> position (markFailed D s e r) = position r"
  by (auto simp: markFailed_def record_keptD(1) MarkStepFailed_def Let_def split: prod.splits option.splits)

lemma position_fail: "record_kept D \<Longrightarrow> position (fst (fail_stage D s e r)) = position r"
  by (simp add: fail_stage_def position_mark)

lemma position_note [simp]: "position (note_step s d r) = position r"
  by (simp add: note_step_def)

lemma keepsPath_rollback: "keepsPath (RollBackLaunch D was)"
  by (auto simp: keepsPath_def RollBackLaunch_def stopNodes_def split: prod.splits)

lemma position_failLaunch:
  assumes "record_kept D" shows "position (fst (failLaunch D e r)) = position r"
proof -
  obtain r1 out where i: "InWorkspace D (lift_verb (RollBackLaunch D (wasRunning r))) r = (r1, out)" by fastforce
  have "position r1 = position r" by (rule position_InWorkspace [OF assms keepsPath_rollback i])
  then show ?thesis using i assms by (simp add: failLaunch_def position_fail split: sum.splits)
qed

lemma keepsPath_works:
  assumes "record_kept D"
  shows "keepsPath (newWork D q)" "keepsPath (configWork D q)" "keepsPath (commandWork D q)" "keepsPath (planWork D b)"
proof -
  have scopes: "\<forall>s. keepsPath (rec s) \<Longrightarrow> ws_StatePath (fst (recordScopes rec what ss w x)) = ws_StatePath w"
    for rec what ss w and x :: 'b
  proof (induction rec what ss w x rule: recordScopes.induct)
    case (2 rec what s ss w x)
    obtain w1 x1 out where e: "rec s w x = (w1, x1, out)" using prod_cases3 by blast
    then have "ws_StatePath w1 = ws_StatePath w" using 2(2) by (metis fst_conv keepsPath_def)
    then show ?case using 2(1) [OF e [symmetric]] 2(2) e by (auto split: sum.splits)
  qed simp
  note k = record_keptD [OF assms, unfolded keepsPath_def]
  have c: "ws_StatePath (fst (recordScopes (c_RecordConfigSet D q) what ss w x)) = ws_StatePath w"
    "ws_StatePath (fst (recordScopes (c_RecordLaunchSet D q) what ss w x)) = ws_StatePath w" for what ss w x
    using scopes record_keptD(9,11) [OF assms] by blast+
  show "keepsPath (newWork D q)" unfolding keepsPath_def newWork_def RecordRequest_def
    using k(3) by (auto split: prod.splits sum.splits) (metis fst_conv)+
  show "keepsPath (configWork D q)" unfolding keepsPath_def configWork_def
    using k(10) c(1) by (auto split: prod.splits sum.splits) (metis fst_conv)+
  show "keepsPath (commandWork D q)" unfolding keepsPath_def commandWork_def
    using k(12,13) c(2) by (auto split: prod.splits sum.splits) (metis fst_conv)+
  show "keepsPath (planWork D b)" unfolding keepsPath_def planWork_def
    using k(16) by (auto split: prod.splits sum.splits) (metis fst_conv)+
qed


text \<open>A state of the composition records its position on the way in, and its work leaves it there.\<close>

lemma position_ended:
  assumes "record_kept D" "keepsPath v" "position r = p"
  shows "position (fst (ended D s report (InWorkspace D (lift_verb v) r))) = p"
proof -
  obtain r1 out where i: "InWorkspace D (lift_verb v) r = (r1, out)" by fastforce
  have "position r1 = p" using position_InWorkspace [OF assms(1,2) i] assms(3) by simp
  then show ?thesis using i assms(1) by (simp add: ended_def position_fail split: sum.splits)
qed

lemma position_worked:
  assumes "record_kept D" "keepsPath v" "position r = p"
    and "\<And>r' e. position (fst (f e r')) = position r'" "\<And>r' y. position (fst (g y r')) = position r'"
  shows "position (fst (case InWorkspace D (lift_verb v) r of (r', Inl e) \<Rightarrow> f e r' | (r', Inr y) \<Rightarrow> g y r')) = p"
proof -
  obtain r1 out where i: "InWorkspace D (lift_verb v) r = (r1, out)" by fastforce
  have "position r1 = p" using position_InWorkspace [OF assms(1,2) i] assms(3) by simp
  then show ?thesis using i assms(4,5) by (simp split: sum.splits)
qed

lemma position_onDisk: "keepsPath v \<Longrightarrow> position (fst (onDisk v r)) = position r"
proof -
  assume "keepsPath v"
  then have "ws_StatePath (fst (v (disk r) (beyond r))) = position r" by (simp add: keepsPath_def)
  then show ?thesis by (auto simp: onDisk_def split: prod.splits)
qed

lemma enter_positions:
  assumes k: "record_kept D"
  shows "position (fst (enter_openingWorkspace D p r)) = p" "position (fst (enter_buildingNodeTable D p r)) = p"
    "position (fst (enter_ensuringKeys D p r)) = p" "position (fst (enter_keysLeaf D p r)) = p"
    "position (fst (enter_buildingGenesis D p r)) = p" "position (fst (enter_genesisLeaf D p r)) = p"
    "position (fst (enter_buildingNodeConfig D p r)) = p" "position (fst (enter_buildingNodeCommand D p r)) = p"
    "position (fst (enter_deployingInputs D p r)) = p" "position (fst (enter_deployOutcome det D p r)) = p"
    "position (fst (enter_initializingDatadirs D p r)) = p" "position (fst (enter_launching D p r)) = p"
    "position (fst (enter_launchingPhase D p r)) = p" "position (fst (enter_runningPhaseActions D p r)) = p"
    "position (fst (enter_recordingRun D p r)) = p"
proof -
  note at = position_record [OF k] and K = record_keptD [OF k] and W = keepsPath_works [OF k]
  note F = position_fail [OF k] position_failLaunch [OF k]
  show "position (fst (enter_openingWorkspace D p r)) = p" "position (fst (enter_keysLeaf D p r)) = p"
    "position (fst (enter_genesisLeaf D p r)) = p" "position (fst (enter_buildingNodeConfig D p r)) = p"
    "position (fst (enter_buildingNodeCommand D p r)) = p" "position (fst (enter_initializingDatadirs D p r)) = p"
    unfolding enter_openingWorkspace_def enter_keysLeaf_def enter_genesisLeaf_def enter_buildingNodeConfig_def
      enter_buildingNodeCommand_def enter_initializingDatadirs_def
    by (simp_all add: position_ended [OF k] K W at)
  show "position (fst (enter_buildingNodeTable D p r)) = p"
    using position_onDisk [OF K(4), of "request r" "recordPath D p r"] at
    by (auto simp: enter_buildingNodeTable_def ended_def F split: prod.splits sum.splits)
  show "position (fst (enter_deployOutcome det D p r)) = p" by (simp add: enter_deployOutcome_def at)
  show "position (fst (enter_deployingInputs D p r)) = p"
    using position_InWorkspace [OF k K(14)] at
    by (auto simp: enter_deployingInputs_def F split: prod.splits sum.splits)
  show "position (fst (enter_launchingPhase D p r)) = p" "position (fst (enter_runningPhaseActions D p r)) = p"
    "position (fst (enter_recordingRun D p r)) = p"
    unfolding enter_launchingPhase_def enter_runningPhaseActions_def enter_recordingRun_def Let_def
    by (simp_all add: position_worked [OF k] K at F)
  show "position (fst (enter_ensuringKeys D p r)) = p"
    using position_InWorkspace [OF k K(5)] at
    by (auto simp: enter_ensuringKeys_def Let_def F split: prod.splits sum.splits)
  show "position (fst (enter_buildingGenesis D p r)) = p"
    using position_InWorkspace [OF k K(7)] at
    by (auto simp: enter_buildingGenesis_def Let_def F split: prod.splits sum.splits)
  show "position (fst (enter_launching D p r)) = p"
    using position_InWorkspace [OF k W(4)] at
    by (auto simp: enter_launching_def Let_def F split: prod.splits sum.splits)
qed


text \<open>How a stage of the composition fails: through \<open>fail\<close>, under its own step.\<close>

definition stepAt :: "StateName \<Rightarrow> string" where
  "stepAt n =
     (if n \<in> {nameChainEnsureKeys, nameChainEnsureKeysFromPreset, nameChainEnsureKeysGenerate,
         nameChainEnsureKeysFromBlueprint} then stepKeys
      else if n \<in> {nameChainBuildGenesis, nameChainBuildGenesisFromTemplate, nameChainBuildGenesisFromExisting} then stepGenesis
      else if n \<in> {nameChainDeployNodes, nameChainDeployNodesVerifiedLocal, nameChainDeployNodesShippedRemote} then stepDeploy
      else if n \<in> {nameChainLaunchNodes, nameChainLaunchNodesPhase, nameChainLaunchNodesPhaseActions,
         nameChainLaunchNodesRecordRun} then stepStart
      else if n = nameChainOpenWorkspace then stepNew
      else if n = nameChainBuildNodeTable then stepPlace
      else if n = nameChainBuildNodeConfig then stepConfig
      else if n = nameChainBuildNodeCommand then stepBuild
      else stepInit)"

lemma fail_message: "fail_stage D s err r0 = (r1, [stageFailed t e]) \<Longrightarrow> t = s \<and> e = upError s err \<and> r1 = markFailed D s e r0"
  by (auto simp: fail_stage_def)

lemma enter_fails:
  assumes "n \<in> set underUp" "n \<noteq> nameChainReconcile" "chain_enter D n p r = (r1, [stageFailed t e])"
  shows "\<exists>err r0. fail_stage D (stepAt n) err r0 = (r1, [stageFailed t e])"
  using assms(1) unfolding underUp_def list.set
  by (elim insertE emptyE)
    (use assms(2,3) in \<open>auto simp: chain_enter_at enter_defs ended_def failLaunch_def stepAt_def Let_def
      split: prod.splits sum.splits if_splits\<close>)


section \<open>Where it failed\<close>

lemma Path_known: "n \<in> set chainNames \<Longrightarrow> Path chainTree (Some n) = join ''/'' (rev (ancestors chainTree n))"
  using chainTree_dom by (auto simp: Path_def)

definition recorded :: "string \<Rightarrow> goErr \<Rightarrow> ('v, 'x) manager \<Rightarrow> bool" where
  "recorded s e r \<longleftrightarrow> (\<exists>t w. disk r = MarkStepFailed t w s (Some e) (FailureStatus s (Some e)))"

lemma recorded_mark:
  assumes "record_kept D" shows "recorded s e (markFailed D s e r)"
proof -
  have "c_save D w x \<noteq> (x', Some err)" for w x x' err
    using record_keptD(2) [OF assms] by (metis option.distinct(1) snd_conv)
  then show ?thesis
    by (auto simp: recorded_def markFailed_def record_keptD(1) [OF assms] Let_def split: prod.splits option.splits)
qed

definition underStage :: "StateName \<Rightarrow> ('v, 'x) manager \<Rightarrow> bool" where
  "underStage n r \<longleftrightarrow> (\<exists>rest. (rest = '''' \<or> (\<exists>q. rest = CHR ''/'' # q))
     \<and> position r = nameChain @ ''/'' @ nameChainBuildUp @ ''/'' @ n @ rest)"

definition failedAt :: "StateName \<Rightarrow> string \<Rightarrow> ('v, 'x) manager \<times> 'v chainMsg \<Rightarrow> bool" where
  "failedAt n s out \<longleftrightarrow> underStage n (fst out) \<and> (\<forall>t e. snd out = stageFailed t e \<longrightarrow> t = s \<and> recorded s e (fst out))"

definition stageAt :: "StateName \<Rightarrow> StateName" where
  "stageAt n = (if length (ancestors chainTree n) = 4 then ancestors chainTree n ! 1 else n)"

lemma ent1_position:
  assumes "record_kept D" "n \<in> set underUp" "n \<noteq> nameChainReconcile"
  shows "underStage (stageAt n) (fst (ent1 D n r))"
proof -
  have "position (fst (ent1 D n r)) = Path chainTree (Some n)"
    using assms(2) unfolding underUp_def list.set
    by (elim insertE emptyE) (use assms(3) in \<open>simp_all add: ent1_def chain_ent_def chain_enter_at enter_positions [OF assms(1)]\<close>)
  moreover have "\<exists>rest. (rest = '''' \<or> (\<exists>q. rest = CHR ''/'' # q))
      \<and> Path chainTree (Some n) = nameChain @ ''/'' @ nameChainBuildUp @ ''/'' @ stageAt n @ rest"
    using assms(2) unfolding underUp_def list.set
    by (elim insertE emptyE) (use assms(3) in \<open>simp_all add: Path_known chain_ancestors stageAt_def\<close>)
  ultimately show ?thesis by (simp add: underStage_def)
qed

lemma ent1_failedAt:
  assumes "record_kept D" "n \<in> set underUp" "n \<noteq> nameChainReconcile"
  shows "failedAt (stageAt n) (stepAt n) (ent1 D n r)"
proof -
  have names: "n \<in> set chainNames" "n \<notin> set resting" using assms(2) by (auto simp: underUp_def resting_def)
  have "t = stepAt n \<and> recorded (stepAt n) e (fst (ent1 D n r))" if x: "snd (ent1 D n r) = stageFailed t e" for t e
  proof -
    have "chain_enter D n (Path chainTree (Some n)) r = (fst (ent1 D n r), [stageFailed t e])"
      using ent1_message [OF names, of D r] x by (simp add: chain_ent_def)
    from enter_fails [OF assms(2,3) this] show ?thesis
      using fail_message recorded_mark [OF assms(1)] by metis
  qed
  then show ?thesis using ent1_position [OF assms] unfolding failedAt_def by blast
qed

lemma fail_failedAt:
  assumes "record_kept D" "underStage n r"
  shows "failedAt n s (case fail_stage D s err r of (r2, ms) \<Rightarrow> (r2, hd ms))"
  using assms position_mark [OF assms(1)] recorded_mark [OF assms(1)]
  by (auto simp: failedAt_def fail_stage_def underStage_def)

lemma underStage_update [simp]:
  "underStage n (r\<lparr>remoteDetail := d\<rparr>) = underStage n r" "underStage n (r\<lparr>localDetail := d\<rparr>) = underStage n r"
  by (simp_all add: underStage_def)

lemma phases_failedAt:
  assumes "record_kept D"
  shows "failedAt nameChainLaunchNodes stepStart (spec_phases D phs r)"
proof (induction phs arbitrary: r)
  case Nil
  then show ?case using ent1_failedAt [OF assms, of nameChainLaunchNodesRecordRun r]
    by (simp add: underUp_def stageAt_def stepAt_def chain_ancestors)
next
  case (Cons ph phs)
  have f: "failedAt nameChainLaunchNodes stepStart (ent1 D nameChainLaunchNodesPhase r)"
    "failedAt nameChainLaunchNodes stepStart (ent1 D nameChainLaunchNodesPhaseActions r')" for r'
    using ent1_failedAt [OF assms, of nameChainLaunchNodesPhase r]
      ent1_failedAt [OF assms, of nameChainLaunchNodesPhaseActions r']
    by (simp_all add: underUp_def stageAt_def stepAt_def chain_ancestors)
  obtain r1 x where e: "ent1 D nameChainLaunchNodesPhase r = (r1, x)" by fastforce
  show ?case
  proof (cases "\<exists>k. x = phaseLaunched k")
    case True
    then obtain k where x: "x = phaseLaunched k" ..
    let ?r2 = "r1\<lparr>ln_started := ln_started r1 + k\<rparr>"
    obtain r3 y where e3: "ent1 D nameChainLaunchNodesPhaseActions ?r2 = (r3, y)" by fastforce
    have "failedAt nameChainLaunchNodes stepStart (r3, y)" using f(2) [of ?r2] e3 by simp
    then show ?thesis using e x e3 Cons.IH by (cases y) (simp_all add: Let_def)
  next
    case False
    then show ?thesis using e f(1) by (cases x) simp_all
  qed
qed

lemma stage_failedAt:
  assumes k: "record_kept D" and "(s, n) \<in> set stageOrder"
  shows "failedAt n s (spec_stage D s r)"
  using assms(2)
proof (cases rule: stage_cases)
  case 3
  obtain r1 x where e: "ent1 D n r = (r1, x)" by fastforce
  have f: "failedAt n s (r1, x)" using ent1_failedAt [OF k, of n r] 3 e
    by (simp add: underUp_def stageAt_def stepAt_def chain_ancestors)
  have leaf: "failedAt n s (ent1 D leaf r1)" if "map_of keyLeaves way = Some leaf" for leaf way
    using that ent1_failedAt [OF k, of leaf r1] 3
    by (auto simp: keyLeaves_def underUp_def stageAt_def stepAt_def chain_ancestors split: if_splits)
  show ?thesis
    using f leaf e 3 fail_failedAt [OF k, of n r1 stepKeys]
    by (cases x) (simp_all add: spec_stage_at spec_keys_def Let_def failedAt_def split: option.splits)
next
  case 4
  obtain r1 x where e: "ent1 D n r = (r1, x)" by fastforce
  have f: "failedAt n s (r1, x)" using ent1_failedAt [OF k, of n r] 4 e
    by (simp add: underUp_def stageAt_def stepAt_def chain_ancestors)
  have leaf: "failedAt n s (ent1 D nameChainBuildGenesisFromExisting r1)"
    "failedAt n s (ent1 D nameChainBuildGenesisFromTemplate r1)"
    using ent1_failedAt [OF k, of nameChainBuildGenesisFromExisting r1]
      ent1_failedAt [OF k, of nameChainBuildGenesisFromTemplate r1] 4
    by (simp_all add: underUp_def stageAt_def stepAt_def chain_ancestors)
  show ?thesis using f leaf e 4 by (cases x) (simp_all add: spec_stage_at spec_genesis_def)
next
  case 7
  obtain r1 x where e: "ent1 D n r = (r1, x)" by fastforce
  have f: "failedAt n s (r1, x)" using ent1_failedAt [OF k, of n r] 7 e
    by (simp add: underUp_def stageAt_def stepAt_def chain_ancestors)
  have leaf: "failedAt n s (ent1 D nameChainDeployNodesShippedRemote r2)"
    "failedAt n s (ent1 D nameChainDeployNodesVerifiedLocal r2)" for r2
    using ent1_failedAt [OF k, of nameChainDeployNodesShippedRemote r2]
      ent1_failedAt [OF k, of nameChainDeployNodesVerifiedLocal r2] 7
    by (simp_all add: underUp_def stageAt_def stepAt_def chain_ancestors)
  show ?thesis using f leaf e 7 by (cases x) (simp_all add: spec_stage_at spec_deploy_def)
next
  case 9
  obtain r1 x where e: "ent1 D n r = (r1, x)" by fastforce
  have f: "failedAt n s (r1, x)" using ent1_failedAt [OF k, of n r] 9 e
    by (simp add: underUp_def stageAt_def stepAt_def chain_ancestors)
  show ?thesis using f phases_failedAt [OF k] e 9 by (cases x) (simp_all add: spec_stage_at spec_launch_def)
qed (use ent1_failedAt [OF k, of n r] in
      \<open>simp_all add: spec_stage_at underUp_def stageAt_def stepAt_def chain_ancestors\<close>)


text \<open>What decides where a composition goes, and that no stage changes it.\<close>

definition core :: "('v, 'x) manager \<Rightarrow> goErr option \<times> bool \<times> string \<times> string" where
  "core r = (mg_failure r, reusing r, only r, stopAfter r)"

lemma core_same: "same r r' \<Longrightarrow> core r' = core r"
  by (simp add: core_def same_D)

lemma core_simps [simp]:
  "core (recordPath D p r) = core r" "core (fst (fail_stage D s e r)) = core r" "core (fst (failLaunch D e r)) = core r"
  "core (note_step s d r) = core r" "core (markFailed D s e r) = core r"
  by (rule core_same, simp)+

lemma core_updates [simp]:
  "core (r\<lparr>beyond := x\<rparr>) = core r" "core (r\<lparr>disk := w\<rparr>) = core r" "core (r\<lparr>keySrc := k\<rparr>) = core r"
  "core (r\<lparr>keyN := n\<rparr>) = core r" "core (r\<lparr>genesisOpts := g\<rparr>) = core r" "core (r\<lparr>ln_at := i\<rparr>) = core r"
  "core (r\<lparr>ln_started := j\<rparr>) = core r" "core (r\<lparr>ln_bin := b\<rparr>) = core r" "core (r\<lparr>ln_phases := ps\<rparr>) = core r"
  "core (r\<lparr>wasRunning := ws\<rparr>) = core r" "core (r\<lparr>localDetail := d\<rparr>) = core r" "core (r\<lparr>remoteDetail := d\<rparr>) = core r"
  by (simp_all add: core_def)

lemma core_InWorkspace: "InWorkspace D (lift_verb v) r = (r', out) \<Longrightarrow> core r' = core r"
  by (rule core_same [OF same_InWorkspace_D])

lemma core_onDisk: "onDisk v r = (r', out) \<Longrightarrow> core r' = core r"
  by (auto simp: onDisk_def split: prod.splits)

lemma core_ent1:
  assumes "n \<in> set underUp" "n \<noteq> nameChainReconcile"
  shows "core (fst (ent1 D n r)) = core r"
  using assms(1) unfolding underUp_def list.set
  by (elim insertE emptyE)
    (use assms(2) in \<open>auto simp: ent1_def chain_ent_def chain_enter_at enter_defs ended_def Let_def
      split: prod.splits sum.splits dest!: core_InWorkspace core_onDisk\<close>)

lemma core_ent1_at: "n \<in> set underUp \<Longrightarrow> n \<noteq> nameChainReconcile \<Longrightarrow> ent1 D n r = (r1, x) \<Longrightarrow> core r1 = core r"
  using core_ent1 [of n D r] by simp

lemma core_phases: "core (fst (spec_phases D phs r)) = core r"
proof (induction phs arbitrary: r)
  case Nil
  then show ?case by (simp add: core_ent1 underUp_def)
next
  case (Cons ph phs)
  obtain r1 x where e: "ent1 D nameChainLaunchNodesPhase r = (r1, x)" by fastforce
  have r1: "core r1 = core r" using core_ent1_at [OF _ _ e] by (simp add: underUp_def)
  show ?case
  proof (cases "\<exists>k. x = phaseLaunched k")
    case True
    then obtain k where x: "x = phaseLaunched k" ..
    let ?r2 = "r1\<lparr>ln_started := ln_started r1 + k\<rparr>"
    obtain r3 y where e3: "ent1 D nameChainLaunchNodesPhaseActions ?r2 = (r3, y)" by fastforce
    have "core r3 = core r" using core_ent1_at [OF _ _ e3] r1 by (simp add: underUp_def)
    then show ?thesis using e x e3 r1 Cons.IH by (cases y) (simp_all add: Let_def)
  next
    case False
    then show ?thesis using e r1 by (cases x) simp_all
  qed
qed

lemma core_stage:
  assumes "(s, n) \<in> set stageOrder"
  shows "core (fst (spec_stage D s r)) = core r"
proof -
  obtain r1 x where e: "ent1 D n r = (r1, x)" by fastforce
  have n: "n \<in> set underUp" "n \<noteq> nameChainReconcile" using assms by (cases rule: stage_cases; simp add: underUp_def)+
  have r1: "core r1 = core r" by (rule core_ent1_at [OF n e])
  show ?thesis using assms
  proof (cases rule: stage_cases)
    case 3
    have "map_of keyLeaves way = Some leaf \<Longrightarrow> core (fst (ent1 D leaf r1)) = core r" for way leaf
      using r1 by (auto simp: keyLeaves_def core_ent1 underUp_def split: if_splits)
    then show ?thesis using e 3 r1
      by (cases x) (auto simp: spec_stage_at spec_keys_def Let_def fail_stage_def split: option.splits)
  next
    case 4
    then show ?thesis using e r1 by (cases x) (simp_all add: spec_stage_at spec_genesis_def core_ent1 underUp_def)
  next
    case 7
    then show ?thesis using e r1 by (cases x) (simp_all add: spec_stage_at spec_deploy_def core_ent1 underUp_def)
  next
    case 9
    then show ?thesis using e r1 by (cases x) (simp_all add: spec_stage_at spec_launch_def core_phases)
  qed (use e r1 in \<open>simp_all add: spec_stage_at\<close>)
qed

lemma core_resting:
  "n \<in> {nameChainReady, nameChainBuildUpStoppedAtStep} \<Longrightarrow> core (fst (chain_ent D n r)) = core r"
  by (auto simp: chain_ent_def chain_enter_at enter_resting_def)

lemma up_fails:
  assumes k: "record_kept D"
  shows "set rows \<subseteq> set stageOrder \<Longrightarrow> mg_failure r = None \<Longrightarrow> \<not> reusing r \<Longrightarrow>
    mg_failure (fst (spec_up D rows r)) = Some e \<Longrightarrow>
    \<exists>(s, n) \<in> set stageOrder. recorded s e (fst (spec_up D rows r)) \<and> underStage n (fst (spec_up D rows r))
      \<and> failStatus (fst (spec_up D rows r)) = FailureStatus s (Some e)"
proof (induction rows arbitrary: r)
  case Nil
  then show ?case using core_resting [of nameChainReady D r] by (simp add: core_def)
next
  case (Cons sn rest)
  obtain s n where sn: "sn = (s, n)" by fastforce
  then have in': "(s, n) \<in> set stageOrder" using Cons.prems(1) by simp
  obtain r1 x where sp: "spec_stage D s r = (r1, x)" by fastforce
  have c1: "mg_failure r1 = None" "\<not> reusing r1" using core_stage [OF in', of D r] sp Cons.prems(2,3) by (simp_all add: core_def)
  have fa: "failedAt n s (r1, x)" using stage_failedAt [OF k in', of r] sp by simp
  show ?case
  proof (cases "stageReport x")
    case (Some sd)
    then obtain t d where d: "stageReport x = Some (t, d)" by (cases sd) auto
    let ?r2 = "note_step t d r1"
    have r2: "mg_failure ?r2 = None" "\<not> reusing ?r2" using c1 by (simp_all add: note_step_def)
    show ?thesis
    proof (cases "only ?r2 \<noteq> '''' \<or> s = stopAfter ?r2")
      case True
      then show ?thesis
        using Cons.prems(4) sn sp d r2 core_resting [of nameChainBuildUpStoppedAtStep D ?r2] by (simp add: Let_def core_def)
    next
      case False
      then have "spec_up D (sn # rest) r = spec_up D rest ?r2" using sn sp d r2 by (simp add: Let_def)
      then show ?thesis using Cons.IH [of ?r2] Cons.prems r2 by simp
    qed
  next
    case None
    then have up: "spec_up D (sn # rest) r = spec_failed x r1" using sn sp by simp
    then obtain t e' where x: "x = stageFailed t e'"
      using Cons.prems(4) c1 by (cases x) (simp_all add: spec_failed_def)
    then have "recorded s e r1" "e' = e" "t = s" "underStage n r1"
      using fa Cons.prems(4) up by (auto simp: failedAt_def spec_failed_def)
    then show ?thesis
      using in' up x by (auto simp: spec_failed_def recorded_def underStage_def intro!: bexI [of _ "(s, n)"])
  qed
qed

lemma underStage_resumes:
  assumes "(s, n) \<in> set stageOrder" "underStage n r"
  shows "ResumeStep (disk r) = s"
proof -
  obtain rest where rest: "rest = '''' \<or> (\<exists>q. rest = CHR ''/'' # q)"
    "position r = nameChain @ ''/'' @ nameChainBuildUp @ ''/'' @ n @ rest" using assms(2) by (auto simp: underStage_def)
  have "SetStatePath (disk r) (position r) = disk r" by (simp add: SetStatePath_def)
  then show ?thesis using resume_under_stage [OF assms(1) rest(1), of "disk r"] unfolding rest(2) [symmetric] by simp
qed

text \<open>
  Property C7. A composition that fails can be taken up where it failed. When \<open>Compose\<close> returns the failure of a
  stage, the record on disk resumes at that stage's step; that step is recorded as failed, not done, with the
  text of the very error returned and the name of its status; and \<open>FailStatus\<close> is a declared failure. This
  holds for whatever the work of the stages does, as long as the record can be read and saved and no verb
  writes the position.
\<close>

theorem failed_composition_resumes_at_its_stage:
  assumes "never_cancelled D" "phases_bounded D 400" "record_kept D" "mg_failure r = None" "\<not> reusing r"
    and "snd (Manager_Compose D newManager r req from) = (r', Some (Failure e))"
  shows "\<exists>s n st. (s, n) \<in> set stageOrder \<and> ResumeStep (disk r') = s \<and> ws_Steps (disk r') s = Some st
    \<and> Result st = StepFailed \<and> \<not> Done st \<and> Err st = errorText e
    \<and> Failed st = status_String (failStatus r') \<and> IsFailure (failStatus r')"
proof -
  obtain n0 where n0: "stageFor from = Inr n0" using assms(6) by (cases "stageFor from") (auto simp: Manager_Compose_def)
  let ?r = "r\<lparr>stopAfter := stopAfterFor (rq_Stage req), request := req\<rparr>"
  define rows where "rows = dropWhile (\<lambda>(s, n). from \<noteq> '''' \<and> s \<noteq> from) stageOrder"
  have sub: "set rows \<subseteq> set stageOrder" unfolding rows_def by (rule set_mono_suffix [OF suffix_dropWhile])
  have "r' = fst (spec_compose D r req from)" "mg_failure r' = Some e"
    using compose_is_spec [OF assms(1,2), of r req "from"] assms(6) n0
    by (auto simp: eq_commute [of "Some _" "map_option _ _"])
  then have r': "r' = fst (spec_up D rows ?r)" "mg_failure r' = Some e"
    by (simp_all only: spec_compose_def rows_def)
  obtain s n where s: "(s, n) \<in> set stageOrder" "recorded s e r'" "underStage n r'"
    "failStatus r' = FailureStatus s (Some e)"
    using up_fails [OF assms(3) sub, of ?r e] assms(4,5) r' by auto
  have f: "failStatus r' \<noteq> 0" "IsFailure (failStatus r')"
    using FailureStatus_filed [of s e] s(4) by (simp_all add: filed_def FailureStatus_def)
  obtain t w where "disk r' = MarkStepFailed t w s (Some e) (failStatus r')" using s(2,4) by (auto simp: recorded_def)
  then have "\<exists>st. ws_Steps (disk r') s = Some st \<and> Result st = StepFailed \<and> \<not> Done st \<and> Err st = errorText e
    \<and> Failed st = status_String (failStatus r')"
    using f(1) by (simp add: MarkStepFailed_def StepEnd_def StepBegin_def zeroStep_def Let_def)
  then show ?thesis using s(1) underStage_resumes [OF s(1,3)] f(2) by blast
qed

end
