(* ===== verification/Chain_Rollback.thy ===== *)
theory Chain_Rollback
  imports Chain_Resume
begin

text \<open>
  What stopping nodes does to the record (\<open>stopNodes\<close>, \<open>RollBackLaunch\<close> of \<open>steps_lifecycle.go\<close>), and what
  is left of a launch that failed.
\<close>

section \<open>Stopping the nodes that are picked\<close>

text \<open>What stopping may do to one entry of the node table: nothing, or clear the pid of a picked running node.\<close>

definition cleared :: "(nodeRec \<Rightarrow> bool) \<Rightarrow> nodeRec \<Rightarrow> nodeRec \<Rightarrow> bool" where
  "cleared pick n n' \<longleftrightarrow> n' = n \<or> (n' = n\<lparr>nr_PID := 0\<rparr> \<and> nr_PID n > 0 \<and> pick n)"

abbreviation picked :: "(nodeRec \<Rightarrow> bool) \<Rightarrow> nodeRec list \<Rightarrow> nodeRec list" where
  "picked pick ns \<equiv> filter (\<lambda>n. nr_PID n > 0 \<and> pick n) ns"

lemma stopLoop_result:
  "stopLoop stop pick ns x = (ns', x', k, a, errs) \<Longrightarrow>
     list_all2 (cleared pick) ns ns' \<and> a = length (picked pick ns) \<and> a = k + length errs
     \<and> length errs = length (picked pick ns')"
proof (induction ns arbitrary: x ns' x' k a errs)
  case (Cons n ns)
  show ?case
  proof (cases "nr_PID n \<le> 0 \<or> \<not> pick n")
    case True
    obtain ns1 x2 k1 a1 errs1 where r: "stopLoop stop pick ns x = (ns1, x2, k1, a1, errs1)" by (metis prod_cases5)
    from Cons.IH [OF r] Cons.prems True r show ?thesis by (simp add: cleared_def) auto
  next
    case False
    obtain x1 e where s: "stop n x = (x1, e)" by fastforce
    obtain ns1 x2 k1 a1 errs1 where r: "stopLoop stop pick ns x1 = (ns1, x2, k1, a1, errs1)" by (metis prod_cases5)
    from Cons.IH [OF r] Cons.prems False s r show ?thesis by (cases e) (auto simp: cleared_def)
  qed
qed simp

lemma cleared_keeps:
  assumes "list_all2 (cleared pick) ns ns'"
  shows "map nr_Index ns' = map nr_Index ns"
    and "filter (\<lambda>n. \<not> pick n) ns' = filter (\<lambda>n. \<not> pick n) ns \<or> \<not> (\<forall>n. pick (n\<lparr>nr_PID := 0\<rparr>) = pick n)"
  using assms by (induction rule: list_all2_induct) (auto simp: cleared_def)

lemma picked_running:
  "picked (\<lambda>n. nr_Index n \<notin> set was) (ws_Nodes w) = [] \<longleftrightarrow> set (RunningNodes w) \<subseteq> set was"
  by (auto simp: RunningNodes_def filter_empty_conv)

lemma rollback_exact:
  "case RollBackLaunch D was w x of (w', x', out) \<Rightarrow>
     w' = w\<lparr>ws_Nodes := ws_Nodes w'\<rparr>
     \<and> filter (\<lambda>n. nr_Index n \<in> set was) (ws_Nodes w') = filter (\<lambda>n. nr_Index n \<in> set was) (ws_Nodes w)
     \<and> list_all2 (cleared (\<lambda>n. nr_Index n \<notin> set was)) (ws_Nodes w) (ws_Nodes w')
     \<and> (isl out \<longleftrightarrow> \<not> set (RunningNodes w') \<subseteq> set was)"
proof -
  let ?pick = "\<lambda>n. nr_Index n \<notin> set was"
  obtain ns x' k a errs where s: "stopLoop (c_stopOwned D) ?pick (ws_Nodes w) x = (ns, x', k, a, errs)"
    by (metis prod_cases5)
  note l = stopLoop_result [OF s]
  have kept: "filter (\<lambda>n. nr_Index n \<in> set was) ns = filter (\<lambda>n. nr_Index n \<in> set was) (ws_Nodes w)"
    using cleared_keeps(2) [of ?pick "ws_Nodes w" ns] l by simp
  have "errs = [] \<longleftrightarrow> picked ?pick ns = []" using l by (metis length_0_conv)
  then have "errs = [] \<longleftrightarrow> set (RunningNodes (w\<lparr>ws_Nodes := ns\<rparr>)) \<subseteq> set was"
    using picked_running [of was "w\<lparr>ws_Nodes := ns\<rparr>"] by simp
  then show ?thesis using l kept by (auto simp: RollBackLaunch_def stopNodes_def s)
qed

text \<open>
  Rolling a launch back takes down what the launch started and nothing else. Of the record only
  pids change: the entries of nodes that ran before the launch stay as they were, every other entry is
  unchanged or has lost its pid, and the verb succeeds exactly when no node runs that did not run before.
\<close>

theorem rollback_is_exact:
  "case RollBackLaunch D was w x of (w', x', out) \<Rightarrow>
     w' = w\<lparr>ws_Nodes := ws_Nodes w'\<rparr>
     \<and> filter (\<lambda>n. nr_Index n \<in> set was) (ws_Nodes w') = filter (\<lambda>n. nr_Index n \<in> set was) (ws_Nodes w)
     \<and> list_all2 (cleared (\<lambda>n. nr_Index n \<notin> set was)) (ws_Nodes w) (ws_Nodes w')
     \<and> (isl out \<longleftrightarrow> \<not> set (RunningNodes w') \<subseteq> set was)"
  by (rule rollback_exact)

section \<open>A launch that failed\<close>

lemma worked_failed:
  assumes "(case InWorkspace D (lift_verb v) (recordPath D path r) of (r2, Inl err) \<Rightarrow> failLaunch D err r2
      | (r2, Inr y) \<Rightarrow> (r2, [f y])) = (r', [stageFailed s e])" "\<And>y. f y \<noteq> stageFailed s e"
  shows "\<exists>r1 cause. same r r1 \<and> failLaunch D cause r1 = (r', [stageFailed s e])"
proof -
  obtain r2 out where i: "InWorkspace D (lift_verb v) (recordPath D path r) = (r2, out)" by fastforce
  have "same r r2" by (rule same_trans [OF same_record same_InWorkspace_D [OF i]])
  then show ?thesis using assms i by (cases out) auto
qed

lemma failed_by_launch:
  assumes "n \<in> {nameChainLaunchNodesPhase, nameChainLaunchNodesPhaseActions, nameChainLaunchNodesRecordRun}"
    and "chain_enter D n path r = (r', [stageFailed s e])"
  obtains r1 cause where "same r r1" "failLaunch D cause r1 = (r', [stageFailed s e])"
proof -
  note defs = chain_enter_at enter_launchingPhase_def enter_runningPhaseActions_def enter_recordingRun_def Let_def
  have "\<exists>r1 cause. same r r1 \<and> failLaunch D cause r1 = (r', [stageFailed s e])"
    using assms(1)
  proof (elim insertE emptyE)
    assume "n = nameChainLaunchNodesPhase"
    then show ?thesis using assms(2) by (intro worked_failed) (simp_all only: defs, simp)
  next
    assume "n = nameChainLaunchNodesPhaseActions"
    then show ?thesis using assms(2) by (intro worked_failed) (simp_all only: defs, simp)
  next
    assume "n = nameChainLaunchNodesRecordRun"
    then show ?thesis using assms(2) by (intro worked_failed) (simp_all only: defs, simp)
  qed
  then show thesis using that by blast
qed

lemma InWorkspace_done:
  assumes "record_kept D" "InWorkspace D (lift_verb v) r = (r', Inr y)"
  shows "\<exists>x w x'. v (disk r) x = (w, x', Inr y) \<and> disk r' = w"
  using assms(2) record_keptD(1,2) [OF assms(1)]
  by (auto simp: InWorkspace_def lift_verb_def split: prod.splits option.splits) blast

lemma markFailed_nodes: "record_kept D \<Longrightarrow> ws_Nodes (disk (markFailed D s e r)) = ws_Nodes (disk r)"
  using record_keptD(1) [of D] by (simp add: markFailed_def MarkStepFailed_def Let_def split: prod.splits option.splits)

lemma failLaunch_takes_down:
  assumes k: "record_kept D" and f: "failLaunch D cause r = (r', [stageFailed s e])"
  shows "s = stepStart \<and> wasRunning r' = wasRunning r
    \<and> (set (RunningNodes (disk r')) \<subseteq> set (wasRunning r) \<and> (\<exists>detail. last (mg_steps r') = ''rollback: '' @ detail)
       \<or> (\<exists>cause rerr. e = upError stepStart (andError cause rerr)))"
proof -
  obtain r1 out where i: "InWorkspace D (lift_verb (RollBackLaunch D (wasRunning r))) r = (r1, out)" by fastforce
  have was: "wasRunning r' = wasRunning r" using same_D(11) [OF same_failLaunch [of r D cause]] f by simp
  show ?thesis
  proof (cases out)
    case (Inl rerr)
    then show ?thesis using f i was by (auto simp: failLaunch_def fail_stage_def)
  next
    case (Inr detail)
    obtain x w x' where rb: "RollBackLaunch D (wasRunning r) (disk r) x = (w, x', Inr detail)" "disk r1 = w"
      using InWorkspace_done [OF k i [unfolded Inr]] by blast
    have "set (RunningNodes w) \<subseteq> set (wasRunning r)"
      using rollback_exact [where D = D and was = "wasRunning r" and w = "disk r" and x = x] rb(1) by simp
    moreover have r': "s = stepStart" "r' = markFailed D stepStart (upError stepStart cause) (note_step ''rollback'' detail r1)"
      using f i Inr by (auto simp: failLaunch_def fail_stage_def)
    moreover have "RunningNodes (disk r') = RunningNodes w"
      using markFailed_nodes [OF k] rb(2) by (simp add: r'(2) RunningNodes_def note_step_def)
    moreover have "mg_steps r' = mg_steps r1 @ [''rollback: '' @ detail]"
      by (simp add: r'(2) markFailed_def note_step_def Let_def split: sum.splits prod.splits option.splits)
    ultimately show ?thesis using was by simp
  qed
qed


end
