(* ===== verification/Chain_Operate.thy ===== *)
theory Chain_Operate
  imports Chain_Laws
begin

text \<open>
  What operating on a composed chain does: \<open>Operate\<close> asks the table of conditions, runs the verb of the
  operation in the workspace, and rests where that operation leaves the network. Crossing a fork goes through
  its moments in order.
\<close>

section \<open>An operation as a straight-line program\<close>

text \<open>The crossing of a fork: a network that is across goes straight to the confirmation.\<close>

definition spec_handOver :: "('v, 'x) deps \<Rightarrow> ('v, 'x) manager \<Rightarrow> ('v, 'x) manager \<times> 'v chainMsg" where
  "spec_handOver D r =
     (case ent1 D nameChainOpCrossForkHandOver r of
        (r1, productionHandedOver) \<Rightarrow> ent1 D nameChainOpCrossForkConfirm r1
      | (r1, x) \<Rightarrow> (r1, x))"

definition spec_await :: "('v, 'x) deps \<Rightarrow> ('v, 'x) manager \<Rightarrow> ('v, 'x) manager \<times> 'v chainMsg" where
  "spec_await D r =
     (case ent1 D nameChainOpCrossForkAwaitBoundary r of
        (r1, forkBoundaryReached head) \<Rightarrow> spec_handOver D (r1\<lparr>cf_head := head\<rparr>)
      | (r1, x) \<Rightarrow> (r1, x))"

definition spec_cross :: "('v, 'x) deps \<Rightarrow> ('v, 'x) manager \<Rightarrow> ('v, 'x) manager \<times> 'v chainMsg" where
  "spec_cross D r =
     (case ent1 D nameChainOpCrossFork r of
        (r1, forkStandingRead crossed) \<Rightarrow>
          if crossed then ent1 D nameChainOpCrossForkConfirm (r1\<lparr>cf_already := True\<rparr>)
          else spec_await D (r1\<lparr>cf_already := False\<rparr>)
      | (r1, x) \<Rightarrow> (r1, x))"

definition spec_op :: "('v, 'x) deps \<Rightarrow> StateName \<Rightarrow> ('v, 'x) manager \<Rightarrow> ('v, 'x) manager \<times> 'v chainMsg" where
  "spec_op D opn r = (if opn = nameChainOpCrossFork then spec_cross D r else ent1 D opn r)"

definition opRest :: "StateName \<Rightarrow> StateName" where
  "opRest opn = (if opn = nameChainOpStop then nameChainStopped
     else if opn = nameChainOpRemove then nameChainRemoved else nameChainReady)"

definition spec_operate ::
  "('v, 'x) deps \<Rightarrow> ('v, 'x) manager \<Rightarrow> StateName \<Rightarrow> string \<Rightarrow> ('v, 'x) manager \<times> StateName"
where
  "spec_operate D r opn verb =
     (case mayOperate D r verb of
        Some err \<Rightarrow> (r\<lparr>mg_failure := Some err\<rparr>, nameChainFailed)
      | None \<Rightarrow>
          (case spec_op D opn r of
             (r1, operationDone) \<Rightarrow> (fst (chain_ent D (opRest opn) r1), opRest opn)
           | (r1, x) \<Rightarrow> spec_failed x r1))"

section \<open>The walk through an operation\<close>

definition underOp :: "StateName list" where
  "underOp = [nameChainOpStop, nameChainOpRestartNode, nameChainOpSwapNode, nameChainOpHardfork, nameChainOpCrossFork,
     nameChainOpCrossForkAwaitBoundary, nameChainOpCrossForkHandOver, nameChainOpCrossForkConfirm, nameChainOpRemove]"

lemma underOp_known: "l \<in> set underOp \<Longrightarrow> l \<in> set chainNames \<and> l \<notin> set resting"
  by (auto simp: underOp_def resting_def)

lemma operating_InWorkspace:
  assumes "\<And>w r. operating (fst (snd (fn w r))) = operating r"
  shows "operating (fst (InWorkspace D fn r)) = operating r"
proof -
  have "fn w r = (w', r', out) \<Longrightarrow> operating r' = operating r" for w w' r r' out
    using assms [of w r] by simp
  then show ?thesis
    by (auto simp: InWorkspace_def split: sum.splits prod.splits option.splits)
qed

lemma operating_simps [simp]:
  "operating (recordPath D p r) = operating r" "operating (note_step s d r) = operating r"
  "operating (fst (fail_stage D s e r)) = operating r"
  by (rule same_D(12) [OF same_record] same_D(12) [OF same_note] same_D(12) [OF same_fail])+

lemma operating_operated:
  assumes "\<And>w r. operating (fst (snd (fn w r))) = operating r"
  shows "operating (fst (operated D path verb fn r)) = operating r"
proof -
  obtain r1 out where i: "InWorkspace D fn (recordPath D path r) = (r1, out)" by fastforce
  have "operating r1 = operating r" using operating_InWorkspace [of fn D "recordPath D path r", OF assms] i by simp
  then show ?thesis using i by (simp add: operated_def split: sum.splits)
qed

lemma operating_lift: "operating (fst (snd (lift_verb v w r))) = operating r"
  by (simp add: lift_verb_def split: prod.splits)

lemma operating_hardfork: "operating (fst (snd (hardforkWork D w r))) = operating r"
  by (simp add: hardforkWork_def split: prod.splits sum.splits)

lemma operating_worked:
  assumes "operating r = a" "\<And>r y. operating (f r y) = operating r"
  shows "operating (fst (case InWorkspace D (lift_verb v) r of
      (r1, Inl err) \<Rightarrow> fail_stage D s err r1 | (r1, Inr y) \<Rightarrow> (f r1 y, g y))) = a"
proof -
  obtain r1 out where i: "InWorkspace D (lift_verb v) r = (r1, out)" by fastforce
  have "operating r1 = a" using same_D(12) [OF same_InWorkspace_D [OF i]] assms(1) by simp
  then show ?thesis using i assms(2) by (simp split: sum.splits)
qed

lemma operating_ent:
  assumes "n \<in> set underOp"
  shows "operating (fst (ent1 D n r)) = operating r"
proof -
  let ?p = "Path chainTree (Some n)"
  have simple: "operating (fst (operated D ?p verb (lift_verb v) r)) = operating r"
    "operating (fst (operated D ?p verb (hardforkWork D) r)) = operating r" for verb v
    by (rule operating_operated, simp add: operating_lift operating_hardfork)+
  have moments: "operating (fst (enter_crossingFork D ?p r)) = operating r"
    "operating (fst (enter_beforeFork D ?p r)) = operating r" "operating (fst (enter_handingOver D ?p r)) = operating r"
    "operating (fst (enter_crossedFork D ?p r)) = operating r"
    unfolding enter_crossingFork_def enter_beforeFork_def enter_handingOver_def enter_crossedFork_def Let_def
    by (rule operating_worked; simp)+
  show ?thesis
    using assms simple moments unfolding underOp_def
    by (auto simp: ent1_def chain_ent_def chain_enter_at enter_stopping_def enter_removing_def enter_restarting_def
        enter_swapping_def enter_hardforking_def)
qed

text \<open>The operation has reported, done or failed, at a state under it.\<close>

definition opReaches ::
  "('v, 'x) deps \<Rightarrow> nat \<Rightarrow> StateName \<Rightarrow> ('v, 'x) manager \<Rightarrow> ('v, 'x) manager \<times> 'v chainMsg \<Rightarrow> bool"
where
  "opReaches D k n r out \<longleftrightarrow>
     (\<exists>j l. j \<le> k \<and> l \<in> set underOp \<and> chain.leads D j (arrived D n r) (l, [snd out], fst out))
     \<and> (snd out = operationDone \<or> (\<exists>t e. snd out = stageFailed t e)) \<and> operating (fst out) = operating r"

lemma opReaches_here:
  assumes "n \<in> set underOp" "snd (ent1 D n r) = operationDone \<or> (\<exists>t e. snd (ent1 D n r) = stageFailed t e)"
  shows "opReaches D k n r (ent1 D n r)"
proof -
  have "chain.leads D 0 (arrived D n r) (n, [snd (ent1 D n r)], fst (ent1 D n r))"
    using arrived_message [of n D r] underOp_known [OF assms(1)] chain.leads_refl by simp
  then show ?thesis using assms operating_ent [OF assms(1)] unfolding opReaches_def by blast
qed

lemma opReaches_step:
  assumes "chain.leads D 1 (arrived D n r) (arrived D m r1)" "opReaches D k m r1 out" "operating r1 = operating r"
  shows "opReaches D (Suc k) n r out"
proof -
  obtain j l where "j \<le> k" "l \<in> set underOp" "chain.leads D j (arrived D m r1) (l, [snd out], fst out)"
    using assms(2) by (auto simp: opReaches_def)
  then show ?thesis
    using chain.leads_trans [OF assms(1)] assms(2,3) by (auto simp: opReaches_def intro!: exI [of _ "1 + j"])
qed

lemma what_op:
  "chainWhat x = eventOperationDone \<Longrightarrow> x = operationDone"
  "chainWhat x = eventForkStandingRead \<Longrightarrow> \<exists>c. x = forkStandingRead c"
  "chainWhat x = eventForkBoundaryReached \<Longrightarrow> \<exists>h. x = forkBoundaryReached h"
  "chainWhat x = eventProductionHandedOver \<Longrightarrow> x = productionHandedOver"
  by (cases x; simp add: chain_whats)+

lemma op_reported:
  assumes "n \<in> set underOp" "n \<notin> {nameChainOpCrossFork, nameChainOpCrossForkAwaitBoundary, nameChainOpCrossForkHandOver}"
  shows "opReaches D k n r (ent1 D n r)"
proof -
  have "chainWhat (snd (ent1 D n r)) \<in> {eventOperationDone, eventStageFailed}"
    using ent1_what [of n D r] underOp_known [OF assms(1)] assms
    by (auto simp: underOp_def emitsOf_def chain_contracts)
  then show ?thesis using what_inv(1) what_op(1) by (intro opReaches_here [OF assms(1)]) blast
qed

lemma leads_moment:
  assumes "never_cancelled D" "ent1 D l r0 = (r, x)"
    and "l \<in> {nameChainOpCrossFork, nameChainOpCrossForkAwaitBoundary, nameChainOpCrossForkHandOver}"
    and "nextMoment r x = Some (r1, d)"
  shows "chain.leads D 1 (arrived D l r0) (arrived D d r1)"
proof -
  have l: "l \<in> set underOp" using assms(3) by (auto simp: underOp_def)
  have a: "arrived D l r0 = (l, [x], r)" using arrived_message [of l D r0] underOp_known [OF l] assms(2) by simp
  have d: "ancestors chainTree d = [d, nameChainOpCrossFork, nameChainOp, nameChain]"
    using assms(4) by (cases x) (auto simp: nextMoment_def chain_ancestors split: if_splits)
  show ?thesis unfolding a
    by (rule leads_move [OF assms(1) _ d])
      (use assms(3,4) in \<open>auto simp: chain_ancestors chain_process_at process_crossingFork_def\<close>)
qed

text \<open>A moment that fails ends the crossing there; one that is reached leads to the next.\<close>

lemma moment_reaches:
  assumes ctx: "never_cancelled D" and l: "l \<in> {nameChainOpCrossFork, nameChainOpCrossForkAwaitBoundary, nameChainOpCrossForkHandOver}"
    and e: "ent1 D l r = (r1, x)" and x: "(\<exists>t err. x = stageFailed t err) \<or> (\<exists>r2 d. nextMoment r1 x = Some (r2, d))"
    and stop: "\<And>t err. x = stageFailed t err \<Longrightarrow> out = (r1, x)"
    and go: "\<And>r2 d. nextMoment r1 x = Some (r2, d) \<Longrightarrow> opReaches D k d r2 out"
  shows "opReaches D (Suc k) l r out"
proof -
  have l': "l \<in> set underOp" using l by (auto simp: underOp_def)
  from x show ?thesis
  proof (elim disjE exE)
    fix t err assume "x = stageFailed t err"
    then show ?thesis using opReaches_here [OF l', of D r "Suc k"] e stop by simp
  next
    fix r2 d assume n: "nextMoment r1 x = Some (r2, d)"
    have "operating r2 = operating r1" using n by (cases x) (auto simp: nextMoment_def)
    then show ?thesis
      using opReaches_step [OF leads_moment [OF ctx e l n] go [OF n]] operating_ent [OF l', of D r] e by simp
  qed
qed

lemma confirm_reaches: "opReaches D k nameChainOpCrossForkConfirm r (ent1 D nameChainOpCrossForkConfirm r)"
  by (rule op_reported) (simp_all add: underOp_def)

lemma handOver_reaches:
  assumes "never_cancelled D"
  shows "opReaches D 1 nameChainOpCrossForkHandOver r (spec_handOver D r)"
proof -
  let ?H = nameChainOpCrossForkHandOver
  obtain r1 x where e: "ent1 D ?H r = (r1, x)" by fastforce
  have "chainWhat x \<in> {eventProductionHandedOver, eventStageFailed}"
    using ent1_what [of ?H D r] e by (simp add: resting_def emitsOf_def chain_contracts)
  then have x: "(\<exists>t err. x = stageFailed t err) \<or> x = productionHandedOver" using what_inv(1) what_op(4) by blast
  show ?thesis unfolding One_nat_def
    by (rule moment_reaches [OF assms _ e])
      (use x e confirm_reaches [of D 0 r1] in \<open>auto simp: spec_handOver_def nextMoment_def\<close>)
qed

lemma await_reaches:
  assumes "never_cancelled D"
  shows "opReaches D 2 nameChainOpCrossForkAwaitBoundary r (spec_await D r)"
proof -
  let ?A = nameChainOpCrossForkAwaitBoundary
  obtain r1 x where e: "ent1 D ?A r = (r1, x)" by fastforce
  have "chainWhat x \<in> {eventForkBoundaryReached, eventStageFailed}"
    using ent1_what [of ?A D r] e by (simp add: resting_def emitsOf_def chain_contracts)
  then have x: "(\<exists>t err. x = stageFailed t err) \<or> (\<exists>h. x = forkBoundaryReached h)" using what_inv(1) what_op(3) by blast
  show ?thesis unfolding numeral_2_eq_2 One_nat_def [symmetric]
    by (rule moment_reaches [OF assms _ e])
      (use x e handOver_reaches [OF assms] in \<open>auto simp: spec_await_def nextMoment_def\<close>)
qed

lemma cross_reaches:
  assumes "never_cancelled D"
  shows "opReaches D 3 nameChainOpCrossFork r (spec_cross D r)"
proof -
  let ?C = nameChainOpCrossFork
  obtain r1 x where e: "ent1 D ?C r = (r1, x)" by fastforce
  have "chainWhat x \<in> {eventForkStandingRead, eventStageFailed}"
    using ent1_what [of ?C D r] e by (simp add: resting_def emitsOf_def chain_contracts)
  then have x: "(\<exists>t err. x = stageFailed t err) \<or> (\<exists>c. x = forkStandingRead c)" using what_inv(1) what_op(2) by blast
  show ?thesis unfolding numeral_3_eq_3 numeral_2_eq_2 [symmetric]
    by (rule moment_reaches [OF assms _ e])
      (use x e await_reaches [OF assms] confirm_reaches [of D 2] in
        \<open>auto simp: spec_cross_def nextMoment_def split: if_splits\<close>)
qed

lemma op_reaches:
  assumes "never_cancelled D" "opn \<in> set (map fst ops)"
  shows "opReaches D 3 opn r (spec_op D opn r)"
  using assms(2) cross_reaches [OF assms(1)] op_reported [of opn D 3 r]
  by (auto simp: spec_op_def ops_def underOp_def)

lemma leads_operate:
  assumes "never_cancelled D" "operationNamed opn = Inr verb" "mayOperate D r verb = None"
  shows "chain.leads D 1 (nameChainIdle, [OperateMsg opn], r) (arrived D opn r)"
proof -
  have "entryPath chainTree nameChainIdle opn = [nameChainOp, opn]"
    using assms(2) by (auto simp: operationNamed_def ops_def entryPath_def chain_ancestors split: if_splits)
  then show ?thesis unfolding arrived_def
    by (intro chain.leads_moves) (use assms in
      \<open>auto simp: never_cancelled_def chainClient_def chain_ancestors chain_process_at process_stoppedState_def split: prod.splits\<close>)
qed

lemma leads_done:
  assumes "never_cancelled D" "l \<in> set underOp"
  shows "chain.leads D 1 (l, [operationDone], r) (arrived D (opRest (operating r)) r)"
proof -
  have anc: "ancestors chainTree (opRest n) = [opRest n, nameChain]" for n by (simp add: opRest_def chain_ancestors)
  have "chain.answer D (ancestors chainTree l) r operationDone = Some (nameChainOp, Moves r (opRest (operating r)))"
    using assms(2) by (auto simp: underOp_def chain_ancestors chain_process_at process_crossingFork_def nextMoment_def
        process_opState_def opRest_def)
  from leads_move [OF assms(1) this anc] assms(2) show ?thesis by (auto simp: underOp_def chain_ancestors)
qed

lemma operate_finishes:
  assumes ctx: "never_cancelled D" and o: "operationNamed opn = Inr verb" and r: "operating r = opn"
  shows "finishes D 5 (nameChainIdle, [OperateMsg opn], r) (spec_operate D r opn verb)"
proof (cases "mayOperate D r verb")
  case (Some err)
  have "chain.leads D 1 (nameChainIdle, [OperateMsg opn], r) (arrived D nameChainFailed (r\<lparr>mg_failure := Some err\<rparr>))"
    by (rule leads_move [OF ctx, where p = nameChain and rest = "[]"])
      (use Some o in \<open>simp_all add: chain_ancestors chain_process_at process_stoppedState_def failAs_def\<close>)
  from finishes_trans [OF this finishes_rest [where k = 0], of 5] Some show ?thesis by (simp add: spec_operate_def)
next
  case None
  obtain r1 x where sp: "spec_op D opn r = (r1, x)" by fastforce
  have "opn \<in> set (map fst ops)"
    using o by (auto simp: operationNamed_def ops_def split: if_splits)
  from op_reaches [OF ctx this, of r] sp obtain j l where j: "j \<le> 3" "l \<in> set underOp"
    and lead: "chain.leads D j (arrived D opn r) (l, [x], r1)"
    and x: "x = operationDone \<or> (\<exists>t e. x = stageFailed t e)" and r1: "operating r1 = opn"
    using r by (auto simp: opReaches_def)
  have to: "chain.leads D (1 + j) (nameChainIdle, [OperateMsg opn], r) (l, [x], r1)"
    by (rule chain.leads_trans [OF leads_operate [OF ctx o None] lead])
  from x show ?thesis
  proof (elim disjE exE)
    assume x: "x = operationDone"
    have "finishes D 1 (l, [x], r1) (fst (chain_ent D (opRest opn) r1), opRest opn)"
      using finishes_trans [OF leads_done [OF ctx j(2)] finishes_rest [where k = 0], of r1 1] r1 x by (simp add: opRest_def)
    from finishes_trans [OF to this, of 5] show ?thesis using j sp None x by (simp add: spec_operate_def)
  next
    fix t e assume x: "x = stageFailed t e"
    have "finishes D 1 (l, [x], r1) (spec_failed x r1)"
      by (rule finishes_failed [OF ctx _ _ x]) (use j(2) in \<open>auto simp: underOp_def\<close>)
    from finishes_trans [OF to this, of 5] show ?thesis using j sp None x by (simp add: spec_operate_def)
  qed
qed

section \<open>The entry point\<close>

text \<open>The line an operation reported last, after its name.\<close>

definition lastDetail :: "('v, 'x) manager \<Rightarrow> string" where
  "lastDetail r = (if mg_steps r = [] then '''' else cutDetail (last (mg_steps r)))"

lemma spec_operate_at:
  "snd (spec_operate D r opn verb) \<in> {nameChainReady, nameChainStopped, nameChainRemoved, nameChainFailed}"
proof -
  obtain r1 x where "spec_op D opn r = (r1, x)" by fastforce
  then show ?thesis by (cases x) (auto simp: spec_operate_def opRest_def spec_failed_at split: option.splits)
qed

lemma operate_unknown:
  assumes "never_cancelled D" "operationNamed opn = Inl err" "operating r = opn"
  shows "\<exists>m. runFrom D newManager r (OperateMsg opn) names = (m, r, Some (MachineError (ProcessErr nameChainIdle CmdOperate err)))"
proof -
  obtain m where m: "Start (chainClient D) newManager r (Some nameChainIdle) = (m, r, None)"
    "chain.standing m nameChainIdle []" "\<not> m_sending m" by (rule start_idle)
  have c: "ctx_err (chainClient D) r = None" "what_of (chainClient D) (OperateMsg opn) = CmdOperate"
    using assms(1) by (simp_all add: chainClient_def never_cancelled_def)
  have "chain.walk D (Suc maxDispatchPerSend) nameChainIdle [OperateMsg opn] r = Broke (ProcessErr nameChainIdle CmdOperate err) r"
    using assms(2) c by (simp add: chain_ancestors chain_process_at process_stoppedState_def)
  then have "chain.does (Send (chainClient D) m r (Some (OperateMsg opn))) (Broke (ProcessErr nameChainIdle CmdOperate err) r)"
    using chain.send_walk [OF m(2) _ m(3), of D r "OperateMsg opn"] by simp
  then show ?thesis using m(1) by (auto simp: chain.does_def runFrom_def)
qed

lemma operate_is_spec:
  assumes "never_cancelled D"
  shows "case operationNamed opn of
      Inl err \<Rightarrow> (\<exists>m. Manager_Operate D newManager r opn
        = (m, r\<lparr>operating := opn\<rparr>, Inl (MachineError (ProcessErr nameChainIdle CmdOperate err))))
    | Inr verb \<Rightarrow> (\<exists>m. Manager_Operate D newManager r opn
        = (m, fst (spec_operate D (r\<lparr>operating := opn\<rparr>) opn verb),
           (case mg_failure (fst (spec_operate D (r\<lparr>operating := opn\<rparr>) opn verb)) of
              Some e \<Rightarrow> Inl (Failure e)
            | None \<Rightarrow> Inr (lastDetail (fst (spec_operate D (r\<lparr>operating := opn\<rparr>) opn verb)))))
        \<and> m_current m = snd (spec_operate D (r\<lparr>operating := opn\<rparr>) opn verb))"
proof (cases "operationNamed opn")
  case (Inl err)
  then show ?thesis using operate_unknown [OF assms Inl, of "r\<lparr>operating := opn\<rparr>"
      "[nameChainReady, nameChainStopped, nameChainRemoved, nameChainFailed]"] by (auto simp: Manager_Operate_def)
next
  case (Inr verb)
  let ?r = "r\<lparr>operating := opn\<rparr>" and ?names = "[nameChainReady, nameChainStopped, nameChainRemoved, nameChainFailed]"
  let ?out = "spec_operate D ?r opn verb"
  have "finishes D 1000 (nameChainIdle, [OperateMsg opn], ?r) ?out"
    by (rule finishes_trans [OF chain.leads_refl operate_finishes [OF assms Inr]]) simp_all
  from runFrom_finishes [OF this, of ?names] obtain m where
    m: "runFrom D newManager ?r (OperateMsg opn) ?names = (m, fst ?out, chain_ends m (fst ?out) ?names)"
      "m_current m = snd ?out" by blast
  have "chain_ends m (fst ?out) ?names = map_option Failure (mg_failure (fst ?out))"
    by (rule chain_ends_at) (use m(2) spec_operate_at [of D ?r opn verb] in auto)
  then show ?thesis using m Inr by (auto simp: Manager_Operate_def lastDetail_def split: option.splits)
qed

text \<open>
  Property C9. Operating on a chain does what its verb does. As long as the context is not cancelled,
  \<open>Operate\<close> refuses a network that does not meet the conditions declared for the operation's verb; otherwise
  it runs the verb in the workspace (for a crossing, its moments in order) and rests stopped after a stop,
  removed after a removal, ready after any other operation, and failed when the verb failed. It returns the
  failure, or the line the operation reported. An operation that does not exist is an error of the machine
  and changes nothing.
\<close>

theorem operation_refines_its_verb:
  assumes "never_cancelled D"
  shows "case operationNamed opn of
      Inl err \<Rightarrow> (\<exists>m. Manager_Operate D newManager r opn
        = (m, r\<lparr>operating := opn\<rparr>, Inl (MachineError (ProcessErr nameChainIdle CmdOperate err))))
    | Inr verb \<Rightarrow> (\<exists>m. Manager_Operate D newManager r opn
        = (m, fst (spec_operate D (r\<lparr>operating := opn\<rparr>) opn verb),
           (case mg_failure (fst (spec_operate D (r\<lparr>operating := opn\<rparr>) opn verb)) of
              Some e \<Rightarrow> Inl (Failure e)
            | None \<Rightarrow> Inr (lastDetail (fst (spec_operate D (r\<lparr>operating := opn\<rparr>) opn verb)))))
        \<and> m_current m = snd (spec_operate D (r\<lparr>operating := opn\<rparr>) opn verb))"
  using operate_is_spec [OF assms] .

text \<open>
  An operation that is refused rests in the failed state with its reason, but with no failure status: the
  status stays what it was, zero on a manager that has not failed.
\<close>

theorem refused_operation_has_no_status:
  assumes "never_cancelled D" "operationNamed opn = Inr verb" "mayOperate D r verb = Some err"
  shows "\<exists>m r'. Manager_Operate D newManager r opn = (m, r', Inl (Failure err)) \<and> m_current m = nameChainFailed
    \<and> failStatus r' = failStatus r"
proof -
  have "mayOperate D (r\<lparr>operating := opn\<rparr>) verb = Some err" using assms(3) by (simp add: mayOperate_def)
  then show ?thesis using operate_is_spec [OF assms(1), of r opn] assms(2) by (auto simp: spec_operate_def)
qed

end
