(* ===== verification/Chain_Compare.thy ===== *)
theory Chain_Compare
  imports Chain_Resume
begin

text \<open>
  What composing against a target that may hold the network already does: the comparison of \<open>Preflight\<close> decides
  which of the five ways the machine takes, and each way does what its name says.
\<close>

section \<open>The comparison as a straight-line program\<close>

definition spec_ready :: "('v, 'x) deps \<Rightarrow> ('v, 'x) manager \<Rightarrow> ('v, 'x) manager \<times> StateName" where
  "spec_ready D r = (fst (chain_ent D nameChainReady r), nameChainReady)"

text \<open>The way a verdict leads to, with what its work reports.\<close>

definition spec_way :: "('v, 'x) deps \<Rightarrow> ('v, 'x) manager \<times> 'v chainMsg \<Rightarrow> ('v, 'x) manager \<times> StateName" where
  "spec_way D out =
     (case out of
        (r, networkKept) \<Rightarrow> spec_ready D r
      | (r, nodesRestarted) \<Rightarrow> spec_ready D r
      | (r, stoppedToRebuild) \<Rightarrow> spec_up D stageOrder r
      | (r, nothingComposed) \<Rightarrow> spec_up D stageOrder r
      | (r, networkStopped) \<Rightarrow> spec_up D [(stepStart, nameChainLaunchNodes)] r
      | (r, x) \<Rightarrow> spec_failed x r)"

definition spec_comparing ::
  "('v, 'x) deps \<Rightarrow> ('v, 'x) manager \<Rightarrow> 'v upRequest \<Rightarrow> ('v, 'x) manager \<times> StateName"
where
  "spec_comparing D r req =
     (case ent1 D nameChainCompare (r\<lparr>request := req, stopAfter := stopAfterFor (rq_Stage req)\<rparr>) of
        (r1, x) \<Rightarrow>
          (case nextFor (d_Verdict (decision r1)) of
             Inr way \<Rightarrow> spec_way D (ent1 D way r1)
           | Inl err \<Rightarrow> (r1\<lparr>mg_failure := Some err\<rparr>, nameChainFailed)))"

section \<open>The walk through a comparison\<close>

definition ways :: "StateName list" where
  "ways = [nameChainCompareSame, nameChainCompareNodesDiffer, nameChainCompareNetworkDiffers,
     nameChainCompareNothingComposed, nameChainCompareNetworkStopped]"

lemma ways_known: "n \<in> set ways \<Longrightarrow> n \<in> set chainNames \<and> n \<notin> set resting \<and> n \<noteq> nameChainFailed
    \<and> ancestors chainTree n = [n, nameChainCompare, nameChain]"
  by (auto simp: ways_def resting_def chain_ancestors)

lemma nextFor_ways: "nextFor v = Inr n \<Longrightarrow> n \<in> set ways"
  by (auto simp: nextFor_def ways_def split: if_splits)

lemma compare_reports:
  "ent1 D nameChainCompare r = (r1, x) \<Longrightarrow> x = comparisonMade (d_Verdict (decision r1))"
  by (auto simp: ent1_def chain_ent_def chain_enter_at enter_comparing_def note_step_def Let_def)

lemma what_way:
  "chainWhat x = eventNetworkKept \<Longrightarrow> x = networkKept"
  "chainWhat x = eventNodesRestarted \<Longrightarrow> x = nodesRestarted"
  "chainWhat x = eventStoppedToRebuild \<Longrightarrow> x = stoppedToRebuild"
  "chainWhat x = eventNothingComposed \<Longrightarrow> x = nothingComposed"
  "chainWhat x = eventNetworkStopped \<Longrightarrow> x = networkStopped"
  by (cases x; simp add: chain_whats)+

lemma way_answer:
  assumes "n \<in> set ways" "process_comparing D r x \<noteq> NotMine"
  shows "chain.answer D (ancestors chainTree n) r x = Some (nameChainCompare, process_comparing D r x)"
  using assms by (auto simp: ways_def chain_ancestors chain_process_at)

text \<open>From a way of the comparison into the stages of a composition.\<close>

lemma leads_stage:
  assumes "never_cancelled D" "n \<in> set ways" "process_comparing D r x = Moves r1 d" "(s, d) \<in> set stageOrder"
  shows "chain.leads D 1 (n, [x], r) (arrived D d r1)"
proof -
  have "ancestors chainTree d = [d, nameChainBuildUp, nameChain]" "d \<noteq> nameChainBuildUp"
    using assms(4) by (cases rule: stage_cases; simp add: chain_ancestors)+
  then have "entryPath chainTree n d = [nameChainBuildUp, d]"
    using assms(2) by (auto simp: entryPath_def ways_def chain_ancestors)
  then show ?thesis unfolding arrived_def
    by (intro chain.leads_moves) (use assms way_answer [OF assms(2), of D r x] in
      \<open>auto simp: never_cancelled_def chainClient_def split: prod.splits\<close>)
qed

lemma up_from_way:
  assumes ctx: "never_cancelled D" and b: "phases_bounded D 400" and n: "n \<in> set ways"
    and x: "process_comparing D r x = Moves r d" and rows: "suffix ((s, d) # rest) stageOrder"
  shows "finishes D 900 (n, [x], r) (spec_up D ((s, d) # rest) r)"
proof -
  have "length rest \<le> 8" using rows suffix_length_le by (fastforce simp: stageOrder_def)
  then show ?thesis
    using finishes_trans [OF leads_stage [OF ctx n x suffix_next(1) [OF rows]] up_finishes [OF ctx b rows], of 900] by simp
qed

lemma ready_from_way:
  assumes ctx: "never_cancelled D" and n: "n \<in> set ways" and x: "process_comparing D r x = Moves r nameChainReady"
  shows "finishes D 900 (n, [x], r) (spec_ready D r)"
proof -
  have "chain.leads D 1 (n, [x], r) (arrived D nameChainReady r)"
    by (rule leads_move [OF ctx, where p = nameChain and rest = "[]"])
      (use way_answer [OF n, of D r x] ways_known [OF n] x in \<open>simp_all add: chain_ancestors\<close>)
  from finishes_trans [OF this finishes_rest [where k = 0], of 900] show ?thesis by (simp add: spec_ready_def)
qed

lemma way_finishes:
  assumes ctx: "never_cancelled D" and b: "phases_bounded D 400" and n: "n \<in> set ways"
  shows "finishes D 900 (arrived D n r) (spec_way D (ent1 D n r))"
proof -
  obtain r1 x where e: "ent1 D n r = (r1, x)" by fastforce
  have a: "arrived D n r = (n, [x], r1)" using arrived_message [of n D r] ways_known [OF n] e by simp
  have "chainWhat x \<in> {eventNetworkKept, eventNodesRestarted, eventStoppedToRebuild, eventNothingComposed,
      eventNetworkStopped, eventStageFailed}"
    using ent1_what [of n D r] ways_known [OF n] n e by (auto simp: ways_def emitsOf_def chain_contracts)
  then consider "x = networkKept \<or> x = nodesRestarted" | "x = stoppedToRebuild \<or> x = nothingComposed"
    | "x = networkStopped" | t err where "x = stageFailed t err"
    using what_way what_inv(1) by blast
  then show ?thesis
  proof cases
    case 1
    then show ?thesis using ready_from_way [OF ctx n, of r1 x] a e by (auto simp: process_comparing_def spec_way_def)
  next
    case 2
    have "suffix ((stepNew, nameChainOpenWorkspace) # tl stageOrder) stageOrder" by (simp add: stageOrder_def)
    from up_from_way [OF ctx b n _ this, of r1 x] 2 show ?thesis
      using a e by (auto simp: process_comparing_def spec_way_def stageOrder_def)
  next
    case 3
    have "suffix [(stepStart, nameChainLaunchNodes)] stageOrder" by (simp add: stageOrder_def suffix_def)
    from up_from_way [OF ctx b n _ this, of r1 x] 3 show ?thesis
      using a e by (simp add: process_comparing_def spec_way_def stageFor_def stageOrder_def step_names)
  next
    case 4
    then show ?thesis using finishes_failed [OF ctx _ _ 4, of n 900 r1] ways_known [OF n] a e by (simp add: spec_way_def)
  qed
qed

lemma comparing_finishes:
  assumes ctx: "never_cancelled D" and b: "phases_bounded D 400"
    and r0: "r0 = r\<lparr>request := req, stopAfter := stopAfterFor (rq_Stage req)\<rparr>"
  shows "finishes D 1000 (nameChainIdle, [ComposeComparing req], r0) (spec_comparing D r req)"
proof -
  let ?n = nameChainCompare
  obtain r1 x where e: "ent1 D ?n r0 = (r1, x)" by fastforce
  have x: "x = comparisonMade (d_Verdict (decision r1))" by (rule compare_reports [OF e])
  have a: "arrived D ?n r0 = (?n, [x], r1)" using arrived_message [of ?n D r0] e by (simp add: resting_def)
  have "r0\<lparr>request := req\<rparr> = r0" by (simp add: r0)
  then have first: "chain.leads D 1 (nameChainIdle, [ComposeComparing req], r0) (?n, [x], r1)"
    using leads_move [OF ctx, where l = nameChainIdle and d = ?n and p = nameChain and rest = "[]"
        and x = "ComposeComparing req" and r = r0 and h = nameChainIdle and ?r1.0 = r0] a
    by (simp add: chain_ancestors chain_process_at process_stoppedState_def)
  have ans: "chain.answer D (ancestors chainTree ?n) r1 x = Some (?n, process_comparing D r1 x)"
    by (simp add: x chain_ancestors chain_process_at process_comparing_def failAs_def split: sum.splits)
  have "finishes D 901 (?n, [x], r1) (spec_comparing D r req)"
  proof (cases "nextFor (d_Verdict (decision r1))")
    case (Inl err)
    have "chain.leads D 1 (?n, [x], r1) (arrived D nameChainFailed (r1\<lparr>mg_failure := Some err\<rparr>))"
      by (rule leads_move [OF ctx, where p = nameChain and rest = "[]"])
        (use ans Inl x in \<open>simp_all add: chain_ancestors process_comparing_def failAs_def\<close>)
    from finishes_trans [OF this finishes_rest [where k = 0], of 901] show ?thesis
      using Inl e by (simp add: spec_comparing_def r0)
  next
    case (Inr way)
    note w = nextFor_ways [OF Inr]
    have "chain.leads D 1 (?n, [x], r1) (arrived D way r1)"
      by (rule leads_move [OF ctx, where p = ?n and rest = "[nameChain]"])
        (use ans Inr x ways_known [OF w] in \<open>simp_all add: chain_ancestors process_comparing_def\<close>)
    from finishes_trans [OF this way_finishes [OF ctx b w], of 901] show ?thesis
      using Inr e by (simp add: spec_comparing_def r0)
  qed
  from finishes_trans [OF first this] show ?thesis by simp
qed

lemma spec_comparing_at:
  "snd (spec_comparing D r req) \<in> {nameChainReady, nameChainBuildUpStoppedAtStep, nameChainFailed}"
proof -
  have "snd (spec_way D out) \<in> {nameChainReady, nameChainBuildUpStoppedAtStep, nameChainFailed}" for out
    using spec_up_at [of D stageOrder "fst out"] spec_up_at [of D "[(stepStart, nameChainLaunchNodes)]" "fst out"]
    by (cases out; cases "snd out") (auto simp: spec_way_def spec_ready_def spec_failed_at)
  then show ?thesis by (simp add: spec_comparing_def split: prod.splits sum.splits)
qed

lemma comparing_is_spec:
  assumes "never_cancelled D" "phases_bounded D 400"
  shows "\<exists>m. Manager_ComposeComparing D newManager r req
      = (m, fst (spec_comparing D r req), map_option Failure (mg_failure (fst (spec_comparing D r req))))
      \<and> m_current m = snd (spec_comparing D r req)"
proof -
  let ?r = "r\<lparr>request := req, stopAfter := stopAfterFor (rq_Stage req)\<rparr>" and ?out = "spec_comparing D r req"
  let ?names = "[nameChainReady, nameChainBuildUpStoppedAtStep, nameChainFailed]"
  from runFrom_finishes [OF comparing_finishes [OF assms refl, of req r], of ?names] obtain m where
    m: "runFrom D newManager ?r (ComposeComparing req) ?names = (m, fst ?out, chain_ends m (fst ?out) ?names)"
      "m_current m = snd ?out" by blast
  have "chain_ends m (fst ?out) ?names = map_option Failure (mg_failure (fst ?out))"
    by (rule chain_ends_at) (use m(2) spec_comparing_at [of D r req] in auto)
  then show ?thesis using m by (auto simp: Manager_ComposeComparing_def)
qed


section \<open>A network that is kept\<close>

lemma record_eq:
  assumes "record_kept D"
  obtains x where "recordPath D p r = r\<lparr>disk := SetStatePath (disk r) p, beyond := x\<rparr>"
proof -
  obtain x where "c_save D (SetStatePath (disk r) p) (beyond r) = (x, None)"
    using record_keptD(2) [OF assms] by (metis prod.collapse)
  then show thesis using that record_keptD(1) [OF assms] by (simp add: recordPath_def Let_def)
qed

lemma kept_spec:
  assumes "record_kept D"
    and same: "\<And>x. d_Verdict (compareWorkspace D req (SetStatePath (disk r) (Path chainTree (Some nameChainCompare))) x) = Reuse"
  shows "\<exists>r' t. spec_comparing D r req = (r', nameChainReady) \<and> mg_failure r' = mg_failure r
    \<and> ws_Nodes (disk r') = ws_Nodes (disk r) \<and> ws_Steps (disk r') = ws_Steps (disk r)
    \<and> mg_steps r' = mg_steps r @ [''preflight: '' @ t]"
proof -
  let ?r = "r\<lparr>request := req, stopAfter := stopAfterFor (rq_Stage req)\<rparr>"
  let ?p = "\<lambda>n. Path chainTree (Some n)"
  obtain x where x: "recordPath D (?p nameChainCompare) ?r
      = ?r\<lparr>disk := SetStatePath (disk ?r) (?p nameChainCompare), beyond := x\<rparr>" by (rule record_eq [OF assms(1)])
  define d where "d = compareWorkspace D req (SetStatePath (disk r) (?p nameChainCompare)) x"
  define r1 where "r1 = note_step ''preflight'' (c_decisionText D d)
    (?r\<lparr>disk := SetStatePath (disk ?r) (?p nameChainCompare), beyond := x, decision := d\<rparr>)"
  have e: "ent1 D nameChainCompare ?r = (r1, comparisonMade (d_Verdict d))"
    by (simp add: ent1_def chain_ent_def chain_enter_at enter_comparing_def Let_def x r1_def d_def)
  have v: "decision r1 = d" "nextFor (d_Verdict d) = Inr nameChainCompareSame"
    using same [of x] by (simp_all add: r1_def d_def note_step_def nextFor_def)
  obtain x2 where x2: "recordPath D (?p nameChainCompareSame) r1 = r1\<lparr>disk := SetStatePath (disk r1) (?p nameChainCompareSame), beyond := x2\<rparr>"
    by (rule record_eq [OF assms(1)])
  define r2 where "r2 = r1\<lparr>disk := SetStatePath (disk r1) (?p nameChainCompareSame), beyond := x2\<rparr>"
  obtain x3 where x3: "recordPath D (?p nameChainReady) r2 = r2\<lparr>disk := SetStatePath (disk r2) (?p nameChainReady), beyond := x3\<rparr>"
    by (rule record_eq [OF assms(1)])
  have "ent1 D nameChainCompareSame r1 = (r2, networkKept)"
    by (simp add: ent1_def chain_ent_def chain_enter_at enter_compareOutcome_def x2 r2_def)
  then have out: "spec_comparing D r req = (r2\<lparr>disk := SetStatePath (disk r2) (?p nameChainReady), beyond := x3\<rparr>, nameChainReady)"
    using e v by (simp add: spec_comparing_def spec_way_def spec_ready_def chain_ent_def chain_enter_at enter_resting_def x3)
  have "mg_failure r2 = mg_failure r" "ws_Nodes (disk r2) = ws_Nodes (disk r)" "ws_Steps (disk r2) = ws_Steps (disk r)"
    "mg_steps r2 = mg_steps r @ [''preflight: '' @ c_decisionText D d]"
    by (simp_all add: r2_def r1_def note_step_def SetStatePath_def)
  then show ?thesis unfolding out by (simp add: SetStatePath_def)
qed


end
