(* ===== verification/Chain_Demo.thy ===== *)
theory Chain_Demo
  imports Chain_Rollback Chain_Operate Chain_Compare
begin

text \<open>
  A concrete composition, on which the theorems about composing a chain are applied.
\<close>


section \<open>A concrete composition\<close>

text \<open>
  Work that succeeds and marks its step, on an outside without state: a network of two nodes, launched in
  two phases, the first with an action. The genesis can be made to fail, and so can the second phase of
  the launch.
\<close>

definition okVerb :: "string \<Rightarrow> 'r \<Rightarrow> (unit, 'r) verb" where
  "okVerb step y w x = (markStep ''t'' w step ''ok'', x, Inr y)"

definition noVerb :: "'r \<Rightarrow> (unit, 'r) verb" where
  "noVerb y w x = (w, x, Inr y)"

definition badVerb :: "string \<Rightarrow> (unit, 'r) verb" where
  "badVerb e w x = (w, x, Inl (Errorf e []))"

definition demoStart :: "bool \<Rightarrow> string \<Rightarrow> phase \<Rightarrow> (unit, int) verb" where
  "demoStart good bin ph w x =
     (if ph_Name ph = ''join'' \<and> \<not> good then (w, x, Inl (Errorf ''port in use'' []))
      else (w\<lparr>ws_Nodes := map (\<lambda>n. if nr_Index n \<in> set (ph_Nodes ph) then n\<lparr>nr_PID := 100 + nr_Index n\<rparr> else n) (ws_Nodes w)\<rparr>,
            x, Inr (int (length (ph_Nodes ph)))))"

definition demoPlan :: "string \<Rightarrow> (unit, string \<times> phase list) verb" where
  "demoPlan b w x = (w, x, Inr (b,
     [\<lparr>ph_Name = ''boot'', ph_Nodes = [1], ph_Actions = [''bootstrap''], ph_ActionsOn = 1\<rparr>,
      \<lparr>ph_Name = ''join'', ph_Nodes = [2], ph_Actions = [], ph_ActionsOn = 0\<rparr>]))"

definition demoNode :: "int \<Rightarrow> nodeRec" where
  "demoNode i = \<lparr>nr_Index = i, nr_PID = 0, nr_Args = []\<rparr>"

definition demoPlace :: "(unit, string) verb" where
  "demoPlace w x = (markStep ''t'' (w\<lparr>ws_Nodes := [demoNode 1, demoNode 2]\<rparr>) stepPlace ''ok'', x, Inr ''ok'')"

definition demoDeps :: "bool \<Rightarrow> bool \<Rightarrow> (unit, unit) deps" where
  "demoDeps genesisGood launchGood =
     \<lparr>c_ctxErr = (\<lambda>x. None), c_now = (\<lambda>x. 0), c_clock = (\<lambda>x. ''t''), c_open = (\<lambda>w x. Inr w),
      c_acquire = (\<lambda>x. (x, None)), c_save = (\<lambda>w x. (x, None)), c_release = (\<lambda>x. x), c_logf = (\<lambda>s x. x),
      c_Have = (\<lambda>w x. \<lparr>h_Chain = ''wbft'', h_Binary = ''gwemix'', h_KeysDir = '''', h_Peering = '''', h_ChainID = 0,
        h_BPCount = 2, h_GenesisDeclared = '''', h_Nodes = [wNode 1 ''full'' 101, wNode 2 ''full'' 102], h_Started = True\<rparr>),
      c_liveness = (\<lambda>w x n. (True, '''')), c_genesisDeclared = (\<lambda>q. ''''), c_decisionText = (\<lambda>d. ''compose''),
      c_New = (\<lambda>q. okVerb stepNew ''ok''), c_PlaceNodes = (\<lambda>q. demoPlace),
      c_KeysOptsFor = (\<lambda>q x. (x, Inr ())), c_keySource = (\<lambda>o'. noVerb ((), ''preset'', 2)),
      c_EnsureKeys = (\<lambda>s n. okVerb stepKeys ''ok''), c_GenesisOptsFor = (\<lambda>q x. (x, Inr ())),
      c_existing = (\<lambda>v. ''''), c_CheckFreeSpace = noVerb ''ok'',
      c_Genesis = (\<lambda>o'. if genesisGood then okVerb stepGenesis ''ok'' else badVerb ''no template''),
      c_configScopes = (\<lambda>q. []), c_RecordConfigSet = (\<lambda>q s. noVerb ()), c_Config = okVerb stepConfig ''ok'',
      c_launchScopes = (\<lambda>q. []), c_RecordLaunchSet = (\<lambda>q s. noVerb ()), c_RecordLaunchCommand = (\<lambda>q. noVerb ()),
      c_LaunchOpts = okVerb stepBuild ''ok'', c_Provision = okVerb stepDeploy (''ok'', 0),
      c_Init = (\<lambda>b. okVerb stepInit ''ok''), c_LaunchPlan = demoPlan, c_StartPhase = demoStart launchGood,
      c_RunPhaseActions = (\<lambda>b p. noVerb ()), c_FinishLaunch = (\<lambda>b n. okVerb stepStart ''ok''),
      c_stopOwned = (\<lambda>n x. (x, None)), c_StopUnrecorded = noVerb 0, c_reconcileUp = (\<lambda>v. noVerb ('''', '''', [])),
      c_Rm = noVerb ''ok'', c_Restart = (\<lambda>i. noVerb ''ok''), c_SwapNode = (\<lambda>o'. noVerb ''ok''),
      c_Hardfork = (\<lambda>o'. noVerb []), c_ForkStanding = noVerb True, c_ForkMoment = (\<lambda>o'. noVerb 0),
      c_HandOverFork = noVerb (), c_ReportAlreadyCrossed = noVerb ''ok'', c_ConfirmCrossing = (\<lambda>h. noVerb ''ok'')\<rparr>"

definition demoReq :: "unit upRequest" where
  "demoReq = \<lparr>rq_Stage = ''start'', rq_shape = \<lparr>u_Chain = ''wbft'', u_Binary = ''gwemix'', u_KeysDir = '''', u_Peering = '''',
     u_ChainID = 0, u_BPCount = 2, u_ENCount = 0, u_PNCount = 0\<rparr>, rq_rest = ()\<rparr>"

definition demoManager :: "(unit, unit) manager" where
  "demoManager = \<lparr>request = demoReq, stopAfter = '''', reusing = False, only = '''', mg_steps = [], mg_failure = None,
     failStatus = 0, operating = '''', decision = nothingDecision, keySrc = None, keyN = 0, genesisOpts = None,
     localDetail = '''', remoteDetail = '''', ln_bin = '''', ln_phases = [], ln_at = 0, ln_started = 0,
     wasRunning = [], restartIndex = 0, swapOpts = None, hardforkArgs = None, hardforkNodes = [], crossOpts = None,
     cf_head = 0, cf_already = False, cf_out = '''',
     disk = \<lparr>ws_Nodes = [demoNode 1, demoNode 2], ws_Steps = Map.empty, ws_StatePath = '''', ws_Request = None\<rparr>, beyond = ()\<rparr>"

lemma demo_never_cancelled: "never_cancelled (demoDeps g l)"
  by (simp add: never_cancelled_def demoDeps_def)

lemma demo_phases: "phases_bounded (demoDeps g l) 400"
  by (simp add: phases_bounded_def demoDeps_def demoPlan_def)

lemma demo_record: "recordPath (demoDeps g l) p r = r\<lparr>disk := SetStatePath (disk r) p\<rparr>"
  by (simp add: recordPath_def demoDeps_def Let_def)

lemma demo_work:
  "InWorkspace (demoDeps g l) (lift_verb v) r = (case v (disk r) (beyond r) of (w, x, out) \<Rightarrow> (r\<lparr>disk := w, beyond := x\<rparr>, out))"
  by (simp add: InWorkspace_def lift_verb_def demoDeps_def split: prod.splits)

lemma demo_fields:
  "c_LaunchPlan (demoDeps g l) = demoPlan" "c_StartPhase (demoDeps g l) = demoStart l"
  "c_RunPhaseActions (demoDeps g l) b p = noVerb ()" "c_FinishLaunch (demoDeps g l) b n = okVerb stepStart ''ok''"
  "c_stopOwned (demoDeps g l) = (\<lambda>n x. (x, None))" "c_clock (demoDeps g l) = (\<lambda>x. ''t'')"
  "c_StopUnrecorded (demoDeps g l) = noVerb 0" "c_open (demoDeps g l) = (\<lambda>w x. Inr w)" "c_save (demoDeps g l) = (\<lambda>w x. (x, None))"
  by (simp_all add: demoDeps_def)

lemma demo_rows: "dropWhile (\<lambda>(s, n). stepStart \<noteq> '''' \<and> s \<noteq> stepStart) stageOrder = [(stepStart, nameChainLaunchNodes)]"
  by (simp add: stageOrder_def step_names)

lemmas demo_launch = demo_record demo_work demo_fields ent1_def chain_ent_def chain_enter_at enter_launching_def
  enter_launchingPhase_def enter_runningPhaseActions_def enter_recordingRun_def enter_resting_def planWork_def
  RunningNodes_def demoPlan_def demoStart_def noVerb_def okVerb_def demoNode_def demoManager_def Let_def
  failLaunch_def fail_stage_def RollBackLaunch_def stopNodes_def note_step_def
  SetStatePath_def markStep_def markFailed_def MarkStepFailed_def

lemma demo_launched:
  "case spec_launch (demoDeps g True) (demoManager\<lparr>stopAfter := a, request := q\<rparr>) of (r, x) \<Rightarrow>
     x = nodesLaunched ''ok'' \<and> map nr_PID (ws_Nodes (disk r)) = [101, 102] \<and> mg_failure r = None
     \<and> mg_steps r = [] \<and> only r = '''' \<and> \<not> reusing r \<and> stopAfter r = a"
  by (simp add: spec_launch_def demo_launch)

lemma demo_not_launched:
  "case spec_launch (demoDeps g False) (demoManager\<lparr>stopAfter := a, request := q\<rparr>) of (r, x) \<Rightarrow>
     (\<exists>e. x = stageFailed stepStart e) \<and> map nr_PID (ws_Nodes (disk r)) = [0, 0]"
  by (simp add: spec_launch_def demo_launch)

lemma demo_composed:
  "case spec_compose (demoDeps g True) demoManager demoReq stepStart of (r, n) \<Rightarrow>
     n = nameChainReady \<and> map nr_PID (ws_Nodes (disk r)) = [101, 102] \<and> mg_failure r = None \<and> mg_steps r = [''start: ok'']"
proof -
  let ?D = "demoDeps g True"
  let ?r = "demoManager\<lparr>stopAfter := stopAfterFor (rq_Stage demoReq), request := demoReq\<rparr>"
  obtain r x where l: "spec_launch ?D ?r = (r, x)" by fastforce
  have f: "x = nodesLaunched ''ok''" "map nr_PID (ws_Nodes (disk r)) = [101, 102]" "mg_failure r = None"
    "mg_steps r = []" "only r = ''''" "\<not> reusing r" "stopAfter r = ''''"
    using demo_launched [where g = g and a = "stopAfterFor (rq_Stage demoReq)" and q = demoReq] l
    by (simp_all add: stopAfterFor_def demoReq_def UpDeploy_def UpInit_def)
  have "spec_stage ?D stepStart ?r = (r, nodesLaunched ''ok'')" using l f(1) by (simp add: spec_stage_def step_names)
  then show ?thesis using f(2-7) unfolding spec_compose_def demo_rows
    by (simp add: Let_def note_step_def step_names chain_ent_def chain_enter_at enter_resting_def demo_record SetStatePath_def)
qed

lemma demo_failed:
  "case spec_compose (demoDeps g False) demoManager demoReq stepStart of (r, n) \<Rightarrow>
     n = nameChainFailed \<and> map nr_PID (ws_Nodes (disk r)) = [0, 0] \<and> (\<exists>e. mg_failure r = Some e)"
proof -
  let ?D = "demoDeps g False"
  let ?r = "demoManager\<lparr>stopAfter := stopAfterFor (rq_Stage demoReq), request := demoReq\<rparr>"
  obtain r x where l: "spec_launch ?D ?r = (r, x)" by fastforce
  obtain e where f: "x = stageFailed stepStart e" "map nr_PID (ws_Nodes (disk r)) = [0, 0]"
    using demo_not_launched [where g = g and a = "stopAfterFor (rq_Stage demoReq)" and q = demoReq] l by auto
  have "spec_stage ?D stepStart ?r = (r, stageFailed stepStart e)" using l f(1) by (simp add: spec_stage_def step_names)
  then show ?thesis using f(2) unfolding spec_compose_def demo_rows by (simp add: spec_failed_def)
qed

lemma demo_record_kept: "record_kept (demoDeps g l)"
  by (simp add: record_kept_def keepsPath_def demoDeps_def okVerb_def noVerb_def badVerb_def demoStart_def demoPlan_def
      demoPlace_def markStep_def)

lemma demo_from: "stageFor stepStart = Inr nameChainLaunchNodes"
  by (simp add: stageFor_def stageOrder_def step_names)

text \<open>Two phases started from the launch: the chain is ready with both nodes running.\<close>

theorem composition_refines_straight_line_witness:
  "never_cancelled (demoDeps True True) \<and> phases_bounded (demoDeps True True) 400
   \<and> (\<exists>m r'. Manager_Compose (demoDeps True True) newManager demoManager demoReq stepStart = (m, r', None)
     \<and> m_current m = nameChainReady \<and> map nr_PID (ws_Nodes (disk r')) = [101, 102] \<and> mg_steps r' = [''start: ok''])"
  using composition_refines_straight_line [OF demo_never_cancelled [of True True] demo_phases [of True True],
      of demoManager demoReq stepStart]
    demo_composed [of True] demo_never_cancelled [of True True] demo_phases [of True True]
  by (auto simp: demo_from split: prod.splits)

text \<open>A second phase that cannot start: both nodes are down again, and the record resumes at the launch.\<close>

theorem failed_composition_resumes_at_its_stage_witness:
  "\<exists>r' e. snd (Manager_Compose (demoDeps True False) newManager demoManager demoReq stepStart) = (r', Some (Failure e))
     \<and> map nr_PID (ws_Nodes (disk r')) = [0, 0] \<and> (\<exists>s n st. (s, n) \<in> set stageOrder \<and> ResumeStep (disk r') = s \<and> ws_Steps (disk r') s = Some st
    \<and> Result st = StepFailed \<and> \<not> Done st \<and> Err st = errorText e
    \<and> Failed st = status_String (failStatus r') \<and> IsFailure (failStatus r'))"
proof -
  let ?D = "demoDeps True False"
  note h = demo_never_cancelled [of True False] demo_phases [of True False]
  obtain r' e where m: "snd (Manager_Compose ?D newManager demoManager demoReq stepStart) = (r', Some (Failure e))"
    and p: "map nr_PID (ws_Nodes (disk r')) = [0, 0]"
    using compose_is_spec [OF h, of demoManager demoReq stepStart] demo_failed [of True]
    by (auto simp: demo_from split: prod.splits)
  have "mg_failure demoManager = None" "\<not> reusing demoManager" by (simp_all add: demoManager_def)
  then show ?thesis
    by (intro exI [of _ r'] exI [of _ e] conjI m p failed_composition_resumes_at_its_stage [OF h demo_record_kept _ _ m])
qed

text \<open>Two nodes up, the first from before this launch; a phase that fails brings the second down again.\<close>

definition demoRunning :: "nodeRec list" where
  "demoRunning = [(demoNode 1)\<lparr>nr_PID := 101\<rparr>, (demoNode 2)\<lparr>nr_PID := 102\<rparr>]"

definition demoLaunching :: "(unit, unit) manager" where
  "demoLaunching = demoManager\<lparr>wasRunning := [1], disk := (disk demoManager)\<lparr>ws_Nodes := demoRunning\<rparr>,
     ln_phases := [\<lparr>ph_Name = ''join'', ph_Nodes = [2], ph_Actions = [], ph_ActionsOn = 0\<rparr>]\<rparr>"

lemma demo_phase_fails:
  "\<exists>r' e. chain_enter (demoDeps True False) nameChainLaunchNodesPhase p demoLaunching = (r', [stageFailed stepStart e])
     \<and> map nr_PID (ws_Nodes (disk r')) = [101, 0]"
  by (simp add: demo_launch demoLaunching_def demoRunning_def)


text \<open>A comparison that finds the network that is wanted, running.\<close>

lemma demo_manager: "mg_failure demoManager = None" "mg_steps demoManager = []"
  "ws_Nodes (disk demoManager) = [demoNode 1, demoNode 2]"
  by (simp_all add: demoManager_def)

lemma demo_same: "d_Verdict (compareWorkspace (demoDeps g l) demoReq (SetStatePath (disk demoManager) p) x) = Reuse"
  by (simp add: compareWorkspace_def demoDeps_def demoManager_def SetStatePath_def demoReq_def WantOf_def Check_def Compare_def
      networkDiffs_def differs_def orMesh_def byIndex_def wNode_def Let_def verdicts)



text \<open>A running network that is stopped.\<close>

definition demoUp :: "(unit, unit) manager" where
  "demoUp = demoManager\<lparr>disk := (disk demoManager)\<lparr>ws_Nodes := demoRunning\<rparr>\<rparr>"

lemma demo_stop_allowed: "mayOperate (demoDeps g l) r ''Stop'' = None"
  by (simp add: mayOperate_def demo_fields allow_def verbNeeds_def verbNeed_of_def)

lemma demo_stop_named: "operationNamed nameChainOpStop = Inr ''Stop''" "lowerVerb ''Stop'' = ''stop''"
  by (simp add: operationNamed_def ops_def, code_simp)

lemma demo_stopped:
  "case spec_operate (demoDeps True True) (demoUp\<lparr>operating := nameChainOpStop\<rparr>) nameChainOpStop ''Stop'' of (r', n) \<Rightarrow>
     n = nameChainStopped \<and> mg_failure r' = None \<and> map nr_PID (ws_Nodes (disk r')) = [0, 0]
     \<and> mg_steps r' = [''stop: '' @ itoa 2 @ '' node(s) stopped'']"
  by (simp add: spec_operate_def demo_stop_allowed spec_op_def opRest_def demo_launch enter_stopping_def operated_def
      demo_stop_named Stop_def demoUp_def demoRunning_def)

theorem operation_refines_its_verb_witness:
  "\<exists>m r' detail. Manager_Operate (demoDeps True True) newManager demoUp nameChainOpStop = (m, r', Inr detail)
     \<and> m_current m = nameChainStopped \<and> map nr_PID (ws_Nodes (disk r')) = [0, 0]"
  using operation_refines_its_verb [OF demo_never_cancelled [of True True], of demoUp nameChainOpStop] demo_stopped
  by (auto simp: demo_stop_named split: prod.splits)

end
