(* ===== verification/Bring_Up.thy ===== *)
theory Bring_Up
  imports Chain_Machine Process_Owner
begin

text \<open>
  The order a network is started in. A consensus family answers the roles of the plan with bring-up phases
  (\<open>internal/core/registry\<close>, \<open>internal/consensus/poa/poa.go\<close>, \<open>internal/consensus/wbft/wbft.go\<close>),
  the launch reads them against its node table (\<open>internal/chainsetup/phases.go\<close>). What the launch relies
  on is the locale \<open>bring_up\<close>, interpreted for the two families; and the three places that ask which node
  is the boot node of a poa network are shown to answer alike.
\<close>

section \<open>The node record (core/node/record.go)\<close>

record Record =
  r_Index :: int
  r_Label :: string
  r_Role :: string
  r_SyncMode :: string
  r_Server :: string
  r_Host :: string
  r_DataDir :: string
  r_ConfigPath :: string
  r_LogPath :: string
  r_Endpoints :: Endpoints
  r_Binary :: string
  r_Config :: string
  r_Key :: string
  r_Args :: "string list"
  r_PID :: int

definition NodeLabel :: "Record \<Rightarrow> Label" where
  "NodeLabel r = (if r_Label r \<noteq> '''' then r_Label r else LabelFor (r_Index r))"

definition localHost :: string where "localHost = ''127.0.0.1''"

definition nodeHost :: "Record \<Rightarrow> string" where
  "nodeHost ns = (if r_Host ns \<noteq> '''' then r_Host ns else localHost)"

definition SpecOf :: "Record \<Rightarrow> NodeSpec" where
  "SpecOf r =
     (let host = (if r_Host r = '''' then localHost else r_Host r)
      in \<lparr>sp_index = r_Index r, sp_role = r_Role r, sp_host = host, sp_rpcURL = '''', sp_binary = '''',
          sp_dataDir = r_DataDir r, sp_configPath = r_ConfigPath r, sp_config = '''', sp_logPath = r_LogPath r,
          sp_args = r_Args r, sp_ports = r_Endpoints r, sp_syncMode = r_SyncMode r\<rparr>)"

text \<open>\<open>binaryFor\<close> reads the composition's \<open>Binaries\<close> map; a missing key reads as the empty string.\<close>

definition binaryFor :: "(string \<rightharpoonup> string) \<Rightarrow> Record \<Rightarrow> string \<Rightarrow> string" where
  "binaryFor binaries ns fallback =
     (if r_Binary ns \<noteq> '''' then
        (case binaries (r_Binary ns) of Some path \<Rightarrow> if path \<noteq> '''' then path else fallback | None \<Rightarrow> fallback)
      else fallback)"

definition genesisFor :: "(string \<rightharpoonup> string) \<Rightarrow> string \<Rightarrow> Record \<Rightarrow> string" where
  "genesisFor genesisPaths genesisPath ns =
     (if r_Binary ns \<noteq> '''' then
        (case genesisPaths (r_Binary ns) of Some p \<Rightarrow> if p \<noteq> '''' then p else genesisPath | None \<Rightarrow> genesisPath)
      else genesisPath)"

definition chainFor :: "(string \<rightharpoonup> string) \<Rightarrow> string \<Rightarrow> Record \<Rightarrow> string" where
  "chainFor binaryChains chain ns =
     (if r_Binary ns \<noteq> '''' then
        (case binaryChains (r_Binary ns) of Some i \<Rightarrow> if i \<noteq> '''' then i else chain | None \<Rightarrow> chain)
      else chain)"

datatype netmapError = BadNodeRole int nodeError | NotPlaced placementError

text \<open>The loop of \<open>Netmap\<close>, with the ordinals counted so far.\<close>

fun netmapLoop :: "(Role \<Rightarrow> int) \<Rightarrow> Record list \<Rightarrow> netmapError + Placement list" where
  "netmapLoop ordinals [] = Inr []"
| "netmapLoop ordinals (ns # rest) =
     (case NormalizeRole (r_Role ns) of
        Inl err \<Rightarrow> Inl (BadNodeRole (r_Index ns) err)
      | Inr role \<Rightarrow>
          (let ordinals1 = ordinals(role := ordinals role + 1)
           in case netmapLoop ordinals1 rest of
                Inl err \<Rightarrow> Inl err
              | Inr ps \<Rightarrow>
                  Inr (\<lparr>pl_index = r_Index ns, pl_label = NodeLabel ns, pl_role = role, pl_ord = ordinals1 role,
                        pl_host = nodeHost ns, pl_ports = r_Endpoints ns, pl_dataDir = r_DataDir ns\<rparr> # ps)))"

definition Netmap :: "Record list \<Rightarrow> netmapError + Map" where
  "Netmap nodes =
     (case netmapLoop (\<lambda>_. 0) nodes of
        Inl err \<Rightarrow> Inl err
      | Inr ps \<Rightarrow> (case NewMap ps of Inl err \<Rightarrow> Inl (NotPlaced err) | Inr m \<Rightarrow> Inr m))"

section \<open>Reading a phase (chainsetup/phases.go)\<close>

definition phaseHasNode :: "phase \<Rightarrow> int \<Rightarrow> bool" where
  "phaseHasNode ph index = (if length (ph_Nodes ph) = 0 then True else list_ex (\<lambda>i. i = index) (ph_Nodes ph))"

definition recordByIndex :: "Record list \<Rightarrow> int \<Rightarrow> Record option" where
  "recordByIndex nodes index = find (\<lambda>ns. r_Index ns = index) nodes"

fun phaseActionNode :: "Record list \<Rightarrow> phase \<Rightarrow> Node option" where
  "phaseActionNode [] ph = None"
| "phaseActionNode (ns # nodes) ph =
     (if ph_ActionsOn ph > 0 \<and> r_Index ns \<noteq> ph_ActionsOn ph then phaseActionNode nodes ph
      else if \<not> ph_ActionsOn ph > 0 \<and> \<not> phaseHasNode ph (r_Index ns) then phaseActionNode nodes ph
      else Some \<lparr>n_chain = '''', n_index = r_Index ns, n_role = r_Role ns, n_host = nodeHost ns, n_rpcURL = '''',
                 n_metricsURL = '''', n_wsURL = '''', n_ports = r_Endpoints ns, n_pid = 0, n_apis = []\<rparr>)"

text \<open>The launch plan of \<open>process/plan.go\<close>, with the parts an action reads.\<close>

record process_Plan =
  pn_DataRoot :: string
  pn_GenesisPath :: string
  pn_Nodes :: "NodeSpec list"

definition phasePlan :: "(string \<rightharpoonup> string) \<Rightarrow> string \<Rightarrow> string \<Rightarrow> Record list \<Rightarrow> string \<Rightarrow> process_Plan" where
  "phasePlan binaries dataRoot genesisPath nodes bin =
     \<lparr>pn_DataRoot = dataRoot, pn_GenesisPath = genesisPath,
      pn_Nodes = map (\<lambda>ns. (SpecOf ns)\<lparr>sp_binary := binaryFor binaries ns bin\<rparr>) nodes\<rparr>"

section \<open>The families\<close>

definition allPhase :: phase where
  "allPhase = \<lparr>ph_Name = ''all'', ph_Nodes = [], ph_Actions = [], ph_ActionsOn = 0\<rparr>"

definition ActionDeployGovernance :: string where "ActionDeployGovernance = ''deploy-governance''"
definition ActionEtcdInit :: string where "ActionEtcdInit = ''etcd-init''"
definition ActionVerifyEtcd :: string where "ActionVerifyEtcd = ''verify-etcd''"
definition ActionEtcdJoin :: string where "ActionEtcdJoin = ''etcd-join''"

lemmas action_defs = ActionDeployGovernance_def ActionEtcdInit_def ActionVerifyEtcd_def ActionEtcdJoin_def

text \<open>The first loop of \<open>BringUpPhases\<close>: the numbers of the producers and of the others, from \<open>i\<close> on.\<close>

fun groupRoles :: "int \<Rightarrow> Role list \<Rightarrow> int list \<times> int list" where
  "groupRoles i [] = ([], [])"
| "groupRoles i (r # rs) =
     (case groupRoles (i + 1) rs of (producers, endpoints) \<Rightarrow>
        if Is_role r RoleBP then (i # producers, endpoints) else (producers, i # endpoints))"

definition joinPhase :: "int \<Rightarrow> phase" where
  "joinPhase p = \<lparr>ph_Name = ''join-node'' @ itoa p, ph_Nodes = [p], ph_Actions = [ActionEtcdJoin], ph_ActionsOn = p\<rparr>"

definition bootPhase :: "int \<Rightarrow> phase" where
  "bootPhase boot =
     \<lparr>ph_Name = ''boot'', ph_Nodes = [boot],
      ph_Actions = [ActionDeployGovernance, ActionEtcdInit, ActionVerifyEtcd], ph_ActionsOn = 0\<rparr>"

definition poa_BringUpPhases :: "Role list \<Rightarrow> phase list" where
  "poa_BringUpPhases roles =
     (case groupRoles 1 roles of (producers, endpoints) \<Rightarrow>
        if length producers = 0 then [allPhase]
        else
          [bootPhase (last producers)]
          @ map joinPhase (rev (butlast producers))
          @ (if length endpoints > 0
             then [\<lparr>ph_Name = ''endpoints'', ph_Nodes = endpoints, ph_Actions = [], ph_ActionsOn = 0\<rparr>] else []))"

definition wbft_BringUpPhases :: "Role list \<Rightarrow> phase list" where
  "wbft_BringUpPhases roles = [allPhase]"

text \<open>\<open>LaunchPolicy\<close> (its one field, \<open>Mine\<close>), \<open>PortReservation\<close> and \<open>SupportsRole\<close> of the two families.\<close>

definition poa_LaunchPolicy :: "Role \<Rightarrow> bool" where
  "poa_LaunchPolicy role = Is_role role RoleBP"

definition wbft_LaunchPolicy :: "Role \<Rightarrow> bool" where
  "wbft_LaunchPolicy role = Is_role role RoleBP"

definition poa_PortReservation :: Reservation where
  "poa_PortReservation = \<lparr>P2PSpan = 3, RPCSpan = 3\<rparr>"

definition wbft_PortReservation :: Reservation where
  "wbft_PortReservation = \<lparr>P2PSpan = 1, RPCSpan = 3\<rparr>"

definition poa_SupportsRole :: "Role \<Rightarrow> bool" where
  "poa_SupportsRole role =
     (case NormalizeRole role of Inl e \<Rightarrow> False
      | Inr canonical \<Rightarrow> canonical = RoleBP \<or> canonical = RoleEN \<or> canonical = RolePN)"

text \<open>\<open>bootstrap.go\<close>: the sequence as data.\<close>

record bootStep =
  bs_Name :: string
  bs_Detail :: string
  bs_OnBootNode :: bool

definition BootstrapPlan :: "bootStep list" where
  "BootstrapPlan =
     [\<lparr>bs_Name = ''init-boot'', bs_Detail = ''initialize the boot node datadir from genesis'', bs_OnBootNode = True\<rparr>,
      \<lparr>bs_Name = ''start-boot'', bs_Detail = ''start the boot node'', bs_OnBootNode = True\<rparr>,
      \<lparr>bs_Name = ''deploy-governance'', bs_Detail = ''deploy governance contracts via the boot node'', bs_OnBootNode = True\<rparr>,
      \<lparr>bs_Name = ''init-etcd'', bs_Detail = ''initialize the etcd cluster membership'', bs_OnBootNode = True\<rparr>,
      \<lparr>bs_Name = ''start-nodes'', bs_Detail = ''initialize and start the remaining nodes'', bs_OnBootNode = False\<rparr>]"

section \<open>Which node is the boot node\<close>

text \<open>\<open>genesis_source.go\<close>: the last producer of the placement, here as the loop.\<close>

fun bootPlacementIn :: "Placement option \<Rightarrow> Placement list \<Rightarrow> Placement option" where
  "bootPlacementIn boot [] = boot"
| "bootPlacementIn boot (p # ps) = bootPlacementIn (if Is_role (pl_role p) RoleBP then Some p else boot) ps"

definition bootPlacement :: "Map \<Rightarrow> Placement option" where
  "bootPlacement m = bootPlacementIn None (Placements m)"

text \<open>\<open>executor.go\<close>: the producer with the highest index.\<close>

definition isProducer :: "Role \<Rightarrow> bool" where
  "isProducer r = Is_role r RoleBP"

fun bootSpecIn :: "NodeSpec option \<Rightarrow> NodeSpec list \<Rightarrow> NodeSpec option" where
  "bootSpecIn boot [] = boot"
| "bootSpecIn boot (spec # specs) =
     bootSpecIn (if isProducer (sp_role spec) \<and> (case boot of None \<Rightarrow> True | Some b \<Rightarrow> sp_index spec > sp_index b)
                 then Some spec else boot) specs"

definition bootSpecOf :: "process_Plan \<Rightarrow> NodeSpec option" where
  "bootSpecOf plan = bootSpecIn None (pn_Nodes plan)"

definition planSpecFor :: "process_Plan \<Rightarrow> int \<Rightarrow> NodeSpec option" where
  "planSpecFor plan index = find (\<lambda>s. sp_index s = index) (pn_Nodes plan)"

section \<open>What a launch relies on\<close>

lemma count_list_distinct: "distinct xs \<Longrightarrow> count_list xs x = (if x \<in> set xs then 1 else 0)"
  by (induction xs) auto

lemma distinct_if_counts: "(\<And>x. x \<in> set xs \<Longrightarrow> count_list xs x = 1) \<Longrightarrow> distinct xs"
proof (induction xs)
  case (Cons a xs)
  have "a \<notin> set xs" using Cons.prems [of a] by (simp add: count_list_0_iff)
  moreover have "count_list xs x = 1" if "x \<in> set xs" for x using Cons.prems [of x] that \<open>a \<notin> set xs\<close> by (auto split: if_splits)
  ultimately show ?case using Cons.IH by simp
qed simp

lemma filter_eq_singleton: "distinct xs \<Longrightarrow> x \<in> set xs \<Longrightarrow> filter (\<lambda>y. y = x) xs = [x]"
  by (induction xs) (auto simp: filter_empty_conv)

text \<open>The nodes of a table of \<open>n\<close> nodes that a phase starts, and the whole order of a launch.\<close>

definition phaseNodes :: "int \<Rightarrow> phase \<Rightarrow> int list" where
  "phaseNodes n ph = filter (phaseHasNode ph) [1..n]"

definition launchOrder :: "int \<Rightarrow> phase list \<Rightarrow> int list" where
  "launchOrder n phases = concat (map (phaseNodes n) phases)"

locale bring_up =
  fixes phases :: "Role list \<Rightarrow> phase list"
  assumes one_phase: "1 \<le> i \<Longrightarrow> i \<le> int (length roles) \<Longrightarrow>
      length (filter (\<lambda>ph. phaseHasNode ph i) (phases roles)) = 1"
    and actions_alone: "ph \<in> set (phases roles) \<Longrightarrow> ph_Actions ph \<noteq> [] \<Longrightarrow>
      \<exists>i. ph_Nodes ph = [i] \<and> 1 \<le> i \<and> i \<le> int (length roles) \<and> ph_ActionsOn ph \<in> {0, i}"
begin

lemma order_set: "set (launchOrder (int (length roles)) (phases roles)) = {1..int (length roles)}"
proof -
  have "\<exists>ph \<in> set (phases roles). phaseHasNode ph i" if "1 \<le> i" "i \<le> int (length roles)" for i
    using one_phase [OF that] by (metis filter_False length_0_conv zero_neq_one)
  then show ?thesis by (fastforce simp: launchOrder_def phaseNodes_def)
qed

lemma order_once:
  assumes "1 \<le> i" "i \<le> int (length roles)"
  shows "count_list (launchOrder (int (length roles)) (phases roles)) i = 1"
proof -
  have c: "count_list (phaseNodes n ph) i = (if phaseHasNode ph i then 1 else 0)" if "i \<le> n" for n ph
    using that assms(1) by (simp add: phaseNodes_def count_list_distinct)
  have "count_list (launchOrder n phs) i = length (filter (\<lambda>ph. phaseHasNode ph i) phs)" if "i \<le> n" for n phs
    using that by (induction phs) (simp_all add: launchOrder_def c)
  then show ?thesis using one_phase [OF assms] assms(2) by simp
qed

lemma order_distinct: "distinct (launchOrder (int (length roles)) (phases roles))"
  by (rule distinct_if_counts) (use order_once order_set [of roles] in auto)

lemma action_node_is_launched:
  assumes "ph \<in> set (phases roles)" "ph_Actions ph \<noteq> []" "map r_Index nodes = [1..int (length roles)]"
  shows "\<exists>on. phaseActionNode nodes ph = Some on \<and> phaseNodes (int (length roles)) ph = [n_index on]"
proof -
  obtain i where i: "ph_Nodes ph = [i]" "1 \<le> i" "i \<le> int (length roles)" "ph_ActionsOn ph \<in> {0, i}"
    using actions_alone [OF assms(1,2)] by blast
  have has: "phaseHasNode ph j \<longleftrightarrow> j = i" for j using i(1) by (auto simp: phaseHasNode_def)
  have "\<exists>on. phaseActionNode ns ph = Some on \<and> n_index on = i" if "i \<in> r_Index ` set ns" for ns
    using that i by (induction ns) (auto simp: has)
  moreover have "i \<in> r_Index ` set nodes" using assms(3) i(2,3) by (metis atLeastAtMost_iff set_map set_upto)
  moreover have "phaseNodes (int (length roles)) ph = [i]"
    unfolding phaseNodes_def has by (rule filter_eq_singleton) (use i in auto)
  ultimately show ?thesis by metis
qed

end


section \<open>The families keep to it\<close>

interpretation wbft: bring_up wbft_BringUpPhases
  by unfold_locales (auto simp: wbft_BringUpPhases_def allPhase_def phaseHasNode_def)

lemma groupRoles_filter:
  "groupRoles i rs =
     (filter (\<lambda>k. rs ! nat (k - i) = RoleBP) [i..i + int (length rs) - 1],
      filter (\<lambda>k. rs ! nat (k - i) \<noteq> RoleBP) [i..i + int (length rs) - 1])"
proof (induction rs arbitrary: i)
  case (Cons r rs)
  have u: "[i..i + int (length (r # rs)) - 1] = i # [i + 1..i + int (length rs)]"
    by (simp add: upto_rec1)
  have s: "(r # rs) ! nat (k - i) = rs ! nat (k - (i + 1))" if "k \<in> set [i + 1..i + int (length rs)]" for k
  proof -
    have "nat (k - i) = Suc (nat (k - (i + 1)))" using that by auto
    then show ?thesis by simp
  qed
  then have "filter (\<lambda>k. P ((r # rs) ! nat (k - i))) [i + 1..i + int (length rs)]
      = filter (\<lambda>k. P (rs ! nat (k - (i + 1)))) [i + 1..i + int (length rs)]" for P :: "Role \<Rightarrow> bool"
    by (intro filter_cong) auto
  from this [of "\<lambda>r. r = RoleBP"] this [of "\<lambda>r. r \<noteq> RoleBP"]
  show ?case unfolding u by (simp add: Cons; auto)
qed simp

text \<open>The producers and the others of a plan, by number.\<close>

definition producersOf :: "Role list \<Rightarrow> int list" where
  "producersOf roles = filter (\<lambda>k. roles ! nat (k - 1) = RoleBP) [1..int (length roles)]"

definition othersOf :: "Role list \<Rightarrow> int list" where
  "othersOf roles = filter (\<lambda>k. roles ! nat (k - 1) \<noteq> RoleBP) [1..int (length roles)]"

lemma groupRoles_1: "groupRoles 1 roles = (producersOf roles, othersOf roles)"
  by (simp add: groupRoles_filter producersOf_def othersOf_def)

lemma producers_others:
  "distinct (producersOf roles @ othersOf roles)" "set (producersOf roles @ othersOf roles) = {1..int (length roles)}"
  by (auto simp: producersOf_def othersOf_def)

lemma sorted_producers: "sorted (producersOf roles)"
  by (simp add: producersOf_def sorted_filter [of id, simplified])

definition poaOrder :: "Role list \<Rightarrow> int list" where
  "poaOrder roles = rev (producersOf roles) @ othersOf roles"

lemma poa_phases:
  "poa_BringUpPhases roles =
     (if producersOf roles = [] then [allPhase]
      else bootPhase (last (producersOf roles)) # map joinPhase (rev (butlast (producersOf roles)))
        @ (if othersOf roles = [] then []
           else [\<lparr>ph_Name = ''endpoints'', ph_Nodes = othersOf roles, ph_Actions = [], ph_ActionsOn = 0\<rparr>]))"
  by (simp add: poa_BringUpPhases_def groupRoles_1)

lemma poa_nodes:
  assumes "producersOf roles \<noteq> []"
  shows "concat (map ph_Nodes (poa_BringUpPhases roles)) = poaOrder roles"
    "\<forall>ph \<in> set (poa_BringUpPhases roles). ph_Nodes ph \<noteq> []"
proof -
  have c: "concat (map ph_Nodes (map joinPhase ps)) = ps" for ps
    by (induction ps) (simp_all add: joinPhase_def)
  have r: "rev (producersOf roles) = last (producersOf roles) # rev (butlast (producersOf roles))"
    using assms by (metis append_butlast_last_id rev_eq_Cons_iff rev_rev_ident)
  show "concat (map ph_Nodes (poa_BringUpPhases roles)) = poaOrder roles"
    using assms c [of "rev (butlast (producersOf roles))"]
    by (simp add: poa_phases poaOrder_def bootPhase_def r)
  show "\<forall>ph \<in> set (poa_BringUpPhases roles). ph_Nodes ph \<noteq> []"
    using assms by (auto simp: poa_phases bootPhase_def joinPhase_def)
qed

lemma poaOrder_once: "distinct (poaOrder roles)" "set (poaOrder roles) = {1..int (length roles)}"
  using producers_others [of roles] by (auto simp: poaOrder_def)

lemma one_group:
  "distinct (concat xss) \<Longrightarrow> length (filter (\<lambda>xs. x \<in> set xs) xss) = (if x \<in> set (concat xss) then 1 else 0)"
proof (induction xss)
  case (Cons xs xss)
  then show ?case by (auto split: if_splits)
qed simp

lemma phaseHasNode_in: "ph_Nodes ph \<noteq> [] \<Longrightarrow> phaseHasNode ph i \<longleftrightarrow> i \<in> set (ph_Nodes ph)"
  by (auto simp: phaseHasNode_def list_ex_iff)

interpretation poa: bring_up poa_BringUpPhases
proof
  fix i :: int and roles :: "Role list"
  assume i: "1 \<le> i" "i \<le> int (length roles)"
  show "length (filter (\<lambda>ph. phaseHasNode ph i) (poa_BringUpPhases roles)) = 1"
  proof (cases "producersOf roles = []")
    case True
    then show ?thesis by (simp add: poa_phases allPhase_def phaseHasNode_def)
  next
    case False
    note n = poa_nodes [OF False]
    have "length (filter (\<lambda>ph. phaseHasNode ph i) (poa_BringUpPhases roles))
        = length (filter (\<lambda>xs. i \<in> set xs) (map ph_Nodes (poa_BringUpPhases roles)))"
      using n(2) by (simp add: filter_map comp_def phaseHasNode_in cong: filter_cong)
    then show ?thesis
      using one_group [of "map ph_Nodes (poa_BringUpPhases roles)" i] i poaOrder_once [of roles] n(1) by simp
  qed
next
  fix ph roles
  assume ph: "ph \<in> set (poa_BringUpPhases roles)" "ph_Actions ph \<noteq> []"
  have "p \<in> {1..int (length roles)}" if "p \<in> set (producersOf roles)" for p
    using that producers_others(2) [of roles] by auto
  then show "\<exists>i. ph_Nodes ph = [i] \<and> 1 \<le> i \<and> i \<le> int (length roles) \<and> ph_ActionsOn ph \<in> {0, i}"
    using ph by (auto simp: poa_phases allPhase_def bootPhase_def joinPhase_def dest!: in_set_butlastD split: if_splits)
qed

lemma poa_launchOrder:
  assumes "producersOf roles \<noteq> []"
  shows "launchOrder (int (length roles)) (poa_BringUpPhases roles) = poaOrder roles"
proof -
  have s: "phaseNodes (int (length roles)) ph = ph_Nodes ph"
    if ph: "ph \<in> set (poa_BringUpPhases roles)" for ph
  proof -
    have "sorted (ph_Nodes ph) \<and> distinct (ph_Nodes ph)"
      using ph producers_others(1) [of roles] assms
      by (auto simp: poa_phases bootPhase_def joinPhase_def othersOf_def sorted_filter [of id, simplified] split: if_splits)
    moreover have "set (ph_Nodes ph) \<subseteq> {1..int (length roles)}"
    proof -
      have "set (ph_Nodes ph) \<subseteq> set (concat (map ph_Nodes (poa_BringUpPhases roles)))" using ph by auto
      then show ?thesis using poa_nodes(1) [OF assms] poaOrder_once(2) [of roles] by simp
    qed
    moreover have "set (phaseNodes (int (length roles)) ph) = set (ph_Nodes ph)"
      using calculation(2) phaseHasNode_in poa_nodes(2) [OF assms] ph by (auto simp: phaseNodes_def)
    moreover have "sorted (phaseNodes (int (length roles)) ph)" "distinct (phaseNodes (int (length roles)) ph)"
      by (simp_all add: phaseNodes_def sorted_filter [of id, simplified])
    ultimately show ?thesis by (metis sorted_distinct_set_unique)
  qed
  then show ?thesis using poa_nodes(1) [OF assms] by (simp add: launchOrder_def cong: map_cong)
qed

section \<open>The boot node is one node\<close>

lemma producers_of_table:
  "map r_Index nodes = [i..i + int (length nodes) - 1] \<Longrightarrow>
   groupRoles i (map r_Role nodes) = (map r_Index (filter (\<lambda>ns. r_Role ns = RoleBP) nodes),
     map r_Index (filter (\<lambda>ns. r_Role ns \<noteq> RoleBP) nodes))"
proof (induction nodes arbitrary: i)
  case (Cons ns nodes)
  have "[i..i + int (length (ns # nodes)) - 1] = i # [i + 1..i + 1 + int (length nodes) - 1]"
    by (simp add: upto_rec1)
  then have "r_Index ns = i" "map r_Index nodes = [i + 1..i + 1 + int (length nodes) - 1]"
    using Cons.prems by simp_all
  then show ?case using Cons.IH [of "i + 1"] by (auto split: prod.splits)
qed simp

lemma netmapLoop_roles:
  "netmapLoop ordinals nodes = Inr ps \<Longrightarrow> map pl_index ps = map r_Index nodes \<and> map pl_role ps = map r_Role nodes"
  by (induction nodes arbitrary: ordinals ps)
    (auto simp: Let_def NormalizeRole_Inr_iff split: sum.splits)

lemma Netmap_roles:
  assumes "Netmap nodes = Inr m"
  shows "map pl_index (Placements m) = map r_Index nodes" "map pl_role (Placements m) = map r_Role nodes"
proof -
  obtain ps where ps: "netmapLoop (\<lambda>_. 0) nodes = Inr ps" "NewMap ps = Inr m"
    using assms by (auto simp: Netmap_def split: sum.splits)
  show "map pl_index (Placements m) = map r_Index nodes" "map pl_role (Placements m) = map r_Role nodes"
    using netmapLoop_roles [OF ps(1)] NewMap_Placements [OF ps(2)] by simp_all
qed

definition lastOr :: "'a option \<Rightarrow> 'a list \<Rightarrow> 'a option" where
  "lastOr d xs = (if xs = [] then d else Some (last xs))"

lemma lastOr_simps [simp]: "lastOr d [] = d" "lastOr d (x # xs) = lastOr (Some x) xs"
  "map_option f (lastOr d xs) = lastOr (map_option f d) (map f xs)"
  by (auto simp: lastOr_def last_map)

lemma bootPlacementIn_last: "bootPlacementIn b ps = lastOr b (filter (\<lambda>p. pl_role p = RoleBP) ps)"
  by (induction ps arbitrary: b) simp_all

lemma bootSpecIn_last:
  "sorted_wrt (<) (map sp_index specs) \<Longrightarrow> (\<forall>x \<in> set_option b. \<forall>y \<in> set specs. sp_index x < sp_index y) \<Longrightarrow>
   bootSpecIn b specs = lastOr b (filter (\<lambda>s. sp_role s = RoleBP) specs)"
  by (induction specs arbitrary: b) (auto simp: isProducer_def split: option.splits)

lemma sorted_last_Max: "sorted xs \<Longrightarrow> xs \<noteq> [] \<Longrightarrow> last xs = Max (set xs)" for xs :: "int list"
  by (induction xs) (auto simp: max_def dest: last_in_set)

lemma filter_by_role:
  "map f xs = map g ys \<Longrightarrow> map k xs = map h ys \<Longrightarrow>
   map f (filter (\<lambda>x. k x = c) xs) = map g (filter (\<lambda>y. h y = c) ys)"
  by (induction xs arbitrary: ys) (auto simp: map_eq_Cons_conv)

text \<open>
  Property C14. A poa network has one boot node. For a node table numbered from 1, the node the genesis names
  as the initial member (\<open>bootPlacement\<close>), the node the first phase starts alone and runs its actions on,
  and the node the joins ask (\<open>bootSpecOf\<close>) are the same producer, the last one; and with no producer all
  of them answer none.
\<close>

theorem boot_node_is_one_node:
  assumes "map r_Index nodes = [1..int (length nodes)]" "Netmap nodes = Inr m"
  shows "case bootPlacement m of
      None \<Rightarrow> poa_BringUpPhases (map r_Role nodes) = [allPhase]
        \<and> bootSpecOf (phasePlan binaries root genesis nodes bin) = None
    | Some p \<Rightarrow> pl_index p = Max {r_Index ns | ns. ns \<in> set nodes \<and> r_Role ns = RoleBP}
        \<and> ph_Nodes (hd (poa_BringUpPhases (map r_Role nodes))) = [pl_index p]
        \<and> map_option n_index (phaseActionNode nodes (hd (poa_BringUpPhases (map r_Role nodes)))) = Some (pl_index p)
        \<and> map_option sp_index (bootSpecOf (phasePlan binaries root genesis nodes bin)) = Some (pl_index p)"
proof -
  let ?bp = "filter (\<lambda>ns. r_Role ns = RoleBP) nodes" and ?roles = "map r_Role nodes"
  let ?plan = "phasePlan binaries root genesis nodes bin"
  have prod: "producersOf ?roles = map r_Index ?bp"
    using producers_of_table [of nodes 1] assms(1) by (simp add: groupRoles_1)
  have place: "map_option pl_index (bootPlacement m) = lastOr None (map r_Index ?bp)"
    using filter_by_role [OF Netmap_roles [OF assms(2)], of RoleBP]
    by (simp add: bootPlacement_def bootPlacementIn_last)
  have ix: "map sp_index (pn_Nodes ?plan) = map r_Index nodes" "map sp_role (pn_Nodes ?plan) = map r_Role nodes"
    by (simp_all add: phasePlan_def SpecOf_def Let_def comp_def)
  have spec: "map_option sp_index (bootSpecOf ?plan) = lastOr None (map r_Index ?bp)"
    using filter_by_role [OF ix, of RoleBP] ix(1) assms(1)
    by (simp add: bootSpecOf_def bootSpecIn_last)
  show ?thesis
  proof (cases "bootPlacement m")
    case None
    then show ?thesis using place prod spec by (auto simp: lastOr_def poa_phases split: if_splits)
  next
    case (Some p)
    then have bp: "map r_Index ?bp \<noteq> []" and p: "pl_index p = last (map r_Index ?bp)"
      using place by (auto simp: lastOr_def split: if_splits)
    have hd: "hd (poa_BringUpPhases ?roles) = bootPhase (pl_index p)"
      using bp p prod by (simp add: poa_phases)
    have "\<exists>on. phaseActionNode nodes (bootPhase (pl_index p)) = Some on \<and> n_index on = pl_index p"
    proof -
      have "bootPhase (pl_index p) \<in> set (poa_BringUpPhases ?roles)" "ph_Actions (bootPhase (pl_index p)) \<noteq> []"
        using bp p prod by (simp_all add: poa_phases bootPhase_def)
      from poa.action_node_is_launched [OF this] assms(1) obtain on
        where on: "phaseActionNode nodes (bootPhase (pl_index p)) = Some on"
          and "phaseNodes (int (length nodes)) (bootPhase (pl_index p)) = [n_index on]" by auto
      then have "n_index on \<in> set (filter (phaseHasNode (bootPhase (pl_index p))) [1..int (length nodes)])"
        by (simp add: phaseNodes_def)
      then show ?thesis using on by (simp add: phaseHasNode_def bootPhase_def)
    qed
    moreover have "pl_index p = Max {r_Index ns | ns. ns \<in> set nodes \<and> r_Role ns = RoleBP}"
    proof -
      have "pl_index p = Max (set (producersOf ?roles))"
        using sorted_last_Max [OF sorted_producers [of ?roles]] bp p prod by simp
      then show ?thesis using prod by (auto intro: arg_cong [of _ _ Max])
    qed
    ultimately show ?thesis using Some hd spec bp p by (auto simp: bootPhase_def lastOr_def)
  qed
qed

end
