(* ===== verification/Run_Ledger.thy ===== *)
theory Run_Ledger
  imports Lifecycle_Status Process_Owner "HOL-Library.List_Lexorder" "HOL-Library.Char_ord"
begin

text \<open>
  The run ledger of \<open>internal/core/process\<close> (\<open>ledger.go\<close>, \<open>process.go\<close>) and the launch that
  records in it (\<open>launch_record.go\<close>): which process runs under which label, and what ran there before.
  The JSON of the file and the directory it is in are left out, so \<open>Save\<close> is the value that is encoded
  and \<open>OpenLedger\<close> takes what was decoded. The mutex serialises the operations, so a ledger is driven by
  a sequence of them. A map is listed in the order of its keys, which are strings of bytes.
\<close>

section \<open>Records\<close>

record Proc =
  p_PID :: int
  p_Label :: string
  p_Binary :: string
  p_Command :: string
  p_DataDir :: string
  p_Host :: string
  p_Revision :: int

record Ledger =
  procs :: "string \<rightharpoonup> Proc"
  history :: "Proc list"

record ledgerFile =
  lf_Procs :: "Proc list"
  lf_History :: "Proc list"

definition emptyLedger :: Ledger where
  "emptyLedger = \<lparr>procs = Map.empty, history = []\<rparr>"

section \<open>Operations\<close>

definition OpenLedger :: "ledgerFile option \<Rightarrow> Ledger" where
  "OpenLedger file =
     (case file of
        None \<Rightarrow> emptyLedger
      | Some f \<Rightarrow> \<lparr>procs = foldl (\<lambda>m p. m(p_Label p \<mapsto> p)) Map.empty (lf_Procs f), history = lf_History f\<rparr>)"

definition Recorded :: "Ledger \<Rightarrow> Proc list" where
  "Recorded l = sort_key p_Label (map (the \<circ> procs l) (sorted_list_of_set (dom (procs l))))"

definition SaveLedger :: "Ledger \<Rightarrow> ledgerFile" where
  "SaveLedger l = \<lparr>lf_Procs = Recorded l, lf_History = history l\<rparr>"

fun nextRevisionIn :: "string \<Rightarrow> int \<Rightarrow> Proc list \<Rightarrow> int" where
  "nextRevisionIn label next [] = next"
| "nextRevisionIn label next (p # ps) =
     nextRevisionIn label (if p_Label p = label then max next (p_Revision p + 1) else next) ps"

definition nextArchivedRevision :: "Ledger \<Rightarrow> string \<Rightarrow> int" where
  "nextArchivedRevision l label = nextRevisionIn label 0 (history l)"

definition RecordProc :: "Proc \<Rightarrow> Ledger \<Rightarrow> Ledger \<times> goErr option" where
  "RecordProc p l =
     (if p_Label p = '''' then (l, Some (Errorf ''process: record needs a label'' []))
      else if p_PID p \<le> 0 then
        (l, Some (Errorf (''process: record '' @ p_Label p @ '': pid '' @ itoa (p_PID p) @ '' is not a live process'') []))
      else case procs l (p_Label p) of
        Some prev \<Rightarrow>
          (l, Some (Errorf (''process: '' @ p_Label p @ '' already recorded as pid '' @ itoa (p_PID prev) @ '' on \"''
             @ p_Host prev @ ''\" '' @ [CHR 0xE2, CHR 0x80, CHR 0x94] @ '' stop it (or clear the entry) before launching pid ''
             @ itoa (p_PID p)) []))
      | None \<Rightarrow>
          (l\<lparr>procs := (procs l)(p_Label p \<mapsto>
               p\<lparr>p_Revision := max (p_Revision p) (nextArchivedRevision l (p_Label p))\<rparr>)\<rparr>, None))"

definition Supersede :: "Proc \<Rightarrow> Ledger \<Rightarrow> Ledger \<times> (goErr + Proc option)" where
  "Supersede p l =
     (if p_Label p = '''' then (l, Inl (Errorf ''process: supersede needs a label'' []))
      else if p_PID p \<le> 0 then
        (l, Inl (Errorf (''process: supersede '' @ p_Label p @ '': pid '' @ itoa (p_PID p) @ '' is not a live process'') []))
      else
        let prev = procs l (p_Label p);
            l1 = (case prev of Some q \<Rightarrow> l\<lparr>history := history l @ [q]\<rparr> | None \<Rightarrow> l);
            p1 = p\<lparr>p_Revision := max (p_Revision p) (nextArchivedRevision l1 (p_Label p))\<rparr>
        in (l1\<lparr>procs := (procs l1)(p_Label p \<mapsto> p1)\<rparr>, Inr prev))"

definition Retire :: "string \<Rightarrow> Ledger \<Rightarrow> Ledger \<times> Proc option" where
  "Retire label l =
     (case procs l label of
        Some p \<Rightarrow> (l\<lparr>history := history l @ [p], procs := (procs l)(label := None)\<rparr>, Some p)
      | None \<Rightarrow> (l, None))"

definition History :: "Ledger \<Rightarrow> string \<Rightarrow> Proc list" where
  "History l label = filter (\<lambda>p. p_Label p = label) (history l)"

definition ClearProc :: "string \<Rightarrow> Ledger \<Rightarrow> Ledger \<times> Proc option" where
  "ClearProc label l = (l\<lparr>procs := (procs l)(label := None)\<rparr>, procs l label)"

definition GetProc :: "Ledger \<Rightarrow> string \<Rightarrow> Proc option" where
  "GetProc l label = procs l label"

definition FindBinary :: "Ledger \<Rightarrow> string \<Rightarrow> string \<Rightarrow> Proc list" where
  "FindBinary l host binary =
     sort_key p_Label (filter (\<lambda>p. p_Binary p = binary \<and> p_Host p = host)
       (map (the \<circ> procs l) (sorted_list_of_set (dom (procs l)))))"

section \<open>A launch that is recorded\<close>

definition ProcFor :: "NodeSpec \<Rightarrow> int \<Rightarrow> Proc" where
  "ProcFor spec pid =
     \<lparr>p_PID = pid, p_Label = LabelFor (sp_index spec), p_Binary = BasePath (sp_binary spec),
      p_Command = join '' '' (sp_binary spec # sp_args spec), p_DataDir = sp_dataDir spec, p_Host = sp_host spec,
      p_Revision = 0\<rparr>"

text \<open>
  \<open>launch\<close> is the driver's \<open>Launch\<close>. The handle is the pid; an error of the ledger comes with it, and the
  callers read the error first.
\<close>

definition LaunchAndRecord ::
  "(NodeSpec \<Rightarrow> 'x \<Rightarrow> 'x \<times> (goErr + int)) \<Rightarrow> Ledger option \<Rightarrow> NodeSpec \<Rightarrow> 'x
     \<Rightarrow> Ledger option \<times> 'x \<times> int \<times> goErr option"
where
  "LaunchAndRecord launch l spec x =
     (case launch spec x of
        (x1, Inl err) \<Rightarrow> (l, x1, 0, Some err)
      | (x1, Inr pid) \<Rightarrow>
          (case l of
             None \<Rightarrow> (None, x1, pid, None)
           | Some led \<Rightarrow> (case RecordProc (ProcFor spec pid) led of (led1, err) \<Rightarrow> (Some led1, x1, pid, err))))"

section \<open>The ledger as a state machine\<close>

datatype ledgerOp = ORecord Proc | OSupersede Proc | ORetire string | OClear string

fun ledgerStep :: "Ledger \<Rightarrow> ledgerOp \<Rightarrow> Ledger" where
  "ledgerStep l (ORecord p) = fst (RecordProc p l)"
| "ledgerStep l (OSupersede p) = fst (Supersede p l)"
| "ledgerStep l (ORetire label) = fst (Retire label l)"
| "ledgerStep l (OClear label) = fst (ClearProc label l)"

text \<open>Everything that ran under a label, the oldest first and what runs now last.\<close>

definition executions :: "Ledger \<Rightarrow> string \<Rightarrow> Proc list" where
  "executions l label = History l label @ (case procs l label of Some p \<Rightarrow> [p] | None \<Rightarrow> [])"

definition ledger_ok :: "Ledger \<Rightarrow> bool" where
  "ledger_ok l \<longleftrightarrow>
     finite (dom (procs l)) \<and>
     (\<forall>label p. procs l label = Some p \<longrightarrow> p_Label p = label \<and> label \<noteq> '''' \<and> p_PID p > 0) \<and>
     (\<forall>label. sorted_wrt (<) (map p_Revision (executions l label)))"

lemma nextRevisionIn_above:
  "next \<le> nextRevisionIn label next ps \<and>
   (\<forall>p \<in> set ps. p_Label p = label \<longrightarrow> p_Revision p < nextRevisionIn label next ps)"
proof (induction ps arbitrary: "next")
  case (Cons q ps)
  let ?n = "if p_Label q = label then max next (p_Revision q + 1) else next"
  have "next \<le> ?n" "p_Label q = label \<Longrightarrow> p_Revision q < ?n" by auto
  with Cons [of ?n] show ?case by (auto simp del: max.bounded_iff max_less_iff_conj intro: order.strict_trans2 order.trans)
qed simp

lemma nextArchivedRevision_above:
  "p \<in> set (History l label) \<Longrightarrow> p_Revision p < nextArchivedRevision l label"
  using nextRevisionIn_above [of 0 label "history l"] by (auto simp: History_def nextArchivedRevision_def)

lemma executions_split:
  "sorted_wrt (<) (map p_Revision (executions l label)) \<longleftrightarrow>
     sorted_wrt (<) (map p_Revision (History l label)) \<and>
     (\<forall>p. procs l label = Some p \<longrightarrow> (\<forall>q \<in> set (History l label). p_Revision q < p_Revision p))"
  by (auto simp: executions_def sorted_wrt_append split: option.splits)

lemma History_procs [simp]: "History (l\<lparr>procs := m\<rparr>) = History l"
  by (auto simp: History_def)

lemma ledger_ok_D:
  assumes "ledger_ok l"
  shows "finite (dom (procs l))" "procs l label = Some p \<Longrightarrow> p_Label p = label \<and> label \<noteq> '''' \<and> p_PID p > 0"
    "sorted_wrt (<) (map p_Revision (History l label))"
    "procs l label = Some p \<Longrightarrow> q \<in> set (History l label) \<Longrightarrow> p_Revision q < p_Revision p"
  using assms unfolding ledger_ok_def executions_split by blast+

lemma ledger_ok_I:
  assumes "finite (dom (procs l))"
    and "\<And>label p. procs l label = Some p \<Longrightarrow> p_Label p = label \<and> label \<noteq> '''' \<and> p_PID p > 0"
    and "\<And>label. sorted_wrt (<) (map p_Revision (History l label))"
    and "\<And>label p q. procs l label = Some p \<Longrightarrow> q \<in> set (History l label) \<Longrightarrow> p_Revision q < p_Revision p"
  shows "ledger_ok l"
  using assms unfolding ledger_ok_def executions_split by blast

text \<open>The four moves an operation is made of: drop an entry, archive one, put one in.\<close>

lemma drop_ok: "ledger_ok l \<Longrightarrow> ledger_ok (l\<lparr>procs := (procs l)(label := None)\<rparr>)"
  by (rule ledger_ok_I) (auto simp: ledger_ok_D split: if_splits)

lemma archive_ok:
  assumes "ledger_ok l" "procs l label = Some p"
  shows "ledger_ok (l\<lparr>history := history l @ [p], procs := (procs l)(label := None)\<rparr>)"
proof (rule ledger_ok_I)
  let ?l = "l\<lparr>history := history l @ [p], procs := (procs l)(label := None)\<rparr>"
  note D = ledger_ok_D [OF assms(1)]
  have p: "p_Label p = label" using D(2) assms(2) by blast
  have h: "History ?l k = History l k @ (if k = label then [p] else [])" for k
    using p by (simp add: History_def)
  show "finite (dom (procs ?l))" using D(1) by simp
  show "p_Label q = k \<and> k \<noteq> '''' \<and> p_PID q > 0" if "procs ?l k = Some q" for k q
    using that D(2) by (auto split: if_splits)
  show "sorted_wrt (<) (map p_Revision (History ?l k))" for k
    unfolding h using D(3) [of k] D(4) [OF assms(2)] by (auto simp: sorted_wrt_append)
  show "p_Revision r < p_Revision q" if "procs ?l k = Some q" "r \<in> set (History ?l k)" for k q r
    using that D(4) unfolding h by (auto split: if_splits)
qed

lemma enter_ok:
  assumes "ledger_ok l" "p_Label p \<noteq> ''''" "p_PID p > 0"
  shows "ledger_ok (l\<lparr>procs := (procs l)(p_Label p \<mapsto>
    p\<lparr>p_Revision := max (p_Revision p) (nextArchivedRevision l (p_Label p))\<rparr>)\<rparr>)"
  by (rule ledger_ok_I)
    (use assms ledger_ok_D [OF assms(1)] nextArchivedRevision_above [of _ l "p_Label p"] in
      \<open>auto split: if_splits simp: less_max_iff_disj\<close>)

lemma nextArchivedRevision_procs [simp]: "nextArchivedRevision (l\<lparr>procs := m\<rparr>) = nextArchivedRevision l"
  by (auto simp: nextArchivedRevision_def)

lemma ledgerStep_ok: "ledger_ok l \<Longrightarrow> ledger_ok (ledgerStep l op)"
proof (cases op)
  case (ORecord p)
  then show "ledger_ok l \<Longrightarrow> ?thesis" by (auto simp: RecordProc_def enter_ok split: option.splits)
next
  case (OSupersede p)
  assume ok: "ledger_ok l"
  show ?thesis
  proof (cases "p_Label p = '''' \<or> p_PID p \<le> 0 \<or> procs l (p_Label p) = None")
    case True
    then show ?thesis using OSupersede ok enter_ok [OF ok] by (auto simp: Supersede_def Let_def)
  next
    case False
    then obtain q where q: "procs l (p_Label p) = Some q" by blast
    let ?a = "l\<lparr>history := history l @ [q], procs := (procs l)(p_Label p := None)\<rparr>"
    let ?l1 = "l\<lparr>history := history l @ [q]\<rparr>"
    have r: "nextArchivedRevision ?a = nextArchivedRevision ?l1" by (auto simp: nextArchivedRevision_def)
    show ?thesis using enter_ok [OF archive_ok [OF ok q], of p] False OSupersede q
      by (simp add: Supersede_def r Let_def)
  qed
next
  case (ORetire label)
  then show "ledger_ok l \<Longrightarrow> ?thesis" by (auto simp: Retire_def archive_ok split: option.splits)
next
  case (OClear label)
  then show "ledger_ok l \<Longrightarrow> ?thesis" by (simp add: ClearProc_def drop_ok)
qed

lemma emptyLedger_ok: "ledger_ok emptyLedger"
  by (simp add: ledger_ok_def emptyLedger_def executions_def History_def)

definition ledgerAfter :: "ledgerOp list \<Rightarrow> Ledger" where
  "ledgerAfter ops = foldl ledgerStep emptyLedger ops"

lemma ledgerAfter_ok: "ledger_ok (ledgerAfter ops)"
proof -
  have "ledger_ok l \<Longrightarrow> ledger_ok (foldl ledgerStep l ops)" for l
    by (induction ops arbitrary: l) (simp_all add: ledgerStep_ok)
  then show ?thesis using emptyLedger_ok by (simp add: ledgerAfter_def)
qed

text \<open>
  Property C18. Whatever is recorded, superseded, retired and cleared, and in whatever order, the runs of one
  label carry strictly growing revisions, the archived ones in the order they ended and the current one
  above all of them; and an entry is found under its own label with the pid of a live process.
\<close>

theorem ledger_revisions_grow:
  "sorted_wrt (<) (map p_Revision (History (ledgerAfter ops) label @
     (case GetProc (ledgerAfter ops) label of Some p \<Rightarrow> [p] | None \<Rightarrow> [])))
   \<and> (case GetProc (ledgerAfter ops) label of Some p \<Rightarrow> p_Label p = label \<and> p_PID p > 0 | None \<Rightarrow> True)"
  using ledgerAfter_ok [of ops] by (auto simp: ledger_ok_def executions_def GetProc_def split: option.splits)

section \<open>The file\<close>

lemma foldl_upd: "foldl (\<lambda>m p. m(p_Label p \<mapsto> p)) m ps = m ++ map_of (rev (map (\<lambda>p. (p_Label p, p)) ps))"
  by (induction ps arbitrary: m) simp_all

lemma set_Recorded: "ledger_ok l \<Longrightarrow> set (Recorded l) = ran (procs l)"
proof -
  assume "ledger_ok l"
  then have "set (Recorded l) = (the \<circ> procs l) ` dom (procs l)" by (simp add: Recorded_def ledger_ok_D(1))
  also have "\<dots> = ran (procs l)" by (force simp: ran_def dom_def)
  finally show ?thesis .
qed

lemma Recorded_labels:
  assumes "ledger_ok l"
  shows "map p_Label (Recorded l) = sorted_list_of_set (dom (procs l))"
proof -
  let ?ks = "sorted_list_of_set (dom (procs l))"
  have "map p_Label (map (the \<circ> procs l) ?ks) = ?ks"
  proof (simp, rule map_idI)
    fix k assume "k \<in> set ?ks"
    then obtain p where "procs l k = Some p" using ledger_ok_D(1) [OF assms] by auto
    then show "(p_Label \<circ> (the \<circ> procs l)) k = k" using ledger_ok_D(2) [OF assms] by simp
  qed
  moreover from this have "sort_key p_Label (map (the \<circ> procs l) ?ks) = map (the \<circ> procs l) ?ks"
    by (intro sort_key_id_if_sorted) simp
  ultimately show ?thesis by (simp add: Recorded_def)
qed

lemma open_save: "ledger_ok l \<Longrightarrow> OpenLedger (Some (SaveLedger l)) = l"
proof -
  assume ok: "ledger_ok l"
  let ?xs = "map (\<lambda>p. (p_Label p, p)) (Recorded l)"
  have d: "distinct (map fst ?xs)"
    using Recorded_labels [OF ok] by (simp add: comp_def)
  have "map_of (rev ?xs) k = procs l k" for k
  proof (cases "procs l k")
    case None
    have "k \<notin> fst ` set (rev ?xs)"
      using None set_Recorded [OF ok] ledger_ok_D(2) [OF ok] by (auto simp: ran_def)
    then show ?thesis using None by (simp add: map_of_eq_None_iff)
  next
    case (Some p)
    then have "(k, p) \<in> set (rev ?xs)"
      using set_Recorded [OF ok] ledger_ok_D(2) [OF ok Some] by (force simp: ran_def)
    moreover have "distinct (map fst (rev ?xs))" using d by (metis distinct_rev rev_map)
    ultimately show ?thesis using Some by (metis map_of_eq_Some_iff)
  qed
  then have "map_of (rev ?xs) = procs l" by blast
  then show ?thesis by (simp add: OpenLedger_def SaveLedger_def foldl_upd rev_map)
qed

text \<open>
  A ledger that is saved and opened again is the same ledger, entries and history, after any
  operations; and what is saved is listed by label.
\<close>

theorem ledger_file_round_trip:
  "OpenLedger (Some (SaveLedger (ledgerAfter ops))) = ledgerAfter ops
   \<and> sorted (map p_Label (lf_Procs (SaveLedger (ledgerAfter ops))))"
  using open_save [OF ledgerAfter_ok] Recorded_labels [OF ledgerAfter_ok]
  by (simp add: SaveLedger_def)

end
