(* ===== verification/Launch_Phase.thy ===== *)
theory Launch_Phase
  imports Bring_Up Run_Ledger
begin

text \<open>
  Starting one phase (\<open>internal/chainsetup/phases.go\<close>, \<open>occupancy.go\<close>) against the run ledger, and the
  small operations by which \<open>workspace.go\<close> keeps the node table and the ledger saying the same. The ports
  of the machine (\<open>scanPorts\<close>), opening a node's machine, assembling a command line and the driver are
  arguments. The walk over all the phases is the launch of the composition machine with its steps in line.
\<close>

section \<open>What the launch is given\<close>

record Addr =
  ad_Host :: string
  ad_Port :: int
  ad_Node :: int
  ad_Purpose :: string

definition Addr_String :: "Addr \<Rightarrow> string" where
  "Addr_String a =
     ad_Host a @ '':'' @ itoa (ad_Port a) @ '' (node'' @ itoa (ad_Node a) @ '' '' @ ad_Purpose a @ '')''"

text \<open>
  \<open>v_argv\<close> is the command line of a node that has none yet (the peer plan, the peer list, the node's plugin,
  the network and \<open>Argv\<close>), with the error wrapped as it is returned.
\<close>

record ('x, 'm) launchEnv =
  v_scanPorts :: "Addr list \<Rightarrow> 'x \<Rightarrow> 'x \<times> (goErr + Addr list)"
  v_machineFor :: "Record \<Rightarrow> 'x \<Rightarrow> 'x \<times> (goErr + 'm)"
  v_argv :: "Record list \<Rightarrow> Record \<Rightarrow> 'x \<Rightarrow> 'x \<times> (goErr + string list)"
  v_launch :: "'m \<Rightarrow> NodeSpec \<Rightarrow> 'x \<Rightarrow> 'x \<times> (goErr + int)"
  v_binaries :: "string \<rightharpoonup> string"
  v_Dir :: string

section \<open>Are the ports free (occupancy.go)\<close>

text \<open>The node and the pid this workspace knows for an address it planned; a later node wins.\<close>

definition recordedLeftovers :: "Record list \<Rightarrow> string \<times> int \<rightharpoonup> int \<times> int" where
  "recordedLeftovers nodes =
     foldl (\<lambda>m ns. foldl (\<lambda>m port. if port > 0 then m((nodeHost ns, port) \<mapsto> (r_Index ns, r_PID ns)) else m) m
                     (portsOf (r_Endpoints ns))) Map.empty nodes"

definition plannedAddrs :: "phase \<Rightarrow> Record list \<Rightarrow> Addr list" where
  "plannedAddrs ph nodes =
     concat (map (\<lambda>ns. map (\<lambda>(purpose, port). \<lparr>ad_Host = nodeHost ns, ad_Port = port, ad_Node = r_Index ns, ad_Purpose = purpose\<rparr>)
         [(''p2p'', P2P (r_Endpoints ns)), (''etcd'', Etcd (r_Endpoints ns)), (''etcd-client'', EtcdClient (r_Endpoints ns)),
          (''http'', HTTP (r_Endpoints ns)), (''ws'', WS (r_Endpoints ns)), (''auth'', Auth (r_Endpoints ns)),
          (''metrics'', Metrics (r_Endpoints ns))])
       (filter (\<lambda>ns. \<not> (r_PID ns > 0 \<or> \<not> phaseHasNode ph (r_Index ns))) nodes))"

definition busyLine :: "(string \<times> int \<rightharpoonup> int \<times> int) \<Rightarrow> Addr \<Rightarrow> string" where
  "busyLine mine b =
     (case mine (ad_Host b, ad_Port b) of
        Some (n, pid) \<Rightarrow>
          if pid > 0 then ''  '' @ Addr_String b @ '' '' @ emDash @ '' this workspace's node'' @ itoa n @ '' (pid '' @ itoa pid @ '')''
          else ''  '' @ Addr_String b @ '' '' @ emDash @ '' planned for this workspace's node'' @ itoa n
            @ '', but it started nothing there: another composition holds it''
      | None \<Rightarrow> ''  '' @ Addr_String b @ '' '' @ emDash @ '' not started by this workspace'')"

definition recoverableBy :: "(string \<times> int \<rightharpoonup> int \<times> int) \<Rightarrow> Addr \<Rightarrow> bool" where
  "recoverableBy mine b = (case mine (ad_Host b, ad_Port b) of Some (n, pid) \<Rightarrow> pid > 0 | None \<Rightarrow> False)"

definition checkVacant :: "('x, 'm) launchEnv \<Rightarrow> phase \<Rightarrow> Record list \<Rightarrow> 'x \<Rightarrow> 'x \<times> goErr option" where
  "checkVacant E ph nodes x =
     (case v_scanPorts E (plannedAddrs ph nodes) x of
        (x1, Inl err) \<Rightarrow> (x1, Some err)
      | (x1, Inr busy) \<Rightarrow>
          if length busy = 0 then (x1, None)
          else
            let mine = recordedLeftovers nodes;
                hints = (if list_ex (recoverableBy mine) busy
                         then [''`chain stop --workspace-dir '' @ v_Dir E @ ''` stops the ones with a recorded pid''] else [])
                  @ (if list_ex (\<lambda>b. \<not> recoverableBy mine b) busy
                     then [''the rest hold ports this workspace planned but cannot address '' @ emDash
                           @ '' find and stop them by hand''] else [])
            in (x1, Mark (Sentinel errLaunchPortBusy) (Some (Errorf
                 (''chainsetup: '' @ itoa (int (length busy)) @ '' port(s) are already in use:'' @ [CHR 0x0A]
                  @ join [CHR 0x0A] (map (busyLine mine) busy) @ [CHR 0x0A] @ join ''; '' hints) []))))"

section \<open>One network id (nodeconfig/netid.go)\<close>

definition flagNetworkID :: string where "flagNetworkID = ''--networkid''"

fun networkIDOf :: "string list \<Rightarrow> int option" where
  "networkIDOf [] = None"
| "networkIDOf [a] = None"
| "networkIDOf (a # b # args) = (if a \<noteq> flagNetworkID then networkIDOf (b # args) else atoi b)"

fun uniformFrom :: "(string \<times> int) option \<Rightarrow> (string \<times> string list) list \<Rightarrow> goErr option" where
  "uniformFrom first [] = None"
| "uniformFrom first ((label, args) # rest) =
     (case networkIDOf args of
        None \<Rightarrow> Some (Errorf (''nodeconfig: '' @ label @ '' was assembled without '' @ flagNetworkID
          @ '', so it would use its build's own default'') [])
      | Some i \<Rightarrow>
          (case first of
             None \<Rightarrow> uniformFrom (Some (label, i)) rest
           | Some (firstLabel, f) \<Rightarrow>
               if i \<noteq> f then
                 Some (Errorf (''nodeconfig: network id mismatch '' @ emDash @ '' '' @ firstLabel @ '' has '' @ itoa f @ '' and ''
                   @ label @ '' has '' @ itoa i @ ''; they will not peer'') [])
               else uniformFrom first rest))"

definition ValidateUniformNetworkID :: "(string \<rightharpoonup> string list) \<Rightarrow> goErr option" where
  "ValidateUniformNetworkID argv =
     (if dom argv = {} then Some (Errorf ''nodeconfig: no argv to check for a uniform network id'' [])
      else uniformFrom None (map (\<lambda>l. (l, the (argv l))) (sorted_list_of_set (dom argv))))"

definition argvOf :: "Record list \<Rightarrow> string \<rightharpoonup> string list" where
  "argvOf nodes = foldl (\<lambda>m ns. if length (r_Args ns) = 0 then m else m(NodeLabel ns \<mapsto> r_Args ns)) Map.empty nodes"

definition checkUniformNetworkID :: "Record list \<Rightarrow> goErr option" where
  "checkUniformNetworkID nodes =
     (if dom (argvOf nodes) = {} then None
      else Mark (Sentinel errBuildSplitNetwork) (ValidateUniformNetworkID (argvOf nodes)))"

section \<open>Starting a phase\<close>

definition startErr :: "int \<Rightarrow> goErr \<Rightarrow> goErr" where
  "startErr index err = Errorf (''chainsetup: start: node'' @ itoa index @ '': '' @ errorText err) [err]"

text \<open>The loop over the table: \<open>front\<close> is what it has passed.\<close>

fun startLoop ::
  "('x, 'm) launchEnv \<Rightarrow> string \<Rightarrow> phase \<Rightarrow> Record list \<Rightarrow> Record list \<Rightarrow> Ledger option \<Rightarrow> 'x \<Rightarrow> int
     \<Rightarrow> Record list \<times> Ledger option \<times> 'x \<times> int \<times> goErr option"
where
  "startLoop E bin ph front [] l x started = (front, l, x, started, None)"
| "startLoop E bin ph front (ns # rest) l x started =
     (if r_PID ns > 0 \<or> \<not> phaseHasNode ph (r_Index ns) then startLoop E bin ph (front @ [ns]) rest l x started
      else case v_machineFor E ns x of
        (x1, Inl err) \<Rightarrow> (front @ ns # rest, l, x1, started, Some err)
      | (x1, Inr t) \<Rightarrow>
          (let spec = (SpecOf ns)\<lparr>sp_binary := binaryFor (v_binaries E) ns bin\<rparr>
           in case (if length (sp_args spec) = 0 then v_argv E (front @ ns # rest) ns x1 else (x1, Inr (sp_args spec))) of
                (x2, Inl err) \<Rightarrow> (front @ ns # rest, l, x2, started, Some err)
              | (x2, Inr args) \<Rightarrow>
                  (let ns1 = (if length (sp_args spec) = 0 then ns\<lparr>r_Args := args\<rparr> else ns)
                   in case LaunchAndRecord (v_launch E t) l (spec\<lparr>sp_args := args\<rparr>) x2 of
                        (l1, x3, pid, Some err) \<Rightarrow>
                          (front @ ns1 # rest, l1, x3, started,
                           Some (startErr (r_Index ns) err))
                      | (l1, x3, pid, None) \<Rightarrow>
                          startLoop E bin ph (front @ [ns1\<lparr>r_PID := pid\<rparr>]) rest l1 x3 (started + 1))))"

definition startPhase ::
  "('x, 'm) launchEnv \<Rightarrow> string \<Rightarrow> phase \<Rightarrow> Record list \<Rightarrow> Ledger option \<Rightarrow> 'x
     \<Rightarrow> Record list \<times> Ledger option \<times> 'x \<times> int \<times> goErr option"
where
  "startPhase E bin ph nodes l x =
     (case checkVacant E ph nodes x of
        (x1, Some err) \<Rightarrow> (nodes, l, x1, 0, Some err)
      | (x1, None) \<Rightarrow>
          (case startLoop E bin ph [] nodes l x1 0 of
             (nodes2, l2, x2, started, Some err) \<Rightarrow> (nodes2, l2, x2, started, Some err)
           | (nodes2, l2, x2, started, None) \<Rightarrow> (nodes2, l2, x2, started, checkUniformNetworkID nodes2)))"

text \<open>
  The phases one after the other, with the actions of each (\<open>act\<close>) before the next, as the launching states
  of the composition machine walk them.
\<close>

fun launchPhases ::
  "('x, 'm) launchEnv \<Rightarrow> (phase \<Rightarrow> Record list \<Rightarrow> 'x \<Rightarrow> 'x \<times> goErr option) \<Rightarrow> string \<Rightarrow> phase list
     \<Rightarrow> Record list \<Rightarrow> Ledger option \<Rightarrow> 'x \<Rightarrow> int \<Rightarrow> Record list \<times> Ledger option \<times> 'x \<times> int \<times> goErr option"
where
  "launchPhases E act bin [] nodes l x started = (nodes, l, x, started, None)"
| "launchPhases E act bin (ph # phs) nodes l x started =
     (case startPhase E bin ph nodes l x of
        (nodes1, l1, x1, k, Some err) \<Rightarrow> (nodes1, l1, x1, started + k, Some err)
      | (nodes1, l1, x1, k, None) \<Rightarrow>
          if length (ph_Actions ph) > 0 then
            (case act ph nodes1 x1 of
               (x2, Some err) \<Rightarrow> (nodes1, l1, x2, started + k, Some err)
             | (x2, None) \<Rightarrow> launchPhases E act bin phs nodes1 l1 x2 (started + k))
          else launchPhases E act bin phs nodes1 l1 x1 (started + k))"

section \<open>Table and ledger (workspace.go)\<close>

text \<open>The loop of \<open>Open\<close>: the pids of the ledger, and the entries of a table written before there was one.\<close>

fun reattach :: "Record list \<Rightarrow> Ledger \<Rightarrow> Record list \<times> Ledger" where
  "reattach [] l = ([], l)"
| "reattach (ns # rest) l =
     (case GetProc l (NodeLabel ns) of
        Some p \<Rightarrow> (case reattach rest l of (rest', l') \<Rightarrow> (ns\<lparr>r_PID := p_PID p\<rparr> # rest', l'))
      | None \<Rightarrow>
          (let l1 = (if r_PID ns > 0
                     then fst (RecordProc \<lparr>p_PID = r_PID ns, p_Label = NodeLabel ns, p_Binary = '''', p_Command = '''',
                                 p_DataDir = r_DataDir ns, p_Host = r_Host ns, p_Revision = 0\<rparr> l)
                     else l)
           in case reattach rest l1 of (rest', l') \<Rightarrow> (ns # rest', l')))"

definition clearPID :: "nat \<Rightarrow> Record list \<Rightarrow> Ledger \<Rightarrow> Record list \<times> Ledger" where
  "clearPID i nodes l = (nodes[i := (nodes ! i)\<lparr>r_PID := 0\<rparr>], fst (ClearProc (NodeLabel (nodes ! i)) l))"

definition recordLaunch :: "nat \<Rightarrow> int \<Rightarrow> string \<Rightarrow> Record list \<Rightarrow> Ledger \<Rightarrow> Record list \<times> Ledger \<times> goErr option" where
  "recordLaunch i pid binary nodes l =
     (case RecordProc (ProcFor ((SpecOf (nodes ! i))\<lparr>sp_binary := binary\<rparr>) pid) l of
        (l1, Some err) \<Rightarrow> (nodes, l1, Some err)
      | (l1, None) \<Rightarrow> (nodes[i := (nodes ! i)\<lparr>r_PID := pid\<rparr>], l1, None))"

definition recordSwap :: "nat \<Rightarrow> int \<Rightarrow> string \<Rightarrow> Record list \<Rightarrow> Ledger \<Rightarrow> Record list \<times> Ledger \<times> goErr option" where
  "recordSwap i pid binary nodes l =
     (case Supersede (ProcFor ((SpecOf (nodes ! i))\<lparr>sp_binary := binary\<rparr>) pid) l of
        (l1, Inl err) \<Rightarrow> (nodes, l1, Some err)
      | (l1, Inr prev) \<Rightarrow> (nodes[i := (nodes ! i)\<lparr>r_PID := pid\<rparr>], l1, None))"

end
