(* ===== verification/Launch_Laws.thy ===== *)
theory Launch_Laws
  imports Launch_Phase "HOL-Library.Sublist"
begin

text \<open>
  What a launch keeps and what it does: the node table and the run ledger stay in step under every operation
  that changes them; every process the driver started is in both when the launch returns, failed or not;
  and a launch of a whole network starts every node once, in the order the family asked for.
\<close>

section \<open>Table and ledger in step\<close>

text \<open>Nodes have names of their own, and the pid in the table is the pid under that name in the ledger.\<close>

definition in_step :: "Record list \<Rightarrow> Ledger \<Rightarrow> bool" where
  "in_step nodes l \<longleftrightarrow>
     ledger_ok l \<and> distinct (map NodeLabel nodes) \<and>
     (\<forall>ns \<in> set nodes. case procs l (NodeLabel ns) of Some p \<Rightarrow> r_PID ns = p_PID p | None \<Rightarrow> r_PID ns \<le> 0)"

text \<open>The name the ledger is given by a launch is the one of the number.\<close>

definition conventional :: "Record list \<Rightarrow> bool" where
  "conventional nodes \<longleftrightarrow> (\<forall>ns \<in> set nodes. NodeLabel ns = LabelFor (r_Index ns))"

lemma LabelFor_not_empty [simp]: "LabelFor i \<noteq> ''''"
  by (simp add: LabelFor_def labelPrefix_def)

lemma NodeLabel_not_empty [simp]: "NodeLabel ns \<noteq> ''''"
  by (simp add: NodeLabel_def)

lemma NodeLabel_upd [simp]: "NodeLabel (ns\<lparr>r_PID := k\<rparr>) = NodeLabel ns" "NodeLabel (ns\<lparr>r_Args := as\<rparr>) = NodeLabel ns"
  by (simp_all add: NodeLabel_def)

lemma in_step_free: "in_step nodes l \<Longrightarrow> ns \<in> set nodes \<Longrightarrow> r_PID ns \<le> 0 \<Longrightarrow> procs l (NodeLabel ns) = None"
proof (cases "procs l (NodeLabel ns)")
  case (Some p)
  assume "in_step nodes l" "ns \<in> set nodes" "r_PID ns \<le> 0"
  then have "ledger_ok l" "p_PID p \<le> 0" using Some by (auto simp: in_step_def)
  then show ?thesis using ledger_ok_D(2) [OF _ Some] by simp
qed

text \<open>One node and its entry change together.\<close>

lemma in_step_change:
  assumes "in_step (front @ ns # rest) l" "ledger_ok l'" "procs l' = (procs l)(NodeLabel ns := q)"
    "NodeLabel ns' = NodeLabel ns" "case q of Some p \<Rightarrow> r_PID ns' = p_PID p | None \<Rightarrow> r_PID ns' \<le> 0"
  shows "in_step (front @ ns' # rest) l'"
proof -
  have d: "distinct (map NodeLabel (front @ ns # rest))" using assms(1) by (simp add: in_step_def)
  have "case procs l' (NodeLabel a) of Some p \<Rightarrow> r_PID a = p_PID p | None \<Rightarrow> r_PID a \<le> 0"
    if "a \<in> set (front @ ns' # rest)" for a
  proof (cases "a = ns'")
    case True
    then show ?thesis using assms(3,4,5) by (auto split: option.splits)
  next
    case False
    then have "a \<in> set front \<union> set rest" using that by auto
    then have "NodeLabel a \<noteq> NodeLabel ns" "a \<in> set (front @ ns # rest)" using d by (auto simp: image_iff)
    then show ?thesis using assms(1,3) by (auto simp: in_step_def)
  qed
  then show ?thesis using d assms(2,4) by (simp add: in_step_def)
qed

lemma in_step_same:
  "in_step (front @ ns # rest) l \<Longrightarrow> NodeLabel ns' = NodeLabel ns \<Longrightarrow> r_PID ns' = r_PID ns \<Longrightarrow> in_step (front @ ns' # rest) l"
  by (auto simp: in_step_def split: option.splits)

lemma RecordProc_free:
  assumes "ledger_ok l" "procs l (p_Label p) = None" "p_Label p \<noteq> ''''" "p_PID p > 0"
  obtains l1 q where "RecordProc p l = (l1, None)" "ledger_ok l1" "procs l1 = (procs l)(p_Label p \<mapsto> q)" "p_PID q = p_PID p"
proof (rule that)
  let ?q = "p\<lparr>p_Revision := max (p_Revision p) (nextArchivedRevision l (p_Label p))\<rparr>"
  show "RecordProc p l = (l\<lparr>procs := (procs l)(p_Label p \<mapsto> ?q)\<rparr>, None)" using assms by (simp add: RecordProc_def)
  show "ledger_ok (l\<lparr>procs := (procs l)(p_Label p \<mapsto> ?q)\<rparr>)" using enter_ok [OF assms(1,3,4)] .
  show "procs (l\<lparr>procs := (procs l)(p_Label p \<mapsto> ?q)\<rparr>) = (procs l)(p_Label p \<mapsto> ?q)" "p_PID ?q = p_PID p" by simp_all
qed

lemma ProcFor_simps [simp]:
  "p_Label (ProcFor spec pid) = LabelFor (sp_index spec)" "p_PID (ProcFor spec pid) = pid"
  by (simp_all add: ProcFor_def)

lemma SpecOf_simps [simp]: "sp_index (SpecOf r) = r_Index r" "sp_args (SpecOf r) = r_Args r" "sp_role (SpecOf r) = r_Role r"
  by (simp_all add: SpecOf_def Let_def)

section \<open>Every start is recorded\<close>

text \<open>The same launch with the starts of its driver written down, as node and pid.\<close>

definition traced :: "('x, 'm) launchEnv \<Rightarrow> ('x \<times> (int \<times> int) list, 'm) launchEnv" where
  "traced E =
     \<lparr>v_scanPorts = (\<lambda>as (x, t). case v_scanPorts E as x of (x', r) \<Rightarrow> ((x', t), r)),
      v_machineFor = (\<lambda>ns (x, t). case v_machineFor E ns x of (x', r) \<Rightarrow> ((x', t), r)),
      v_argv = (\<lambda>nodes ns (x, t). case v_argv E nodes ns x of (x', r) \<Rightarrow> ((x', t), r)),
      v_launch = (\<lambda>m spec (x, t). case v_launch E m spec x of
          (x', Inl e) \<Rightarrow> ((x', t), Inl e) | (x', Inr pid) \<Rightarrow> ((x', t @ [(sp_index spec, pid)]), Inr pid)),
      v_binaries = v_binaries E, v_Dir = v_Dir E\<rparr>"

text \<open>What is asked of the driver: a start it reports has the pid of a process.\<close>

definition live_pids :: "('x, 'm) launchEnv \<Rightarrow> bool" where
  "live_pids E \<longleftrightarrow> (\<forall>m spec x x' pid. v_launch E m spec x = (x', Inr pid) \<longrightarrow> pid > 0)"

text \<open>The nodes that run after and did not before.\<close>

definition newly :: "Record list \<Rightarrow> Record list \<Rightarrow> (int \<times> int) list" where
  "newly olds news =
     map (\<lambda>(a, b). (r_Index b, r_PID b)) (filter (\<lambda>(a, b). r_PID a \<le> 0 \<and> r_PID b > 0) (zip olds news))"

definition dueIn :: "phase \<Rightarrow> Record list \<Rightarrow> int list" where
  "dueIn ph nodes = map r_Index (filter (\<lambda>ns. \<not> r_PID ns > 0 \<and> phaseHasNode ph (r_Index ns)) nodes)"

text \<open>A node is left as it is or, when it was down, given its command line and a pid.\<close>

definition moved :: "Record \<Rightarrow> Record \<Rightarrow> bool" where
  "moved a b \<longleftrightarrow> b = a \<or> (r_PID a \<le> 0 \<and> (\<exists>args pid. b = a\<lparr>r_Args := args, r_PID := pid\<rparr>))"

lemma moved_D: "moved a b \<Longrightarrow> r_Index b = r_Index a" "moved a b \<Longrightarrow> r_Role b = r_Role a" "moved a b \<Longrightarrow> NodeLabel b = NodeLabel a"
  by (auto simp: moved_def)

lemma newly_Cons [simp]:
  "newly (a # as) (b # bs) = (if r_PID a \<le> 0 \<and> r_PID b > 0 then (r_Index b, r_PID b) # newly as bs else newly as bs)"
  by (simp add: newly_def)

lemma newly_same [simp]: "newly ns ns = []"
  by (induction ns) (simp_all add: newly_def)

lemma moved_refl [simp]: "moved a a" "list_all2 moved ns ns"
  by (simp_all add: moved_def list.rel_refl)

lemma dueIn_Cons [simp]:
  "dueIn ph (ns # nodes) = (if \<not> r_PID ns > 0 \<and> phaseHasNode ph (r_Index ns) then r_Index ns # dueIn ph nodes else dueIn ph nodes)"
  by (simp add: dueIn_def)

text \<open>What the loop is shown to do from a table whose front is passed.\<close>

definition started_ok ::
  "phase \<Rightarrow> Record list \<Rightarrow> Record list \<Rightarrow> (int \<times> int) list \<Rightarrow> int
     \<Rightarrow> Record list \<times> Ledger option \<times> ('x \<times> (int \<times> int) list) \<times> int \<times> goErr option \<Rightarrow> bool"
where
  "started_ok ph front rest t k res \<longleftrightarrow>
     (case res of (nodes', l', (x', t'), k', e) \<Rightarrow>
        \<exists>rest' l2. nodes' = front @ rest' \<and> l' = Some l2 \<and> in_step nodes' l2 \<and> list_all2 moved rest rest'
          \<and> t' = t @ newly rest rest' \<and> k' = k + int (length (newly rest rest'))
          \<and> prefix (map fst (newly rest rest')) (dueIn ph rest)
          \<and> (e = None \<longrightarrow> map fst (newly rest rest') = dueIn ph rest))"

lemma started_stop:
  assumes "in_step (front @ ns' # rest) l" "moved ns ns'" "r_PID ns' = r_PID ns"
  shows "started_ok ph front (ns # rest) t k (front @ ns' # rest, Some l, (x, t), k, Some e)"
  unfolding started_ok_def using assms by (auto intro!: exI [of _ "ns' # rest"])

lemma started_go:
  assumes "started_ok ph (front @ [ns']) rest t k res" "moved ns ns'" "newly [ns] [ns'] = []" "dueIn ph [ns] = []"
  shows "started_ok ph front (ns # rest) t k res"
proof -
  obtain nodes' l' x' t' k' e where res: "res = (nodes', l', (x', t'), k', e)" by (metis prod.exhaust)
  obtain rest' l2 where r: "nodes' = (front @ [ns']) @ rest'" "l' = Some l2" "in_step nodes' l2" "list_all2 moved rest rest'"
    "t' = t @ newly rest rest'" "k' = k + int (length (newly rest rest'))"
    "prefix (map fst (newly rest rest')) (dueIn ph rest)" "e = None \<longrightarrow> map fst (newly rest rest') = dueIn ph rest"
    using assms(1) unfolding started_ok_def res by auto
  have n: "newly (ns # rest) (ns' # rest') = newly rest rest'" "dueIn ph (ns # rest) = dueIn ph rest"
    using assms(3,4) by (auto split: if_splits)
  show ?thesis unfolding started_ok_def res
    using r assms(2) n by (auto intro!: exI [of _ "ns' # rest'"] simp del: newly_Cons dueIn_Cons)
qed

lemma started_more:
  assumes "started_ok ph (front @ [ns']) rest (t @ [(r_Index ns, r_PID ns')]) (k + 1) res" "moved ns ns'"
    "\<not> r_PID ns > 0" "phaseHasNode ph (r_Index ns)" "r_PID ns' > 0"
  shows "started_ok ph front (ns # rest) t k res"
proof -
  obtain nodes' l' x' t' k' e where res: "res = (nodes', l', (x', t'), k', e)" by (metis prod.exhaust)
  obtain rest' l2 where r: "nodes' = (front @ [ns']) @ rest'" "l' = Some l2" "in_step nodes' l2" "list_all2 moved rest rest'"
    "t' = (t @ [(r_Index ns, r_PID ns')]) @ newly rest rest'" "k' = k + 1 + int (length (newly rest rest'))"
    "prefix (map fst (newly rest rest')) (dueIn ph rest)" "e = None \<longrightarrow> map fst (newly rest rest') = dueIn ph rest"
    using assms(1) unfolding started_ok_def res by auto
  show ?thesis unfolding started_ok_def res
    using r assms(2-5) by (auto intro!: exI [of _ "ns' # rest'"] simp: moved_D)
qed

lemma traced_simps [simp]:
  "v_scanPorts (traced E) as (x, t) = (case v_scanPorts E as x of (x', r) \<Rightarrow> ((x', t), r))"
  "v_machineFor (traced E) ns (x, t) = (case v_machineFor E ns x of (x', r) \<Rightarrow> ((x', t), r))"
  "v_argv (traced E) nodes ns (x, t) = (case v_argv E nodes ns x of (x', r) \<Rightarrow> ((x', t), r))"
  "v_launch (traced E) m spec (x, t) = (case v_launch E m spec x of
          (x', Inl e) \<Rightarrow> ((x', t), Inl e) | (x', Inr pid) \<Rightarrow> ((x', t @ [(sp_index spec, pid)]), Inr pid))"
  "v_binaries (traced E) = v_binaries E"
  by (simp_all add: traced_def)

lemma launch_traced:
  assumes "in_step (front @ ns # rest) l" "\<not> r_PID ns > 0" "NodeLabel ns = LabelFor (r_Index ns)" "live_pids E"
    "sp_index spec = r_Index ns"
  shows "(\<exists>x' e. LaunchAndRecord (v_launch (traced E) m) (Some l) spec (x, t) = (Some l, (x', t), 0, Some e)) \<or>
    (\<exists>x' l' pid. LaunchAndRecord (v_launch (traced E) m) (Some l) spec (x, t) = (Some l', (x', t @ [(r_Index ns, pid)]), pid, None)
       \<and> pid > 0 \<and> (\<forall>ns'. NodeLabel ns' = NodeLabel ns \<longrightarrow> r_PID ns' = pid \<longrightarrow> in_step (front @ ns' # rest) l'))"
proof (cases "snd (v_launch E m spec x)")
  case (Inl e)
  then show ?thesis by (cases "v_launch E m spec x") (simp add: LaunchAndRecord_def)
next
  case (Inr pid)
  then obtain x' where x': "v_launch E m spec x = (x', Inr pid)" by (metis prod.collapse)
  then have pid: "pid > 0" using assms(4) by (auto simp: live_pids_def)
  have free: "procs l (LabelFor (r_Index ns)) = None"
    using in_step_free [OF assms(1), of ns] assms(2,3) by simp
  have ok: "ledger_ok l" using assms(1) by (simp add: in_step_def)
  obtain l1 q where l1: "RecordProc (ProcFor spec pid) l = (l1, None)" "ledger_ok l1"
      "procs l1 = (procs l)(LabelFor (r_Index ns) \<mapsto> q)" "p_PID q = pid"
    using RecordProc_free [of l "ProcFor spec pid"] ok free pid assms(5) by auto
  have "in_step (front @ ns' # rest) l1" if "NodeLabel ns' = NodeLabel ns" "r_PID ns' = pid" for ns'
    using in_step_change [OF assms(1) l1(2), of "Some q" ns'] l1(3,4) that assms(3) by simp
  then show ?thesis using x' l1(1) pid assms(5) by (auto simp: LaunchAndRecord_def)
qed

lemma moved_I: "r_PID a \<le> 0 \<Longrightarrow> moved a (a\<lparr>r_Args := args\<rparr>)" "r_PID a \<le> 0 \<Longrightarrow> moved a (a\<lparr>r_Args := args, r_PID := pid\<rparr>)"
  "r_PID a \<le> 0 \<Longrightarrow> moved a (a\<lparr>r_PID := pid\<rparr>)"
proof -
  have "a\<lparr>r_Args := args\<rparr> = a\<lparr>r_Args := args, r_PID := r_PID a\<rparr>" "a\<lparr>r_PID := pid\<rparr> = a\<lparr>r_Args := r_Args a, r_PID := pid\<rparr>"
    by simp_all
  then show "r_PID a \<le> 0 \<Longrightarrow> moved a (a\<lparr>r_Args := args\<rparr>)" "r_PID a \<le> 0 \<Longrightarrow> moved a (a\<lparr>r_Args := args, r_PID := pid\<rparr>)"
    "r_PID a \<le> 0 \<Longrightarrow> moved a (a\<lparr>r_PID := pid\<rparr>)"
    unfolding moved_def by blast+
qed

lemma startLoop_traced:
  assumes "in_step (front @ rest) l" "conventional rest" "live_pids E"
  shows "started_ok ph front rest t k (startLoop (traced E) bin ph front rest (Some l) (x, t) k)"
  using assms
proof (induction rest arbitrary: front l x t k)
  case Nil
  then show ?case by (simp add: started_ok_def dueIn_def newly_def)
next
  case (Cons ns rest)
  have conv: "NodeLabel ns = LabelFor (r_Index ns)" "conventional rest" using Cons.prems(2) by (simp_all add: conventional_def)
  note stop = started_stop [OF Cons.prems(1)]
  show ?case
  proof (cases "r_PID ns > 0 \<or> \<not> phaseHasNode ph (r_Index ns)")
    case True
    have "started_ok ph (front @ [ns]) rest t k (startLoop (traced E) bin ph (front @ [ns]) rest (Some l) (x, t) k)"
      using Cons.IH [of "front @ [ns]" l] Cons.prems conv by simp
    then show ?thesis using True by (auto intro: started_go simp: dueIn_def newly_def)
  next
    case False
    then have down: "\<not> r_PID ns > 0" "phaseHasNode ph (r_Index ns)" by auto
    obtain x1 m where m: "v_machineFor E ns x = (x1, m)" by fastforce
    show ?thesis
    proof (cases m)
      case (Inl e)
      then show ?thesis using m False stop [of ns] by simp
    next
      case (Inr t1)
      let ?spec = "(SpecOf ns)\<lparr>sp_binary := binaryFor (v_binaries E) ns bin\<rparr>"
      obtain x2 a where a: "(if length (r_Args ns) = 0 then v_argv E (front @ ns # rest) ns x1 else (x1, Inr (r_Args ns))) = (x2, a)"
        by fastforce
      then have a': "(if length (sp_args ?spec) = 0 then v_argv (traced E) (front @ ns # rest) ns (x1, t)
          else ((x1, t), Inr (sp_args ?spec))) = ((x2, t), a)"
        by (auto split: if_splits prod.splits)
      show ?thesis
      proof (cases a)
        case (Inl e)
        then show ?thesis using m Inr False a' stop [of ns] by (simp del: length_0_conv length_greater_0_conv)
      next
        case (Inr args)
        let ?ns1 = "if length (r_Args ns) = 0 then ns\<lparr>r_Args := args\<rparr> else ns"
        have ns1: "moved ns ?ns1" "r_PID ?ns1 = r_PID ns" "NodeLabel ?ns1 = NodeLabel ns"
          "moved ns (?ns1\<lparr>r_PID := pid\<rparr>)" for pid
          using down(1) moved_I [of ns] by (auto simp: not_less)
        have in1: "in_step (front @ ?ns1 # rest) l" by (rule in_step_same [OF Cons.prems(1) ns1(3,2)])
        let ?lr = "LaunchAndRecord (v_launch (traced E) t1) (Some l) (?spec\<lparr>sp_args := args\<rparr>) (x2, t)"
        have eq: "startLoop (traced E) bin ph front (ns # rest) (Some l) (x, t) k =
            (case ?lr of
               (l1, x3, pid, Some err) \<Rightarrow> (front @ ?ns1 # rest, l1, x3, k, Some (startErr (r_Index ns) err))
             | (l1, x3, pid, None) \<Rightarrow> startLoop (traced E) bin ph (front @ [?ns1\<lparr>r_PID := pid\<rparr>]) rest l1 x3 (k + 1))"
          using m \<open>m = Inr t1\<close> False a' Inr
          by (simp only: startLoop.simps Let_def if_False traced_simps prod.case sum.case) simp
        from launch_traced [OF Cons.prems(1) down(1) conv(1) Cons.prems(3), of "?spec\<lparr>sp_args := args\<rparr>" t1 x2 t]
        consider x' e where "?lr = (Some l, (x', t), 0, Some e)"
          | x' l' pid where "?lr = (Some l', (x', t @ [(r_Index ns, pid)]), pid, None)" "pid > 0"
              "\<And>ns'. NodeLabel ns' = NodeLabel ns \<Longrightarrow> r_PID ns' = pid \<Longrightarrow> in_step (front @ ns' # rest) l'"
          by auto
        then show ?thesis
        proof cases
          case 1
          then show ?thesis unfolding eq
            using started_stop [OF in1 ns1(1,2), of ph t k x' "startErr (r_Index ns) e"] by (simp split del: if_split)
        next
          case 2
          have "started_ok ph (front @ [?ns1\<lparr>r_PID := pid\<rparr>]) rest (t @ [(r_Index ns, pid)]) (k + 1)
              (startLoop (traced E) bin ph (front @ [?ns1\<lparr>r_PID := pid\<rparr>]) rest (Some l') (x', t @ [(r_Index ns, pid)]) (k + 1))"
            using Cons.IH [of "front @ [?ns1\<lparr>r_PID := pid\<rparr>]" l'] 2(3) conv(2) Cons.prems(3) by simp
          then show ?thesis unfolding eq
            using 2(1,2) started_more [OF _ ns1(4) [of pid] down, of front rest t k] by (simp split del: if_split)
        qed
      qed
    qed
  qed
qed

lemma startPhase_traced:
  assumes "in_step nodes l" "conventional nodes" "live_pids E"
  shows "started_ok ph [] nodes t 0 (startPhase (traced E) bin ph nodes (Some l) (x, t))"
proof -
  obtain x1 t1 c where c: "checkVacant (traced E) ph nodes (x, t) = ((x1, t1), c)" by (metis prod.exhaust)
  have t1: "t1 = t" using c by (auto simp: checkVacant_def Let_def split: prod.splits sum.splits if_splits)
  show ?thesis
  proof (cases c)
    case (Some e)
    then show ?thesis using c t1 assms(1) by (auto simp: startPhase_def started_ok_def)
  next
    case None
    obtain ns2 l2 x2 t2 k2 e2 where r: "startLoop (traced E) bin ph [] nodes (Some l) (x1, t) 0 = (ns2, l2, (x2, t2), k2, e2)"
      by (metis prod.exhaust)
    have "started_ok ph [] nodes t 0 (ns2, l2, (x2, t2), k2, e2)"
      using startLoop_traced [of "[]" nodes l E ph t 0 bin x1] assms r by simp
    then show ?thesis using c t1 None r by (cases e2) (auto simp: startPhase_def started_ok_def)
  qed
qed

lemma newly_recorded:
  assumes "list_all2 moved nodes nodes'" "in_step nodes' l" "conventional nodes" "(i, pid) \<in> set (newly nodes nodes')"
  shows "\<exists>p. GetProc l (LabelFor i) = Some p \<and> p_PID p = pid"
proof -
  obtain a b where ab: "(a, b) \<in> set (zip nodes nodes')" "r_Index b = i" "r_PID b = pid" "r_PID b > 0"
    using assms(4) by (auto simp: newly_def)
  have "moved a b" "a \<in> set nodes" "b \<in> set nodes'"
    using ab(1) assms(1) by (auto simp: list_all2_iff dest: set_zip_leftD set_zip_rightD)
  then have "NodeLabel b = LabelFor i" using assms(3) ab(2) moved_D [of a b] by (auto simp: conventional_def)
  then show ?thesis using assms(2) \<open>b \<in> set nodes'\<close> ab(3,4)
    by (force simp: in_step_def GetProc_def split: option.splits)
qed

text \<open>
  Property C12. No start is lost. From a table and a ledger that agree, starting a phase leaves them in
  agreement whether it succeeds or fails part way: the processes the driver reported as started are exactly
  the nodes that have a pid now and had none before, each of them is in the ledger under its label with that
  pid, the count returned is their number, every other node is untouched, and they are the nodes of the
  phase that were down, in table order, up to where it failed.
\<close>

theorem no_start_is_lost:
  assumes "in_step nodes l" "conventional nodes" "live_pids E"
    and "startPhase (traced E) bin ph nodes (Some l) (x, []) = (nodes', l', (x', starts), started, err)"
  shows "\<exists>l2. l' = Some l2 \<and> in_step nodes' l2 \<and> starts = newly nodes nodes' \<and> started = int (length starts)
      \<and> list_all2 moved nodes nodes'
      \<and> (\<forall>(i, pid) \<in> set starts. \<exists>p. GetProc l2 (LabelFor i) = Some p \<and> p_PID p = pid)
      \<and> prefix (map fst starts) (dueIn ph nodes)
      \<and> (err = None \<longrightarrow> map fst starts = dueIn ph nodes)"
proof -
  obtain l2 where r: "l' = Some l2" "in_step nodes' l2" "list_all2 moved nodes nodes'" "starts = newly nodes nodes'"
    "started = int (length (newly nodes nodes'))" "prefix (map fst (newly nodes nodes')) (dueIn ph nodes)"
    "err = None \<longrightarrow> map fst (newly nodes nodes') = dueIn ph nodes"
    using startPhase_traced [OF assms(1-3), of ph "[]" bin x] assms(4) by (auto simp: started_ok_def)
  then show ?thesis using newly_recorded [OF r(3,2) assms(2)] by auto
qed

section \<open>The whole launch\<close>

definition tracedAct ::
  "(phase \<Rightarrow> Record list \<Rightarrow> 'x \<Rightarrow> 'x \<times> goErr option) \<Rightarrow> phase \<Rightarrow> Record list \<Rightarrow> 'x \<times> (int \<times> int) list
     \<Rightarrow> ('x \<times> (int \<times> int) list) \<times> goErr option"
where
  "tracedAct act ph nodes = (\<lambda>(x, t). case act ph nodes x of (x', e) \<Rightarrow> ((x', t), e))"

lemma tracedAct_simp [simp]: "tracedAct act ph nodes (x, t) = (case act ph nodes x of (x', e) \<Rightarrow> ((x', t), e))"
  by (simp add: tracedAct_def)

definition runningIn :: "Record list \<Rightarrow> int set" where
  "runningIn nodes = r_Index ` set (filter (\<lambda>ns. r_PID ns > 0) nodes)"

text \<open>The nodes a walk over phases starts, given those that run.\<close>

fun walkOrder :: "int list \<Rightarrow> int set \<Rightarrow> phase list \<Rightarrow> int list" where
  "walkOrder ids R [] = []"
| "walkOrder ids R (ph # phs) =
     (let due = filter (\<lambda>i. i \<notin> R \<and> phaseHasNode ph i) ids in due @ walkOrder ids (R \<union> set due) phs)"

lemma runningIn_moved: "list_all2 moved as bs \<Longrightarrow> runningIn bs = runningIn as \<union> set (map fst (newly as bs))"
proof (induction rule: list_all2_induct)
  case (Cons a as b bs)
  have "runningIn (c # cs) = (if r_PID c > 0 then {r_Index c} else {}) \<union> runningIn cs" for c cs
    by (simp add: runningIn_def)
  moreover have "r_Index b = r_Index a" "r_PID a > 0 \<longrightarrow> r_PID b = r_PID a" using Cons(1) by (auto simp: moved_def)
  ultimately show ?case using Cons(3) by auto
qed (simp add: runningIn_def newly_def)

lemma moved_indices: "list_all2 moved as bs \<Longrightarrow> map r_Index bs = map r_Index as \<and> (conventional as \<longrightarrow> conventional bs)"
  by (induction rule: list_all2_induct) (auto simp: moved_D conventional_def)

lemma dueIn_running:
  assumes "distinct (map r_Index nodes)"
  shows "dueIn ph nodes = filter (\<lambda>i. i \<notin> runningIn nodes \<and> phaseHasNode ph i) (map r_Index nodes)"
proof -
  have "r_Index ns \<in> runningIn nodes \<longleftrightarrow> r_PID ns > 0" if "ns \<in> set nodes" for ns
    using that assms by (auto simp: runningIn_def distinct_map inj_on_def)
  then show ?thesis unfolding dueIn_def by (simp add: filter_map comp_def cong: filter_cong)
qed

lemma launchPhases_traced:
  assumes "in_step nodes l" "conventional nodes" "live_pids E" "distinct (map r_Index nodes)"
    and "launchPhases (traced E) (tracedAct act) bin phs nodes (Some l) (x, t) k = (nodes', l', (x', t'), k', None)"
  shows "\<exists>l2 new. l' = Some l2 \<and> in_step nodes' l2 \<and> map r_Index nodes' = map r_Index nodes
    \<and> t' = t @ new \<and> map fst new = walkOrder (map r_Index nodes) (runningIn nodes) phs
    \<and> k' = k + int (length new) \<and> runningIn nodes' = runningIn nodes \<union> set (map fst new)"
  using assms
proof (induction phs arbitrary: nodes l x t k)
  case Nil
  then show ?case by auto
next
  case (Cons ph phs)
  obtain n1 l1 x1 t1 k1 e1 where sp: "startPhase (traced E) bin ph nodes (Some l) (x, t) = (n1, l1, (x1, t1), k1, e1)"
    by (metis prod.exhaust)
  have "e1 = None" using Cons.prems(5) sp by (cases e1) simp_all
  then obtain l2 where r: "l1 = Some l2" "in_step n1 l2" "list_all2 moved nodes n1" "t1 = t @ newly nodes n1"
    "k1 = int (length (newly nodes n1))" "map fst (newly nodes n1) = dueIn ph nodes"
    using startPhase_traced [OF Cons.prems(1-3), of ph t bin x] sp by (auto simp: started_ok_def)
  obtain x2 where go: "launchPhases (traced E) (tracedAct act) bin phs n1 (Some l2) (x2, t1) (k + k1) = (nodes', l', (x', t'), k', None)"
    using Cons.prems(5) sp r(1) \<open>e1 = None\<close>
    by (auto split: prod.splits option.splits if_splits)
  note same = moved_indices [OF r(3)]
  from Cons.IH [OF r(2) _ Cons.prems(3) _ go] same Cons.prems(2,4) obtain l3 new where n:
    "l' = Some l3" "in_step nodes' l3" "map r_Index nodes' = map r_Index n1" "t' = t1 @ new"
    "map fst new = walkOrder (map r_Index n1) (runningIn n1) phs" "k' = k + k1 + int (length new)"
    "runningIn nodes' = runningIn n1 \<union> set (map fst new)" by (auto simp del: set_map)
  have w: "walkOrder (map r_Index nodes) (runningIn nodes) (ph # phs) = map fst (newly nodes n1 @ new)"
    using dueIn_running [OF Cons.prems(4), of ph] r(6) n(5) same runningIn_moved [OF r(3)] by simp
  show ?case
    by (intro exI [of _ l3] exI [of _ "newly nodes n1 @ new"])
      (use n r(4,5) w same runningIn_moved [OF r(3)] in auto)
qed

lemma walkOrder_is_launchOrder:
  "distinct (launchOrder n phs) \<Longrightarrow> R \<inter> set (launchOrder n phs) = {} \<Longrightarrow> walkOrder [1..n] R phs = launchOrder n phs"
proof (induction phs arbitrary: R)
  case (Cons ph phs)
  have o: "launchOrder n (ph # phs) = phaseNodes n ph @ launchOrder n phs" by (simp add: launchOrder_def)
  have "filter (\<lambda>i. i \<notin> R \<and> phaseHasNode ph i) [1..n] = phaseNodes n ph"
    using Cons.prems(2) unfolding o by (auto simp: phaseNodes_def intro!: filter_cong)
  moreover have "walkOrder [1..n] (R \<union> set (phaseNodes n ph)) phs = launchOrder n phs"
    using Cons.prems unfolding o by (intro Cons.IH) auto
  ultimately show ?case unfolding o by (simp add: Let_def)
qed (simp add: launchOrder_def)

context bring_up
begin

lemma family_launch:
  assumes "in_step nodes l" "conventional nodes" "live_pids E" "map r_Index nodes = [1..int (length nodes)]"
    "\<forall>ns \<in> set nodes. r_PID ns \<le> 0"
    and "launchPhases (traced E) (tracedAct act) bin (phases (map r_Role nodes)) nodes (Some l) (x, []) 0
      = (nodes', l', (x', starts), started, None)"
  shows "map fst starts = launchOrder (int (length nodes)) (phases (map r_Role nodes))
    \<and> distinct (map fst starts) \<and> set (map fst starts) = {1..int (length nodes)}
    \<and> started = int (length nodes) \<and> (\<forall>ns \<in> set nodes'. r_PID ns > 0) \<and> (\<exists>l2. l' = Some l2 \<and> in_step nodes' l2)"
proof -
  let ?o = "launchOrder (int (length nodes)) (phases (map r_Role nodes))"
  have none: "runningIn nodes = {}" using assms(5) by (force simp: runningIn_def)
  have d: "distinct ?o" "set ?o = {1..int (length nodes)}"
    using order_distinct [of "map r_Role nodes"] order_set [of "map r_Role nodes"] by simp_all
  have "distinct (map r_Index nodes)" by (simp add: assms(4))
  from launchPhases_traced [OF assms(1-3) this assms(6)] obtain l2 where
    l2: "l' = Some l2" "in_step nodes' l2" "map r_Index nodes' = map r_Index nodes"
      "map fst starts = walkOrder (map r_Index nodes) (runningIn nodes) (phases (map r_Role nodes))"
      "started = int (length starts)" "runningIn nodes' = runningIn nodes \<union> set (map fst starts)"
    by (auto simp del: set_map)
  have o: "map fst starts = ?o" using walkOrder_is_launchOrder [OF d(1), of "{}"] l2(4) assms(4) none by simp
  then have len: "length starts = length nodes"
    using distinct_card [OF d(1)] d(2) by (metis card_atLeastAtMost_int diff_add_cancel length_map nat_int)
  have "r_PID ns > 0" if "ns \<in> set nodes'" for ns
  proof -
    have "r_Index ns \<in> runningIn nodes'" using l2(3,6) o d(2) assms(4) none that
      by (metis Un_empty_left image_eqI list.set_map set_upto)
    moreover have "distinct (map r_Index nodes')" using l2(3) assms(4) by simp
    ultimately show ?thesis using that by (auto simp: runningIn_def distinct_map inj_on_def)
  qed
  then show ?thesis using o d l2(1,2,5) len by (auto simp del: map_eq_conv)
qed

end

text \<open>
  Property C13. A launch that succeeds on a stopped network starts every node exactly once, for either
  family, and leaves all of them running with table and ledger in agreement. A poa network starts its
  producers one at a time from the last one down, and the other nodes, in table order, after all of them.
\<close>

theorem launch_starts_every_node_once:
  assumes "in_step nodes l" "conventional nodes" "live_pids E" "map r_Index nodes = [1..int (length nodes)]"
    "\<forall>ns \<in> set nodes. r_PID ns \<le> 0" "phases \<in> {poa_BringUpPhases, wbft_BringUpPhases}"
    and "launchPhases (traced E) (tracedAct act) bin (phases (map r_Role nodes)) nodes (Some l) (x, []) 0
      = (nodes', l', (x', starts), started, None)"
  shows "distinct (map fst starts) \<and> set (map fst starts) = r_Index ` set nodes
    \<and> started = int (length nodes) \<and> (\<forall>ns \<in> set nodes'. r_PID ns > 0) \<and> (\<exists>l2. l' = Some l2 \<and> in_step nodes' l2)
    \<and> (phases = poa_BringUpPhases \<and> RoleBP \<in> set (map r_Role nodes) \<longrightarrow>
        map fst starts = rev (map r_Index (filter (\<lambda>ns. r_Role ns = RoleBP) nodes))
          @ map r_Index (filter (\<lambda>ns. r_Role ns \<noteq> RoleBP) nodes))"
proof -
  have ids: "r_Index ` set nodes = {1..int (length nodes)}" by (metis assms(4) list.set_map set_upto)
  have poa: "poaOrder (map r_Role nodes) = rev (map r_Index (filter (\<lambda>ns. r_Role ns = RoleBP) nodes))
      @ map r_Index (filter (\<lambda>ns. r_Role ns \<noteq> RoleBP) nodes)"
    using producers_of_table [of nodes 1] assms(4) by (simp add: poaOrder_def groupRoles_1)
  consider "phases = poa_BringUpPhases" | "phases = wbft_BringUpPhases" "poa_BringUpPhases \<noteq> phases" using assms(6) by blast
  then show ?thesis
  proof cases
    case 1
    note f = poa.family_launch [OF assms(1-5) assms(7) [unfolded 1]]
    have "producersOf (map r_Role nodes) \<noteq> []" if "RoleBP \<in> set (map r_Role nodes)"
    proof -
      have "\<exists>ns. ns \<in> set (filter (\<lambda>ns. r_Role ns = RoleBP) nodes)" using that by (auto dest: sym)
      then have "filter (\<lambda>ns. r_Role ns = RoleBP) nodes \<noteq> []" by (metis list.distinct(1) list.set_cases)
      then show ?thesis using producers_of_table [of nodes 1] assms(4) by (simp add: groupRoles_1)
    qed
    then have "RoleBP \<in> set (map r_Role nodes) \<Longrightarrow> map fst starts = poaOrder (map r_Role nodes)"
      using f poa_launchOrder [of "map r_Role nodes"] by simp
    then show ?thesis using f unfolding ids poa by blast
  next
    case 2
    then show ?thesis using wbft.family_launch [OF assms(1-5) assms(7) [unfolded 2(1)]] unfolding ids by blast
  qed
qed

section \<open>The small operations keep the step\<close>

lemma LaunchAndRecord_ledger: "LaunchAndRecord launch l spec x = (l1, x1, pid, e) \<Longrightarrow> l1 = None \<longleftrightarrow> l = None"
  by (auto simp: LaunchAndRecord_def split: prod.splits sum.splits option.splits)

lemma startLoop_ledger: "startLoop E bin ph front rest l x k = (n', l', x', k', e) \<Longrightarrow> l' = None \<longleftrightarrow> l = None"
proof (induction rest arbitrary: front l x k)
  case (Cons ns rest)
  then show ?case
    by (auto simp: Let_def split: prod.splits sum.splits option.splits if_splits dest!: Cons.IH dest: LaunchAndRecord_ledger)
qed simp

lemma startPhase_ledger: "startPhase E bin ph nodes l x = (n', l', x', k', e) \<Longrightarrow> l' = None \<longleftrightarrow> l = None"
  by (auto simp: startPhase_def split: prod.splits option.splits dest: startLoop_ledger)

datatype tableOp = TClear nat | TLaunch nat int string | TSwap nat int string

text \<open>The index of an operation comes from the table it is applied to.\<close>

fun tableStep :: "Record list \<times> Ledger \<Rightarrow> tableOp \<Rightarrow> Record list \<times> Ledger" where
  "tableStep (nodes, l) (TClear i) = (if i < length nodes then clearPID i nodes l else (nodes, l))"
| "tableStep (nodes, l) (TLaunch i pid binary) =
     (if i < length nodes then (case recordLaunch i pid binary nodes l of (nodes', l', e) \<Rightarrow> (nodes', l')) else (nodes, l))"
| "tableStep (nodes, l) (TSwap i pid binary) =
     (if i < length nodes then (case recordSwap i pid binary nodes l of (nodes', l', e) \<Rightarrow> (nodes', l')) else (nodes, l))"

lemma in_step_at:
  assumes "in_step nodes l" "i < length nodes" "ledger_ok l'" "procs l' = (procs l)(NodeLabel (nodes ! i) := q)"
    "NodeLabel ns' = NodeLabel (nodes ! i)" "case q of Some p \<Rightarrow> r_PID ns' = p_PID p | None \<Rightarrow> r_PID ns' \<le> 0"
  shows "in_step (nodes[i := ns']) l'"
proof -
  have "nodes = take i nodes @ nodes ! i # drop (Suc i) nodes" using assms(2) by (simp add: id_take_nth_drop)
  moreover have "nodes[i := ns'] = take i nodes @ ns' # drop (Suc i) nodes" using assms(2) by (simp add: upd_conv_take_nth_drop)
  ultimately show ?thesis
    using in_step_change [of "take i nodes" "nodes ! i" "drop (Suc i) nodes" l l' q ns'] assms by metis
qed

lemma conventional_at: "conventional nodes \<Longrightarrow> i < length nodes \<Longrightarrow> LabelFor (r_Index (nodes ! i)) = NodeLabel (nodes ! i)"
  by (simp add: conventional_def)

lemma conventional_upd:
  assumes "conventional nodes" "i < length nodes"
  shows "conventional (nodes[i := (nodes ! i)\<lparr>r_PID := k\<rparr>])"
  using assms by (auto simp: conventional_def dest!: set_update_subset_insert [THEN subsetD])

lemma tableStep_in_step:
  assumes "in_step nodes l" "conventional nodes" "tableStep (nodes, l) op = (nodes', l')"
  shows "in_step nodes' l' \<and> conventional nodes'"
proof (cases op)
  case (TClear i)
  show ?thesis
  proof (cases "i < length nodes")
    case True
    have "in_step (nodes[i := (nodes ! i)\<lparr>r_PID := 0\<rparr>]) (fst (ClearProc (NodeLabel (nodes ! i)) l))"
      by (rule in_step_at [OF assms(1) True, where q = None]) (use assms(1) drop_ok in \<open>auto simp: ClearProc_def in_step_def\<close>)
    then show ?thesis using True TClear assms conventional_upd by (auto simp: clearPID_def)
  qed (use TClear assms in auto)
next
  case (TLaunch i pid binary)
  show ?thesis
  proof (cases "i < length nodes")
    case True
    let ?p = "ProcFor ((SpecOf (nodes ! i))\<lparr>sp_binary := binary\<rparr>) pid"
    obtain l1 e where r: "RecordProc ?p l = (l1, e)" by fastforce
    show ?thesis
    proof (cases e)
      case None
      have lab: "p_Label ?p = NodeLabel (nodes ! i)" using conventional_at [OF assms(2) True] by simp
      have pid: "pid > 0" using r None by (auto simp: RecordProc_def split: if_splits option.splits)
      have "procs l1 = (procs l)(NodeLabel (nodes ! i) \<mapsto>
          ?p\<lparr>p_Revision := max (p_Revision ?p) (nextArchivedRevision l (p_Label ?p))\<rparr>)" "ledger_ok l1"
        using r None lab enter_ok [of l ?p] assms(1)
        by (auto simp: RecordProc_def in_step_def split: if_splits option.splits)
      then have "in_step (nodes[i := (nodes ! i)\<lparr>r_PID := pid\<rparr>]) l1"
        using in_step_at [OF assms(1) True] by simp
      then show ?thesis using True TLaunch assms r None conventional_upd by (auto simp: recordLaunch_def)
    next
      case (Some err)
      then have "l1 = l" using r by (auto simp: RecordProc_def split: if_splits option.splits)
      then show ?thesis using True TLaunch assms r Some by (auto simp: recordLaunch_def)
    qed
  qed (use TLaunch assms in auto)
next
  case (TSwap i pid binary)
  show ?thesis
  proof (cases "i < length nodes")
    case True
    let ?p = "ProcFor ((SpecOf (nodes ! i))\<lparr>sp_binary := binary\<rparr>) pid"
    obtain l1 e where r: "Supersede ?p l = (l1, e)" by fastforce
    have lab: "p_Label ?p = NodeLabel (nodes ! i)" using conventional_at [OF assms(2) True] by simp
    have ok: "ledger_ok l1" using ledgerStep_ok [of l "OSupersede ?p"] r assms(1) by (simp add: in_step_def)
    show ?thesis
    proof (cases e)
      case (Inr prev)
      obtain q where "procs l1 = (procs l)(NodeLabel (nodes ! i) \<mapsto> q)" "p_PID q = pid"
        using r Inr lab that by (auto simp: Supersede_def Let_def split: if_splits option.splits)
      then have "in_step (nodes[i := (nodes ! i)\<lparr>r_PID := pid\<rparr>]) l1"
        using in_step_at [OF assms(1) True ok, of "Some q"] by simp
      then show ?thesis using True TSwap assms r Inr conventional_upd by (auto simp: recordSwap_def)
    next
      case (Inl err)
      then have "l1 = l" using r by (auto simp: Supersede_def Let_def split: if_splits)
      then show ?thesis using True TSwap assms r Inl by (auto simp: recordSwap_def)
    qed
  qed (use TSwap assms in auto)
qed

lemma in_step_add:
  assumes "in_step front l" "ledger_ok l'" "procs l' = (procs l)(NodeLabel ns := q)" "NodeLabel ns \<notin> NodeLabel ` set front"
    "case q of Some p \<Rightarrow> r_PID ns = p_PID p | None \<Rightarrow> r_PID ns \<le> 0"
  shows "in_step (front @ [ns]) l'"
proof -
  have "case procs l' (NodeLabel a) of Some p \<Rightarrow> r_PID a = p_PID p | None \<Rightarrow> r_PID a \<le> 0" if "a \<in> set front" for a
  proof -
    have "NodeLabel a \<noteq> NodeLabel ns" using assms(4) that by (metis imageI)
    then show ?thesis using assms(1,3) that by (simp add: in_step_def)
  qed
  then show ?thesis using assms by (simp add: in_step_def)
qed

lemma reattach_in_step:
  "in_step front l \<Longrightarrow> distinct (map NodeLabel (front @ nodes)) \<Longrightarrow> reattach nodes l = (nodes', l') \<Longrightarrow>
   in_step (front @ nodes') l' \<and> (conventional nodes \<longrightarrow> conventional nodes')"
proof (induction nodes arbitrary: front l nodes')
  case (Cons ns nodes)
  have new: "NodeLabel ns \<notin> NodeLabel ` set front" using Cons.prems(2) by auto
  have ok: "ledger_ok l" using Cons.prems(1) by (simp add: in_step_def)
  obtain ns1 l1 rest' where step: "in_step (front @ [ns1]) l1" "nodes' = ns1 # rest'" "reattach nodes l1 = (rest', l')"
    "NodeLabel ns1 = NodeLabel ns" "r_Index ns1 = r_Index ns"
  proof (cases "procs l (NodeLabel ns)")
    case (Some p)
    then have "in_step (front @ [ns\<lparr>r_PID := p_PID p\<rparr>]) l"
      using in_step_add [OF Cons.prems(1) ok _ _, of "ns\<lparr>r_PID := p_PID p\<rparr>" "Some p"] new by (simp add: fun_upd_idem)
    then show thesis using that Some Cons.prems(3) by (auto simp: GetProc_def split: prod.splits)
  next
    case None
    show thesis
    proof (cases "r_PID ns > 0")
      case True
      let ?p = "\<lparr>p_PID = r_PID ns, p_Label = NodeLabel ns, p_Binary = '''', p_Command = '''',
                 p_DataDir = r_DataDir ns, p_Host = r_Host ns, p_Revision = 0\<rparr>"
      obtain l1 q where "RecordProc ?p l = (l1, None)" "ledger_ok l1" "procs l1 = (procs l)(NodeLabel ns \<mapsto> q)" "p_PID q = r_PID ns"
        using RecordProc_free [of l ?p] ok None True by auto
      then show thesis using that [of ns l1] in_step_add [OF Cons.prems(1), of l1 ns "Some q"] new None True Cons.prems(3)
        by (auto simp: GetProc_def split: prod.splits)
    next
      case False
      then have "in_step (front @ [ns]) l"
        using in_step_add [OF Cons.prems(1) ok, of ns None] new None by (simp add: fun_upd_idem)
      then show thesis using that None False Cons.prems(3) by (auto simp: GetProc_def split: prod.splits)
    qed
  qed
  have "distinct (map NodeLabel ((front @ [ns1]) @ nodes))" using Cons.prems(2) step(4) by simp
  from Cons.IH [OF step(1) this step(3)] show ?case using step(2,4,5) by (auto simp: conventional_def)
qed simp

text \<open>
  Property C17. The node table and the ledger stay in step. Opening a workspace brings them together, from
  any table and any ledger left on disk, and every later recording of a launch, recording of a swap and
  clearing of a pid keeps them so: a node has a pid in the table exactly when the ledger has an entry under
  its name, and it is that entry's.
\<close>

theorem table_and_ledger_stay_in_step:
  assumes "ledger_ok l" "distinct (map NodeLabel nodes)" "conventional nodes"
    "foldl tableStep (reattach nodes l) cmds = (nodes', l')" "ns \<in> set nodes'"
  shows "case GetProc l' (NodeLabel ns) of Some p \<Rightarrow> r_PID ns = p_PID p \<and> p_PID p > 0 | None \<Rightarrow> r_PID ns \<le> 0"
proof -
  obtain n1 l1 where r: "reattach nodes l = (n1, l1)" by fastforce
  have "in_step [] l" using assms(1) by (simp add: in_step_def)
  then have "in_step n1 l1 \<and> conventional n1" using reattach_in_step [of "[]" l nodes n1 l1] r assms(2,3) by simp
  then have "in_step nodes' l'" using assms(4) unfolding r
  proof (induction cmds arbitrary: n1 l1)
    case (Cons cmd cmds)
    obtain n2 l2 where s: "tableStep (n1, l1) cmd = (n2, l2)" by fastforce
    show ?case by (rule Cons.IH [of n2 l2]) (use Cons.prems s tableStep_in_step [OF _ _ s] in auto)
  qed simp
  then show ?thesis using assms(5) ledger_ok_D(2) [of l' "NodeLabel ns"]
    by (auto simp: in_step_def GetProc_def split: option.splits)
qed

section \<open>A node with a name of its own\<close>

text \<open>
  Property C39. A launch records a node under the label of its number, while the table and the stop use the
  node's own name. So a node placed under another name is started and stopped once, and its next start is
  lost: the driver starts a process, the ledger refuses it as a double launch, and neither table nor ledger
  has its pid.
\<close>

theorem renamed_node_is_lost:
  assumes "NodeLabel ns \<noteq> LabelFor (r_Index ns)" "r_PID ns \<le> 0" "r_Args ns \<noteq> []" "checkUniformNetworkID [ns] = None"
    and "procs l (LabelFor (r_Index ns)) = None" "0 < pidA" "pidA \<noteq> pidB"
    and "\<And>as y. v_scanPorts E as y = (y, Inr [])" "\<And>n y. v_machineFor E n y = (y, Inr m)"
    and "\<And>spec. v_launch E m spec x = (x1, Inr pidA)" "\<And>spec. v_launch E m spec x1 = (x2, Inr pidB)"
    and "startPhase (traced E) bin allPhase [ns] (Some l) (x, []) = (n1, Some l1, (x', t1), k1, e1)"
    and "clearPID 0 n1 l1 = (n2, l2)"
    and "startPhase (traced E) bin allPhase n2 (Some l2) (x', []) = (n3, Some l3, (x'', t3), k3, e3)"
  shows "e1 = None \<and> t1 = [(r_Index ns, pidA)] \<and> t3 = [(r_Index ns, pidB)] \<and> e3 \<noteq> None
    \<and> map r_PID n3 = [0] \<and> GetProc l3 (NodeLabel ns) = None
    \<and> map_option p_PID (GetProc l3 (LabelFor (r_Index ns))) = Some pidA"
proof -
  have vac: "checkVacant (traced E) allPhase nodes (y, t) = ((y, t), None)" for nodes y t
    using assms(8) by (simp add: checkVacant_def)
  have all: "phaseHasNode allPhase i" for i by (simp add: phaseHasNode_def allPhase_def)
  have uni: "checkUniformNetworkID [ns\<lparr>r_PID := k\<rparr>] = checkUniformNetworkID [ns]" for k
    by (simp add: checkUniformNetworkID_def argvOf_def)
  have e: "n1 = [ns\<lparr>r_PID := pidA\<rparr>]" "x' = x1" "t1 = [(r_Index ns, pidA)]" "e1 = None"
    "l1 = fst (RecordProc (ProcFor (SpecOf ns\<lparr>sp_binary := binaryFor (v_binaries E) ns bin, sp_args := r_Args ns\<rparr>) pidA) l)"
    using assms(12) assms(2-7,9,10) all uni
    by (simp_all add: startPhase_def vac Let_def LaunchAndRecord_def RecordProc_def)
  have p1: "map_option p_PID (procs l1 (LabelFor (r_Index ns))) = Some pidA"
    using e(5) assms(5,6) by (simp add: RecordProc_def)
  have two: "n2 = [ns\<lparr>r_PID := 0\<rparr>]" "procs l2 = (procs l1)(NodeLabel ns := None)"
    using assms(13) e(1) by (auto simp: clearPID_def ClearProc_def)
  obtain q where q: "procs l2 (LabelFor (r_Index ns)) = Some q" "p_PID q = pidA"
    using p1 two(2) assms(1) by auto
  have "t3 = [(r_Index ns, pidB)]" "e3 \<noteq> None" "map r_PID n3 = [0]" "l3 = l2"
    using assms(14) assms(3,9,11) two(1) e(2) q all
    by (auto simp: startPhase_def vac Let_def LaunchAndRecord_def RecordProc_def split: if_splits)
  then show ?thesis using e two(2) q by (simp add: GetProc_def)
qed

end
