(* ===== verification/Launch_Demo.thy ===== *)
theory Launch_Demo
  imports Launch_Laws
begin

text \<open>
  The launch theorems at a small poa network, two producers and an endpoint, with a driver that hands out
  pids in order.
\<close>

definition demoRecord :: "int \<Rightarrow> string \<Rightarrow> Role \<Rightarrow> string list \<Rightarrow> Record" where
  "demoRecord i label role args =
     \<lparr>r_Index = i, r_Label = label, r_Role = role, r_SyncMode = '''', r_Server = '''', r_Host = '''', r_DataDir = '''',
      r_ConfigPath = '''', r_LogPath = '''',
      r_Endpoints = \<lparr>P2P = 0, Etcd = 0, EtcdClient = 0, HTTP = 0, WS = 0, Auth = 0, Metrics = 0\<rparr>,
      r_Binary = '''', r_Config = '''', r_Key = '''', r_Args = args, r_PID = 0\<rparr>"

definition demoTable :: "Record list" where
  "demoTable = [demoRecord 1 '''' ''bp'' [], demoRecord 2 '''' ''bp'' [], demoRecord 3 '''' ''en'' []]"

definition demoLaunchEnv :: "(nat, unit) launchEnv" where
  "demoLaunchEnv =
     \<lparr>v_scanPorts = (\<lambda>as x. (x, Inr [])), v_machineFor = (\<lambda>ns x. (x, Inr ())), v_argv = (\<lambda>nodes ns x. (x, Inr [])),
      v_launch = (\<lambda>m spec x. (Suc x, Inr (int x + 1))), v_binaries = Map.empty, v_Dir = ''''\<rparr>"

lemma demo_labels: "LabelFor 1 = ''node1''" "LabelFor 2 = ''node2''" "LabelFor 3 = ''node3''"
  by code_simp+

lemma demo_env [simp]:
  "v_scanPorts demoLaunchEnv as x = (x, Inr [])" "v_machineFor demoLaunchEnv ns x = (x, Inr ())"
  "v_argv demoLaunchEnv nodes ns x = (x, Inr [])" "v_launch demoLaunchEnv m spec x = (Suc x, Inr (int x + 1))"
  "v_binaries demoLaunchEnv = Map.empty"
  by (simp_all add: demoLaunchEnv_def)

lemma demo_node_record [simp]:
  "r_Index (demoRecord i label role args) = i" "r_Role (demoRecord i label role args) = role"
  "r_PID (demoRecord i label role args) = 0" "r_Args (demoRecord i label role args) = args"
  "NodeLabel (demoRecord i '''' role args) = LabelFor i"
  by (simp_all add: demoRecord_def NodeLabel_def)

lemma demo_holds:
  "in_step demoTable emptyLedger" "conventional demoTable" "live_pids demoLaunchEnv"
  "map r_Index demoTable = [1..int (length demoTable)]" "\<forall>ns \<in> set demoTable. r_PID ns \<le> 0"
proof -
  show "map r_Index demoTable = [1..int (length demoTable)]" by (simp add: demoTable_def upto.simps)
qed (simp_all add: in_step_def demoTable_def demo_labels emptyLedger_ok conventional_def live_pids_def,
     simp add: emptyLedger_def)

lemma demo_start:
  "startPhase (traced demoLaunchEnv) bin ph nodes l (x, t) =
     (case startLoop (traced demoLaunchEnv) bin ph [] nodes l (x, t) 0 of
        (nodes2, l2, x2, started, Some err) \<Rightarrow> (nodes2, l2, x2, started, Some err)
      | (nodes2, l2, x2, started, None) \<Rightarrow> (nodes2, l2, x2, started, checkUniformNetworkID nodes2))"
  by (simp add: startPhase_def checkVacant_def)

lemmas demo_run = startLoop.simps demo_start Let_def LaunchAndRecord_def RecordProc_def checkUniformNetworkID_def
  argvOf_def phaseHasNode_def emptyLedger_def demo_labels

theorem boot_node_is_one_node_witness:
  "(case Netmap demoTable of Inr m \<Rightarrow> map_option pl_index (bootPlacement m) = Some 2 | Inl e \<Rightarrow> False)
   \<and> ph_Nodes (hd (poa_BringUpPhases (map r_Role demoTable))) = [2]"
proof -
  have "\<exists>m. Netmap demoTable = Inr m \<and> map_option pl_index (bootPlacement m) = Some 2"
    by (simp add: Netmap_def demoTable_def NormalizeRole_def role_defs NewMap_def demo_labels portsOf_def demoRecord_def NodeLabel_def
        bootPlacement_def Placements_def Is_role_def)
  then obtain m p where m: "Netmap demoTable = Inr m" "bootPlacement m = Some p" "pl_index p = 2" by auto
  show ?thesis
    using boot_node_is_one_node [OF demo_holds(4) m(1), of Map.empty "''''" "''''" "''''"] m by simp
qed

lemma demo_phase:
  "\<exists>nodes' l x' starts started. startPhase (traced demoLaunchEnv) ''b'' allPhase demoTable (Some emptyLedger) (0, [])
     = (nodes', l, (x', starts), started, None) \<and> starts = [(1, 1), (2, 2), (3, 3)]"
  by (simp add: demo_run demoTable_def allPhase_def)

theorem no_start_is_lost_witness:
  "\<exists>nodes' l2 started. startPhase (traced demoLaunchEnv) ''b'' allPhase demoTable (Some emptyLedger) (0, [])
      = (nodes', Some l2, (3, [(1, 1), (2, 2), (3, 3)]), started, None)
     \<and> in_step nodes' l2 \<and> newly demoTable nodes' = [(1, 1), (2, 2), (3, 3)]
     \<and> map_option p_PID (GetProc l2 ''node2'') = Some 2 \<and> dueIn allPhase demoTable = [1, 2, 3]"
proof -
  obtain nodes' l x' starts started where
    r: "startPhase (traced demoLaunchEnv) ''b'' allPhase demoTable (Some emptyLedger) (0, []) = (nodes', l, (x', starts), started, None)"
    and s: "starts = [(1, 1), (2, 2), (3, 3)]" using demo_phase by blast
  have x: "x' = 3" using r by (simp add: demo_run demoTable_def allPhase_def)
  from no_start_is_lost [OF demo_holds(1-3) r] s obtain l2 where
    "l = Some l2" "in_step nodes' l2" "newly demoTable nodes' = starts" "map fst starts = dueIn allPhase demoTable"
    "\<exists>p. GetProc l2 (LabelFor 2) = Some p \<and> p_PID p = 2" by auto
  then show ?thesis using r s x by (auto simp: demo_labels)
qed

lemma demo_launch:
  "\<exists>nodes' l x' starts started.
     launchPhases (traced demoLaunchEnv) (tracedAct (\<lambda>ph nodes x. (x, None))) ''b'' (poa_BringUpPhases (map r_Role demoTable))
       demoTable (Some emptyLedger) (0, []) 0 = (nodes', l, (x', starts), started, None)"
proof -
  have "poa_BringUpPhases (map r_Role demoTable) = [bootPhase 2, joinPhase 1,
      \<lparr>ph_Name = ''endpoints'', ph_Nodes = [3], ph_Actions = [], ph_ActionsOn = 0\<rparr>]"
    by (simp add: poa_BringUpPhases_def demoTable_def Is_role_def NormalizeRole_def role_defs)
  then show ?thesis
    by (simp only: launchPhases.simps) (simp add: demo_run demoTable_def bootPhase_def joinPhase_def)
qed

theorem launch_starts_every_node_once_witness:
  "\<exists>nodes' l2 x' starts.
     launchPhases (traced demoLaunchEnv) (tracedAct (\<lambda>ph nodes x. (x, None))) ''b'' (poa_BringUpPhases (map r_Role demoTable))
       demoTable (Some emptyLedger) (0, []) 0 = (nodes', Some l2, (x', starts), 3, None)
     \<and> map fst starts = [2, 1, 3] \<and> (\<forall>ns \<in> set nodes'. r_PID ns > 0) \<and> in_step nodes' l2"
proof -
  obtain nodes' l x' starts started where r:
    "launchPhases (traced demoLaunchEnv) (tracedAct (\<lambda>ph nodes x. (x, None))) ''b'' (poa_BringUpPhases (map r_Role demoTable))
       demoTable (Some emptyLedger) (0, []) 0 = (nodes', l, (x', starts), started, None)" using demo_launch by blast
  have t: "started = int (length demoTable) \<and> (\<forall>ns \<in> set nodes'. r_PID ns > 0) \<and> (\<exists>l2. l = Some l2 \<and> in_step nodes' l2)
     \<and> (RoleBP \<in> set (map r_Role demoTable) \<longrightarrow> map fst starts = rev (map r_Index (filter (\<lambda>ns. r_Role ns = RoleBP) demoTable))
          @ map r_Index (filter (\<lambda>ns. r_Role ns \<noteq> RoleBP) demoTable))"
    using launch_starts_every_node_once [where phases = poa_BringUpPhases, OF demo_holds _ r] by simp
  then have o: "map fst starts = [2, 1, 3]" and k: "started = 3" by (simp_all add: demoTable_def role_defs)
  obtain l2 where l2: "l = Some l2" "in_step nodes' l2" using t by blast
  show ?thesis by (intro exI conjI, rule r [unfolded l2(1) k], rule o) (use t l2 in auto)
qed

theorem table_and_ledger_stay_in_step_witness:
  "\<exists>nodes' l'. foldl tableStep (reattach demoTable emptyLedger) [TLaunch 0 7 ''b'', TSwap 0 8 ''c'', TLaunch 1 9 ''b'', TClear 1] = (nodes', l')
     \<and> map r_PID nodes' = [8, 0, 0]
     \<and> (\<forall>ns \<in> set nodes'. case GetProc l' (NodeLabel ns) of Some p \<Rightarrow> r_PID ns = p_PID p \<and> p_PID p > 0 | None \<Rightarrow> r_PID ns \<le> 0)"
proof -
  obtain nodes' l' where r:
    "foldl tableStep (reattach demoTable emptyLedger) [TLaunch 0 7 ''b'', TSwap 0 8 ''c'', TLaunch 1 9 ''b'', TClear 1] = (nodes', l')"
    by fastforce
  have d: "distinct (map NodeLabel demoTable)" by (simp add: demoTable_def demo_labels)
  have "map r_PID nodes' = [8, 0, 0]"
    using r by (simp add: demoTable_def emptyLedger_def GetProc_def recordLaunch_def recordSwap_def clearPID_def ClearProc_def
        RecordProc_def Supersede_def Let_def demo_labels) auto
  moreover have "\<forall>ns \<in> set nodes'. case GetProc l' (NodeLabel ns) of Some p \<Rightarrow> r_PID ns = p_PID p \<and> p_PID p > 0 | None \<Rightarrow> r_PID ns \<le> 0"
    using table_and_ledger_stay_in_step [OF emptyLedger_ok d demo_holds(2) r] by blast
  ultimately show ?thesis by (intro exI [of _ nodes'] exI [of _ l'] conjI r)
qed

definition demoNamed :: Record where
  "demoNamed = demoRecord 1 ''alice'' ''bp'' [''--networkid'', ''7'']"

theorem renamed_node_is_lost_witness:
  "\<exists>n1 l1 t1 k1 n3 l3 x'' k3 e3.
     startPhase (traced demoLaunchEnv) ''b'' allPhase [demoNamed] (Some emptyLedger) (0, []) = (n1, Some l1, (1, t1), k1, None)
     \<and> startPhase (traced demoLaunchEnv) ''b'' allPhase (fst (clearPID 0 n1 l1)) (Some (snd (clearPID 0 n1 l1))) (1, [])
         = (n3, Some l3, (x'', [(1, 2)]), k3, Some e3)
     \<and> map r_PID n3 = [0] \<and> GetProc l3 ''alice'' = None \<and> map_option p_PID (GetProc l3 ''node1'') = Some 1"
proof -
  have u: "checkUniformNetworkID [demoNamed] = None"
  proof -
    have "argvOf [demoNamed] = [''alice'' \<mapsto> [''--networkid'', ''7'']]" "NodeLabel demoNamed = ''alice''"
      by (simp_all add: argvOf_def demoNamed_def NodeLabel_def demoRecord_def)
    moreover have "atoi ''7'' = Some 7" by code_simp
    ultimately show ?thesis
      by (simp add: checkUniformNetworkID_def ValidateUniformNetworkID_def flagNetworkID_def Mark_def)
  qed
  have nm: "NodeLabel demoNamed = ''alice''" "r_Index demoNamed = 1" "r_Args demoNamed \<noteq> []" "r_PID demoNamed \<le> 0"
    by (simp_all add: demoNamed_def NodeLabel_def demoRecord_def)
  have one: "\<exists>n1 l1 t1 k1 e1. startPhase (traced demoLaunchEnv) ''b'' allPhase [demoNamed] (Some emptyLedger) (0, [])
      = (n1, Some l1, (1, t1), k1, e1)"
    using nm by (simp add: demo_start LaunchAndRecord_def Let_def RecordProc_def emptyLedger_def phaseHasNode_def allPhase_def demo_labels)
  then obtain n1 l1 t1 k1 e1 where r1: "startPhase (traced demoLaunchEnv) ''b'' allPhase [demoNamed] (Some emptyLedger) (0, [])
      = (n1, Some l1, (1, t1), k1, e1)" by blast
  obtain n2 l2 where r2: "clearPID 0 n1 l1 = (n2, l2)" by fastforce
  obtain n3 l3' x'' t3 k3 e3 where r3': "startPhase (traced demoLaunchEnv) ''b'' allPhase n2 (Some l2) (1, []) = (n3, l3', (x'', t3), k3, e3)"
    by (metis prod.exhaust)
  have "l3' \<noteq> None" using startPhase_ledger [OF r3'] by simp
  then obtain l3 where r3: "startPhase (traced demoLaunchEnv) ''b'' allPhase n2 (Some l2) (1, []) = (n3, Some l3, (x'', t3), k3, e3)"
    using r3' by auto
  from renamed_node_is_lost [where ns = demoNamed and E = demoLaunchEnv and m = "()" and pidA = 1 and pidB = 2, OF _ nm(4,3) u _ _ _ _ _ _ _ r1 r2 r3] nm
  have "e1 = None \<and> t3 = [(1, 2)] \<and> e3 \<noteq> None \<and> map r_PID n3 = [0] \<and> GetProc l3 ''alice'' = None
      \<and> map_option p_PID (GetProc l3 ''node1'') = Some 1"
    by (simp add: demo_labels emptyLedger_def)
  then show ?thesis using r1 r2 r3 by auto
qed

end
