(* ===== verification/Key_Preset.thy ===== *)
theory Key_Preset
  imports Lifecycle_Status Go_Base
begin

text \<open>
  Key sets (\<open>internal/preset/key.go\<close>, the types of \<open>internal/core/keyring/preset.go\<close>): the identities a
  network runs as and the network decisions recorded beside them. The secret of an entry is read by no
  function here and left out; a raw JSON value is its text.
\<close>

record BLS =
  bls_PublicKey :: string
  bls_PoP :: string

record keyring_Entry =
  e_Label :: string
  e_Index :: int
  e_Address :: string
  e_PublicKey :: string
  e_BLS :: "BLS option"
  e_Account :: string

definition SealingAccount :: "keyring_Entry \<Rightarrow> string" where
  "SealingAccount e = (if e_Account e \<noteq> '''' then e_Account e else e_Address e)"

record Network =
  nw_Validators :: "string list"
  nw_BLSKeys :: "string list"
  nw_ExtraData :: string
  nw_Members :: "string list"
  nw_Alloc :: "string option"

record Key =
  k_Nodes :: "keyring_Entry list"
  k_Network :: Network
  k_Password :: string

definition Key_Node :: "Key \<Rightarrow> int \<Rightarrow> keyring_Entry option" where
  "Key_Node p index = find (\<lambda>n. e_Index n = index) (k_Nodes p)"

definition truncate :: "string list \<Rightarrow> int \<Rightarrow> string list" where
  "truncate s n = (if n \<ge> int (length s) then s else take (nat n) s)"

text \<open>The loop of \<open>NetworkFor\<close> over the identities it takes.\<close>

fun seatAll :: "Network \<Rightarrow> keyring_Entry list \<Rightarrow> Network" where
  "seatAll out [] = out"
| "seatAll out (e # es) =
     (let out1 = out\<lparr>nw_Validators := nw_Validators out @ [e_Address e]\<rparr>
      in seatAll (case e_BLS e of Some b \<Rightarrow> out1\<lparr>nw_BLSKeys := nw_BLSKeys out1 @ [bls_PublicKey b]\<rparr> | None \<Rightarrow> out1) es)"

definition NetworkFor :: "Key \<Rightarrow> int \<Rightarrow> Network" where
  "NetworkFor p n =
     (let out = k_Network p
      in if length (nw_Validators out) > 0 then
           (if n > 0 \<and> n < int (length (nw_Validators out))
            then out\<lparr>nw_Validators := truncate (nw_Validators out) n, nw_BLSKeys := truncate (nw_BLSKeys out) n, nw_ExtraData := ''''\<rparr>
            else out)
         else
           let limit = (if n > 0 \<and> n < int (length (k_Nodes p)) then nat n else length (k_Nodes p));
               seated = seatAll out (take limit (k_Nodes p))
           in if length (nw_Members seated) = 0 then seated\<lparr>nw_Members := nw_Validators seated\<rparr> else seated)"

text \<open>The loop of \<open>NetworkForNodes\<close>: the addresses and the BLS keys of the named nodes.\<close>

fun seatNodes :: "Key \<Rightarrow> int list \<Rightarrow> goErr + string list \<times> string list" where
  "seatNodes p [] = Inr ([], [])"
| "seatNodes p (idx # rest) =
     (case Key_Node p idx of
        None \<Rightarrow> Inl (Errorf (''keyring: the key set has no identity for node'' @ itoa idx) [])
      | Some e \<Rightarrow>
          (case seatNodes p rest of
             Inl err \<Rightarrow> Inl err
           | Inr (vals, bls) \<Rightarrow>
               Inr (e_Address e # vals, (case e_BLS e of Some b \<Rightarrow> bls_PublicKey b # bls | None \<Rightarrow> bls))))"

definition NetworkForNodes :: "Key \<Rightarrow> int list \<Rightarrow> goErr + Network" where
  "NetworkForNodes p indices =
     (case seatNodes p indices of
        Inl err \<Rightarrow> Inl err
      | Inr (vals, bls) \<Rightarrow>
          (let out = (k_Network p)\<lparr>nw_Validators := vals, nw_BLSKeys := bls, nw_Members := vals\<rparr>
           in Inr (if vals \<noteq> nw_Validators (k_Network p) then out\<lparr>nw_ExtraData := ''''\<rparr> else out)))"

section \<open>Who validates\<close>

lemma seatAll_validators: "nw_Validators (seatAll out es) = nw_Validators out @ map e_Address es"
  and seatAll_rest: "nw_Members (seatAll out es) = nw_Members out" "nw_ExtraData (seatAll out es) = nw_ExtraData out"
  by (induction es arbitrary: out) (simp_all add: Let_def split: option.splits)

definition taking :: "int \<Rightarrow> 'a list \<Rightarrow> 'a list" where
  "taking n xs = (if n > 0 \<and> n < int (length xs) then take (nat n) xs else xs)"

text \<open>The validators are the first of the recorded set, or the first identities when none is recorded.\<close>

lemma NetworkFor_validators:
  "nw_Validators (NetworkFor p n) =
     (if nw_Validators (k_Network p) \<noteq> [] then taking n (nw_Validators (k_Network p))
      else map e_Address (taking n (k_Nodes p)))"
  by (simp add: NetworkFor_def Let_def taking_def truncate_def seatAll_validators)

text \<open>The recorded extra data is kept with the set it was computed from.\<close>

lemma NetworkFor_extra:
  assumes "nw_Validators (k_Network p) \<noteq> []"
  shows "nw_ExtraData (NetworkFor p n) =
    (if nw_Validators (NetworkFor p n) = nw_Validators (k_Network p) then nw_ExtraData (k_Network p) else '''')"
proof -
  have "take (nat n) xs \<noteq> xs" if "0 < n" "n < int (length xs)" for xs :: "string list"
  proof -
    have "length (take (nat n) xs) < length xs" using that by simp
    then show ?thesis by (metis nat_neq_iff)
  qed
  then show ?thesis using assms by (auto simp: NetworkFor_def Let_def truncate_def)
qed

lemma seatNodes_all:
  "\<forall>i \<in> set idxs. Key_Node p i \<noteq> None \<Longrightarrow>
   seatNodes p idxs = Inr (map (\<lambda>i. e_Address (the (Key_Node p i))) idxs,
     concat (map (\<lambda>i. case e_BLS (the (Key_Node p i)) of Some b \<Rightarrow> [bls_PublicKey b] | None \<Rightarrow> []) idxs))"
  by (induction idxs) (auto split: option.splits)

lemma seatNodes_missing: "i \<in> set idxs \<Longrightarrow> Key_Node p i = None \<Longrightarrow> \<exists>e. seatNodes p idxs = Inl e"
  by (induction idxs) (auto split: option.splits sum.splits)

lemma NetworkForNodes_all:
  assumes "\<forall>i \<in> set idxs. Key_Node p i \<noteq> None"
  obtains nw where "NetworkForNodes p idxs = Inr nw" "nw_Validators nw = map (\<lambda>i. e_Address (the (Key_Node p i))) idxs"
    "nw_Members nw = nw_Validators nw"
    "nw_ExtraData nw = (if nw_Validators nw = nw_Validators (k_Network p) then nw_ExtraData (k_Network p) else '''')"
  using that seatNodes_all [OF assms] by (simp add: NetworkForNodes_def Let_def split: if_splits)

lemma NetworkForNodes_missing: "i \<in> set idxs \<Longrightarrow> Key_Node p i = None \<Longrightarrow> \<exists>e. NetworkForNodes p idxs = Inl e"
  using seatNodes_missing [of i idxs p] by (auto simp: NetworkForNodes_def)

end
