(* ===== verification/Poa_Config.thy ===== *)
theory Poa_Config
  imports Bring_Up Key_Preset
begin

text \<open>
  The governance config of a poa network: its shape and validation
  (\<open>internal/consensus/poa/wemixconfig.go\<close>), the default policy (\<open>defaults.go\<close>), and the config the
  genesis source assembles from a key set and a placement (\<open>genesis_source.go\<close>). Amounts are unbounded
  integers, as \<open>big.Int\<close>. \<open>strings.ToLower\<close> is given for ASCII text, which addresses are.
\<close>

section \<open>The config\<close>

record Env =
  BallotDurationMin :: int
  BallotDurationMax :: int
  StakingMin :: int
  StakingMax :: int
  MaxIdleBlockInterval :: int
  BlockCreationTime :: int
  BlockRewardAmount :: int
  MaxPriorityFeePerGas :: int
  RewardDistribution :: "int list"
  MaxBaseFee :: int
  BlockGasLimit :: int
  BaseFeeMaxChangeRate :: int
  GasTargetPercentage :: int

record Member =
  mb_Addr :: string
  mb_Stake :: int
  mb_Name :: string
  mb_ID :: string
  mb_IP :: string
  mb_Port :: int
  mb_Bootnode :: bool

record Account =
  ac_Addr :: string
  ac_Balance :: int

record Config =
  cf_ExtraData :: string
  cf_Staker :: string
  cf_Ecosystem :: string
  cf_Maintenance :: string
  cf_FeeCollector :: string
  cf_Env :: Env
  cf_Members :: "Member list"
  cf_Accounts :: "Account list"

definition DefaultEnv :: Env where
  "DefaultEnv =
     \<lparr>BallotDurationMin = 86400, BallotDurationMax = 604800, StakingMin = 1500000000000000000000000,
      StakingMax = 1500000000000000000000000000, MaxIdleBlockInterval = 5, BlockCreationTime = 1000,
      BlockRewardAmount = 1000000000000000000, MaxPriorityFeePerGas = 100000000000,
      RewardDistribution = [4000, 1000, 2500, 2500], MaxBaseFee = 50000000000000, BlockGasLimit = 105000000,
      BaseFeeMaxChangeRate = 55, GasTargetPercentage = 30\<rparr>"

definition DefaultAccountBalance :: int where
  "DefaultAccountBalance = 1000000000000000000000000000"

datatype configError =
    NoMembers
  | MemberIncomplete nat
  | MemberBadID nat nat
  | BootnodeCount nat
  | NoProducer
  | NoIdentity int

text \<open>The loop of \<open>Validate\<close> from member \<open>i\<close> on, with the bootnodes counted so far.\<close>

fun validateMembers :: "nat \<Rightarrow> nat \<Rightarrow> Member list \<Rightarrow> configError option" where
  "validateMembers i boots [] = (if boots \<noteq> 1 then Some (BootnodeCount boots) else None)"
| "validateMembers i boots (m # ms) =
     (if mb_Addr m = '''' \<or> mb_ID m = '''' \<or> mb_Port m = 0 then Some (MemberIncomplete i)
      else if length (mb_ID m) \<noteq> 2 + 128 then Some (MemberBadID i (length (mb_ID m)))
      else validateMembers (i + 1) (if mb_Bootnode m then boots + 1 else boots) ms)"

definition ValidateConfig :: "Config \<Rightarrow> configError option" where
  "ValidateConfig c = (if length (cf_Members c) = 0 then Some NoMembers else validateMembers 0 0 (cf_Members c))"

section \<open>Assembling it\<close>

definition lower_char :: "char \<Rightarrow> char" where
  "lower_char c = (if of_char c \<ge> (65 :: nat) \<and> of_char c \<le> (90 :: nat) then char_of (of_char c + 32 :: nat) else c)"

definition ToLower :: "string \<Rightarrow> string" where
  "ToLower s = map lower_char s"

text \<open>The loop that funds the validators, each address once whatever its spelling.\<close>

fun fundAll :: "string set \<Rightarrow> string list \<Rightarrow> Account list" where
  "fundAll seen [] = []"
| "fundAll seen (v # vs) =
     (if ToLower v \<in> seen then fundAll seen vs
      else \<lparr>ac_Addr = v, ac_Balance = DefaultAccountBalance\<rparr> # fundAll (insert (ToLower v) seen) vs)"

text \<open>The loop over the placement.\<close>

fun membersOf :: "Key \<Rightarrow> Env \<Rightarrow> int \<Rightarrow> Placement list \<Rightarrow> configError + Member list" where
  "membersOf keys env boot [] = Inr []"
| "membersOf keys env boot (p # ps) =
     (if \<not> Is_role (pl_role p) RoleBP then membersOf keys env boot ps
      else case Key_Node keys (pl_index p) of
        None \<Rightarrow> Inl (NoIdentity (pl_index p))
      | Some e \<Rightarrow>
          (case membersOf keys env boot ps of
             Inl err \<Rightarrow> Inl err
           | Inr ms \<Rightarrow>
               Inr (\<lparr>mb_Addr = SealingAccount e, mb_Stake = StakingMin env, mb_Name = pl_label p,
                     mb_ID = ''0x'' @ e_PublicKey e, mb_IP = pl_host p, mb_Port = P2P (pl_ports p),
                     mb_Bootnode = (pl_index p = boot)\<rparr> # ms)))"

text \<open>\<open>GenesisSource.config\<close>, with the policy (\<open>s.Env\<close>), the key set, the placement and the number of validators.\<close>

definition governanceConfig :: "Env option \<Rightarrow> Key \<Rightarrow> Map \<Rightarrow> int \<Rightarrow> configError + Config" where
  "governanceConfig senv keys nodes validators =
     (case bootPlacement nodes of
        None \<Rightarrow> Inl NoProducer
      | Some boot \<Rightarrow>
          (case Key_Node keys (pl_index boot) of
             None \<Rightarrow> Inl (NoIdentity (pl_index boot))
           | Some entry \<Rightarrow>
               (let env = (case senv of None \<Rightarrow> DefaultEnv | Some e \<Rightarrow> e);
                    net = NetworkFor keys validators;
                    bootAcct = SealingAccount entry;
                    accounts = \<lparr>ac_Addr = bootAcct, ac_Balance = DefaultAccountBalance\<rparr>
                      # fundAll {ToLower bootAcct} (nw_Validators net)
                in case membersOf keys env (pl_index boot) (Placements nodes) of
                     Inl err \<Rightarrow> Inl err
                   | Inr members \<Rightarrow>
                       Inr \<lparr>cf_ExtraData = ''chainbench'', cf_Staker = e_Address entry, cf_Ecosystem = e_Address entry,
                            cf_Maintenance = e_Address entry, cf_FeeCollector = e_Address entry, cf_Env = env,
                            cf_Members = members, cf_Accounts = accounts\<rparr>)))"

section \<open>What comes out\<close>

lemma fundAll_spec:
  "distinct (map (ToLower \<circ> ac_Addr) (fundAll seen vs))"
  "ToLower ` ac_Addr ` set (fundAll seen vs) = ToLower ` set vs - seen"
  "\<forall>a \<in> set (fundAll seen vs). ac_Addr a \<in> set vs \<and> ac_Balance a = DefaultAccountBalance"
proof (induction vs arbitrary: seen)
  case (Cons v vs)
  { case 1
    have "ToLower v \<notin> (ToLower \<circ> ac_Addr) ` set (fundAll (insert (ToLower v) seen) vs)"
      using Cons(2) [of "insert (ToLower v) seen"] by (auto simp: image_comp [symmetric])
    then show ?case using Cons(1) by simp }
  { case 2
    then show ?case using Cons(2) [of "insert (ToLower v) seen"] Cons(2) [of seen] by auto }
  { case 3
    then show ?case using Cons(3) [of "insert (ToLower v) seen"] Cons(3) [of seen] by auto }
qed simp_all

definition producersIn :: "Placement list \<Rightarrow> Placement list" where
  "producersIn ps = filter (\<lambda>p. pl_role p = RoleBP) ps"

definition memberFor :: "Key \<Rightarrow> Env \<Rightarrow> int \<Rightarrow> Placement \<Rightarrow> Member" where
  "memberFor keys env boot p =
     (let e = the (Key_Node keys (pl_index p))
      in \<lparr>mb_Addr = SealingAccount e, mb_Stake = StakingMin env, mb_Name = pl_label p, mb_ID = ''0x'' @ e_PublicKey e,
          mb_IP = pl_host p, mb_Port = P2P (pl_ports p), mb_Bootnode = (pl_index p = boot)\<rparr>)"

lemma membersOf_spec:
  "membersOf keys env boot ps =
     (case find (\<lambda>p. Key_Node keys (pl_index p) = None) (producersIn ps) of
        Some p \<Rightarrow> Inl (NoIdentity (pl_index p))
      | None \<Rightarrow> Inr (map (memberFor keys env boot) (producersIn ps)))"
  by (induction ps) (auto simp: producersIn_def memberFor_def split: option.splits)

lemma validateMembers_ok:
  "\<forall>m \<in> set ms. mb_Addr m \<noteq> '''' \<and> length (mb_ID m) = 130 \<and> mb_Port m \<noteq> 0 \<Longrightarrow>
   validateMembers i boots ms = (let k = boots + length (filter mb_Bootnode ms) in if k = 1 then None else Some (BootnodeCount k))"
  by (induction ms arbitrary: i boots) (auto simp: Let_def)

lemma one_index:
  assumes "distinct (map f xs)" "x \<in> set xs"
  shows "filter (\<lambda>y. f y = f x) xs = [x]"
  using assms by (induction xs) (auto simp: filter_empty_conv image_iff)

text \<open>The identity of a placed producer, complete enough to be a member.\<close>

definition usable_identity :: "Key \<Rightarrow> Placement \<Rightarrow> bool" where
  "usable_identity keys p \<longleftrightarrow>
     (\<exists>e. Key_Node keys (pl_index p) = Some e \<and> SealingAccount e \<noteq> '''' \<and> length (e_PublicKey e) = 128)
     \<and> P2P (pl_ports p) \<noteq> 0"

text \<open>
  Property C19. For nodes with numbers of their own and producers with complete identities, the governance
  config is assembled exactly when the placement has a producer, and it validates: its members are the producers in order, the one bootnode is the boot node, the account the
  boot node seals with is funded first, every validator is funded, and no address is funded twice, however
  it is spelled.
\<close>

theorem governance_config_is_valid:
  assumes "distinct (map pl_index (Placements m))"
    and "\<forall>p \<in> set (Placements m). pl_role p = RoleBP \<longrightarrow> usable_identity keys p"
  shows "case governanceConfig senv keys m n of
      Inl err \<Rightarrow> err = NoProducer \<and> bootPlacement m = None
    | Inr c \<Rightarrow> ValidateConfig c = None
        \<and> (\<exists>boot e. bootPlacement m = Some boot \<and> Key_Node keys (pl_index boot) = Some e
             \<and> map mb_Name (cf_Members c) = map pl_label (filter (\<lambda>p. pl_role p = RoleBP) (Placements m))
             \<and> map mb_Name (filter mb_Bootnode (cf_Members c)) = [pl_label boot]
             \<and> map mb_Addr (filter mb_Bootnode (cf_Members c)) = [ac_Addr (hd (cf_Accounts c))])
        \<and> distinct (map (ToLower \<circ> ac_Addr) (cf_Accounts c))
        \<and> ToLower ` set (nw_Validators (NetworkFor keys n)) \<subseteq> ToLower ` ac_Addr ` set (cf_Accounts c)"
proof (cases "bootPlacement m")
  case None
  then show ?thesis by (simp add: governanceConfig_def)
next
  case (Some boot)
  let ?ps = "producersIn (Placements m)" and ?env = "case senv of None \<Rightarrow> DefaultEnv | Some e \<Rightarrow> e"
  have boot: "boot \<in> set ?ps"
    using Some by (auto simp: bootPlacement_def bootPlacementIn_last lastOr_def producersIn_def split: if_splits
        intro: last_in_set [THEN subsetD [OF filter_is_subset]] dest: last_in_set)
  have use: "usable_identity keys p" if "p \<in> set ?ps" for p using that assms(2) by (auto simp: producersIn_def)
  obtain e where e: "Key_Node keys (pl_index boot) = Some e" "SealingAccount e \<noteq> ''''"
    using use [OF boot] by (auto simp: usable_identity_def)
  let ?ms = "map (memberFor keys ?env (pl_index boot)) ?ps"
  have "find (\<lambda>p. Key_Node keys (pl_index p) = None) ?ps = None"
    using use by (auto simp: find_None_iff usable_identity_def)
  then have ms: "membersOf keys ?env (pl_index boot) (Placements m) = Inr ?ms" by (simp add: membersOf_spec)
  let ?accts = "\<lparr>ac_Addr = SealingAccount e, ac_Balance = DefaultAccountBalance\<rparr>
      # fundAll {ToLower (SealingAccount e)} (nw_Validators (NetworkFor keys n))"
  let ?c = "\<lparr>cf_ExtraData = ''chainbench'', cf_Staker = e_Address e, cf_Ecosystem = e_Address e, cf_Maintenance = e_Address e,
      cf_FeeCollector = e_Address e, cf_Env = ?env, cf_Members = ?ms, cf_Accounts = ?accts\<rparr>"
  have c: "governanceConfig senv keys m n = Inr ?c" using Some e(1) ms by (simp add: governanceConfig_def Let_def)
  have "distinct (map pl_index ?ps)" using assms(1) by (simp add: producersIn_def distinct_map_filter)
  then have bn: "filter mb_Bootnode ?ms = [memberFor keys ?env (pl_index boot) boot]"
    using one_index [of pl_index ?ps boot] boot by (simp add: filter_map comp_def memberFor_def Let_def)
  have "mb_Addr x \<noteq> '''' \<and> length (mb_ID x) = 130 \<and> mb_Port x \<noteq> 0" if x: "x \<in> set ?ms" for x
  proof -
    obtain p where "p \<in> set ?ps" "x = memberFor keys ?env (pl_index boot) p" using x by auto
    then show ?thesis using use [of p] by (auto simp: usable_identity_def memberFor_def Let_def)
  qed
  then have v: "ValidateConfig ?c = None"
    using validateMembers_ok [of ?ms 0 0] bn boot by (auto simp: ValidateConfig_def)
  have names: "map mb_Name ?ms = map pl_label (filter (\<lambda>p. pl_role p = RoleBP) (Placements m))"
    by (simp add: producersIn_def memberFor_def Let_def)
  note f = fundAll_spec [of "{ToLower (SealingAccount e)}" "nw_Validators (NetworkFor keys n)"]
  have "distinct (map (ToLower \<circ> ac_Addr) ?accts)" using f(1,2) by (auto simp: image_comp [symmetric])
  moreover have "ToLower ` set (nw_Validators (NetworkFor keys n)) \<subseteq> ToLower ` ac_Addr ` set ?accts" using f(2) by auto
  ultimately show ?thesis using c v names bn Some e by (simp add: memberFor_def Let_def)
qed

section \<open>An instance\<close>

definition sampleProducer :: "int \<Rightarrow> string \<Rightarrow> Placement" where
  "sampleProducer i label =
     \<lparr>pl_index = i, pl_label = label, pl_role = ''bp'', pl_ord = i, pl_host = ''10.0.0.1'',
      pl_ports = \<lparr>P2P = 30300 + 10 * i, Etcd = 0, EtcdClient = 0, HTTP = 0, WS = 0, Auth = 0, Metrics = 0\<rparr>, pl_dataDir = ''''\<rparr>"

definition samplePoaMap :: Map where
  "samplePoaMap = \<lparr>byLabel = [''node1'' \<mapsto> sampleProducer 1 ''node1'', ''node2'' \<mapsto> sampleProducer 2 ''node2''],
     byAddr = Map.empty, order = [''node1'', ''node2'']\<rparr>"

definition sampleEntry :: "int \<Rightarrow> string \<Rightarrow> keyring_Entry" where
  "sampleEntry i addr =
     \<lparr>e_Label = '''', e_Index = i, e_Address = addr, e_PublicKey = replicate 128 (CHR ''a''), e_BLS = None, e_Account = ''''\<rparr>"

definition sampleKeys :: Key where
  "sampleKeys = \<lparr>k_Nodes = [sampleEntry 1 ''0xA1'', sampleEntry 2 ''0xB2''],
     k_Network = \<lparr>nw_Validators = [''0xa1'', ''0xb2'', ''0xA1''], nw_BLSKeys = [], nw_ExtraData = '''', nw_Members = [], nw_Alloc = None\<rparr>,
     k_Password = ''''\<rparr>"

theorem governance_config_is_valid_witness:
  "\<exists>c. governanceConfig None sampleKeys samplePoaMap 3 = Inr c \<and> ValidateConfig c = None
     \<and> map mb_Name (cf_Members c) = [''node1'', ''node2''] \<and> map mb_Name (filter mb_Bootnode (cf_Members c)) = [''node2'']
     \<and> map ac_Addr (cf_Accounts c) = [''0xB2'', ''0xa1'']"
proof -
  have ps: "Placements samplePoaMap = [sampleProducer 1 ''node1'', sampleProducer 2 ''node2'']"
    by (simp add: samplePoaMap_def Placements_def)
  have h: "distinct (map pl_index (Placements samplePoaMap))"
    "\<forall>p \<in> set (Placements samplePoaMap). pl_role p = RoleBP \<longrightarrow> usable_identity sampleKeys p"
    by (simp_all add: ps sampleProducer_def usable_identity_def sampleKeys_def Key_Node_def sampleEntry_def SealingAccount_def)
  have b: "bootPlacement samplePoaMap = Some (sampleProducer 2 ''node2'')"
    by (simp add: bootPlacement_def ps sampleProducer_def RoleBP_def Is_role_def NormalizeRole_def)
  have low: "ToLower ''0xA1'' = ''0xa1''" "ToLower ''0xB2'' = ''0xb2''" "ToLower ''0xa1'' = ''0xa1''" "ToLower ''0xb2'' = ''0xb2''"
    by code_simp+
  obtain c where c: "governanceConfig None sampleKeys samplePoaMap 3 = Inr c"
    using governance_config_is_valid [OF h, where senv = None and n = 3] b by (auto split: sum.splits)
  have "map ac_Addr (cf_Accounts c) = [''0xB2'', ''0xa1'']"
    using c b by (simp add: governanceConfig_def Let_def membersOf_spec ps low sampleKeys_def Key_Node_def sampleEntry_def
        SealingAccount_def sampleProducer_def NetworkFor_def split: sum.splits option.splits) auto
  then show ?thesis using governance_config_is_valid [OF h, where senv = None and n = 3] c b
    by (simp add: ps sampleProducer_def RoleBP_def)
qed

end
