(* ===== verification/Poa_Members.thy ===== *)
theory Poa_Members
  imports Lifecycle_Status Go_Base
begin

text \<open>
  Reading the producers of a running poa chain from its governance contract
  (\<open>internal/consensus/poa/validators.go\<close>). The RPC client is an argument: what \<open>admin_wemixInfo\<close> reports
  as the governance address, and \<open>eth_call\<close> for a contract and its data. Its answers are a trust boundary,
  so the count it claims is bounded before anything is sized from it. \<open>strings.TrimSpace\<close> is given for
  ASCII text; the error texts leave out the reply they quote.
\<close>

section \<open>Words\<close>

definition is_space :: "char \<Rightarrow> bool" where
  "is_space c \<longleftrightarrow> c \<in> {CHR 0x09, CHR 0x0A, CHR 0x0B, CHR 0x0C, CHR 0x0D, CHR '' ''}"

definition trim_space :: "string \<Rightarrow> string" where
  "trim_space s = rev (dropWhile is_space (rev (dropWhile is_space s)))"

definition isHexDigit :: "char \<Rightarrow> bool" where
  "isHexDigit c \<longleftrightarrow>
     (of_char (CHR ''0'') \<le> (of_char c :: nat) \<and> of_char c \<le> (of_char (CHR ''9'') :: nat)) \<or>
     (of_char (CHR ''a'') \<le> (of_char c :: nat) \<and> of_char c \<le> (of_char (CHR ''f'') :: nat)) \<or>
     (of_char (CHR ''A'') \<le> (of_char c :: nat) \<and> of_char c \<le> (of_char (CHR ''F'') :: nat))"

text \<open>\<open>big.Int.SetString\<close> in base 16, on digits.\<close>

definition hex_val :: "char \<Rightarrow> nat" where
  "hex_val c =
     (let n = of_char c
      in if n \<le> 57 then n - 48 else if n \<ge> 97 then n - 87 else n - 55)"

definition parse_hex :: "string \<Rightarrow> nat" where
  "parse_hex s = foldl (\<lambda>a c. 16 * a + hex_val c) 0 s"

definition hex_digit :: "nat \<Rightarrow> char" where
  "hex_digit n = ''0123456789abcdef'' ! n"

text \<open>\<open>%x\<close>, and \<open>%064x\<close> of a value that is not negative.\<close>

fun hex_digits :: "nat \<Rightarrow> string" where
  "hex_digits n = (if n < 16 then [hex_digit n] else hex_digits (n div 16) @ [hex_digit (n mod 16)])"

declare hex_digits.simps [simp del]

definition pad32 :: "int \<Rightarrow> string" where
  "pad32 i = replicate (64 - length (hex_digits (nat i))) (CHR ''0'') @ hex_digits (nat i)"

definition govGetMemberLength :: string where "govGetMemberLength = ''0xd965ea00''"
definition govGetMember :: string where "govGetMember = ''0xab3545e5''"
definition zeroAddr40 :: string where "zeroAddr40 = ''0000000000000000000000000000000000000000''"
definition maxGovMembers :: int where "maxGovMembers = 1000"

definition parseMemberCount :: "string \<Rightarrow> goErr + int" where
  "parseMemberCount raw =
     (let h = trim_prefix ''0x'' (trim_space raw);
          n = int (parse_hex h)
      in if h = '''' then Inl (Errorf (''reply carries no value'') [])
         else if length h > 64 then Inl (Errorf (''reply is longer than a uint256 word'') [])
         else if \<not> list_all isHexDigit h then Inl (Errorf (''reply is not a hex uint256'') [])
         else if \<not> (- (2 ^ 63) \<le> n \<and> n < 2 ^ 63) \<or> n > maxGovMembers
           then Inl (Errorf (''reply claims more than '' @ itoa maxGovMembers @ '' governance members'') [])
         else Inr n)"

definition lastAddress :: "string \<Rightarrow> string" where
  "lastAddress word =
     (let h = trim_prefix ''0x'' word
      in if length h < 40 then ''0x'' @ zeroAddr40 else ''0x'' @ drop (length h - 40) h)"

section \<open>The enumeration\<close>

text \<open>The client: the governance field of \<open>admin_wemixInfo\<close>, and \<open>eth_call\<close> on the latest block.\<close>

record 'x caller =
  c_wemixInfo :: "'x \<Rightarrow> 'x \<times> (goErr + string)"
  c_ethCall :: "string \<Rightarrow> string \<Rightarrow> 'x \<Rightarrow> 'x \<times> (goErr + string)"

definition governanceAddress :: "'x caller \<Rightarrow> 'x \<Rightarrow> 'x \<times> (goErr + string)" where
  "governanceAddress c x =
     (case c_wemixInfo c x of
        (x1, Inl err) \<Rightarrow> (x1, Inl (Errorf (''poa: admin_wemixInfo: '' @ errorText err) [err]))
      | (x1, Inr gov) \<Rightarrow>
          if gov = '''' \<or> gov = ''0x'' @ zeroAddr40
          then (x1, Inl (Errorf (''poa: governance is not deployed yet (admin_wemixInfo reports none)'') []))
          else (x1, Inr gov))"

function membersFrom :: "'x caller \<Rightarrow> string \<Rightarrow> int \<Rightarrow> int \<Rightarrow> 'x \<Rightarrow> 'x \<times> (goErr + string list)" where
  "membersFrom c gov count i x =
     (if i \<le> count then
        (case c_ethCall c gov (govGetMember @ pad32 i) x of
           (x1, Inl err) \<Rightarrow> (x1, Inl (Errorf (''poa: getMember('' @ itoa i @ ''): '' @ errorText err) [err]))
         | (x1, Inr res) \<Rightarrow>
             (let addr = lastAddress res
              in case membersFrom c gov count (i + 1) x1 of
                   (x2, Inl err) \<Rightarrow> (x2, Inl err)
                 | (x2, Inr out) \<Rightarrow> (x2, Inr (if addr = ''0x'' @ zeroAddr40 then out else addr # out))))
      else (x, Inr []))"
  by pat_completeness auto
termination by (relation "measure (\<lambda>(c, gov, count, i, x). nat (count + 1 - i))") auto

declare membersFrom.simps [simp del]

definition RuntimeValidators :: "'x caller \<Rightarrow> 'x \<Rightarrow> 'x \<times> (goErr + string list)" where
  "RuntimeValidators c x =
     (case governanceAddress c x of
        (x1, Inl err) \<Rightarrow> (x1, Inl err)
      | (x1, Inr gov) \<Rightarrow>
          (case c_ethCall c gov govGetMemberLength x1 of
             (x2, Inl err) \<Rightarrow> (x2, Inl (Errorf (''poa: getMemberLength: '' @ errorText err) [err]))
           | (x2, Inr lenHex) \<Rightarrow>
               (case parseMemberCount lenHex of
                  Inl err \<Rightarrow> (x2, Inl (Errorf (''poa: getMemberLength: '' @ errorText err) [err]))
                | Inr count \<Rightarrow> membersFrom c gov count 1 x2)))"

section \<open>A count is what it says\<close>

lemma hex_digit_ok [simp]: "n < 16 \<Longrightarrow> isHexDigit (hex_digit n)" "n < 16 \<Longrightarrow> hex_val (hex_digit n) = n"
  "n < 16 \<Longrightarrow> \<not> is_space (hex_digit n)"
proof -
  have v: "hex_val c = (let n = of_char c in if n \<le> 57 then n - 48 else if n \<ge> 97 then n - 87 else n - 55)" for c
    by (simp add: hex_val_def)
  have h: "list_all (\<lambda>c. isHexDigit c \<and> \<not> is_space c) ''0123456789abcdef''" by (simp add: isHexDigit_def is_space_def)
  have m: "map hex_val ''0123456789abcdef'' = [0, 1, 2, 3, 4, 5, 6, 7, 8, 9, 10, 11, 12, 13, 14, 15]"
    by (simp add: v Let_def)
  have u: "[0, 1, 2, 3, 4, 5, 6, 7, 8, 9, 10, 11, 12, 13, 14, 15] = [0..<16::nat]" by (simp add: upt_rec)
  assume n: "n < 16"
  then have len: "n < length ''0123456789abcdef''" by simp
  from h len show "isHexDigit (hex_digit n)" "\<not> is_space (hex_digit n)"
    unfolding list_all_length hex_digit_def by blast+
  show "hex_val (hex_digit n) = n"
    using arg_cong [OF m [unfolded u], of "\<lambda>xs. xs ! n"] n nth_map [OF len, of hex_val] unfolding hex_digit_def by simp
qed

lemma hex_val_0 [simp]: "hex_val (CHR ''0'') = 0"
  by (simp add: hex_val_def Let_def)

lemma hex_digits_ok: "list_all (\<lambda>c. isHexDigit c \<and> \<not> is_space c) (hex_digits n)" "hex_digits n \<noteq> []"
proof (induction n rule: hex_digits.induct)
  case (1 n)
  { case 1 show ?case using "1.IH"(1) by (subst hex_digits.simps) simp }
  { case 2 show ?case by (subst hex_digits.simps) simp }
qed

lemma foldl_hex: "foldl (\<lambda>a c. 16 * a + hex_val c) a t = a * 16 ^ length t + foldl (\<lambda>a c. 16 * a + hex_val c) 0 t"
proof (induction t arbitrary: a)
  case (Cons c t)
  have "foldl (\<lambda>a c. 16 * a + hex_val c) a (c # t) = (16 * a + hex_val c) * 16 ^ length t + foldl (\<lambda>a c. 16 * a + hex_val c) 0 t"
    unfolding foldl_Cons by (rule Cons)
  moreover have "foldl (\<lambda>a c. 16 * a + hex_val c) 0 (c # t) = hex_val c * 16 ^ length t + foldl (\<lambda>a c. 16 * a + hex_val c) 0 t"
    using Cons [of "16 * 0 + hex_val c"] unfolding foldl_Cons by simp
  ultimately show ?case by (simp add: algebra_simps)
qed simp

lemma parse_hex_append: "parse_hex (s @ t) = parse_hex s * 16 ^ length t + parse_hex t"
  unfolding parse_hex_def foldl_append by (rule foldl_hex)

lemma parse_hex_zeros: "parse_hex (replicate k (CHR ''0'') @ s) = parse_hex s"
proof -
  have "parse_hex (replicate k (CHR ''0'')) = 0" by (induction k) (simp_all add: parse_hex_def)
  then show ?thesis by (simp add: parse_hex_append)
qed

lemma parse_hex_digits: "parse_hex (hex_digits n) = n"
proof (induction n rule: hex_digits.induct)
  case (1 n)
  have "parse_hex [hex_digit k] = k" if "k < 16" for k using that by (simp add: parse_hex_def)
  then show ?case using "1.IH" by (subst hex_digits.simps) (simp add: parse_hex_append)
qed

lemma length_hex_digits: "n < 16 ^ k \<Longrightarrow> 0 < k \<Longrightarrow> length (hex_digits n) \<le> k"
proof (induction n arbitrary: k rule: hex_digits.induct)
  case (1 n)
  show ?case
  proof (cases "n < 16")
    case False
    then obtain j where k: "k = Suc j" "0 < j" using "1.prems" by (cases k; cases "k - 1") auto
    then have "length (hex_digits (n div 16)) \<le> j" using "1.IH" [OF False, of j] "1.prems" by (simp add: div_less_iff_less_mult mult.commute)
    then show ?thesis using k False by (subst hex_digits.simps) simp
  qed (use "1.prems" in \<open>subst hex_digits.simps; simp\<close>)
qed

lemma trim_space_id: "list_all (\<lambda>c. \<not> is_space c) s \<Longrightarrow> trim_space s = s"
proof -
  assume s: "list_all (\<lambda>c. \<not> is_space c) s"
  have "dropWhile is_space t = t" if "list_all (\<lambda>c. \<not> is_space c) t" for t
    using that by (cases t) auto
  from this [OF s] this [of "rev s"] s show ?thesis by (simp add: trim_space_def)
qed

lemma parse_count_pad:
  assumes "0 \<le> n" "n < 2 ^ 63"
  shows "parseMemberCount (''0x'' @ pad32 n) =
    (if n \<le> 1000 then Inr n else Inl (Errorf (''reply claims more than '' @ itoa maxGovMembers @ '' governance members'') []))"
proof -
  have "nat n < 2 ^ 63" using assms by (simp add: nat_less_iff)
  then have "nat n < 16 ^ 64" by (rule less_trans) simp
  then have len: "length (pad32 n) = 64" using length_hex_digits [of "nat n" 64] by (simp add: pad32_def)
  have ok: "list_all (\<lambda>c. isHexDigit c \<and> \<not> is_space c) (pad32 n)"
    using hex_digits_ok(1) [of "nat n"] by (auto simp: pad32_def list_all_iff isHexDigit_def is_space_def set_replicate_conv_if split: if_splits)
  then have "trim_space (''0x'' @ pad32 n) = ''0x'' @ pad32 n"
    by (intro trim_space_id) (simp add: list_all_iff is_space_def)
  moreover have "list_all isHexDigit (pad32 n)" using ok by (simp add: list_all_iff)
  moreover have "int (parse_hex (pad32 n)) = n" using assms(1) by (simp add: pad32_def parse_hex_zeros parse_hex_digits)
  moreover have "pad32 n \<noteq> ''''" using len by auto
  ultimately show ?thesis using assms len trim_prefix_append [of "''0x''" "pad32 n"]
    by (simp add: parseMemberCount_def maxGovMembers_def Let_def)
qed

lemma parse_count_bounds: "parseMemberCount raw = Inr n \<Longrightarrow> 0 \<le> n \<and> n \<le> 1000"
  by (auto simp: parseMemberCount_def Let_def maxGovMembers_def split: if_splits)

section \<open>The members are read, and no more\<close>

lemma lastAddress_word: "length a = 40 \<Longrightarrow> lastAddress (''0x'' @ replicate 24 (CHR ''0'') @ a) = ''0x'' @ a"
  using trim_prefix_append [of "''0x''" "replicate 24 (CHR ''0'') @ a"] by (simp add: lastAddress_def Let_def)

text \<open>A chain whose governance contract at \<open>gov\<close> has the members \<open>ms\<close>, each 40 hex digits, numbered from 1.\<close>

definition serves :: "'x caller \<Rightarrow> string \<Rightarrow> string list \<Rightarrow> bool" where
  "serves c gov ms \<longleftrightarrow>
     (\<forall>x. c_wemixInfo c x = (x, Inr gov)) \<and>
     (\<forall>x. c_ethCall c gov govGetMemberLength x = (x, Inr (''0x'' @ pad32 (int (length ms))))) \<and>
     (\<forall>k x. k < length ms \<longrightarrow>
        c_ethCall c gov (govGetMember @ pad32 (int k + 1)) x = (x, Inr (''0x'' @ replicate 24 (CHR ''0'') @ ms ! k))) \<and>
     (\<forall>a \<in> set ms. length a = 40)"

lemma membersFrom_serves:
  assumes "serves c gov ms" "k \<le> length ms"
  shows "membersFrom c gov (int (length ms)) (int k + 1) x
    = (x, Inr (map (\<lambda>a. ''0x'' @ a) (filter (\<lambda>a. a \<noteq> zeroAddr40) (drop k ms))))"
  using assms(2)
proof (induction "length ms - k" arbitrary: k)
  case 0
  then show ?case by (subst membersFrom.simps) simp
next
  case (Suc d)
  then have k: "k < length ms" by simp
  have IH: "membersFrom c gov (int (length ms)) (int k + 1 + 1) x
      = (x, Inr (map (\<lambda>a. ''0x'' @ a) (filter (\<lambda>a. a \<noteq> zeroAddr40) (drop (Suc k) ms))))"
    using Suc.hyps(1) [of "Suc k"] Suc.hyps(2) k by (simp add: add.commute)
  have call: "c_ethCall c gov (govGetMember @ pad32 (int k + 1)) x = (x, Inr (''0x'' @ replicate 24 (CHR ''0'') @ ms ! k))"
    using assms(1) k by (simp add: serves_def)
  have addr: "lastAddress (''0x'' @ replicate 24 (CHR ''0'') @ ms ! k) = ''0x'' @ ms ! k"
    using assms(1) k by (intro lastAddress_word) (simp add: serves_def)
  show ?case using k
    by (subst membersFrom.simps, simp only: call prod.case sum.case addr Let_def IH) (simp add: Cons_nth_drop_Suc [symmetric])
qed

text \<open>
  Property C20. The members of a governance contract are read exactly: all of them in the contract's order,
  less those that are the zero address, when it has at most a thousand; and a contract that claims more is
  refused.
\<close>

theorem governance_members_are_read:
  assumes "serves c gov ms" "gov \<noteq> ''''" "gov \<noteq> ''0x'' @ zeroAddr40" "length ms < 2 ^ 63"
  shows "if length ms \<le> 1000
    then RuntimeValidators c x = (x, Inr (map (\<lambda>a. ''0x'' @ a) (filter (\<lambda>a. a \<noteq> zeroAddr40) ms)))
    else \<exists>err. RuntimeValidators c x = (x, Inl err)"
proof -
  have g: "governanceAddress c x = (x, Inr gov)" using assms(1-3) by (simp add: governanceAddress_def serves_def)
  have l: "c_ethCall c gov govGetMemberLength x = (x, Inr (''0x'' @ pad32 (int (length ms))))"
    using assms(1) by (simp add: serves_def)
  have "int (length ms) < 2 ^ 63" using assms(4) by (metis of_nat_less_iff of_nat_numeral of_nat_power)
  then have p: "parseMemberCount (''0x'' @ pad32 (int (length ms)))
      = (if int (length ms) \<le> 1000 then Inr (int (length ms))
         else Inl (Errorf (''reply claims more than '' @ itoa maxGovMembers @ '' governance members'') []))"
    by (intro parse_count_pad) simp_all
  show ?thesis using membersFrom_serves [OF assms(1), of 0 x] by (simp add: RuntimeValidators_def g l p [simplified])
qed

text \<open>A client that counts the calls it makes.\<close>

definition counting :: "'x caller \<Rightarrow> ('x \<times> nat) caller" where
  "counting c = \<lparr>c_wemixInfo = (\<lambda>(x, n). case c_wemixInfo c x of (x', r) \<Rightarrow> ((x', Suc n), r)),
     c_ethCall = (\<lambda>to data (x, n). case c_ethCall c to data x of (x', r) \<Rightarrow> ((x', Suc n), r))\<rparr>"

lemma membersFrom_step:
  assumes "i \<le> count" "c_ethCall c gov (govGetMember @ pad32 i) x = (x1, r)"
  shows "fst (membersFrom c gov count i x) = (if isl r then x1 else fst (membersFrom c gov count (i + 1) x1))"
    "snd (membersFrom c gov count i x) = Inr out \<Longrightarrow>
      \<exists>out'. snd (membersFrom c gov count (i + 1) x1) = Inr out' \<and> length out \<le> Suc (length out')"
  by (subst membersFrom.simps, insert assms, simp split: sum.splits prod.splits add: Let_def)
    (subst (asm) membersFrom.simps, insert assms, auto split: sum.splits prod.splits if_splits simp: Let_def)

lemma membersFrom_length: "snd (membersFrom c gov count i x) = Inr out \<Longrightarrow> length out \<le> nat (count + 1 - i)"
proof (induction "nat (count + 1 - i)" arbitrary: i x out)
  case 0
  then show ?case by (subst (asm) membersFrom.simps) simp
next
  case (Suc d)
  then have i: "i \<le> count" "d = nat (count + 1 - (i + 1))" by simp_all
  obtain x1 r where r: "c_ethCall c gov (govGetMember @ pad32 i) x = (x1, r)" by fastforce
  obtain out' where "snd (membersFrom c gov count (i + 1) x1) = Inr out'" "length out \<le> Suc (length out')"
    using membersFrom_step(2) [OF i(1) r Suc.prems] by blast
  then show ?case using Suc.hyps(1) [OF i(2)] Suc.hyps(2) i(2) by fastforce
qed

lemma membersFrom_calls:
  "snd (fst (membersFrom (counting c) gov count i (x, n))) \<le> n + nat (count + 1 - i)"
proof (induction "nat (count + 1 - i)" arbitrary: i x n)
  case 0
  then show ?case by (subst membersFrom.simps) simp
next
  case (Suc d)
  then have i: "i \<le> count" "d = nat (count + 1 - (i + 1))" by simp_all
  obtain x1 r where r: "c_ethCall c gov (govGetMember @ pad32 i) x = (x1, r)" by fastforce
  have "snd (fst (membersFrom (counting c) gov count (i + 1) (x1, Suc n))) \<le> Suc n + d"
    using Suc.hyps(1) [OF i(2), of x1 "Suc n"] i(2) by simp
  moreover have call: "c_ethCall (counting c) gov (govGetMember @ pad32 i) (x, n) = ((x1, Suc n), r)"
    using r by (simp add: counting_def)
  ultimately show ?case using membersFrom_step(1) [OF i(1) call] i(2) Suc.hyps(2) by (cases "isl r") simp_all
qed

text \<open>
  Property C21. Whatever a node answers, reading its members ends after at most 1002 calls and with at most
  1000 addresses.
\<close>

theorem member_enumeration_is_bounded:
  "snd (fst (RuntimeValidators (counting c) (x, 0))) \<le> 1002
   \<and> (case snd (RuntimeValidators (counting c) (x, 0)) of Inr out \<Rightarrow> length out \<le> 1000 | Inl err \<Rightarrow> True)"
proof -
  obtain x1 n1 g where g: "governanceAddress (counting c) (x, 0) = ((x1, n1), g)" by (metis prod.exhaust)
  have n1: "n1 \<le> 1" using g by (auto simp: governanceAddress_def counting_def split: prod.splits sum.splits if_splits)
  show ?thesis
  proof (cases g)
    case (Inl e)
    then show ?thesis using g n1 by (simp add: RuntimeValidators_def)
  next
    case (Inr gov)
    obtain x2 r where r: "c_ethCall c gov govGetMemberLength x1 = (x2, r)" by fastforce
    then have r': "c_ethCall (counting c) gov govGetMemberLength (x1, n1) = ((x2, Suc n1), r)" by (simp add: counting_def)
    show ?thesis
    proof (cases "\<exists>count lenHex. r = Inr lenHex \<and> parseMemberCount lenHex = Inr count")
      case True
      then obtain count lenHex where "r = Inr lenHex" and c: "parseMemberCount lenHex = Inr count" by blast
      moreover have "0 \<le> count" "count \<le> 1000" using parse_count_bounds [OF c] by simp_all
      ultimately show ?thesis using g Inr r' n1 membersFrom_calls [of c gov count 1 x2 "Suc n1"] membersFrom_length [of "counting c" gov count 1 "(x2, Suc n1)"]
        by (auto simp: RuntimeValidators_def split: sum.splits)
    next
      case False
      then show ?thesis using g Inr r' n1 by (cases r) (auto simp: RuntimeValidators_def split: sum.splits)
    qed
  qed
qed

section \<open>An instance\<close>

definition sampleCaller :: "string list \<Rightarrow> unit caller" where
  "sampleCaller ms =
     \<lparr>c_wemixInfo = (\<lambda>x. (x, Inr ''0xgov'')),
      c_ethCall = (\<lambda>to data x. (x,
        if data = govGetMemberLength then Inr (''0x'' @ pad32 (int (length ms)))
        else case find (\<lambda>(k, a). data = govGetMember @ pad32 (int k + 1)) (zip [0..<length ms] ms) of
               Some (k, a) \<Rightarrow> Inr (''0x'' @ replicate 24 (CHR ''0'') @ a) | None \<Rightarrow> Inl (Errorf ''no member'' [])))\<rparr>"

theorem governance_members_are_read_witness:
  "RuntimeValidators (sampleCaller [replicate 40 (CHR ''a''), zeroAddr40]) ()
     = ((), Inr [''0x'' @ replicate 40 (CHR ''a'')])"
proof -
  let ?ms = "[replicate 40 (CHR ''a''), zeroAddr40]"
  have "pad32 1 \<noteq> pad32 2" by (simp add: pad32_def hex_digits.simps hex_digit_def)
  then have "serves (sampleCaller ?ms) ''0xgov'' ?ms"
    by (auto simp: serves_def sampleCaller_def govGetMember_def govGetMemberLength_def zeroAddr40_def less_Suc_eq)
  from governance_members_are_read [OF this, of "()"] show ?thesis
    by (simp add: zeroAddr40_def) (simp add: numeral_eq_Suc)
qed

end
