(* ===== verification/Poa_Bootstrap.thy ===== *)
theory Poa_Bootstrap
  imports Bring_Up Poa_Members Go_Loop
begin

text \<open>
  The bring-up actions of a poa network (\<open>internal/consensus/poa/executor.go\<close>, \<open>bootstrap_exec.go\<close>,
  \<open>info.go\<close>) and the cancellable pause between attempts (\<open>internal/core/wait\<close>). The world \<open>'w\<close> is
  everything outside: the clock, the context, the machines. A runner and a file store act on it; the
  operating system, the timer and \<open>encoding/json\<close> are an argument. Every wait is a loop with no bound of its
  own, so its value is an option. Durations are nanoseconds. \<open>%q\<close> is given for names without characters to
  escape, which labels are; the texts of the time-outs leave the duration out.
\<close>

section \<open>What the actions run on\<close>

type_synonym 'w Runner = "string \<Rightarrow> string list \<Rightarrow> 'w \<Rightarrow> 'w \<times> string \<times> goErr option"
type_synonym 'w store = "string \<Rightarrow> 'w \<Rightarrow> 'w \<times> (goErr + bool)"

record Info =
  in_Governance :: string
  in_Registry :: string
  in_Staking :: string
  in_Miners :: string
  in_Cluster :: string
  in_SelfName :: string
  in_SelfAddr :: string
  in_SelfMiner :: bool

text \<open>
  \<open>o_timer d\<close> waits for the first of a timer of \<open>d\<close> and the end of the context and says whether it was the
  timer; \<open>o_socket\<close> is \<open>os.Stat\<close> finding a socket, \<open>o_stat\<close> finding anything; \<open>o_readDir\<close> lists names and
  whether each is a directory.
\<close>

record 'w os =
  o_now :: "'w \<Rightarrow> int"
  o_ctxErr :: "'w \<Rightarrow> goErr option"
  o_timer :: "int \<Rightarrow> 'w \<Rightarrow> 'w \<times> bool"
  o_socket :: "string \<Rightarrow> 'w \<Rightarrow> 'w \<times> bool"
  o_stat :: "string \<Rightarrow> 'w \<Rightarrow> 'w \<times> (goErr + bool)"
  o_readDir :: "string \<Rightarrow> 'w \<Rightarrow> 'w \<times> (goErr + (string \<times> bool) list)"
  o_exec :: "'w Runner"
  o_unquote :: "string \<Rightarrow> string option"
  o_parseInfo :: "string \<Rightarrow> goErr + Info"

definition Sleep :: "'w os \<Rightarrow> int \<Rightarrow> 'w \<Rightarrow> 'w \<times> goErr option" where
  "Sleep os d w =
     (case o_ctxErr os w of
        Some err \<Rightarrow> (w, Some err)
      | None \<Rightarrow>
          if d \<le> 0 then (w, None)
          else case o_timer os d w of
            (w1, True) \<Rightarrow> (w1, None)
          | (w1, False) \<Rightarrow> (w1, o_ctxErr os w1))"

section \<open>Polling\<close>

text \<open>
  The shape all the waits have: look, leave with what the look says, give up once the deadline has passed,
  and pause. A look leaves with a result or goes on; \<open>'l\<close> is what the loop remembers.
\<close>

definition pollIter ::
  "'w os \<Rightarrow> int \<Rightarrow> int \<Rightarrow> ('w \<times> 'l \<Rightarrow> ('w \<times> 'l) \<times> goErr option option) \<Rightarrow> ('l \<Rightarrow> goErr) \<Rightarrow> 'w \<times> 'l
     \<Rightarrow> ('w \<times> 'l) \<times> goErr option option"
where
  "pollIter os d deadline look late s =
     (case look s of
        (s1, Some r) \<Rightarrow> (s1, Some r)
      | (s1, None) \<Rightarrow>
          if o_now os (fst s1) > deadline then (s1, Some (Some (late (snd s1))))
          else case Sleep os d (fst s1) of
            (w2, Some err) \<Rightarrow> ((w2, snd s1), Some (Some err))
          | (w2, None) \<Rightarrow> ((w2, snd s1), None))"

definition poll ::
  "'w os \<Rightarrow> int \<Rightarrow> int \<Rightarrow> ('w \<times> 'l \<Rightarrow> ('w \<times> 'l) \<times> goErr option option) \<Rightarrow> ('l \<Rightarrow> goErr) \<Rightarrow> 'l \<Rightarrow> 'w
     \<Rightarrow> (goErr option \<times> 'w) option"
where
  "poll os d timeout look late init w =
     (case go_loop (pollIter os d (o_now os w + timeout) look late) (w, init) of
        None \<Rightarrow> None | Some (r, s) \<Rightarrow> Some (r, fst s))"

definition millisecond :: int where "millisecond = 1000000"
definition second :: int where "second = 1000 * millisecond"

definition ipcWait :: int where "ipcWait = 30 * second"
definition producingWait :: int where "producingWait = 60 * second"
definition selfWait :: int where "selfWait = 60 * second"
definition etcdJoinWait :: int where "etcdJoinWait = 90 * second"
definition memberWait :: int where "memberWait = 120 * second"
definition etcdFormWait :: int where "etcdFormWait = 150 * second"

section \<open>Text (Go's strings)\<close>

fun contains :: "string \<Rightarrow> string \<Rightarrow> bool" where
  "contains sub [] = (sub = [])"
| "contains sub (c # s) = (take (length sub) (c # s) = sub \<or> contains sub s)"

definition quote :: "string \<Rightarrow> string" where
  "quote s = CHR 0x22 # s @ [CHR 0x22]"

definition trim_quotes :: "string \<Rightarrow> string" where
  "trim_quotes s = rev (dropWhile (\<lambda>c. c = CHR 0x22) (rev (dropWhile (\<lambda>c. c = CHR 0x22) s)))"

definition saysError :: "string \<Rightarrow> bool" where
  "saysError s = (contains ''Error'' s \<or> contains ''error'' s)"

section \<open>Waiting for a socket\<close>

definition socketText :: "string \<Rightarrow> goErr" where
  "socketText ipc = Errorf (''poa: the node's IPC socket never appeared at '' @ ipc) []"

definition WaitForIPC :: "'w os \<Rightarrow> string \<Rightarrow> int \<Rightarrow> 'w \<Rightarrow> (goErr option \<times> 'w) option" where
  "WaitForIPC os path timeout w =
     poll os (250 * millisecond) timeout
       (\<lambda>(w, u). case o_socket os path w of (w1, found) \<Rightarrow> ((w1, u), if found then Some None else None))
       (\<lambda>u. socketText path) () w"

definition WaitForIPCOn :: "'w os \<Rightarrow> 'w store option \<Rightarrow> string \<Rightarrow> int \<Rightarrow> 'w \<Rightarrow> (goErr option \<times> 'w) option" where
  "WaitForIPCOn os files ipc timeout w =
     (case files of
        None \<Rightarrow> WaitForIPC os ipc timeout w
      | Some exists \<Rightarrow>
          poll os (250 * millisecond) timeout
            (\<lambda>(w, u). case exists ipc w of
               (w1, Inl err) \<Rightarrow> ((w1, u), Some (Some err))
             | (w1, Inr found) \<Rightarrow> ((w1, u), if found then Some None else None))
            (\<lambda>u. socketText ipc) () w)"

definition pathExists :: "'w os \<Rightarrow> 'w store option \<Rightarrow> string \<Rightarrow> 'w \<Rightarrow> 'w \<times> (goErr + bool)" where
  "pathExists os files p w = (case files of Some exists \<Rightarrow> exists p w | None \<Rightarrow> o_stat os p w)"

section \<open>The commands (bootstrap_exec.go, info.go)\<close>

definition GenerateGenesis :: "'w Runner \<Rightarrow> string \<Rightarrow> string \<Rightarrow> string \<Rightarrow> string \<Rightarrow> 'w \<Rightarrow> goErr option \<times> 'w" where
  "GenerateGenesis r binary configPath templatePath outPath w =
     (case r binary [''wemix'', ''genesis'', ''--data'', configPath, ''--genesis'', templatePath, ''--out'', outPath] w of
        (w1, out, Some err) \<Rightarrow> (Some (Errorf (''poa: wemix genesis: '' @ errorText err @ '': '' @ out) [err]), w1)
      | (w1, out, None) \<Rightarrow> (None, w1))"

definition DeployGovernance ::
  "'w Runner \<Rightarrow> string \<Rightarrow> string \<Rightarrow> string \<Rightarrow> string \<Rightarrow> string \<Rightarrow> 'w \<Rightarrow> goErr option \<times> 'w"
where
  "DeployGovernance r binary ipc configPath keystorePath passwordPath w =
     (case r binary [''wemix'', ''deploy-governance'', ''--url'', ipc, ''--password'', passwordPath, configPath, keystorePath] w of
        (w1, out, Some err) \<Rightarrow> (Some (Errorf (''poa: deploy-governance: '' @ errorText err @ '': '' @ out) [err]), w1)
      | (w1, out, None) \<Rightarrow> (None, w1))"

definition attach :: "string \<Rightarrow> string \<Rightarrow> string list" where
  "attach ipc expr = [''attach'', ipc, ''--exec'', expr]"

definition EtcdInit :: "'w Runner \<Rightarrow> string \<Rightarrow> string \<Rightarrow> 'w \<Rightarrow> goErr option \<times> 'w" where
  "EtcdInit r binary ipc w =
     (case r binary (attach ipc ''admin.etcdInit()'') w of
        (w1, out, Some err) \<Rightarrow> (Some (Errorf (''poa: etcdInit: '' @ errorText err @ '': '' @ out) [err]), w1)
      | (w1, out, None) \<Rightarrow>
          if saysError (trim_space out) then (Some (Errorf (''poa: etcdInit: '' @ trim_space out) []), w1) else (None, w1))"

definition ReadInfo :: "'w os \<Rightarrow> 'w Runner \<Rightarrow> string \<Rightarrow> string \<Rightarrow> 'w \<Rightarrow> 'w \<times> (goErr + Info)" where
  "ReadInfo os r binary ipc w =
     (case r binary (attach ipc ''JSON.stringify(admin.wemixInfo)'') w of
        (w1, out, Some err) \<Rightarrow> (w1, Inl (Errorf (''poa: read wemixInfo: '' @ errorText err @ '': '' @ out) [err]))
      | (w1, out, None) \<Rightarrow>
          (case o_unquote os (trim_space out) of
             None \<Rightarrow> (w1, Inl (Errorf (''poa: wemixInfo is not a JSON string: '' @ trim_space out) []))
           | Some unquoted \<Rightarrow>
               (case o_parseInfo os unquoted of
                  Inl err \<Rightarrow> (w1, Inl (Errorf (''poa: parse wemixInfo: '' @ errorText err) [err]))
                | Inr info \<Rightarrow> (w1, Inr info))))"

definition Bootstrapped :: "Info \<Rightarrow> bool" where
  "Bootstrapped i \<longleftrightarrow> in_Governance i \<noteq> '''' \<and> trim_space (in_Cluster i) \<noteq> ''''"

definition WaitSelf :: "'w os \<Rightarrow> 'w Runner \<Rightarrow> string \<Rightarrow> string \<Rightarrow> int \<Rightarrow> 'w \<Rightarrow> (goErr option \<times> 'w) option" where
  "WaitSelf os r binary ipc timeout w =
     poll os second timeout
       (\<lambda>(w, prev). case ReadInfo os r binary ipc w of
          (w1, Inl err) \<Rightarrow> ((w1, prev), None)
        | (w1, Inr info) \<Rightarrow> ((w1, in_SelfName info), if trim_space (in_SelfName info) \<noteq> '''' then Some None else None))
       (\<lambda>prev. Errorf (''poa: the node did not recognise itself in the governance member list (self.name='' @ quote prev @ '')'') [])
       '''' w"

definition etcdClusterReady :: "'w Runner \<Rightarrow> string \<Rightarrow> string \<Rightarrow> 'w \<Rightarrow> 'w \<times> (goErr + bool)" where
  "etcdClusterReady r binary ipc w =
     (case r binary (attach ipc ''admin.wemixInfo.etcd.cluster'') w of
        (w1, out, Some err) \<Rightarrow> (w1, Inl err)
      | (w1, out, None) \<Rightarrow>
          (w1, Inr (\<not> (let s = trim_quotes (trim_space out) in s = '''' \<or> s = ''null'' \<or> s = ''undefined'' \<or> s = ''<nil>''))))"

definition VerifyEtcd :: "'w os \<Rightarrow> 'w Runner \<Rightarrow> string \<Rightarrow> string \<Rightarrow> int \<Rightarrow> 'w \<Rightarrow> (goErr option \<times> 'w) option" where
  "VerifyEtcd os r binary ipc timeout w =
     poll os second timeout
       (\<lambda>(w, u). case etcdClusterReady r binary ipc w of
          (w1, Inl err) \<Rightarrow> ((w1, u), None)
        | (w1, Inr ready) \<Rightarrow> ((w1, u), if ready then Some None else None))
       (\<lambda>u. Errorf (''poa: verify etcd: the cluster is still empty after init'') []) () w"

definition WaitProducing :: "'w os \<Rightarrow> 'w Runner \<Rightarrow> string \<Rightarrow> string \<Rightarrow> int \<Rightarrow> 'w \<Rightarrow> (goErr option \<times> 'w) option" where
  "WaitProducing os r binary ipc timeout w =
     poll os second timeout
       (\<lambda>(w, prev). case r binary (attach ipc ''eth.blockNumber'') w of
          (w1, out, Some err) \<Rightarrow> ((w1, prev), None)
        | (w1, out, None) \<Rightarrow>
            ((w1, trim_space out),
             case atoi (trim_space out) of Some n \<Rightarrow> if n > 0 then Some None else None | None \<Rightarrow> None))
       (\<lambda>prev. Errorf (''poa: the node produced no block (eth.blockNumber = '' @ quote prev @ '')'') []) '''' w"

definition EtcdJoin :: "'w Runner \<Rightarrow> string \<Rightarrow> string \<Rightarrow> string \<Rightarrow> 'w \<Rightarrow> goErr option \<times> 'w" where
  "EtcdJoin r binary ipc peer w =
     (case r binary (attach ipc (''admin.etcdJoin('' @ quote peer @ '')'')) w of
        (w1, out, Some err) \<Rightarrow> (Some (Errorf (''poa: etcdJoin('' @ peer @ ''): '' @ errorText err @ '': '' @ out) [err]), w1)
      | (w1, out, None) \<Rightarrow>
          if saysError (trim_space out) then (Some (Errorf (''poa: etcdJoin('' @ peer @ ''): '' @ trim_space out) []), w1)
          else (None, w1))"

definition WaitForMember ::
  "'w os \<Rightarrow> 'w Runner \<Rightarrow> string \<Rightarrow> string \<Rightarrow> string \<Rightarrow> int \<Rightarrow> 'w \<Rightarrow> (goErr option \<times> 'w) option"
where
  "WaitForMember os r binary ipc name timeout w =
     poll os second timeout
       (\<lambda>(w, u). case r binary (attach ipc ''JSON.stringify(admin.wemixInfo.nodes)'') w of
          (w1, out, Some err) \<Rightarrow> ((w1, u), None)
        | (w1, out, None) \<Rightarrow>
            ((w1, u),
             if contains (quote ''name'' @ '':'' @ quote name) (filter (\<lambda>c. c \<noteq> CHR 0x5C) out) then Some None else None))
       (\<lambda>u. Errorf (''poa: '' @ name @ '' never appeared in this node's governance member list'') []) () w"

definition EtcdCluster :: "'w Runner \<Rightarrow> string \<Rightarrow> string \<Rightarrow> 'w \<Rightarrow> 'w \<times> (goErr + string)" where
  "EtcdCluster r binary ipc w =
     (case r binary (attach ipc ''admin.wemixInfo.etcd.cluster'') w of
        (w1, out, Some err) \<Rightarrow> (w1, Inl (Errorf (''poa: read etcd cluster: '' @ errorText err @ '': '' @ out) [err]))
      | (w1, out, None) \<Rightarrow>
          (let got = trim_quotes (trim_space out)
           in (w1, Inr (if got = ''null'' \<or> got = ''undefined'' \<or> got = ''<nil>'' then '''' else got))))"

definition ClusterNames :: "string \<Rightarrow> string \<Rightarrow> bool" where
  "ClusterNames cluster mem = contains (mem @ ''='') cluster"

section \<open>The executor (executor.go)\<close>

record 'w Bootstrap =
  b_Binary :: string
  b_KeysDir :: string
  b_ConfigName :: string
  b_Run :: "'w Runner option"
  b_Files :: "'w store option"
  b_Access :: "(int \<Rightarrow> 'w \<Rightarrow> 'w \<times> (goErr + 'w Runner \<times> 'w store option)) option"
  b_Password :: string
  b_BootKeystore :: string

definition resolve :: "'w os \<Rightarrow> 'w Bootstrap \<Rightarrow> int \<Rightarrow> 'w \<Rightarrow> 'w \<times> (goErr + 'w Runner \<times> 'w store option)" where
  "resolve os b index w =
     (case b_Access b of
        Some access \<Rightarrow> access index w
      | None \<Rightarrow> (w, Inr ((case b_Run b of None \<Rightarrow> o_exec os | Some run \<Rightarrow> run), b_Files b)))"

definition ipcPath :: "NodeSpec \<Rightarrow> string \<Rightarrow> string" where
  "ipcPath spec binary = JoinPath [sp_dataDir spec, BasePath binary @ ''.ipc'']"

definition ConfigFileName :: string where "ConfigFileName = ''wemix-config.json''"

text \<open>\<open>path.Dir\<close>.\<close>

definition DirPath :: "string \<Rightarrow> string" where
  "DirPath p = Clean (rev (dropWhile (\<lambda>c. c \<noteq> CHR ''/'') (rev p)))"

definition bootKeystore :: "'w os \<Rightarrow> string \<Rightarrow> int \<Rightarrow> 'w \<Rightarrow> 'w \<times> (goErr + string)" where
  "bootKeystore os keysDir index w =
     (let dir = JoinPath [keysDir, ''node'' @ itoa index, ''keystore'']
      in case o_readDir os dir w of
           (w1, Inl err) \<Rightarrow> (w1, Inl (Errorf (''keystore for node'' @ itoa index @ '': '' @ errorText err) [err]))
         | (w1, Inr ents) \<Rightarrow>
             (case find (\<lambda>(name, isDir). \<not> isDir) ents of
                Some (name, isDir) \<Rightarrow> (w1, Inr (JoinPath [dir, name]))
              | None \<Rightarrow> (w1, Inl (Errorf (''keystore for node'' @ itoa index @ '' is empty ('' @ dir @ '')'') []))))"

text \<open>Go on after a step that returned no error; wrap and return the error otherwise.\<close>

definition onOk ::
  "(goErr option \<times> 'w) option \<Rightarrow> (goErr \<Rightarrow> goErr) \<Rightarrow> ('w \<Rightarrow> (goErr option \<times> 'w) option) \<Rightarrow> (goErr option \<times> 'w) option"
where
  "onOk m wrap k =
     (case m of None \<Rightarrow> None | Some (Some err, w) \<Rightarrow> Some (Some (wrap err), w) | Some (None, w) \<Rightarrow> k w)"

text \<open>The loop of \<open>joinOne\<close> remembers the last refusal and the cluster it read last.\<close>

definition joinLook ::
  "'w Runner \<Rightarrow> 'w Runner \<Rightarrow> string \<Rightarrow> string \<Rightarrow> string \<Rightarrow> string \<Rightarrow> string \<Rightarrow> 'w \<times> goErr option \<times> string
     \<Rightarrow> ('w \<times> goErr option \<times> string) \<times> goErr option option"
where
  "joinLook joinerRun bootRun binary joinerIPC bootIPC peer name s =
     (case s of (w, prev, seen) \<Rightarrow>
        case EtcdJoin joinerRun binary joinerIPC peer w of (err, w1) \<Rightarrow>
          let prev1 = (case err of Some e \<Rightarrow> Some e | None \<Rightarrow> prev)
          in case EtcdCluster bootRun binary bootIPC w1 of
               (w2, Inl e) \<Rightarrow> ((w2, prev1, ''''), None)
             | (w2, Inr cluster) \<Rightarrow>
                 ((w2, prev1, cluster), if ClusterNames cluster name then Some None else None))"

definition joinOne ::
  "'w os \<Rightarrow> 'w Runner \<Rightarrow> 'w store option \<Rightarrow> 'w Runner \<Rightarrow> string \<Rightarrow> string \<Rightarrow> string \<Rightarrow> string \<Rightarrow> string \<Rightarrow> 'w
     \<Rightarrow> (goErr option \<times> 'w) option"
where
  "joinOne os joinerRun joinerFiles bootRun binary joinerIPC bootIPC peer name w =
     onOk (WaitForIPCOn os joinerFiles joinerIPC ipcWait w) (\<lambda>e. e) (\<lambda>w1.
     onOk (WaitForMember os joinerRun binary joinerIPC peer memberWait w1) (\<lambda>e. e) (\<lambda>w2.
       poll os (2 * second) etcdJoinWait (joinLook joinerRun bootRun binary joinerIPC bootIPC peer name)
         (\<lambda>(prev, seen). case prev of
            Some e \<Rightarrow> Errorf (''still outside the cluster after asking '' @ peer @ '' to add it: '' @ errorText e) [e]
          | None \<Rightarrow> Errorf (''still outside the cluster after asking '' @ peer @ '' to add it (cluster = '' @ seen @ '')'') [])
         (None, '''') w2))"

definition wrapAction :: "string \<Rightarrow> goErr \<Rightarrow> goErr" where
  "wrapAction name err = Errorf (''poa: bootstrap: '' @ quote name @ '': '' @ errorText err) [err]"

definition joinNode :: "'w os \<Rightarrow> 'w Bootstrap \<Rightarrow> string \<Rightarrow> process_Plan \<Rightarrow> Node \<Rightarrow> 'w \<Rightarrow> (goErr option \<times> 'w) option" where
  "joinNode os b binary plan on w =
     (case bootSpecOf plan of
        None \<Rightarrow> Some (Some (Errorf ''poa: bootstrap: the plan has no producer to form the cluster on'' []), w)
      | Some boot \<Rightarrow>
          if n_index on = sp_index boot then Some (None, w)
          else case resolve os b (n_index on) w of
            (w1, Inl err) \<Rightarrow> Some (Some (wrapAction ActionEtcdJoin (Errorf (''node'' @ itoa (n_index on) @ '' access: '' @ errorText err) [err])), w1)
          | (w1, Inr (joinerRun, joinerFiles)) \<Rightarrow>
              (case resolve os b (sp_index boot) w1 of
                 (w2, Inl err) \<Rightarrow> Some (Some (wrapAction ActionEtcdJoin (Errorf (''boot node'' @ itoa (sp_index boot) @ '' access: '' @ errorText err) [err])), w2)
               | (w2, Inr (bootRun, bootFiles)) \<Rightarrow>
                   (case planSpecFor plan (n_index on) of
                      None \<Rightarrow> Some (Some (wrapAction ActionEtcdJoin (Errorf (''the plan has no node'' @ itoa (n_index on)) [])), w2)
                    | Some joinerSpec \<Rightarrow>
                        onOk (joinOne os joinerRun joinerFiles bootRun binary (ipcPath joinerSpec binary) (ipcPath boot binary)
                                (LabelFor (sp_index boot)) (LabelFor (n_index on)) w2)
                          (\<lambda>e. wrapAction ActionEtcdJoin (Errorf (LabelFor (n_index on) @ '': '' @ errorText e) [e]))
                          (\<lambda>w3. Some (None, w3)))))"

definition deployAction :: "'w os \<Rightarrow> 'w Bootstrap \<Rightarrow> 'w Runner \<Rightarrow> 'w store option \<Rightarrow> string \<Rightarrow> string \<Rightarrow> process_Plan \<Rightarrow> Node \<Rightarrow> 'w \<Rightarrow> goErr option \<times> 'w" where
  "deployAction os b run files binary ipc plan on w =
     (case (if b_BootKeystore b = '''' then bootKeystore os (b_KeysDir b) (n_index on) w else (w, Inr (b_BootKeystore b))) of
        (w1, Inl err) \<Rightarrow> (Some (wrapAction ActionDeployGovernance err), w1)
      | (w1, Inr keystore) \<Rightarrow>
          (let password = (if b_Password b = '''' then JoinPath [b_KeysDir b, ''password''] else b_Password b);
               cfgName = (if b_ConfigName b = '''' then ConfigFileName else b_ConfigName b);
               cfgDir = (if pn_GenesisPath plan \<noteq> '''' then DirPath (pn_GenesisPath plan) else pn_DataRoot plan);
               cfgPath = JoinPath [cfgDir, cfgName]
           in case pathExists os files cfgPath w1 of
                (w2, Inl err) \<Rightarrow> (Some (wrapAction ActionDeployGovernance err), w2)
              | (w2, Inr found) \<Rightarrow>
                  if \<not> found then
                    (Some (Errorf (''poa: bootstrap: '' @ quote ActionDeployGovernance
                       @ '' needs the governance config the genesis step writes to the target at '' @ cfgPath) []), w2)
                  else DeployGovernance run binary ipc cfgPath keystore password w2))"

definition Action :: "'w os \<Rightarrow> 'w Bootstrap \<Rightarrow> string \<Rightarrow> process_Plan \<Rightarrow> Node \<Rightarrow> 'w \<Rightarrow> (goErr option \<times> 'w) option" where
  "Action os b name plan on w =
     (case planSpecFor plan (n_index on) of
        None \<Rightarrow> Some (Some (Errorf (''poa: bootstrap: the plan has no node'' @ itoa (n_index on) @ '' to run '' @ quote name @ '' on'') []), w)
      | Some spec \<Rightarrow>
          (case resolve os b (n_index on) w of
             (w1, Inl err) \<Rightarrow> Some (Some (wrapAction name (Errorf (''node'' @ itoa (n_index on) @ '' access: '' @ errorText err) [err])), w1)
           | (w1, Inr (run, files)) \<Rightarrow>
               (let binary = (if b_Binary b = '''' then sp_binary spec else b_Binary b)
                in if binary = '''' then Some (Some (Errorf (''poa: bootstrap: no binary to run '' @ quote name @ '' with'') []), w1)
                   else
                     let ipc = ipcPath spec binary
                     in onOk (WaitForIPCOn os files ipc ipcWait w1) (wrapAction name) (\<lambda>w2.
                        onOk (if name = ActionDeployGovernance then WaitProducing os run binary ipc producingWait w2 else Some (None, w2))
                          (wrapAction name) (\<lambda>w3.
                        onOk (if name = ActionEtcdInit then WaitSelf os run binary ipc selfWait w3 else Some (None, w3))
                          (wrapAction name) (\<lambda>w4.
                          if name = ActionDeployGovernance then Some (deployAction os b run files binary ipc plan on w4)
                          else if name = ActionEtcdInit then Some (EtcdInit run binary ipc w4)
                          else if name = ActionVerifyEtcd then VerifyEtcd os run binary ipc etcdFormWait w4
                          else if name = ActionEtcdJoin then joinNode os b binary plan on w4
                          else Some (Some (Errorf (''poa: bootstrap: no executor for action '' @ quote name) []), w4)))))))"

end
