(* ===== verification/Poa_Laws.thy ===== *)
theory Poa_Laws
  imports Poa_Bootstrap
begin

text \<open>
  The bring-up actions always return, on any network, as long as time passes while they pause; and an action
  that reports success has seen what it exists to bring about: a cluster that names the joiner, a cluster
  that formed, a chain that seals before the governance deploy, a member that knows itself before etcd is
  initialised.
\<close>

section \<open>Time passes\<close>

text \<open>
  What is asked of the outside: nothing turns the clock back, a timer that fires has run its length, and a
  context that ended says why.
\<close>

definition runner_ok :: "'w os \<Rightarrow> 'w Runner \<Rightarrow> bool" where
  "runner_ok os r \<longleftrightarrow> (\<forall>name args w. o_now os w \<le> o_now os (fst (r name args w)))"

definition store_ok :: "'w os \<Rightarrow> 'w store \<Rightarrow> bool" where
  "store_ok os exists \<longleftrightarrow> (\<forall>p w. o_now os w \<le> o_now os (fst (exists p w)))"

definition os_ok :: "'w os \<Rightarrow> bool" where
  "os_ok os \<longleftrightarrow>
     (\<forall>d w. o_now os w \<le> o_now os (fst (o_timer os d w))) \<and>
     (\<forall>d w. snd (o_timer os d w) \<longrightarrow> o_now os w + d \<le> o_now os (fst (o_timer os d w))) \<and>
     (\<forall>d w. \<not> snd (o_timer os d w) \<longrightarrow> o_ctxErr os (fst (o_timer os d w)) \<noteq> None) \<and>
     (\<forall>p w. o_now os w \<le> o_now os (fst (o_socket os p w))) \<and> runner_ok os (o_exec os)"

definition access_ok :: "'w os \<Rightarrow> 'w Bootstrap \<Rightarrow> bool" where
  "access_ok os b \<longleftrightarrow>
     (\<forall>r. b_Run b = Some r \<longrightarrow> runner_ok os r) \<and> (\<forall>f. b_Files b = Some f \<longrightarrow> store_ok os f) \<and>
     (\<forall>access i w w' r f. b_Access b = Some access \<longrightarrow> access i w = (w', Inr (r, f)) \<longrightarrow>
        runner_ok os r \<and> (\<forall>g. f = Some g \<longrightarrow> store_ok os g))"

section \<open>Every wait ends\<close>

definition poll_ok :: "'w os \<Rightarrow> int \<Rightarrow> ('w \<times> 'l \<Rightarrow> ('w \<times> 'l) \<times> goErr option option) \<Rightarrow> bool" where
  "poll_ok os d look \<longleftrightarrow> os_ok os \<and> 0 < d \<and> (\<forall>s. o_now os (fst s) \<le> o_now os (fst (fst (look s))))"

lemma Sleep_passes:
  assumes "os_ok os" "0 < d" "Sleep os d w = (w', None)"
  shows "o_now os w < o_now os w'"
proof -
  obtain w1 fired where t: "o_timer os d w = (w1, fired)" by fastforce
  have mono: "fired \<Longrightarrow> o_now os w + d \<le> o_now os w1" "\<not> fired \<Longrightarrow> o_ctxErr os w1 \<noteq> None"
    using assms(1) t unfolding os_ok_def by (metis fst_conv snd_conv)+
  show ?thesis using assms(2,3) t mono
    by (auto simp: Sleep_def split: option.splits bool.splits if_splits)
qed

text \<open>A wait that ends well has looked and been told so.\<close>

definition pollEnd :: "('w \<times> 'l \<Rightarrow> ('w \<times> 'l) \<times> goErr option option) \<Rightarrow> goErr option \<Rightarrow> 'w \<times> 'l \<Rightarrow> bool" where
  "pollEnd look r s \<longleftrightarrow> (r = None \<longrightarrow> (\<exists>s0. look s0 = (s, Some None)))"

interpretation seen: loop_invariant "pollIter os d deadline look late" "\<lambda>s. True" "pollEnd look"
  by unfold_locales (auto simp: pollIter_def pollEnd_def split: prod.splits option.splits if_splits)

interpretation timed: ranked_loop "pollIter os d deadline look late" "\<lambda>s. poll_ok os d look" "\<lambda>r s. True"
  "\<lambda>s. nat (deadline + 1 - o_now os (fst s))"
proof
  fix s s'
  assume ok: "poll_ok os d look" and it: "pollIter os d deadline look late s = (s', None)"
  obtain s1 r where l: "look s = (s1, r)" by fastforce
  have "o_now os (fst s) \<le> o_now os (fst s1)" using ok l unfolding poll_ok_def by (metis fst_conv)
  moreover have "o_now os (fst s1) \<le> deadline" "Sleep os d (fst s1) = (fst s', None)"
    using it l by (auto simp: pollIter_def split: option.splits if_splits prod.splits)
  moreover have "o_now os (fst s1) < o_now os (fst s')"
    using Sleep_passes [of os d "fst s1" "fst s'"] ok calculation(3) by (simp add: poll_ok_def)
  ultimately show "nat (deadline + 1 - o_now os (fst s')) < nat (deadline + 1 - o_now os (fst s))" by linarith
qed simp_all

lemma poll_returns: "poll_ok os d look \<Longrightarrow> \<exists>r w'. poll os d timeout look late init w = Some (r, w')"
  using timed.loop_returns [where os = os and d = d and look = look and s = "(w, init)" and deadline = "o_now os w + timeout" and late = late] by (auto simp: poll_def)

lemma poll_evidence: "poll os d timeout look late init w = Some (None, w') \<Longrightarrow> \<exists>s0 l. look s0 = ((w', l), Some (None :: goErr option))"
  using seen.loop_result [where os = os and d = d and look = look and s = "(w, init)" and deadline = "o_now os w + timeout" and late = late and r = None]
  by (fastforce simp: poll_def pollEnd_def split: option.splits prod.splits)

lemma onOk_returns:
  "\<exists>r w. m = Some (r, w) \<Longrightarrow> (\<And>w. \<exists>r w'. k w = Some (r, w')) \<Longrightarrow> \<exists>r w'. onOk m wrap k = Some (r, w')"
  by (auto simp: onOk_def split: option.splits)

lemma onOk_None: "onOk m wrap k = Some (None, w') \<longleftrightarrow> (\<exists>w1. m = Some (None, w1) \<and> k w1 = Some (None, w'))"
  by (auto simp: onOk_def split: option.splits prod.splits)

text \<open>The waits.\<close>

lemma runner_okD: "runner_ok os r \<Longrightarrow> r name args w = (w', out, e) \<Longrightarrow> o_now os w \<le> o_now os w'"
  unfolding runner_ok_def by (metis fst_conv)

lemma durations [simp]: "0 < second" "0 < millisecond"
  by (simp_all add: second_def millisecond_def)

lemma ReadInfo_time: "runner_ok os r \<Longrightarrow> o_now os w \<le> o_now os (fst (ReadInfo os r binary ipc w))"
  by (auto simp: ReadInfo_def dest: runner_okD split: prod.splits option.splits sum.splits)

lemma etcdClusterReady_time: "runner_ok os r \<Longrightarrow> o_now os w \<le> o_now os (fst (etcdClusterReady r binary ipc w))"
  by (auto simp: etcdClusterReady_def Let_def dest: runner_okD split: prod.splits option.splits)

lemma EtcdJoin_time: "runner_ok os r \<Longrightarrow> o_now os w \<le> o_now os (snd (EtcdJoin r binary ipc peer w))"
  by (auto simp: EtcdJoin_def dest: runner_okD split: prod.splits option.splits)

lemma EtcdCluster_time: "runner_ok os r \<Longrightarrow> o_now os w \<le> o_now os (fst (EtcdCluster r binary ipc w))"
  by (auto simp: EtcdCluster_def Let_def dest: runner_okD split: prod.splits option.splits)

lemma WaitForIPC_returns: "os_ok os \<Longrightarrow> \<exists>r w'. WaitForIPC os p t w = Some (r, w')"
  unfolding WaitForIPC_def
  by (rule poll_returns) (auto simp: poll_ok_def os_ok_def split: prod.splits, metis fst_conv)

lemma WaitForIPCOn_returns:
  assumes "os_ok os" "\<forall>f. files = Some f \<longrightarrow> store_ok os f"
  shows "\<exists>r w'. WaitForIPCOn os files p t w = Some (r, w')"
proof (cases files)
  case (Some f)
  have "o_now os w \<le> o_now os (fst (f p w))" for w using assms(2) Some by (simp add: store_ok_def)
  then show ?thesis unfolding WaitForIPCOn_def Some option.case
    using assms(1) by (intro poll_returns) (auto simp: poll_ok_def split: prod.splits sum.splits, (metis fst_conv)+)
qed (simp add: WaitForIPCOn_def WaitForIPC_returns assms)

lemma WaitProducing_returns: "os_ok os \<Longrightarrow> runner_ok os r \<Longrightarrow> \<exists>e w'. WaitProducing os r binary ipc t w = Some (e, w')"
  unfolding WaitProducing_def
  by (rule poll_returns) (auto simp: poll_ok_def dest: runner_okD split: prod.splits option.splits)

lemma WaitForMember_returns: "os_ok os \<Longrightarrow> runner_ok os r \<Longrightarrow> \<exists>e w'. WaitForMember os r binary ipc name t w = Some (e, w')"
  unfolding WaitForMember_def
  by (rule poll_returns) (auto simp: poll_ok_def dest: runner_okD split: prod.splits option.splits)

lemma WaitSelf_returns: "os_ok os \<Longrightarrow> runner_ok os r \<Longrightarrow> \<exists>e w'. WaitSelf os r binary ipc t w = Some (e, w')"
  unfolding WaitSelf_def
  by (rule poll_returns) (auto simp: poll_ok_def split: prod.splits sum.splits, (metis ReadInfo_time fst_conv)+)

lemma VerifyEtcd_returns: "os_ok os \<Longrightarrow> runner_ok os r \<Longrightarrow> \<exists>e w'. VerifyEtcd os r binary ipc t w = Some (e, w')"
  unfolding VerifyEtcd_def
  by (rule poll_returns) (auto simp: poll_ok_def split: prod.splits sum.splits, (metis etcdClusterReady_time fst_conv)+)

lemma joinLook_time:
  assumes "runner_ok os jr" "runner_ok os br"
  shows "o_now os (fst s) \<le> o_now os (fst (fst (joinLook jr br binary jipc bipc peer name s)))"
proof -
  obtain w p c where s: "s = (w, p, c)" by (cases s) auto
  obtain e w1 where j: "EtcdJoin jr binary jipc peer w = (e, w1)" by fastforce
  obtain w2 r where c: "EtcdCluster br binary bipc w1 = (w2, r)" by fastforce
  have "o_now os w \<le> o_now os w1" "o_now os w1 \<le> o_now os w2"
    using EtcdJoin_time [OF assms(1), of w binary jipc peer] j EtcdCluster_time [OF assms(2), of w1 binary bipc] c by simp_all
  then show ?thesis using s j c by (simp add: joinLook_def Let_def split: sum.splits)
qed

lemma joinOne_returns:
  assumes "os_ok os" "runner_ok os jr" "runner_ok os br" "\<forall>f. files = Some f \<longrightarrow> store_ok os f"
  shows "\<exists>e w'. joinOne os jr files br binary jipc bipc peer name w = Some (e, w')"
  unfolding joinOne_def
  by (intro onOk_returns WaitForIPCOn_returns WaitForMember_returns poll_returns)
    (use assms joinLook_time in \<open>auto simp: poll_ok_def\<close>)

lemma resolve_ok:
  assumes "os_ok os" "access_ok os b" "resolve os b i w = (w', Inr (r, f))"
  shows "runner_ok os r" "\<forall>g. f = Some g \<longrightarrow> store_ok os g"
  using assms by (auto simp: resolve_def access_ok_def os_ok_def split: option.splits)

lemma joinNode_returns:
  assumes "os_ok os" "access_ok os b"
  shows "\<exists>e w'. joinNode os b binary plan on w = Some (e, w')"
  unfolding joinNode_def
  by (auto split: option.splits prod.splits sum.splits
      intro!: onOk_returns joinOne_returns [OF assms(1)] dest: resolve_ok [OF assms])

text \<open>
  Property C16. A bring-up action returns. Whatever the node answers, or does not, on whatever machines,
  every named action comes back with a result; what it rests on is that time passes while it pauses.
\<close>

theorem bring_up_action_returns:
  assumes "os_ok os" "access_ok os b"
  shows "\<exists>err w'. Action os b name plan on w = Some (err, w')"
proof -
  have "\<exists>e w'. onOk (WaitForIPCOn os files ipc ipcWait w1) (wrapAction name) (\<lambda>w2.
      onOk (if name = ActionDeployGovernance then WaitProducing os run binary ipc producingWait w2 else Some (None, w2)) (wrapAction name) (\<lambda>w3.
      onOk (if name = ActionEtcdInit then WaitSelf os run binary ipc selfWait w3 else Some (None, w3)) (wrapAction name) (\<lambda>w4.
        if name = ActionDeployGovernance then Some (deployAction os b run files binary ipc plan on w4)
        else if name = ActionEtcdInit then Some (EtcdInit run binary ipc w4)
        else if name = ActionVerifyEtcd then VerifyEtcd os run binary ipc etcdFormWait w4
        else if name = ActionEtcdJoin then joinNode os b binary plan on w4
        else Some (Some (Errorf (''poa: bootstrap: no executor for action '' @ quote name) []), w4)))) = Some (e, w')"
    if "resolve os b (n_index on) w = (w1, Inr (run, files))" for w1 run files binary ipc
  proof -
    note ok = resolve_ok [OF assms that]
    have "\<exists>e w'. (if name = ActionDeployGovernance then Some (deployAction os b run files binary ipc plan on w4)
        else if name = ActionEtcdInit then Some (EtcdInit run binary ipc w4)
        else if name = ActionVerifyEtcd then VerifyEtcd os run binary ipc etcdFormWait w4
        else if name = ActionEtcdJoin then joinNode os b binary plan on w4
        else Some (Some (Errorf (''poa: bootstrap: no executor for action '' @ quote name) []), w4)) = Some (e, w')" for w4
      using VerifyEtcd_returns [OF assms(1) ok(1)] joinNode_returns [OF assms] by (auto intro: prod.exhaust)
    then show ?thesis
      using WaitForIPCOn_returns [OF assms(1) ok(2)] WaitProducing_returns [OF assms(1) ok(1)] WaitSelf_returns [OF assms(1) ok(1)]
      by (intro onOk_returns) auto
  qed
  then show ?thesis by (auto simp: Action_def Let_def split: option.splits prod.splits sum.splits)
qed

section \<open>Success has been seen\<close>

lemma WaitProducing_seen:
  assumes "WaitProducing os r binary ipc t w = Some (None, w')"
  shows "\<exists>v out n. r binary (attach ipc ''eth.blockNumber'') v = (w', out, None) \<and> atoi (trim_space out) = Some n \<and> n > 0"
proof -
  from poll_evidence [OF assms [unfolded WaitProducing_def]] obtain s0 l where
    look: "(\<lambda>(w, prev). case r binary (attach ipc ''eth.blockNumber'') w of
          (w1, out, Some err) \<Rightarrow> ((w1, prev), None)
        | (w1, out, None) \<Rightarrow>
            ((w1, trim_space out),
             case atoi (trim_space out) of Some n \<Rightarrow> if n > 0 then Some None else None | None \<Rightarrow> None)) s0 = ((w', l), Some (None :: goErr option))"
    by blast
  obtain v p where s0: "s0 = (v, p)" by fastforce
  obtain w1 out e where "r binary (attach ipc ''eth.blockNumber'') v = (w1, out, e)" by (metis prod.exhaust)
  then show ?thesis using look s0 by (auto split: option.splits if_splits)
qed

lemma WaitSelf_seen:
  assumes "WaitSelf os r binary ipc t w = Some (None, w')"
  shows "\<exists>v info. ReadInfo os r binary ipc v = (w', Inr info) \<and> trim_space (in_SelfName info) \<noteq> ''''"
proof -
  from poll_evidence [OF assms [unfolded WaitSelf_def]] obtain s0 l where
    look: "(\<lambda>(w, prev). case ReadInfo os r binary ipc w of
          (w1, Inl err) \<Rightarrow> ((w1, prev), None)
        | (w1, Inr info) \<Rightarrow> ((w1, in_SelfName info), if trim_space (in_SelfName info) \<noteq> '''' then Some None else None)) s0 = ((w', l), Some (None :: goErr option))"
    by blast
  obtain v p where s0: "s0 = (v, p)" by fastforce
  obtain w1 e where "ReadInfo os r binary ipc v = (w1, e)" by (metis prod.exhaust)
  then show ?thesis using look s0 by (auto split: sum.splits if_splits)
qed

lemma VerifyEtcd_seen:
  assumes "VerifyEtcd os r binary ipc t w = Some (None, w')"
  shows "\<exists>v. etcdClusterReady r binary ipc v = (w', Inr True)"
proof -
  from poll_evidence [OF assms [unfolded VerifyEtcd_def]] obtain v l where
    look: "(case etcdClusterReady r binary ipc v of
          (w1, Inl err) \<Rightarrow> ((w1, ()), None)
        | (w1, Inr ready) \<Rightarrow> ((w1, ()), if ready then Some None else None)) = ((w', l), Some (None :: goErr option))"
    by auto
  obtain w1 e where "etcdClusterReady r binary ipc v = (w1, e)" by (metis prod.exhaust)
  then show ?thesis using look by (auto split: sum.splits if_splits)
qed

lemma joinOne_seen:
  assumes "joinOne os jr files br binary jipc bipc peer name w = Some (None, w')"
  shows "\<exists>v cluster. EtcdCluster br binary bipc v = (w', Inr cluster) \<and> ClusterNames cluster name"
proof -
  obtain s0 l where look: "joinLook jr br binary jipc bipc peer name s0 = ((w', l), Some (None :: goErr option))"
    using assms unfolding joinOne_def onOk_None by (auto dest!: poll_evidence)
  obtain v p c where s0: "s0 = (v, p, c)" by (metis prod.exhaust)
  obtain e w1 where j: "EtcdJoin jr binary jipc peer v = (e, w1)" by fastforce
  obtain w2 r where "EtcdCluster br binary bipc w1 = (w2, r)" by fastforce
  then show ?thesis using look s0 j by (auto simp: joinLook_def Let_def split: sum.splits if_splits)
qed

text \<open>
  Property C15. An action that succeeds has seen what it is for, and seen it last or right before acting. A
  governance deploy ran on a chain that had sealed a block; etcd was initialised on a node that knew which
  member it is; a verified cluster was read back and is not empty; and a joiner that is not the boot node was
  named by the cluster as the boot node reads it, whatever the join call itself returned. No other name
  succeeds.
\<close>

theorem action_success_is_evidence:
  assumes "Action os b name plan on w = Some (None, w')"
  shows "\<exists>spec run files w1 binary. planSpecFor plan (n_index on) = Some spec
    \<and> resolve os b (n_index on) w = (w1, Inr (run, files)) \<and> binary = (if b_Binary b = '''' then sp_binary spec else b_Binary b)
    \<and> (name = ActionDeployGovernance \<and>
         (\<exists>v v' out n. run binary (attach (ipcPath spec binary) ''eth.blockNumber'') v = (v', out, None)
            \<and> atoi (trim_space out) = Some n \<and> n > 0
            \<and> deployAction os b run files binary (ipcPath spec binary) plan on v' = (None, w'))
     \<or> name = ActionEtcdInit \<and>
         (\<exists>v v' info. ReadInfo os run binary (ipcPath spec binary) v = (v', Inr info) \<and> trim_space (in_SelfName info) \<noteq> ''''
            \<and> EtcdInit run binary (ipcPath spec binary) v' = (None, w'))
     \<or> name = ActionVerifyEtcd \<and> (\<exists>v. etcdClusterReady run binary (ipcPath spec binary) v = (w', Inr True))
     \<or> name = ActionEtcdJoin \<and>
         (\<exists>boot. bootSpecOf plan = Some boot \<and>
            (n_index on = sp_index boot \<or>
             (\<exists>bootRun bootFiles u u' v cluster. resolve os b (sp_index boot) u = (u', Inr (bootRun, bootFiles))
                \<and> EtcdCluster bootRun binary (ipcPath boot binary) v = (w', Inr cluster)
                \<and> ClusterNames cluster (LabelFor (n_index on))))))"
proof -
  have join: "\<exists>boot. bootSpecOf plan = Some boot \<and> (n_index on = sp_index boot \<or>
      (\<exists>bootRun bootFiles u u' v cluster. resolve os b (sp_index boot) u = (u', Inr (bootRun, bootFiles))
         \<and> EtcdCluster bootRun binary (ipcPath boot binary) v = (w', Inr cluster) \<and> ClusterNames cluster (LabelFor (n_index on))))"
    if "joinNode os b binary plan on w4 = Some (None, w')" for binary w4
    using that by (fastforce simp: joinNode_def onOk_None dest: joinOne_seen split: option.splits prod.splits sum.splits if_splits)
  obtain spec where spec: "planSpecFor plan (n_index on) = Some spec"
    using assms by (auto simp: Action_def split: option.splits)
  obtain w1 run files where r: "resolve os b (n_index on) w = (w1, Inr (run, files))"
    using assms spec by (auto simp: Action_def split: option.splits prod.splits sum.splits)
  define binary where "binary = (if b_Binary b = '''' then sp_binary spec else b_Binary b)"
  let ?ipc = "ipcPath spec binary"
  have "binary \<noteq> ''''" using assms spec r by (auto simp: Action_def binary_def [symmetric] Let_def)
  then obtain w2 w3 w4 where
    w3: "(if name = ActionDeployGovernance then WaitProducing os run binary ?ipc producingWait w2 else Some (None, w2)) = Some (None, w3)" and
    w4: "(if name = ActionEtcdInit then WaitSelf os run binary ?ipc selfWait w3 else Some (None, w3)) = Some (None, w4)" and
    fin: "(if name = ActionDeployGovernance then Some (deployAction os b run files binary ?ipc plan on w4)
        else if name = ActionEtcdInit then Some (EtcdInit run binary ?ipc w4)
        else if name = ActionVerifyEtcd then VerifyEtcd os run binary ?ipc etcdFormWait w4
        else if name = ActionEtcdJoin then joinNode os b binary plan on w4
        else Some (Some (Errorf (''poa: bootstrap: no executor for action '' @ quote name) []), w4)) = Some (None, w')"
    using assms spec r unfolding Action_def binary_def [symmetric] by (auto simp: Let_def onOk_None binary_def [symmetric])
  have names: "ActionDeployGovernance \<noteq> ActionEtcdInit" by (simp add: action_defs)
  consider "name = ActionDeployGovernance" | "name = ActionEtcdInit"
    | "name = ActionVerifyEtcd" "VerifyEtcd os run binary ?ipc etcdFormWait w4 = Some (None, w')"
    | "name = ActionEtcdJoin" "joinNode os b binary plan on w4 = Some (None, w')"
    using fin by (auto split: if_splits)
  then have "name = ActionDeployGovernance \<and>
         (\<exists>v v' out n. run binary (attach ?ipc ''eth.blockNumber'') v = (v', out, None)
            \<and> atoi (trim_space out) = Some n \<and> n > 0 \<and> deployAction os b run files binary ?ipc plan on v' = (None, w'))
     \<or> name = ActionEtcdInit \<and>
         (\<exists>v v' info. ReadInfo os run binary ?ipc v = (v', Inr info) \<and> trim_space (in_SelfName info) \<noteq> ''''
            \<and> EtcdInit run binary ?ipc v' = (None, w'))
     \<or> name = ActionVerifyEtcd \<and> (\<exists>v. etcdClusterReady run binary ?ipc v = (w', Inr True))
     \<or> name = ActionEtcdJoin \<and>
         (\<exists>boot. bootSpecOf plan = Some boot \<and> (n_index on = sp_index boot \<or>
             (\<exists>bootRun bootFiles u u' v cluster. resolve os b (sp_index boot) u = (u', Inr (bootRun, bootFiles))
                \<and> EtcdCluster bootRun binary (ipcPath boot binary) v = (w', Inr cluster)
                \<and> ClusterNames cluster (LabelFor (n_index on)))))" (is "?A \<or> ?B \<or> ?C \<or> ?D")
  proof cases
    case 1
    then have deploy: "deployAction os b run files binary ?ipc plan on w3 = (None, w')" using w4 fin names by simp
    obtain v out n where "run binary (attach ?ipc ''eth.blockNumber'') v = (w3, out, None)" "atoi (trim_space out) = Some n" "n > 0"
      using WaitProducing_seen [of os run binary ?ipc producingWait w2 w3] w3 1 by auto
    then have ?A using deploy 1 by (intro conjI exI)
    then show ?thesis by (rule disjI1)
  next
    case 2
    then have init: "EtcdInit run binary ?ipc w4 = (None, w')" using fin names by simp
    obtain v info where "ReadInfo os run binary ?ipc v = (w4, Inr info)" "trim_space (in_SelfName info) \<noteq> ''''"
      using WaitSelf_seen [of os run binary ?ipc selfWait w3 w4] w4 2 names by auto
    then have ?B using init 2 by (intro conjI exI)
    then show ?thesis by (rule disjI2 [OF disjI1])
  next
    case 3
    then have ?C using VerifyEtcd_seen [OF 3(2)] by (intro conjI)
    then show ?thesis by (rule disjI2 [OF disjI2 [OF disjI1]])
  next
    case 4
    then have ?D using join [OF 4(2)] by (intro conjI)
    then show ?thesis by (rule disjI2 [OF disjI2 [OF disjI2]])
  qed
  then show ?thesis using spec r binary_def by (intro exI conjI)
qed

section \<open>Reading a cluster\<close>

lemma contains_iff: "contains p s \<longleftrightarrow> (\<exists>a b. s = a @ p @ b)"
proof (induction s)
  case (Cons c s)
  have "take (length p) (c # s) = p \<longleftrightarrow> (\<exists>b. c # s = p @ b)" by (metis append_eq_conv_conj append_take_drop_id)
  then show ?case using Cons by (auto simp: Cons_eq_append_conv)
qed auto

lemma contains_split:
  assumes "c \<notin> set p" "p \<noteq> []"
  shows "contains p (x @ c # y) \<longleftrightarrow> contains p x \<or> contains p y"
proof
  assume "contains p (x @ c # y)"
  then obtain a b where e: "x @ c # y = a @ p @ b" by (auto simp: contains_iff)
  consider "length a + length p \<le> length x" | "length a > length x" | "length a \<le> length x" "length x < length a + length p"
    by linarith
  then show "contains p x \<or> contains p y"
  proof cases
    case 1
    then have "x = a @ p @ take (length x - length a - length p) b" using arg_cong [OF e, of "take (length x)"] by simp
    then show ?thesis unfolding contains_iff by blast
  next
    case 2
    then have "y = drop (Suc (length x)) a @ p @ b" using arg_cong [OF e, of "drop (Suc (length x))"] by simp
    then show ?thesis unfolding contains_iff by blast
  next
    case 3
    then have "c = p ! (length x - length a)" using arg_cong [OF e, of "\<lambda>s. s ! length x"] by (auto simp: nth_append split: if_splits)
    then have "c \<in> set p" using 3 by simp
    then show ?thesis using assms(1) by simp
  qed
next
  assume "contains p x \<or> contains p y"
  then show "contains p (x @ c # y)" by (auto simp: contains_iff) (metis append.assoc append_Cons)+
qed

lemma contains_join: "c \<notin> set p \<Longrightarrow> p \<noteq> [] \<Longrightarrow> contains p (join [c] xs) \<longleftrightarrow> (\<exists>x \<in> set xs. contains p x)"
  by (induction "[c]" xs rule: join.induct) (auto simp: contains_split)

text \<open>The cluster as etcd writes it: name and url of each member.\<close>

definition clusterText :: "(int \<times> string) list \<Rightarrow> string" where
  "clusterText ms = join '','' (map (\<lambda>(i, url). LabelFor i @ ''='' @ url) ms)"

lemma no_mark_in_label: "0 \<le> i \<Longrightarrow> c \<in> {CHR ''='', CHR '','', CHR ''n''} \<Longrightarrow> c \<notin> set (itoa i)"
  by (auto simp: itoa_def is_digit_def dest!: nat_digits_all_digits [unfolded list_all_iff, rule_format])

lemma label_suffix:
  assumes "a @ LabelFor j = LabelFor i" "0 \<le> i" "0 \<le> j"
  shows "i = j"
proof (cases a)
  case Nil
  then show ?thesis using assms itoa_inj_pos [of j i] by (simp add: LabelFor_def)
next
  case (Cons c a')
  then have "a' @ ''node'' @ itoa j = ''ode'' @ itoa i" using assms(1) by (simp add: LabelFor_def labelPrefix_def)
  then have "CHR ''n'' \<in> set (''ode'' @ itoa i)" by (metis Un_iff list.set_intros(1) set_append)
  then show ?thesis using no_mark_in_label [OF assms(2)] by simp
qed

lemma ClusterNames_one:
  assumes "CHR ''='' \<notin> set url" "0 \<le> i" "0 \<le> j"
  shows "contains (LabelFor j @ ''='') (LabelFor i @ ''='' @ url) \<longleftrightarrow> i = j"
proof
  have eq: "CHR ''='' \<notin> set (LabelFor k)" if "0 \<le> k" for k
    using no_mark_in_label [OF that] by (simp add: LabelFor_def labelPrefix_def)
  assume "contains (LabelFor j @ ''='') (LabelFor i @ ''='' @ url)"
  then obtain a b where ab: "LabelFor i @ CHR ''='' # url = (a @ LabelFor j) @ CHR ''='' # b" by (auto simp: contains_iff)
  then have "LabelFor i = a @ LabelFor j"
    using append_Cons_eq_iff [of "CHR ''=''" "LabelFor i" url "a @ LabelFor j" b] eq [OF assms(2)] assms(1) by blast
  then show "i = j" using label_suffix [of a j i] assms(2,3) by simp
next
  assume "i = j"
  then show "contains (LabelFor j @ ''='') (LabelFor i @ ''='' @ url)" by (auto simp: contains_iff intro: exI [of _ "[]"])
qed

text \<open>
  Property C22. The cluster is read exactly. In a cluster as etcd writes it, with urls that have no equals
  sign, \<open>ClusterNames\<close> finds a node's label exactly when the node is a member: node 1 is not found in the
  entry of node 11, nor the other way around.
\<close>

theorem cluster_membership_is_exact:
  assumes "\<forall>(i, url) \<in> set ms. 0 \<le> i \<and> CHR ''='' \<notin> set url" "0 \<le> j"
  shows "ClusterNames (clusterText ms) (LabelFor j) \<longleftrightarrow> j \<in> fst ` set ms"
proof -
  have "CHR '','' \<notin> set (LabelFor j @ ''='')" using no_mark_in_label [OF assms(2)] by (simp add: LabelFor_def labelPrefix_def)
  then have "ClusterNames (clusterText ms) (LabelFor j) \<longleftrightarrow>
      (\<exists>(i, url) \<in> set ms. contains (LabelFor j @ ''='') (LabelFor i @ ''='' @ url))"
    by (simp add: ClusterNames_def clusterText_def contains_join split_def)
  also have "\<dots> \<longleftrightarrow> (\<exists>(i, url) \<in> set ms. i = j)" using assms ClusterNames_one by fast
  finally show ?thesis by force
qed

theorem cluster_membership_is_exact_witness:
  "ClusterNames (clusterText [(11, ''http://10.0.0.1:2380''), (2, ''http://10.0.0.2:2380'')]) (LabelFor 2)
   \<and> \<not> ClusterNames (clusterText [(11, ''http://10.0.0.1:2380''), (2, ''http://10.0.0.2:2380'')]) (LabelFor 1)"
  using cluster_membership_is_exact [of "[(11, ''http://10.0.0.1:2380''), (2, ''http://10.0.0.2:2380'')]" 2]
    cluster_membership_is_exact [of "[(11, ''http://10.0.0.1:2380''), (2, ''http://10.0.0.2:2380'')]" 1] by simp

section \<open>An instance\<close>

text \<open>A clock in nanoseconds for a world; a machine that answers every question with a cluster.\<close>

definition sampleOS :: "int os" where
  "sampleOS =
     \<lparr>o_now = (\<lambda>w. w), o_ctxErr = (\<lambda>w. None), o_timer = (\<lambda>d w. (w + max d 0, True)), o_socket = (\<lambda>p w. (w, True)),
      o_stat = (\<lambda>p w. (w, Inr True)), o_readDir = (\<lambda>p w. (w, Inr [])),
      o_exec = (\<lambda>name args w. (w + 1, ''node2=http://10.0.0.2:2380'', None)), o_unquote = (\<lambda>s. None), o_parseInfo = (\<lambda>s. Inl (Errorf '''' []))\<rparr>"

definition sampleBootstrap :: "int Bootstrap" where
  "sampleBootstrap =
     \<lparr>b_Binary = ''gwemix'', b_KeysDir = ''k'', b_ConfigName = '''', b_Run = None, b_Files = None, b_Access = None,
      b_Password = '''', b_BootKeystore = ''''\<rparr>"

definition sampleNode :: Node where
  "sampleNode = \<lparr>n_chain = '''', n_index = 2, n_role = ''bp'', n_host = '''', n_rpcURL = '''', n_metricsURL = '''', n_wsURL = '''',
     n_ports = \<lparr>P2P = 0, Etcd = 0, EtcdClient = 0, HTTP = 0, WS = 0, Auth = 0, Metrics = 0\<rparr>, n_pid = 0, n_apis = []\<rparr>"

definition sampleLaunchPlan :: process_Plan where
  "sampleLaunchPlan = \<lparr>pn_DataRoot = ''d'', pn_GenesisPath = '''', pn_Nodes = [
     \<lparr>sp_index = 2, sp_role = ''bp'', sp_host = '''', sp_rpcURL = '''', sp_binary = '''', sp_dataDir = ''d/node2'',
      sp_configPath = '''', sp_config = '''', sp_logPath = '''', sp_args = [],
      sp_ports = \<lparr>P2P = 0, Etcd = 0, EtcdClient = 0, HTTP = 0, WS = 0, Auth = 0, Metrics = 0\<rparr>, sp_syncMode = ''''\<rparr>]\<rparr>"

lemma sample_ok: "os_ok sampleOS" "access_ok sampleOS sampleBootstrap"
  by (auto simp: os_ok_def access_ok_def runner_ok_def sampleOS_def sampleBootstrap_def)

theorem bring_up_action_returns_witness:
  "os_ok sampleOS \<and> (\<exists>err w'. Action sampleOS sampleBootstrap ActionDeployGovernance sampleLaunchPlan sampleNode 0 = Some (err, w'))"
  using bring_up_action_returns [OF sample_ok, of ActionDeployGovernance sampleLaunchPlan sampleNode 0] sample_ok by simp

lemma sample_verify: "Action sampleOS sampleBootstrap ActionVerifyEtcd sampleLaunchPlan sampleNode 0 = Some (None, 1)"
proof -
  have ready: "etcdClusterReady (o_exec sampleOS) binary ipc w = (w + 1, Inr True)" for binary ipc w
    by (simp add: etcdClusterReady_def sampleOS_def Let_def trim_quotes_def trim_space_def is_space_def)
  have v: "VerifyEtcd sampleOS (o_exec sampleOS) binary ipc t w = Some (None, w + 1)" for binary ipc t w
    by (simp add: VerifyEtcd_def poll_def go_loop_leave [of _ _ "(w + 1, ())" None] pollIter_def ready)
  have i: "WaitForIPCOn sampleOS None p t w = Some (None, w)" for p t w
    by (simp add: WaitForIPCOn_def WaitForIPC_def poll_def go_loop_leave [of _ _ "(w, ())" None] pollIter_def sampleOS_def)
  show ?thesis
    by (simp add: Action_def sampleLaunchPlan_def sampleNode_def planSpecFor_def resolve_def sampleBootstrap_def Let_def onOk_def i v action_defs)
qed

theorem action_success_is_evidence_witness:
  "Action sampleOS sampleBootstrap ActionVerifyEtcd sampleLaunchPlan sampleNode 0 = Some (None, 1)
   \<and> (\<exists>run v ipc. etcdClusterReady run ''gwemix'' ipc v = (1 :: int, Inr True))"
  using sample_verify action_success_is_evidence [OF sample_verify] by (auto simp: action_defs sampleBootstrap_def)

end
