(* ===== verification/Spec2Isabelle.thy ===== *)
theory Spec2Isabelle
  imports Wbft_Extra Machine_Demo Run_Laws Node_Graph Node_Topology Resource_Assign
    Monitor_Laws Health_Laws Hard_Fork Chain_Demo Launch_Demo Poa_Config Poa_Laws
begin

text \<open>
  \<^bold>\<open>Chainbench\<close> composes test networks of blockchain nodes, runs test suites on them and inspects
  them. This development models its core logic, translated from the Go sources under \<open>src/internal\<close>,
  and proves what makes it correct.

  \<^bold>\<open>The program's parts and how they interact.\<close> A run (\<open>testengine\<close>) walks a hierarchical state
  machine (\<open>core/statemachine\<close>): it reads its declaration, opens a session, reaches a network by composing
  or attaching, prepares it, runs the cases, collects. A network is a list of nodes (\<open>core/node\<close>: roles,
  labels, scopes, a topology, a placement map, a peer graph) placed on the slots of a server set
  (\<open>resource\<close>: port bands, pool, inventory of claims). A consensus family writes and reads the genesis
  extra-data and verifies committed headers (\<open>consensus/wbft\<close>). A network is fit for a test when the
  readiness gate says so (\<open>nodemonitor\<close>), is inspected over RPC (\<open>core/health\<close>), its processes are
  recognised by their launches and kept in a run ledger (\<open>core/process\<close>), and it is upgraded in place
  (\<open>core/hardfork\<close>). A consensus family also says in which phases a network is started and what happens
  between them; the poa family bootstraps a governance contract and an etcd cluster (\<open>consensus/poa\<close>).
  Composing is itself a walk of the state machine (\<open>chainsetup\<close>: the \<open>Manager\<close>): what is on the target is
  compared with the request (\<open>core/preflight\<close>), nine stages build and launch the network, operations act on
  it, and every step, position and failure (\<open>core/lifecycle\<close>) goes into the record a resume reads.

  \<^bold>\<open>How the code is modelled.\<close> A struct is a record, an enumeration a datatype, a Go \<open>int\<close> is an \<open>int\<close>
  with the conversions that can fail written out, \<open>uint64\<close> and bytes are words. A Go map is a function to
  option, or an association list where its order or its size is read. Errors are values: every error
  return is a constructor, carrying what its message prints. Code that changes a struct returns it changed.
  What the program calls outside of \<open>src/\<close> or reads from the world (processes, RPC, clocks, contexts, the
  BLS and hash libraries, the JSON parser, the work inside a stage) is a parameter: a function over a world
  \<open>'w\<close> that may answer differently each time. Bounded loops are recursive functions; loops without a bound
  are \<open>go_loop\<close>, whose value is \<open>None\<close> when the loop does not end, so that ending is proved.

  \<^bold>\<open>Theories.\<close>

  \<^item> \<open>Go_Base\<close>: Go's decimal conversion, string splitting and joining, host and port, mapping with errors;
    the locale of a printer and its parser. \<open>Go_Loop\<close>: the unbounded loop, and the locales
    \<open>loop_invariant\<close> and \<open>ranked_loop\<close> that the gate and the height poll interpret.

  \<^item> \<open>Statemachine\<close>: \<open>core/statemachine\<close> (\<open>machine.go\<close>, \<open>contract.go\<close>, \<open>logrec.go\<close>): \<open>Add\<close>,
    \<open>Start\<close>, \<open>Send\<close>, \<open>dispatch\<close>, \<open>performTransition\<close>, the self and inbox queues, contracts and \<open>Audit\<close>.
    The states are parameters: what they return and which calls on the machine they make. \<open>dispatch\<close> and
    \<open>failUnhandled\<close> call each other once at most, so they are written out to that depth and the recursive
    equation is proved. \<open>drain\<close> recurses on the source's own bound of 1000 messages. \<open>Machine_Tree\<close>: the log
    ring and the tree. \<open>Machine_Laws\<close>: transitions exit and enter exactly the right states, the active
    states are the path of the current one, a \<open>Send\<close> ends at rest or fails, is bounded, never drops a
    message silently, and what \<open>Audit\<close> means; a destination that outlives a failed \<open>Send\<close>.
    \<open>Machine_Demo\<close>: a concrete machine on which these are applied.

  \<^item> \<open>Machine_Client\<close>: the locale \<open>walker\<close>, what a client of the machine may rely on. A client whose states
    work on \<open>Enter\<close>, leave messages to themselves and answer by moving, keeps to its contracts; then \<open>Start\<close>
    and \<open>Send\<close> do what \<open>walk\<close> does, a function of the states alone. Both machines of the program interpret it.

  \<^item> \<open>Run_Machine\<close>: \<open>testengine/runmachine.go\<close>, \<open>runprotocol.go\<close>: the states of a test run with their
    contracts, built with \<open>Add\<close> and driven with \<open>Send\<close>. \<open>Run_Laws\<close>: the run does what a straight-line
    reference definition does, takes its network down or says it did not, and what a cancelled run does.

  \<^item> \<open>Lifecycle_Status\<close> (\<open>core/lifecycle\<close>): the status codes and their names, marked errors. \<open>Preflight\<close>
    (\<open>core/preflight\<close>, \<open>steps_preflight.go\<close>): the comparison of what is composed with what is wanted, with
    the exact condition for reuse and the exact list of nodes to rebuild. \<open>Chain_Failures\<close>
    (\<open>failure_status.go\<close> and the sentinels of the stages): every error is filed under a declared failure of its
    stage. \<open>Chain_Record\<close> and \<open>Record_Laws\<close> (\<open>record.go\<close>, \<open>verb_needs.go\<close>, \<open>core/session\<close>): the recorded
    steps, what each needs before it, what an operation needs of the network, where a record resumes.

  \<^item> \<open>Chain_Machine\<close> and \<open>Chain_States\<close> (\<open>protocol.go\<close>, \<open>manager.go\<close>, \<open>manager_states.go\<close>, \<open>stage_*.go\<close>,
    \<open>workspace_open.go\<close>, the stopping verbs of \<open>steps_lifecycle.go\<close>): the messages, the manager with the
    record on disk, every state of the composition with its contract, the tree of \<open>NewManager\<close> and the entry
    points \<open>Compose\<close>, \<open>Step\<close>, \<open>ComposeComparing\<close>, \<open>Operate\<close>. The other verbs of the workspace are the record
    \<open>deps\<close> of functions on the record and an opaque outside. \<open>Chain_Tree\<close>: the tree is the one the contracts
    describe, and the interpretation of \<open>walker\<close>. \<open>Chain_Laws\<close>: composing is the straight-line program
    \<open>spec_compose\<close>. \<open>Chain_Resume\<close>: a composition that failed resumes at its stage. \<open>Chain_Rollback\<close>: a launch
    that failed takes down what it started. \<open>Chain_Operate\<close>: an operation is its verb. \<open>Chain_Compare\<close>: the
    comparison decides the way, and a network that is kept is untouched. \<open>Chain_Demo\<close>: these on a concrete
    network. The machine takes at most 1000 messages in one \<open>Send\<close>, a composition takes two for each phase of a
    launch and at most 36 more, so the theorems ask for at most 400 phases; a launch plan has one phase per producer and one more for the endpoints at most.

  \<^item> \<open>Node_Vocab\<close> (\<open>role.go\<close>, \<open>label.go\<close>, \<open>scope.go\<close>), \<open>Node_Topology\<close> (\<open>topology.go\<close>),
    \<open>Node_Placement\<close> (\<open>node.go\<close>, \<open>reservation.go\<close>, \<open>placement.go\<close>), \<open>Node_Peering\<close> and \<open>Node_Graph\<close>
    (\<open>peering.go\<close>, \<open>enode.go\<close>): names read back, a valid topology is usable, the reverse lookup is exact,
    peer lists are symmetric, a declared graph is accepted exactly when its producers are connected (the
    breadth-first search is proved against reachability).

  \<^item> \<open>Resource_Ports\<close> (\<open>ports.go\<close>, \<open>pool.go\<close>), \<open>Resource_Inventory\<close> (\<open>inventory.go\<close>, \<open>pool.go\<close>),
    \<open>Resource_Laws\<close>, \<open>Resource_Assign\<close>: planned ports are in range and never collide in a valid pool;
    \<open>Take\<close> and \<open>Assign\<close> are all or nothing and hand out free slots once; adopting what was recorded gives
    back the inventory. The table of holders is the locale \<open>slot_table\<close>.

  \<^item> \<open>Wbft_Rlp\<close> and \<open>Wbft_Extra\<close> (\<open>extradata.go\<close>, \<open>extradata_decode.go\<close>, \<open>committed_seal.go\<close>): RLP on
    bytes with 64-bit lengths, the round trip of the genesis extra-data, and the quorum behind an accepted
    committed header. The fuel of the list decoder is the length of its input, proved to be enough.

  \<^item> \<open>Node_Monitor\<close> and \<open>Monitor_Laws\<close> (\<open>nodemonitor\<close>): the verdict is the documented policy; the gate
    returns within a bound, is honest and restrained. \<open>Net_Health\<close> and \<open>Health_Laws\<close> (\<open>core/health\<close>):
    production, agreement and participation are reported exactly. \<open>Process_Owner\<close> (\<open>ownership.go\<close>,
    \<open>driver.go\<close>) and \<open>Hard_Fork\<close> (\<open>hardfork.go\<close>): a process is taken for a node's only on full evidence,
    and a binary swap relaunches the saved launches and signals only such processes.

  \<^item> \<open>Run_Ledger\<close> (\<open>core/process\<close>: \<open>ledger.go\<close>, \<open>launch_record.go\<close>): the processes under their labels, with
    revisions that only grow and a file that reads back. \<open>Bring_Up\<close> (\<open>poa.go\<close>, \<open>wbft.go\<close>, \<open>phases.go\<close>,
    \<open>core/node/record.go\<close>): the phases of a bring-up as the locale \<open>bring_up\<close>, interpreted for both families, and
    the one boot node. \<open>Launch_Phase\<close> and \<open>Launch_Laws\<close> (\<open>phases.go\<close>, \<open>occupancy.go\<close>, \<open>workspace.go\<close>,
    \<open>nodeconfig/netid.go\<close>): starting a phase against the ledger; no start is lost, every node is started once,
    table and ledger stay in step, and what happens to a node with a name of its own. \<open>Launch_Demo\<close>: these on a
    concrete network.

  \<^item> \<open>Key_Preset\<close> (\<open>preset/key.go\<close>), \<open>Poa_Config\<close> (\<open>wemixconfig.go\<close>, \<open>genesis_source.go\<close>), \<open>Poa_Members\<close>
    (\<open>validators.go\<close>), \<open>Poa_Bootstrap\<close> and \<open>Poa_Laws\<close> (\<open>executor.go\<close>, \<open>bootstrap_exec.go\<close>, \<open>info.go\<close>,
    \<open>core/wait\<close>): the governance config validates, the members of the contract are read back within a bound,
    every bring-up action returns, and one that succeeds has seen what it is for. The waits are \<open>go_loop\<close>s
    that interpret \<open>loop_invariant\<close> and \<open>ranked_loop\<close>.

  \<^bold>\<open>Not modelled.\<close> The command line, web and MCP surfaces and the use cases behind them are glue over
  files, HTTP and processes. The work inside the stages of the chain set-up (key storage, genesis assembly
  from JSON, node configuration files, shipping of inputs, the checks of a machine before a launch), the remote
  drivers and the session store are mostly input and output; they are parameters of the composition machine.
  Of the poa family, \<open>PrepareTemplate\<close>, the run of the chain's own genesis generator and \<open>WaitEtcdCluster\<close> are left
  out. Nodes are
  stopped one after the other in the model and concurrently in the code, which sorts the results.
  Of Unicode, \<open>strings.ToLower\<close> is modelled on ASCII. Next along the plan: the resolution of composition
  files (\<open>core/blueprint\<close>), the reuse plan of a composition (\<open>reuse.go\<close>), the assertions and the interpreter
  of the test language (\<open>dsl\<close>).
\<close>

end
